(* ===== verification/Prelude.thy ===== *)
theory Prelude
  imports Main "HOL-Library.Word"
begin

text \<open>
  Shared vocabulary of the development: the machine integers of the C and C++ sources,
  byte arrays and their values as little- and big-endian numbers, and the generic list and
  word lemmas that the component theories rest on.

  A \<open>uint8_t\<close> is an 8-bit word, \<open>uint32_t\<close> a 32-bit word and \<open>uint64_t\<close> or \<open>size_t\<close> a
  64-bit word; \<open>std::array\<close>, \<open>std::vector\<close>, \<open>std::span\<close> and raw buffers of bytes are lists,
  with the fixed length of an array stated where it matters.
\<close>

unbundle bit_operations_syntax

type_synonym byte = "8 word"
type_synonym u32 = "32 word"
type_synonym u64 = "64 word"
type_synonym bytes = "8 word list"

named_theorems layout \<open>sizes of the packed structs and of their encodings\<close>
named_theorems le_simps \<open>rules for the numeric value of byte lists\<close>

section \<open>Byte lists as numbers\<close>

text \<open>The value of a byte list read with the least significant byte first (\<open>le_nat\<close>) and
  with the most significant byte first (\<open>be_nat\<close>).\<close>

fun le_nat :: "bytes \<Rightarrow> nat" where
  "le_nat [] = 0"
| "le_nat (b # bs) = unat b + 256 * le_nat bs"

definition be_nat :: "bytes \<Rightarrow> nat" where
  "be_nat bs = le_nat (rev bs)"

text \<open>The \<open>n\<close> low bytes of a number, least significant first.\<close>

fun nat_le :: "nat \<Rightarrow> nat \<Rightarrow> bytes" where
  "nat_le 0 v = []"
| "nat_le (Suc n) v = of_nat v # nat_le n (v div 256)"

lemma unat_byte_less: "unat (b :: byte) < 256"
  using unsigned_less [of b, where ?'a = nat] by simp

lemma le_nat_append [le_simps]:
  "le_nat (xs @ ys) = le_nat xs + 256 ^ length xs * le_nat ys"
  by (induction xs) (simp_all add: algebra_simps)

lemma le_nat_less: "le_nat xs < 256 ^ length xs"
proof (induction xs)
  case (Cons x xs)
  have "unat x + 256 * le_nat xs < 256 + 256 * le_nat xs" by (simp add: unat_byte_less)
  also have "\<dots> \<le> 256 * 256 ^ length xs" using Cons by simp
  finally show ?case by simp
qed simp

lemma le_nat_less_exp: "length xs \<le> n \<Longrightarrow> le_nat xs < 256 ^ n"
  using le_nat_less [of xs] power_increasing [of "length xs" n "256 :: nat"]
  by (meson less_le_trans one_le_numeral)

lemma le_nat_replicate_0 [le_simps, simp]: "le_nat (replicate n 0) = 0"
  by (induction n) simp_all

lemma length_nat_le [simp]: "length (nat_le n v) = n"
  by (induction n arbitrary: v) simp_all

lemma le_nat_nat_le: "le_nat (nat_le n v) = v mod 256 ^ n"
proof (induction n arbitrary: v)
  case (Suc n)
  have "le_nat (nat_le (Suc n) v) = v mod 256 + 256 * ((v div 256) mod 256 ^ n)"
    by (simp add: Suc unat_of_nat)
  also have "\<dots> = v mod (256 * 256 ^ n)" by (simp add: mod_mult2_eq)
  finally show ?case by simp
qed simp

lemma le_nat_inject: "length xs = length ys \<Longrightarrow> le_nat xs = le_nat ys \<longleftrightarrow> xs = ys"
proof (induction xs ys rule: list_induct2)
  case (Cons x xs y ys)
  show ?case
  proof
    assume eq: "le_nat (x # xs) = le_nat (y # ys)"
    then have "(unat x + 256 * le_nat xs) mod 256 = (unat y + 256 * le_nat ys) mod 256"
      by simp
    then have "unat x = unat y" by (simp add: unat_byte_less)
    with eq Cons show "x # xs = y # ys" by (simp add: word_unat_eq_iff)
  qed simp
qed simp

lemma nat_le_le_nat: "nat_le (length xs) (le_nat xs) = xs"
  by (rule le_nat_inject [THEN iffD1]) (simp_all add: le_nat_nat_le le_nat_less)

lemma nat_le_append: "nat_le (m + n) v = nat_le m v @ nat_le n (v div 256 ^ m)"
  by (induction m arbitrary: v) (simp_all add: div_mult2_eq)

lemma le_nat_take_drop: "le_nat xs = le_nat (take n xs) + 256 ^ min n (length xs) * le_nat (drop n xs)"
  using le_nat_append [of "take n xs" "drop n xs"] by (simp add: min.commute)

lemma le_nat_take: "n \<le> length xs \<Longrightarrow> le_nat (take n xs) = le_nat xs mod 256 ^ n"
  using le_nat_take_drop [of xs n] le_nat_less [of "take n xs"] by (simp add: min.absorb2)

lemma le_nat_drop: "n \<le> length xs \<Longrightarrow> le_nat (drop n xs) = le_nat xs div 256 ^ n"
  using le_nat_take_drop [of xs n] le_nat_less [of "take n xs"] by (simp add: min.absorb2)

lemma nth_eq_le_nat: "i < length xs \<Longrightarrow> unat (xs ! i) = le_nat xs div 256 ^ i mod 256"
proof -
  assume i: "i < length xs"
  then have "le_nat xs div 256 ^ i = le_nat (xs ! i # drop (Suc i) xs)"
    by (simp add: le_nat_drop [symmetric] Cons_nth_drop_Suc)
  then show ?thesis by (simp add: unat_byte_less)
qed

section \<open>Lists\<close>

lemma take_drop_append [simp]: "take n (drop m xs) @ drop (m + n) xs = drop m xs"
  by (metis append_take_drop_id drop_drop add.commute)

text \<open>Split a list into pieces of \<open>n\<close> elements; a shorter rest is dropped.\<close>

function chunks :: "nat \<Rightarrow> 'a list \<Rightarrow> 'a list list" where
  "chunks n xs = (if n = 0 \<or> length xs < n then [] else take n xs # chunks n (drop n xs))"
  by pat_completeness auto
termination
  by (relation "measure (\<lambda>(n, xs). length xs)") auto

declare chunks.simps [simp del]

lemma chunks_short [simp]: "length xs < n \<Longrightarrow> chunks n xs = []"
  by (subst chunks.simps) simp

lemma chunks_Nil [simp]: "chunks n [] = []"
  by (subst chunks.simps) auto

lemma chunks_append_block:
  "length xs = n \<Longrightarrow> 0 < n \<Longrightarrow> chunks n (xs @ ys) = xs # chunks n ys"
  by (subst chunks.simps) simp

lemma chunks_append:
  assumes "0 < n" "n dvd length xs"
  shows "chunks n (xs @ ys) = chunks n xs @ chunks n ys"
  using assms
proof (induction n xs rule: chunks.induct)
  case (1 n xs)
  show ?case
  proof (cases "xs = []")
    case False
    with 1 have len: "n \<le> length xs" by (simp add: dvd_imp_le)
    have "n dvd length (drop n xs)" using 1 len by (simp add: dvd_diff_nat)
    then have IH: "chunks n (drop n xs @ ys) = chunks n (drop n xs) @ chunks n ys"
      using 1 len False by simp
    have "chunks n (xs @ ys) = take n xs # chunks n (drop n xs @ ys)"
      using 1 len by (subst chunks.simps) simp
    also have "\<dots> = chunks n xs @ chunks n ys"
      using 1 len False IH by (simp add: chunks.simps [of n xs])
    finally show ?thesis .
  qed simp
qed

lemma length_chunks_elem: "b \<in> set (chunks n xs) \<Longrightarrow> length b = n"
  by (induction n xs rule: chunks.induct) (subst (asm) (2) chunks.simps, auto split: if_splits)

lemma length_chunks: "length (chunks n xs) = (if n = 0 then 0 else length xs div n)"
proof (induction n xs rule: chunks.induct)
  case (1 n xs)
  show ?case
  proof (cases "n = 0 \<or> length xs < n")
    case True
    then show ?thesis by (subst chunks.simps) auto
  next
    case False
    with 1 show ?thesis by (subst chunks.simps) (simp add: div_if)
  qed
qed

lemma concat_chunks: "0 < n \<Longrightarrow> n dvd length xs \<Longrightarrow> concat (chunks n xs) = xs"
proof (induction n xs rule: chunks.induct)
  case (1 n xs)
  show ?case
  proof (cases "length xs < n")
    case True
    with 1 have "xs = []" by (metis dvd_imp_le length_greater_0_conv not_le)
    then show ?thesis by simp
  next
    case False
    then have "n dvd length (drop n xs)" using 1 by (simp add: dvd_diff_nat)
    with 1 False show ?thesis by (subst chunks.simps) simp
  qed
qed

lemma chunks_conv_map:
  "0 < n \<Longrightarrow> chunks n xs = map (\<lambda>i. take n (drop (n * i) xs)) [0..<length xs div n]"
proof (induction n xs rule: chunks.induct)
  case (1 n xs)
  show ?case
  proof (cases "length xs < n")
    case False
    with 1 have "chunks n xs = take n xs # map (\<lambda>i. take n (drop (n * i) (drop n xs))) [0..<(length xs - n) div n]"
      by (subst chunks.simps) simp
    also have "\<dots> = map (\<lambda>i. take n (drop (n * i) xs)) (0 # map Suc [0..<(length xs - n) div n])"
      by (simp add: add.commute)
    also have "0 # map Suc [0..<(length xs - n) div n] = [0..<length xs div n]"
      using False 1 by (simp add: map_Suc_upt upt_conv_Cons div_if)
    finally show ?thesis .
  qed simp
qed

section \<open>Words\<close>

lemma unat_byte_less_exp: "8 \<le> n \<Longrightarrow> unat (b :: byte) < 2 ^ n"
  using power_increasing [of 8 n "2 :: nat"] by (intro less_le_trans [OF unat_byte_less]) simp

lemma unat_ucast_byte [simp]: "unat (ucast (b :: byte) :: 32 word) = unat b"
  "unat (ucast (b :: byte) :: 64 word) = unat b"
  by (simp_all only: unsigned_ucast_eq)
    (rule take_bit_nat_eq_self, rule unat_byte_less_exp, simp)+

lemma unat_u64_less [simp]: "unat (w :: u64) < 2 ^ 64"
  using unsigned_less [of w, where ?'a = nat] by simp

lemma unat_u32_less [simp]: "unat (w :: u32) < 2 ^ 32"
  using unsigned_less [of w, where ?'a = nat] by simp

lemma not_bit_above: "unat (w :: 'a :: len word) < 2 ^ k \<Longrightarrow> k \<le> n \<Longrightarrow> \<not> bit w n"
proof -
  assume w: "unat w < 2 ^ k" and n: "k \<le> n"
  have "take_bit k (unat w) = unat w" using w by (simp add: take_bit_nat_eq_self)
  then have "take_bit k w = w"
    by (metis unsigned_take_bit_eq word_unat_eq_iff)
  with n show ?thesis by (metis bit_take_bit_iff not_le)
qed

text \<open>Joining a low part and a shifted high part with a bitwise or is an addition.\<close>

lemma unat_or_push_bit:
  fixes w v :: "'a :: len word"
  assumes w: "unat w < 2 ^ k" and v: "2 ^ k * unat v + unat w < 2 ^ LENGTH('a)"
  shows "unat (w OR push_bit k v) = unat w + 2 ^ k * unat v"
proof -
  have "w AND push_bit k v = 0"
    by (rule bit_eqI) (auto simp: bit_and_iff bit_push_bit_iff not_bit_above [OF w])
  then have or: "w OR push_bit k v = w + push_bit k v"
    using word_plus_and_or [of w "push_bit k v"] by simp
  have pv: "unat (push_bit k v) = 2 ^ k * unat v"
    using v by (subst unsigned_push_bit_eq) (simp add: push_bit_nat_def take_bit_nat_eq_self mult.commute)
  show ?thesis
    using v unfolding or by (simp add: unat_add_lem [THEN iffD1] pv)
qed

text \<open>Reading a word from memory and writing it back, on a little-endian machine.\<close>

definition load_le :: "bytes \<Rightarrow> 'a :: len word" where
  "load_le bs = of_nat (le_nat bs)"

definition store_le :: "nat \<Rightarrow> 'a :: len word \<Rightarrow> bytes" where
  "store_le n w = nat_le n (unat w)"

lemma length_store_le [simp]: "length (store_le n w) = n"
  by (simp add: store_le_def)

lemma load_store_le: "LENGTH('a) \<le> 8 * n \<Longrightarrow> load_le (store_le n (w :: 'a :: len word)) = w"
proof -
  assume n: "LENGTH('a) \<le> 8 * n"
  have "unat w < 2 ^ LENGTH('a)" by simp
  also have "(2 :: nat) ^ LENGTH('a) \<le> 2 ^ (8 * n)" using n by (rule power_increasing) simp
  also have "(2 :: nat) ^ (8 * n) = 256 ^ n" by (simp add: power_mult)
  finally show ?thesis by (simp add: load_le_def store_le_def le_nat_nat_le)
qed

lemma unat_load_le:
  "8 * length bs \<le> LENGTH('a) \<Longrightarrow> unat (load_le bs :: 'a :: len word) = le_nat bs"
proof -
  assume n: "8 * length bs \<le> LENGTH('a)"
  have "le_nat bs < 256 ^ length bs" by (rule le_nat_less)
  also have "(256 :: nat) ^ length bs = 2 ^ (8 * length bs)" by (simp add: power_mult)
  also have "\<dots> \<le> 2 ^ LENGTH('a)" using n by (rule power_increasing) simp
  finally show ?thesis by (simp add: load_le_def unat_of_nat)
qed

lemma store_load_le:
  "length bs = n \<Longrightarrow> 8 * n \<le> LENGTH('a) \<Longrightarrow> store_le n (load_le bs :: 'a :: len word) = bs"
  using nat_le_le_nat [of bs] by (simp add: store_le_def unat_load_le)

text \<open>The low byte of a word and single-bit tests as arithmetic.\<close>

lemma unat_drop_bit: "unat (drop_bit n w) = unat w div 2 ^ n"
  by (simp add: unat_drop_bit_eq drop_bit_eq_div [of n "unat w"])

lemma unat_and_FF: "8 < LENGTH('a) \<Longrightarrow> unat (w AND 0xFF :: 'a :: len word) = unat w mod 256"
proof -
  have "(w AND 0xFF) = take_bit 8 w" by (simp only: take_bit_eq_mask mask_eq_exp_minus_1) simp
  then show ?thesis by (simp add: unsigned_take_bit_eq take_bit_nat_def)
qed

lemma unat_ucast_to_byte: "unat (ucast (w :: 'a :: len word) :: byte) = unat w mod 256"
  by (simp add: unsigned_ucast_eq take_bit_nat_def)

lemmas low_byte = unat_and_FF unat_ucast_to_byte unat_drop_bit

lemma and_exp_nonzero_iff:
  "n < LENGTH('a) \<Longrightarrow> (w :: 'a :: len word) AND 2 ^ n \<noteq> 0 \<longleftrightarrow> odd (unat w div 2 ^ n)"
proof -
  assume n: "n < LENGTH('a)"
  have "bit w n \<longleftrightarrow> bit (unat w) n" using n by (simp add: bit_unsigned_iff)
  then show ?thesis by (simp add: and_exp_eq_0_iff_not_bit bit_iff_odd [of "unat w"])
qed

lemma sum_lessThan_3: "(\<Sum>i<(3::nat). f i) = f 0 + f 1 + f 2"
  by (simp add: eval_nat_numeral)

lemma nat_le_3: "nat_le 3 v = [of_nat v, of_nat (v div 256), of_nat (v div 65536)]"
  by (simp add: numeral_3_eq_3 div_mult2_eq [symmetric])

lemma div_pow_Suc: "a div b ^ Suc k = a div b ^ k div (b :: nat)"
  by (simp add: div_mult2_eq [symmetric] mult.commute)

section \<open>Buffers\<close>

text \<open>\<open>memcpy(&dst[off], src, len)\<close> on an array of bytes.\<close>

definition memcpy_at :: "'a list \<Rightarrow> nat \<Rightarrow> 'a list \<Rightarrow> 'a list" where
  "memcpy_at dst off src = take off dst @ src @ drop (off + length src) dst"

lemma memcpy_at_replace:
  "length A = off \<Longrightarrow> length old = length new \<Longrightarrow> memcpy_at (A @ old @ C) off new = A @ new @ C"
  by (simp add: memcpy_at_def)

lemma length_memcpy_at: "off + length src \<le> length dst \<Longrightarrow> length (memcpy_at dst off src) = length dst"
  by (simp add: memcpy_at_def)

text \<open>Bits of a byte list read as a number, and of the words loaded from and stored to memory.\<close>

lemma bit_le_nat: "bit (le_nat bs) n \<longleftrightarrow> n div 8 < length bs \<and> bit (bs ! (n div 8)) (n mod 8)"
proof (induction bs arbitrary: n)
  case (Cons b bs)
  have b: "unat b < 2 ^ 8" using unat_byte_less [of b] by simp
  show ?case
  proof (cases "n < 8")
    case True
    have "take_bit 8 (unat b + 256 * le_nat bs) = unat b" using b by (simp add: take_bit_nat_def)
    then have "bit (unat b + 256 * le_nat bs) n \<longleftrightarrow> bit (unat b) n" using True by (metis bit_take_bit_iff)
    then show ?thesis using True by (simp add: bit_unsigned_iff)
  next
    case False
    then obtain m where n: "n = m + 8" by (metis add.commute le_Suc_ex not_less)
    have "drop_bit 8 (unat b + 256 * le_nat bs) = le_nat bs" using b by (simp add: drop_bit_nat_def)
    then have "bit (unat b + 256 * le_nat bs) n \<longleftrightarrow> bit (le_nat bs) m" unfolding n by (metis add.commute bit_drop_bit_eq comp_apply)
    moreover have "(m + 8) div 8 = Suc (m div 8)" "(m + 8) mod 8 = m mod 8" by simp_all
    ultimately show ?thesis by (simp add: Cons n)
  qed
qed simp

lemma bit_load_le:
  "bit (load_le bs :: 'a :: len word) n \<longleftrightarrow> n < LENGTH('a) \<and> n div 8 < length bs \<and> bit (bs ! (n div 8)) (n mod 8)"
  by (simp add: load_le_def bit_of_nat_iff possible_bit_word bit_le_nat)

lemma nth_nat_le: "i < n \<Longrightarrow> nat_le n v ! i = of_nat (v div 256 ^ i)"
proof (induction n arbitrary: v i)
  case (Suc n)
  then show ?case by (cases i) (simp_all add: div_mult2_eq [symmetric])
qed simp

lemma nth_store_le: "i < n \<Longrightarrow> store_le n (w :: 'a :: len word) ! i = ucast (drop_bit (8 * i) w)"
proof -
  assume "i < n"
  then have "store_le n w ! i = of_nat (unat w div 2 ^ (8 * i))"
    by (simp add: store_le_def nth_nat_le power_mult)
  also have "\<dots> = of_nat (unat (drop_bit (8 * i) w))" by (simp add: unat_drop_bit)
  finally show ?thesis by (simp add: unsigned_word_eqI)
qed

end
