(* ===== verification/Difficulty.thy ===== *)
theory Difficulty
  imports Prelude
begin

text \<open>
  The difficulty arithmetic of \<open>dispatcher/src/hash_util/difficulty.cpp\<close> and the class
  \<open>DifficultyTarget\<close> of \<open>difficulty.h\<close>: the compact four-byte representation of a 256-bit
  target, its expansion to 32 bytes, the lossy conversion back, and the long division of a
  target by the pool difficulty.
\<close>

section \<open>Expanding the compact representation\<close>

text \<open>The mantissa bytes \<open>c ! 0 .. c ! 2\<close> are written at the index \<open>exponent - 3\<close> on, where
  they fall inside the 32-byte array.\<close>

definition writeMantissaByte :: "bytes \<Rightarrow> int \<Rightarrow> nat \<Rightarrow> bytes \<Rightarrow> bytes" where
  "writeMantissaByte compactRep start_index i fullRep =
     (let target_idx = start_index + int i in
      if 0 \<le> target_idx \<and> target_idx < 32 then fullRep[nat target_idx := compactRep ! i] else fullRep)"

definition calculateFullRepFromCompactRep :: "bytes \<Rightarrow> bytes" where
  "calculateFullRepFromCompactRep compactRep =
     (let start_index = uint (compactRep ! 3) - 3
      in fold (writeMantissaByte compactRep start_index) [0..<3] (replicate 32 0))"

section \<open>The compact representation of a target\<close>

text \<open>The loop \<open>for (i = 31; i >= 0; --i)\<close> that looks for the most significant non-zero byte:
  the result is its index plus one, or 0.\<close>

fun findExponent :: "bytes \<Rightarrow> nat \<Rightarrow> nat" where
  "findExponent fullRep 0 = 0"
| "findExponent fullRep (Suc i) = (if fullRep ! i \<noteq> 0 then Suc i else findExponent fullRep i)"

definition mantissa3 :: "bytes \<Rightarrow> nat \<Rightarrow> u32" where
  "mantissa3 fullRep k =
     (ucast (fullRep ! k) OR push_bit 8 (ucast (fullRep ! (k + 1)))) OR push_bit 16 (ucast (fullRep ! (k + 2)))"

definition calculateCompactRepFromFullRep :: "bytes \<Rightarrow> bytes" where
  "calculateCompactRepFromFullRep fullRep =
     (let exponent0 = findExponent fullRep 32;
          (mantissa1, exponent1) =
            (if exponent0 \<le> 3 then (mantissa3 fullRep 0, 3) else (mantissa3 fullRep (exponent0 - 3), exponent0));
          (mantissa, exponent) =
            (if mantissa1 AND 0x00800000 \<noteq> 0 then (drop_bit 8 mantissa1, exponent1 + 1) else (mantissa1, exponent1))
      in [ucast (mantissa AND 0xFF), ucast (drop_bit 8 mantissa AND 0xFF),
          ucast (drop_bit 16 mantissa AND 0xFF), of_nat exponent])"

section \<open>Long division\<close>

text \<open>One 64-bit word of the target, assembled byte by byte.\<close>

definition targetWord :: "bytes \<Rightarrow> nat \<Rightarrow> u64" where
  "targetWord baseTarget i =
     fold (\<lambda>j w. w OR push_bit (8 * j) (ucast (baseTarget ! (i * 8 + j)))) [0..<8] 0"

text \<open>One step of the division: 128-bit intermediate arithmetic, as in the code for GCC and
  Clang. The state is the remainder and the result words.\<close>

definition divideStep :: "u64 list \<Rightarrow> u64 \<Rightarrow> nat \<Rightarrow> u64 \<times> u64 list \<Rightarrow> u64 \<times> u64 list" where
  "divideStep words difficulty i st =
     (case st of (remainder, resultWords) \<Rightarrow>
        let current = (push_bit 64 (ucast remainder) OR ucast (words ! i) :: 128 word)
        in (ucast (current mod ucast difficulty),
            resultWords[i := ucast (current div ucast difficulty)]))"

definition divideTarget :: "bytes \<Rightarrow> u64 \<Rightarrow> bytes" where
  "divideTarget baseTarget difficulty =
     (if difficulty \<le> 1 then baseTarget
      else let words = map (targetWord baseTarget) [0..<4];
               (remainder, resultWords) =
                 fold (divideStep words difficulty) [3, 2, 1, 0] (0, replicate 4 0)
           in concat (map (\<lambda>i. map (\<lambda>j. ucast (drop_bit (8 * j) (resultWords ! i) AND 0xFF)) [0..<8]) [0..<4]))"

section \<open>The class DifficultyTarget\<close>

record DifficultyTarget =
  m_compactRep :: bytes
  m_fullRep :: bytes

definition DifficultyTarget_fromCompact :: "bytes \<Rightarrow> DifficultyTarget" where
  "DifficultyTarget_fromCompact compactRep =
     \<lparr>m_compactRep = compactRep, m_fullRep = calculateFullRepFromCompactRep compactRep\<rparr>"

definition DifficultyTarget_fromFull :: "bytes \<Rightarrow> DifficultyTarget" where
  "DifficultyTarget_fromFull fullRep =
     \<lparr>m_compactRep = calculateCompactRepFromFullRep fullRep, m_fullRep = fullRep\<rparr>"

definition DifficultyTarget_div :: "DifficultyTarget \<Rightarrow> u64 \<Rightarrow> DifficultyTarget" where
  "DifficultyTarget_div t divisor =
     (let full = divideTarget (m_fullRep t) divisor
      in \<lparr>m_compactRep = calculateCompactRepFromFullRep full, m_fullRep = full\<rparr>)"

text \<open>What the class keeps: the arrays have their sizes and the expanded compact form never
  exceeds the exact target.\<close>

definition difficulty_inv :: "DifficultyTarget \<Rightarrow> bool" where
  "difficulty_inv t \<longleftrightarrow> length (m_compactRep t) = 4 \<and> length (m_fullRep t) = 32 \<and>
     le_nat (calculateFullRepFromCompactRep (m_compactRep t)) \<le> le_nat (m_fullRep t)"

section \<open>Values of the expanded form\<close>

lemma length_writeMantissaByte [simp]: "length (writeMantissaByte c s i f) = length f"
  by (simp add: writeMantissaByte_def Let_def)

lemma length_fullRep [simp]: "length (calculateFullRepFromCompactRep c) = 32"
  by (simp add: calculateFullRepFromCompactRep_def Let_def upt_rec numeral_eq_Suc)

lemma le_nat_update:
  "i < length xs \<Longrightarrow> le_nat (xs[i := b]) + 256 ^ i * unat (xs ! i) = le_nat xs + 256 ^ i * unat b"
proof -
  assume i: "i < length xs"
  have "le_nat (xs[i := b]) = le_nat (take i xs @ b # drop (Suc i) xs)"
    using i by (simp add: upd_conv_take_nth_drop)
  moreover have "le_nat xs = le_nat (take i xs @ xs ! i # drop (Suc i) xs)"
    using i by (simp add: id_take_nth_drop [symmetric])
  ultimately show ?thesis using i by (simp add: le_simps algebra_simps min.absorb2)
qed

definition mantissaValue :: "bytes \<Rightarrow> nat" where
  "mantissaValue c = le_nat (take 3 c)"

lemma fullRep_expand:
  "calculateFullRepFromCompactRep c =
     (let s = uint (c ! 3) - 3
      in writeMantissaByte c s 2 (writeMantissaByte c s 1 (writeMantissaByte c s 0 (replicate 32 0))))"
  by (simp add: calculateFullRepFromCompactRep_def upt_rec numeral_eq_Suc)

text \<open>Writing the byte \<open>i\<close> adds its share of the value, if its place lies in the array and is
  still zero.\<close>

lemma writeMantissaByte_value:
  assumes "length f = 32" and "\<And>k. int k = s + int i \<Longrightarrow> k < 32 \<Longrightarrow> f ! k = 0"
  shows "le_nat (writeMantissaByte c s i f) = le_nat f +
     (if 0 \<le> s + int i \<and> s + int i < 32 then 256 ^ nat (s + int i) * unat (c ! i) else 0)"
  using assms le_nat_update [of "nat (s + int i)" f "c ! i"]
  by (auto simp: writeMantissaByte_def Let_def)

lemma writeMantissaByte_nth:
  "length f = 32 \<Longrightarrow> int k \<noteq> s + int i \<Longrightarrow> writeMantissaByte c s i f ! k = f ! k"
  by (auto simp: writeMantissaByte_def Let_def nth_list_update)

lemma fullRep_value:
  "le_nat (calculateFullRepFromCompactRep c) =
     (\<Sum>i<3. let k = uint (c ! 3) - 3 + int i in if 0 \<le> k \<and> k < 32 then 256 ^ nat k * unat (c ! i) else 0)"
proof -
  let ?s = "uint (c ! 3) - 3"
  let ?f0 = "replicate 32 0 :: bytes"
  let ?f1 = "writeMantissaByte c ?s 0 ?f0"
  let ?f2 = "writeMantissaByte c ?s 1 ?f1"
  let ?g = "\<lambda>i. if 0 \<le> ?s + int i \<and> ?s + int i < 32 then 256 ^ nat (?s + int i) * unat (c ! i) else 0"
  have 1: "le_nat ?f1 = le_nat ?f0 + ?g 0"
    by (rule writeMantissaByte_value) simp_all
  have 2: "le_nat ?f2 = le_nat ?f1 + ?g 1"
    by (rule writeMantissaByte_value) (simp_all add: writeMantissaByte_nth)
  have 3: "le_nat (writeMantissaByte c ?s 2 ?f2) = le_nat ?f2 + ?g 2"
    by (rule writeMantissaByte_value) (simp_all add: writeMantissaByte_nth)
  from 1 2 3 show ?thesis
    by (simp add: fullRep_expand Let_def sum_lessThan_3)
qed

lemma mantissaValue_bytes:
  "length c = 4 \<Longrightarrow> mantissaValue c = unat (c ! 0) + 256 * unat (c ! 1) + 65536 * unat (c ! 2)"
proof -
  assume "length c = 4"
  then obtain a b d e where "c = [a, b, d, e]"
    by (auto simp: numeral_eq_Suc length_Suc_conv)
  then show ?thesis by (simp add: mantissaValue_def)
qed

lemma fullRep_number:
  assumes "length c = 4"
  shows "le_nat (calculateFullRepFromCompactRep c) =
    (if unat (c ! 3) < 3 then mantissaValue c div 256 ^ (3 - unat (c ! 3))
     else (mantissaValue c * 256 ^ (unat (c ! 3) - 3)) mod 256 ^ 32)"
proof (cases "unat (c ! 3) < 3")
  case True
  have b: "unat (c ! 0) < 256" "unat (c ! 1) < 256" "unat (c ! 2) < 256"
    by (simp_all add: unat_byte_less)
  from True consider "unat (c ! 3) = 0" | "unat (c ! 3) = 1" | "unat (c ! 3) = 2" by linarith
  then show ?thesis
    using b by cases (simp_all add: fullRep_value uint_nat sum_lessThan_3 Let_def
        mantissaValue_bytes [OF assms])
next
  case False
  define k where "k = unat (c ! 3) - 3"
  have e: "uint (c ! 3) - 3 = int k" 
    using False unfolding k_def uint_nat by linarith
  let ?m = "mantissaValue c"
  have m: "?m < 256 ^ 3"
    using le_nat_less_exp [of "take 3 c" 3] by (simp add: mantissaValue_def)
  have v: "le_nat (calculateFullRepFromCompactRep c) =
      (if k < 32 then 256 ^ k * unat (c ! 0) else 0) +
      (if k < 31 then 256 ^ (k + 1) * unat (c ! 1) else 0) +
      (if k < 30 then 256 ^ (k + 2) * unat (c ! 2) else 0)"
    by (simp add: fullRep_value e Let_def sum_lessThan_3 nat_add_distrib)
  consider "k < 30" | "k = 30" | "k = 31" | "32 \<le> k" by linarith
  then have "le_nat (calculateFullRepFromCompactRep c) = (?m * 256 ^ k) mod 256 ^ 32"
  proof cases
    case 1
    have "?m * 256 ^ k < 256 ^ 3 * 256 ^ k" using m by simp
    also have "\<dots> \<le> 256 ^ 32"
      using 1 power_increasing [of "3 + k" 32 "256 :: nat"] by (simp only: power_add)
    finally have "?m * 256 ^ k mod 256 ^ 32 = ?m * 256 ^ k" by (rule mod_less)
    with 1 v show ?thesis by (simp add: mantissaValue_bytes [OF assms] algebra_simps power_add)
  next
    case 2
    have "?m * 256 ^ k mod 256 ^ 32 = (?m mod 256 ^ 2) * 256 ^ 30"
      using 2 mult_mod_right [of "256 ^ 30" ?m "256 ^ 2"] by (simp add: mult.commute)
    moreover have "?m mod 256 ^ 2 = unat (c ! 0) + 256 * unat (c ! 1)"
    proof -
      have "unat (c ! 0) + 256 * unat (c ! 1) < 65536"
        using unat_byte_less [of "c ! 0"] unat_byte_less [of "c ! 1"] by linarith
      then show ?thesis by (simp add: mantissaValue_bytes [OF assms])
    qed
    moreover have "(unat (c ! 0) + 256 * unat (c ! 1)) * X = X * unat (c ! 0) + X * 256 * unat (c ! 1)"
      for X by (simp add: algebra_simps)
    ultimately show ?thesis using 2 unfolding v by (simp only: power_add power_one_right) simp
  next
    case 3
    have "?m * 256 ^ k mod 256 ^ 32 = (?m mod 256) * 256 ^ 31"
      using 3 mult_mod_right [of "256 ^ 31" ?m "256"] by (simp add: mult.commute)
    moreover have "?m = unat (c ! 0) + 256 * (unat (c ! 1) + 256 * unat (c ! 2))"
      by (simp add: mantissaValue_bytes [OF assms])
    then have "?m mod 256 = unat (c ! 0)" by (simp only: mod_mult_self2 mod_less unat_byte_less)
    ultimately show ?thesis using 3 v by simp
  next
    case 4
    then have "?m * 256 ^ k mod 256 ^ 32 = 0"
      by (metis dvd_imp_mod_0 dvd_mult le_imp_power_dvd)
    then show ?thesis using 4 v by simp
  qed
  with False show ?thesis by (simp add: k_def)
qed

text \<open>The 32-byte expansion of a compact target is the number mantissa * 256^(exponent - 3):
  exact whenever the mantissa fits into the 256 bits, and the mantissa shifted right by whole
  bytes when the exponent is below 3.\<close>

lemma calculateFullRepFromCompactRep_value:
  assumes "length c = 4"
  shows "le_nat (calculateFullRepFromCompactRep c) =
    (if unat (c ! 3) < 3 then mantissaValue c div 256 ^ (3 - unat (c ! 3))
     else (mantissaValue c * 256 ^ (unat (c ! 3) - 3)) mod 256 ^ 32)"
  using assms by (rule fullRep_number)

text \<open>The pool's base target, the compact form 0x1f00ffff of \<open>dispatcher.cpp\<close>.\<close>

lemma calculateFullRepFromCompactRep_value_witness:
  "length [0xff, 0xff, 0x00, 0x1f :: byte] = 4 \<and>
   le_nat (calculateFullRepFromCompactRep [0xff, 0xff, 0x00, 0x1f]) = 0xffff * 256 ^ 28"
  using calculateFullRepFromCompactRep_value [of "[0xff, 0xff, 0x00, 0x1f]"]
  by (simp add: mantissaValue_def)

section \<open>Values of the compact form\<close>

lemma findExponent_le: "findExponent f n \<le> n"
  by (induction n) auto

lemma findExponent_zero: "findExponent f n \<le> i \<Longrightarrow> i < n \<Longrightarrow> f ! i = 0"
proof (induction n)
  case (Suc n)
  then show ?case
    by (cases "f ! n \<noteq> 0") (auto simp: less_Suc_eq)
qed simp

lemma findExponent_nonzero: "0 < findExponent f n \<Longrightarrow> f ! (findExponent f n - 1) \<noteq> 0"
  by (induction n) auto

lemma findExponent_upper:
  assumes "length f = n"
  shows "le_nat f < 256 ^ findExponent f n"
proof -
  let ?e = "findExponent f n"
  have "drop ?e f = replicate (n - ?e) 0"
    using assms findExponent_zero [of f n] by (auto intro!: nth_equalityI)
  moreover have "le_nat f = le_nat (take ?e f) + 256 ^ ?e * le_nat (drop ?e f)"
    using assms findExponent_le [of f n] le_nat_take_drop [of f ?e] by (simp add: min.absorb1)
  ultimately show ?thesis
    using le_nat_less_exp [of "take ?e f" ?e] by simp
qed

lemma findExponent_lower:
  assumes "length f = n" "0 < findExponent f n"
  shows "256 ^ (findExponent f n - 1) \<le> le_nat f"
proof -
  let ?e = "findExponent f n - 1"
  have e: "?e < n" using findExponent_le [of f n] assms by linarith
  have "0 < unat (f ! ?e)" using findExponent_nonzero [OF assms(2)] by (simp add: unat_gt_0)
  then have "0 < le_nat f div 256 ^ ?e mod 256" using e assms nth_eq_le_nat [of ?e f] by simp
  then have "0 < le_nat f div 256 ^ ?e" by (metis mod_0 neq0_conv)
  then show ?thesis by (simp add: div_greater_zero_iff)
qed

lemma mantissa3_value:
  assumes "k + 3 \<le> length f"
  shows "unat (mantissa3 f k) = le_nat f div 256 ^ k mod 256 ^ 3"
proof -
  let ?a = "f ! k" and ?b = "f ! (k + 1)" and ?c = "f ! (k + 2)"
  let ?A = "ucast ?a :: u32" and ?B = "ucast ?b :: u32" and ?C = "ucast ?c :: u32"
  have lt: "unat ?a < 256" "unat ?b < 256" "unat ?c < 256" by (simp_all add: unat_byte_less)
  have 1: "unat (?A OR push_bit 8 ?B) = unat ?a + 256 * unat ?b"
    using lt unat_or_push_bit [of ?A 8 ?B] by simp
  have 2: "unat ((?A OR push_bit 8 ?B) OR push_bit 16 ?C) = unat ?a + 256 * unat ?b + 65536 * unat ?c"
    using lt 1 unat_or_push_bit [of "?A OR push_bit 8 ?B" 16 ?C] by simp
  have "take 3 (drop k f) = [?a, ?b, ?c]"
    using assms by (simp add: numeral_eq_Suc take_Suc_conv_app_nth nth_append)
  then have "unat ?a + 256 * unat ?b + 65536 * unat ?c = le_nat (take 3 (drop k f))" by simp
  also have "\<dots> = le_nat f div 256 ^ k mod 256 ^ 3"
    using assms by (simp add: le_nat_take le_nat_drop)
  finally show ?thesis using 2 by (simp add: mantissa3_def)
qed

text \<open>The exponent the conversion ends with, after the adjustment for the sign bit.\<close>

definition compactExponent :: "bytes \<Rightarrow> nat" where
  "compactExponent f =
     (let e = max 3 (findExponent f 32)
      in if 2 ^ 23 \<le> le_nat f div 256 ^ (e - 3) then e + 1 else e)"

lemma sign_bit_iff:
  assumes "unat (w :: u32) < 2 ^ 24"
  shows "w AND 0x00800000 \<noteq> 0 \<longleftrightarrow> 2 ^ 23 \<le> unat w"
proof -
  have "w AND 0x00800000 \<noteq> 0 \<longleftrightarrow> odd (unat w div 2 ^ 23)"
    using and_exp_nonzero_iff [of 23 w] by simp
  moreover have "unat w div 2 ^ 23 < 2" using assms by (simp add: less_mult_imp_div_less)
  ultimately show ?thesis
    using div_greater_zero_iff [of "unat w" "2 ^ 23"] by (auto simp: less_2_cases_iff)
qed

lemma compactRep_unfold:
  "calculateCompactRepFromFullRep f =
     (let e = max 3 (findExponent f 32); m1 = mantissa3 f (e - 3);
          (m, e') = (if m1 AND 0x00800000 \<noteq> 0 then (drop_bit 8 m1, e + 1) else (m1, e))
      in [ucast (m AND 0xFF), ucast (drop_bit 8 m AND 0xFF), ucast (drop_bit 16 m AND 0xFF), of_nat e'])"
  by (cases "findExponent f 32 \<le> 3")
    (simp_all add: calculateCompactRepFromFullRep_def max_def Let_def)

lemma compactRep_explicit:
  assumes "length f = 32"
  shows "calculateCompactRepFromFullRep f =
    (let e = compactExponent f
     in nat_le 3 (le_nat f div 256 ^ (e - 3)) @ [of_nat e])" (is ?eq)
    and "le_nat f div 256 ^ (compactExponent f - 3) < 2 ^ 23"
proof -
  define e where "e = max 3 (findExponent f 32)"
  define m1 where "m1 = mantissa3 f (e - 3)"
  let ?e = e and ?m = m1
  have e: "3 \<le> e" "e \<le> 32" using findExponent_le [of f 32] by (auto simp: e_def)
  have up: "le_nat f < 256 ^ ?e"
    using findExponent_upper [OF assms] power_increasing [of "findExponent f 32" ?e "256 :: nat"]
    unfolding e_def by (meson less_le_trans max.cobounded2 one_le_numeral)
  have "le_nat f div 256 ^ (?e - 3) < 256 ^ 3"
    using up e by (intro less_mult_imp_div_less) (simp only: power_add [symmetric], simp)
  then have m: "unat ?m = le_nat f div 256 ^ (?e - 3)" and m24: "unat ?m < 2 ^ 24"
    using mantissa3_value [of "?e - 3" f] assms e by (simp_all add: m1_def)
  have bytes: "[ucast (w AND 0xFF), ucast (drop_bit 8 w AND 0xFF), ucast (drop_bit 16 w AND 0xFF)]
      = nat_le 3 (unat w)" for w :: u32
    by (simp add: nat_le_3 word_unat_eq_iff unat_of_nat low_byte)
  have exp: "compactExponent f = (if 2 ^ 23 \<le> unat m1 then e + 1 else e)"
    by (simp add: compactExponent_def e_def m [unfolded e_def] Let_def)
  note unfold = compactRep_unfold [of f, folded e_def, unfolded Let_def, folded m1_def]
  show ?eq
  proof (cases "2 ^ 23 \<le> unat ?m")
    case True
    have "?e + 1 - 3 = Suc (?e - 3)" using e by simp
    then have "unat (drop_bit 8 ?m) = le_nat f div 256 ^ (?e + 1 - 3)"
      by (simp only: unat_drop_bit m div_pow_Suc) simp
    with True bytes [of "drop_bit 8 ?m"] sign_bit_iff [OF m24] show ?thesis
      by (simp only: unfold exp Let_def) simp
  next
    case False
    with bytes [of ?m] sign_bit_iff [OF m24] show ?thesis
      by (simp only: unfold exp Let_def) (simp add: m)
  qed
  show "le_nat f div 256 ^ (compactExponent f - 3) < 2 ^ 23"
  proof (cases "2 ^ 23 \<le> unat m1")
    case True
    have "?e + 1 - 3 = Suc (?e - 3)" using e by simp
    then have "le_nat f div 256 ^ (?e + 1 - 3) = le_nat f div 256 ^ (?e - 3) div 256"
      by (simp only: div_pow_Suc)
    also have "\<dots> < 2 ^ 16" using m24 unfolding m by (simp add: less_mult_imp_div_less)
    finally show ?thesis using True by (simp add: exp)
  qed (simp add: exp m)
qed

lemma length_compactRep [simp]: "length (calculateCompactRepFromFullRep f) = 4"
  by (simp add: calculateCompactRepFromFullRep_def Let_def split: prod.splits)

lemma compactExponent_le: "3 \<le> compactExponent f" "compactExponent f \<le> 33"
  using findExponent_le [of f 32] by (auto simp: compactExponent_def Let_def)

text \<open>The expansion of the compact form cuts the target off below the mantissa.\<close>

lemma compact_roundtrip_value:
  assumes "length f = 32"
  shows "le_nat (calculateFullRepFromCompactRep (calculateCompactRepFromFullRep f)) =
     le_nat f div 256 ^ (compactExponent f - 3) * 256 ^ (compactExponent f - 3)"
proof -
  let ?e = "compactExponent f" and ?c = "calculateCompactRepFromFullRep f"
  let ?m = "le_nat f div 256 ^ (?e - 3)"
  have c: "?c = nat_le 3 ?m @ [of_nat ?e]"
    using compactRep_explicit(1) [OF assms] by (simp add: Let_def)
  have e: "unat (?c ! 3) = ?e"
    using compactExponent_le [of f] by (simp add: c nth_append unat_of_nat)
  have m: "mantissaValue ?c = ?m"
    using compactRep_explicit(2) [OF assms] by (simp add: mantissaValue_def c le_nat_nat_le)
  have "?m * 256 ^ (?e - 3) \<le> le_nat f" by simp
  also have "\<dots> < 256 ^ 32" using assms le_nat_less [of f] by simp
  finally show ?thesis
    using compactExponent_le [of f] by (simp add: fullRep_number e m)
qed

lemma compact_precision:
  assumes "length f = 32" and "0 < le_nat f"
  shows "le_nat f mod 256 ^ (compactExponent f - 3) * 2 ^ 15 < le_nat f"
proof -
  let ?E = "findExponent f 32" and ?k = "compactExponent f - 3"
  let ?e = "max 3 ?E"
  have "le_nat f mod 256 ^ ?k * 2 ^ 15 < 256 ^ ?k * 2 ^ 15" by simp
  moreover have "256 ^ ?k * 2 ^ 15 \<le> le_nat f \<or> ?k = 0"
  proof (cases "2 ^ 23 \<le> le_nat f div 256 ^ (?e - 3)")
    case True
    then have "2 ^ 23 * 256 ^ (?e - 3) \<le> le_nat f" by (simp add: less_eq_div_iff_mult_less_eq)
    moreover have "?k = Suc (?e - 3)" using True by (simp add: compactExponent_def Let_def)
    ultimately show ?thesis by (simp add: mult.commute)
  next
    case False
    then have k: "?k = ?e - 3" by (simp add: compactExponent_def Let_def)
    show ?thesis
    proof (cases "?E \<le> 3")
      case False
      then have "?k + 2 = ?E - 1" using k by simp
      then have "256 ^ ?k * 256 ^ 2 = (256 :: nat) ^ (?E - 1)" by (metis power_add)
      moreover have "256 ^ (?E - 1) \<le> le_nat f"
        using False by (intro findExponent_lower [OF assms(1)]) simp
      ultimately show ?thesis by simp
    qed (simp add: k)
  qed
  ultimately show ?thesis using assms(2) by (metis less_le_trans mod_by_1 mult_0 power_0)
qed

text \<open>C35: the compact form is a lower approximation of the target that never sets the sign bit of
  the mantissa, and it loses less than one part in 2^15: a share that meets the compact target
  sent to the miners always meets the exact target.\<close>

theorem calculateCompactRepFromFullRep_approx:
  assumes "length f = 32" and "0 < le_nat f"
  defines "r \<equiv> le_nat (calculateFullRepFromCompactRep (calculateCompactRepFromFullRep f))"
  shows "r \<le> le_nat f \<and> (le_nat f - r) * 2 ^ 15 < le_nat f
     \<and> unat (calculateCompactRepFromFullRep f ! 2) < 128"
proof -
  let ?e = "compactExponent f"
  let ?k = "?e - 3"
  have r: "r = le_nat f div 256 ^ ?k * 256 ^ ?k"
    unfolding r_def by (rule compact_roundtrip_value [OF assms(1)])
  then have diff: "le_nat f - r = le_nat f mod 256 ^ ?k"
    by (simp add: minus_div_mult_eq_mod)
  have "le_nat f mod 256 ^ ?k * 2 ^ 15 < le_nat f"
    by (rule compact_precision [OF assms(1,2)])
  moreover have "unat (calculateCompactRepFromFullRep f ! 2) < 128"
    using compactRep_explicit [OF assms(1)]
    by (simp add: Let_def nth_append nat_le_3 unat_of_nat less_mult_imp_div_less)
  ultimately show ?thesis using diff r by simp
qed

theorem calculateCompactRepFromFullRep_approx_witness:
  "length (replicate 31 0 @ [0xAB :: byte]) = 32 \<and> 0 < le_nat (replicate 31 0 @ [0xAB]) \<and>
   (let r = le_nat (calculateFullRepFromCompactRep (calculateCompactRepFromFullRep (replicate 31 0 @ [0xAB])))
    in r \<le> le_nat (replicate 31 0 @ [0xAB]))"
proof -
  have h: "length (replicate 31 0 @ [0xAB :: byte]) = 32" "0 < le_nat (replicate 31 0 @ [0xAB])"
    by (simp_all add: le_simps)
  show ?thesis using h calculateCompactRepFromFullRep_approx [OF h] by (simp add: Let_def)
qed

section \<open>Correctness of the long division\<close>

lemma targetWord_value:
  assumes "length t = 32" "i < 4"
  shows "unat (targetWord t i) = le_nat (take 8 (drop (8 * i) t))"
proof -
  let ?s = "drop (8 * i) t"
  let ?f = "\<lambda>j w. w OR push_bit (8 * j) (ucast (t ! (i * 8 + j)) :: u64)"
  have "n \<le> 8 \<Longrightarrow> unat (fold ?f [0..<n] 0) = le_nat (take n ?s)" for n
  proof (induction n)
    case (Suc n)
    let ?w = "fold ?f [0..<n] 0" and ?b = "t ! (i * 8 + n)"
    have n: "n < 8" and w: "unat ?w = le_nat (take n ?s)" using Suc by simp_all
    have lt: "unat ?w < 2 ^ (8 * n)"
      using le_nat_less_exp [of "take n ?s" n] by (simp add: w power_mult)
    have "2 ^ (8 * n) * unat ?b + unat ?w < 2 ^ (8 * n) * (unat ?b + 1)"
      using lt by (simp add: algebra_simps)
    also have "\<dots> \<le> 2 ^ (8 * n) * 2 ^ 8" using unat_byte_less [of ?b] by simp
    also have "\<dots> \<le> 2 ^ 64"
      using n power_increasing [of "8 * n + 8" 64 "2 :: nat"] by (simp only: power_add)
    finally have "unat (?f n ?w) = unat ?w + 2 ^ (8 * n) * unat ?b"
      using unat_or_push_bit [OF lt, of "ucast ?b"] by simp
    moreover have "take (Suc n) ?s = take n ?s @ [?b]"
      using n assms by (simp add: take_Suc_conv_app_nth mult.commute)
    ultimately show ?case
      using n assms by (simp add: w le_simps power_mult min.absorb2)
  qed simp
  from this [of 8] show ?thesis by (simp add: targetWord_def)
qed

text \<open>One division step: quotient and remainder of the two-word dividend.\<close>

lemma divideStep_value:
  assumes "unat r < unat d" "i < length qs" "i < length ws"
  defines "cur \<equiv> 2 ^ 64 * unat r + unat (ws ! i)"
  shows "\<exists>r' q. divideStep ws d i (r, qs) = (r', qs[i := q]) \<and>
     unat r' = cur mod unat d \<and> unat q = cur div unat d"
proof -
  let ?w = "ws ! i"
  let ?c = "(push_bit 64 (ucast r) OR ucast ?w) :: 128 word"
  have uc: "unat (ucast (x :: u64) :: 128 word) = unat x" for x
    using unat_u64_less [of x] by (simp add: unsigned_ucast_eq take_bit_nat_eq_self)
  have "?c = ucast ?w OR push_bit 64 (ucast r)" by (simp add: or.commute)
  moreover have "cur < 2 ^ 64 * (unat r + 1)"
    using unat_u64_less [of ?w] by (simp add: cur_def)
  moreover have "2 ^ 64 * (unat r + 1) \<le> 2 ^ 64 * 2 ^ 64" using unat_u64_less [of r] by simp
  ultimately have c: "unat ?c = cur"
    using unat_or_push_bit [of "ucast ?w :: 128 word" 64 "ucast r"] unat_u64_less [of ?w]
    by (simp add: uc cur_def)
  have d: "0 < unat d" using assms(1) by simp
  have "cur < 2 ^ 64 * unat d"
  proof -
    have "2 ^ 64 * (unat r + 1) \<le> 2 ^ 64 * unat d" using assms(1) by simp
    then show ?thesis using unat_u64_less [of ?w] by (simp add: cur_def)
  qed
  then have q: "cur div unat d < 2 ^ 64" by (simp add: less_mult_imp_div_less)
  have m: "cur mod unat d < 2 ^ 64"
    using d unat_u64_less [of d] mod_less_divisor [of "unat d" cur] by linarith
  have dn: "unat (ucast (x :: 128 word) :: u64) = unat x" if "unat x < 2 ^ 64" for x
    using that by (simp add: unsigned_ucast_eq take_bit_nat_eq_self)
  have "unat (?c mod ucast d) = cur mod unat d" "unat (?c div ucast d) = cur div unat d"
    by (simp_all add: unat_mod unat_div c uc)
  with q m have "unat (ucast (?c mod ucast d) :: u64) = cur mod unat d"
    "unat (ucast (?c div ucast d) :: u64) = cur div unat d"
    by (simp_all add: dn)
  then show ?thesis by (auto simp: divideStep_def Let_def)
qed

lemma le_nat_store_words:
  "le_nat (concat (map (\<lambda>w. map (\<lambda>j. ucast (drop_bit (8 * j) w AND 0xFF)) [0..<8]) ws)) =
     (\<Sum>i<length ws. 2 ^ (64 * i) * unat (ws ! i :: u64))"
proof (induction ws)
  case (Cons w ws)
  let ?b = "map (\<lambda>j. ucast (drop_bit (8 * j) w AND 0xFF) :: byte) [0..<8]"
  have "?b = nat_le 8 (unat w)"
  proof (rule nth_equalityI)
    fix i assume "i < length ?b"
    then have i: "i < 8" by simp
    have "unat (nat_le 8 (unat w) ! i) = unat w div 256 ^ i mod 256"
      using i nth_eq_le_nat [of i "nat_le 8 (unat w)"] unat_u64_less [of w]
      by (simp add: le_nat_nat_le)
    also have "\<dots> = unat (?b ! i)" using i by (simp add: low_byte power_mult)
    finally show "?b ! i = nat_le 8 (unat w) ! i" by (simp add: word_unat_eq_iff)
  qed simp
  then have b: "le_nat ?b = unat w" using unat_u64_less [of w] by (simp add: le_nat_nat_le)
  have "le_nat (concat (map (\<lambda>w. map (\<lambda>j. ucast (drop_bit (8 * j) w AND 0xFF)) [0..<8]) (w # ws)))
     = unat w + 2 ^ 64 * (\<Sum>i<length ws. 2 ^ (64 * i) * unat (ws ! i))"
    using b by (simp add: le_simps Cons.IH)
  also have "\<dots> = (\<Sum>i<length (w # ws). 2 ^ (64 * i) * unat ((w # ws) ! i))"
    by (simp only: length_Cons sum.lessThan_Suc_shift) (simp add: sum_distrib_left power_add mult.assoc)
  finally show ?case .
qed simp

lemma long_division_chain:
  fixes B d :: nat
  assumes "w3 = q3 * d + r3" "B * r3 + w2 = q2 * d + r2" "B * r2 + w1 = q1 * d + r1"
    "B * r1 + w0 = q0 * d + r0"
  shows "w0 + B * (w1 + B * (w2 + B * w3)) = (q0 + B * (q1 + B * (q2 + B * q3))) * d + r0"
proof -
  have "w2 + B * w3 = (q2 + B * q3) * d + r2"
    using assms(1,2) by (simp add: algebra_simps)
  moreover have "B * (B * r2 + w1) = B * (q1 * d + r1)" using assms(3) by simp
  ultimately have "w1 + B * (w2 + B * w3) = (q1 + B * (q2 + B * q3)) * d + r1"
    using assms(3) by (simp add: algebra_simps)
  then show ?thesis using assms(4) by (simp add: algebra_simps)
qed

lemma le_nat_four_words:
  assumes "length t = 32"
  shows "le_nat t = (let w = \<lambda>i. unat (targetWord t i)
     in w 0 + 2 ^ 64 * (w 1 + 2 ^ 64 * (w 2 + 2 ^ 64 * w 3)))"
proof -
  have step: "le_nat (drop (8 * i) t) = unat (targetWord t i) + 2 ^ 64 * le_nat (drop (8 * Suc i) t)"
    if "i < 4" for i
    using le_nat_take_drop [of "drop (8 * i) t" 8] that assms
    by (simp add: targetWord_value min.absorb1 add.commute)
  from step [of 0] step [of 1] step [of 2] step [of 3] assms show ?thesis by (simp add: Let_def)
qed

lemma divideTarget_number:
  assumes "length t = 32" "1 < unat d"
  shows "length (divideTarget t d) = 32 \<and> le_nat (divideTarget t d) = le_nat t div unat d"
proof -
  let ?ws = "map (targetWord t) [0..<4]"
  let ?W = "\<lambda>i. unat (targetWord t i)"
  have d: "\<not> d \<le> 1" "0 < unat d" using assms(2) by (auto simp: word_le_nat_alt)
  have lt: "x mod unat d < unat d" for x using d by simp
  have step: "\<exists>r' q. divideStep ?ws d i (r, qs) = (r', qs[i := q]) \<and>
      unat r' = (2 ^ 64 * unat r + ?W i) mod unat d \<and> unat q = (2 ^ 64 * unat r + ?W i) div unat d"
    if "unat r < unat d" "length qs = 4" "i < 4" for i r qs
    using divideStep_value [of r d i qs ?ws] that by simp
  obtain r3 q3 where 3: "divideStep ?ws d 3 (0, replicate 4 0) = (r3, (replicate 4 0)[3 := q3])"
    "unat r3 = (2 ^ 64 * unat (0 :: u64) + ?W 3) mod unat d"
    "unat q3 = (2 ^ 64 * unat (0 :: u64) + ?W 3) div unat d"
    using step [of 0 "replicate 4 0" 3] d by auto
  obtain r2 q2 where 2: "divideStep ?ws d 2 (r3, (replicate 4 0)[3 := q3])
      = (r2, (replicate 4 0)[3 := q3, 2 := q2])"
    "unat r2 = (2 ^ 64 * unat r3 + ?W 2) mod unat d" "unat q2 = (2 ^ 64 * unat r3 + ?W 2) div unat d"
    using step [of r3 "(replicate 4 0)[3 := q3]" 2] lt unfolding 3(2) by auto
  obtain r1 q1 where 1: "divideStep ?ws d 1 (r2, (replicate 4 0)[3 := q3, 2 := q2])
      = (r1, (replicate 4 0)[3 := q3, 2 := q2, 1 := q1])"
    "unat r1 = (2 ^ 64 * unat r2 + ?W 1) mod unat d" "unat q1 = (2 ^ 64 * unat r2 + ?W 1) div unat d"
    using step [of r2 "(replicate 4 0)[3 := q3, 2 := q2]" 1] lt unfolding 2(2) by auto
  obtain r0 q0 where 0: "divideStep ?ws d 0 (r1, (replicate 4 0)[3 := q3, 2 := q2, 1 := q1])
      = (r0, (replicate 4 0)[3 := q3, 2 := q2, 1 := q1, 0 := q0])"
    "unat r0 = (2 ^ 64 * unat r1 + ?W 0) mod unat d" "unat q0 = (2 ^ 64 * unat r1 + ?W 0) div unat d"
    using step [of r1 "(replicate 4 0)[3 := q3, 2 := q2, 1 := q1]" 0] lt unfolding 1(2) by auto
  have upt: "[0..<4] = [0, 1, 2, 3 :: nat]" by (simp add: upt_rec)
  let ?out = "\<lambda>w. map (\<lambda>j. ucast (drop_bit (8 * j) w AND 0xFF) :: byte) [0..<8]"
  have words: "(replicate 4 0)[3 := q3, 2 := q2, 1 := q1, 0 := q0] = [q0, q1, q2, q3]"
    by (simp add: numeral_eq_Suc)
  have eq: "divideTarget t d = concat (map ?out [q0, q1, q2, q3])"
  proof -
    have "fold (divideStep ?ws d) [3, 2, 1, 0] (0, replicate 4 0) = (r0, [q0, q1, q2, q3])"
      by (simp only: fold_simps 3(1) 2(1) 1(1) 0(1) words)
    then show ?thesis using d by (simp only: divideTarget_def Let_def if_False prod.case) (simp add: upt)
  qed
  have "le_nat (divideTarget t d) =
      unat q0 + 2 ^ 64 * (unat q1 + 2 ^ 64 * (unat q2 + 2 ^ 64 * unat q3))"
    unfolding eq le_nat_store_words by (simp add: eval_nat_numeral(3) lessThan_Suc)
  moreover have "le_nat t = (unat q0 + 2 ^ 64 * (unat q1 + 2 ^ 64 * (unat q2 + 2 ^ 64 * unat q3)))
      * unat d + unat r0"
    unfolding le_nat_four_words [OF assms(1)] Let_def
    by (rule long_division_chain) (simp_all add: 0 1 2 3)
  moreover have "unat r0 < unat d" using 0 lt by simp
  ultimately show ?thesis using d by (simp add: eq)
qed

text \<open>C11: dividing a 256-bit target by the pool difficulty word by word, with 128-bit
  intermediate values, is exact integer division; a difficulty of 0 or 1 leaves the target
  unchanged.\<close>

theorem divideTarget_correct:
  assumes "length t = 32"
  shows "length (divideTarget t d) = 32 \<and>
    le_nat (divideTarget t d) = (if unat d \<le> 1 then le_nat t else le_nat t div unat d)"
proof (cases "unat d \<le> 1")
  case True
  then have "d \<le> 1" by (simp add: word_le_nat_alt)
  with True assms show ?thesis by (simp add: divideTarget_def)
next
  case False
  with divideTarget_number [OF assms, of d] show ?thesis by simp
qed

theorem divideTarget_correct_witness:
  "length (replicate 31 0 @ [0x40 :: byte]) = 32 \<and>
   le_nat (divideTarget (replicate 31 0 @ [0x40]) 65536) = 0x40 * 256 ^ 31 div 65536"
  using divideTarget_correct [of "replicate 31 0 @ [0x40]" 65536] by (simp add: le_simps)

section \<open>The class invariant\<close>

lemma compact_le_full:
  "length f = 32 \<Longrightarrow>
   le_nat (calculateFullRepFromCompactRep (calculateCompactRepFromFullRep f)) \<le> le_nat f"
  by (simp add: compact_roundtrip_value)

lemma length_divideTarget: "length t = 32 \<Longrightarrow> length (divideTarget t d) = 32"
  using divideTarget_number [of t d]
  by (cases "1 < unat d") (auto simp: divideTarget_def word_le_nat_alt)

lemma difficulty_inv_fromCompact:
  "length c = 4 \<Longrightarrow> difficulty_inv (DifficultyTarget_fromCompact c)"
  by (simp add: difficulty_inv_def DifficultyTarget_fromCompact_def)

lemma difficulty_inv_fromFull:
  "length f = 32 \<Longrightarrow> difficulty_inv (DifficultyTarget_fromFull f)"
  by (simp add: difficulty_inv_def DifficultyTarget_fromFull_def compact_le_full)

lemma difficulty_inv_div: "difficulty_inv t \<Longrightarrow> difficulty_inv (DifficultyTarget_div t d)"
  by (simp add: difficulty_inv_def DifficultyTarget_div_def Let_def length_divideTarget compact_le_full)

end
