(* ===== verification/Streaming.thy ===== *)
theory Streaming
  imports Prelude
begin

text \<open>
  The interface of the incremental hash functions: a context that has absorbed a message,
  an update that appends a piece to it, and a final step that returns the digest.  The laws are
  what the clients rely on; the lemmas hold for every implementation of the interface.
\<close>

locale streaming =
  fixes valid :: "'c \<Rightarrow> bytes \<Rightarrow> bool"
    and update :: "'c \<Rightarrow> bytes \<Rightarrow> 'c"
    and final :: "'c \<Rightarrow> bytes"
    and digest :: "bytes \<Rightarrow> bytes"
  assumes valid_update: "valid c m \<Longrightarrow> length x < 2 ^ 64 \<Longrightarrow> valid (update c x) (m @ x)"
    and final_digest: "valid c m \<Longrightarrow> final c = digest m"
begin

lemma valid_updates:
  "valid c m \<Longrightarrow> \<forall>x \<in> set xs. length x < 2 ^ 64 \<Longrightarrow> valid (foldl update c xs) (m @ concat xs)"
proof (induction xs arbitrary: c m)
  case (Cons x xs)
  have "valid (update c x) (m @ x)" using Cons.prems by (intro valid_update) simp_all
  from Cons.IH [OF this] Cons.prems(2) show ?case by simp
qed simp

lemma final_updates:
  "valid c m \<Longrightarrow> \<forall>x \<in> set xs. length x < 2 ^ 64 \<Longrightarrow> final (foldl update c xs) = digest (m @ concat xs)"
  by (intro final_digest valid_updates)

text \<open>Only the concatenation of the pieces matters.\<close>

lemma pieces_irrelevant:
  assumes "valid c m" "\<forall>x \<in> set xs \<union> set ys. length x < 2 ^ 64" "concat xs = concat ys"
  shows "final (foldl update c xs) = final (foldl update c ys)"
  using assms by (simp add: final_updates)

end

end
