(* ===== verification/Sha256.thy ===== *)
theory Sha256
  imports Streaming
begin

text \<open>
  The SHA-256 implementation of \<open>dispatcher/src/hash_util/scrypt.c\<close> (\<open>SHA256_Init\<close>,
  \<open>SHA256_Update\<close>, \<open>SHA256_Final\<close> and their helpers), and its correctness against the
  hash function of FIPS 180-4: the unrolled, index-rotating compression function computes the
  standard rounds, and a context fed in pieces of any sizes holds the state of the standard
  computation over the concatenated message.
\<close>

section \<open>Encoding of words\<close>

definition be32dec :: "bytes \<Rightarrow> u32" where
  "be32dec p = ucast (p ! 3) + push_bit 8 (ucast (p ! 2)) +
     push_bit 16 (ucast (p ! 1)) + push_bit 24 (ucast (p ! 0))"

definition be32enc :: "u32 \<Rightarrow> bytes" where
  "be32enc x = [ucast (drop_bit 24 x AND 0xff), ucast (drop_bit 16 x AND 0xff),
     ucast (drop_bit 8 x AND 0xff), ucast (x AND 0xff)]"

definition be32enc_vect :: "u32 list \<Rightarrow> nat \<Rightarrow> bytes" where
  "be32enc_vect src len = concat (map (\<lambda>i. be32enc (src ! i)) [0..<len div 4])"

definition be32dec_vect :: "bytes \<Rightarrow> nat \<Rightarrow> u32 list" where
  "be32dec_vect src len = map (\<lambda>i. be32dec (drop (i * 4) src)) [0..<len div 4]"

section \<open>The compression function\<close>

definition Ch :: "u32 \<Rightarrow> u32 \<Rightarrow> u32 \<Rightarrow> u32" where
  "Ch x y z = (x AND (y XOR z)) XOR z"

definition Maj :: "u32 \<Rightarrow> u32 \<Rightarrow> u32 \<Rightarrow> u32" where
  "Maj x y z = (x AND (y OR z)) OR (y AND z)"

definition SHR :: "u32 \<Rightarrow> nat \<Rightarrow> u32" where
  "SHR x n = drop_bit n x"

definition ROTR :: "u32 \<Rightarrow> nat \<Rightarrow> u32" where
  "ROTR x n = drop_bit n x OR push_bit (32 - n) x"

definition S0 :: "u32 \<Rightarrow> u32" where
  "S0 x = (ROTR x 2 XOR ROTR x 13) XOR ROTR x 22"

definition S1 :: "u32 \<Rightarrow> u32" where
  "S1 x = (ROTR x 6 XOR ROTR x 11) XOR ROTR x 25"

definition s0 :: "u32 \<Rightarrow> u32" where
  "s0 x = (ROTR x 7 XOR ROTR x 18) XOR SHR x 3"

definition s1 :: "u32 \<Rightarrow> u32" where
  "s1 x = (ROTR x 17 XOR ROTR x 19) XOR SHR x 10"

text \<open>The round constants, in the order of the 64 invocations of \<open>RNDr\<close>.\<close>

definition roundCalls :: "(nat \<times> u32) list" where
  "roundCalls =
    [(0, 0x428a2f98), (1, 0x71374491), (2, 0xb5c0fbcf), (3, 0xe9b5dba5),
     (4, 0x3956c25b), (5, 0x59f111f1), (6, 0x923f82a4), (7, 0xab1c5ed5),
     (8, 0xd807aa98), (9, 0x12835b01), (10, 0x243185be), (11, 0x550c7dc3),
     (12, 0x72be5d74), (13, 0x80deb1fe), (14, 0x9bdc06a7), (15, 0xc19bf174),
     (16, 0xe49b69c1), (17, 0xefbe4786), (18, 0x0fc19dc6), (19, 0x240ca1cc),
     (20, 0x2de92c6f), (21, 0x4a7484aa), (22, 0x5cb0a9dc), (23, 0x76f988da),
     (24, 0x983e5152), (25, 0xa831c66d), (26, 0xb00327c8), (27, 0xbf597fc7),
     (28, 0xc6e00bf3), (29, 0xd5a79147), (30, 0x06ca6351), (31, 0x14292967),
     (32, 0x27b70a85), (33, 0x2e1b2138), (34, 0x4d2c6dfc), (35, 0x53380d13),
     (36, 0x650a7354), (37, 0x766a0abb), (38, 0x81c2c92e), (39, 0x92722c85),
     (40, 0xa2bfe8a1), (41, 0xa81a664b), (42, 0xc24b8b70), (43, 0xc76c51a3),
     (44, 0xd192e819), (45, 0xd6990624), (46, 0xf40e3585), (47, 0x106aa070),
     (48, 0x19a4c116), (49, 0x1e376c08), (50, 0x2748774c), (51, 0x34b0bcb5),
     (52, 0x391c0cb3), (53, 0x4ed8aa4a), (54, 0x5b9cca4f), (55, 0x682e6ff3),
     (56, 0x748f82ee), (57, 0x78a5636f), (58, 0x84c87814), (59, 0x8cc70208),
     (60, 0x90befffa), (61, 0xa4506ceb), (62, 0xbef9a3f7), (63, 0xc67178f2)]"

definition roundConstants :: "u32 list" where
  "roundConstants = map snd roundCalls"

text \<open>The macro \<open>RND\<close> works on eight variables and returns the new values of \<open>d\<close> and \<open>h\<close>;
  \<open>RNDr\<close> chooses the variables by rotating indices into the array \<open>S\<close>.\<close>

definition RND :: "u32 \<Rightarrow> u32 \<Rightarrow> u32 \<Rightarrow> u32 \<Rightarrow> u32 \<Rightarrow> u32 \<Rightarrow> u32 \<Rightarrow> u32 \<Rightarrow> u32 \<Rightarrow> u32 \<times> u32" where
  "RND a b c d e f g h k =
     (let t0 = h + S1 e + Ch e f g + k; t1 = S0 a + Maj a b c in (d + t0, t0 + t1))"

definition RNDr :: "u32 list \<Rightarrow> nat \<times> u32 \<Rightarrow> u32 list \<Rightarrow> u32 list" where
  "RNDr W = (\<lambda>(i, k) S.
     (case RND (S ! ((64 - i) mod 8)) (S ! ((65 - i) mod 8)) (S ! ((66 - i) mod 8)) (S ! ((67 - i) mod 8))
        (S ! ((68 - i) mod 8)) (S ! ((69 - i) mod 8)) (S ! ((70 - i) mod 8)) (S ! ((71 - i) mod 8)) (W ! i + k)
      of (d, h) \<Rightarrow> S[(67 - i) mod 8 := d, (71 - i) mod 8 := h]))"

text \<open>The message schedule: the array \<open>W\<close> filled in order, 16 words from the block and 48
  computed ones.\<close>

definition messageSchedule :: "bytes \<Rightarrow> u32 list" where
  "messageSchedule block =
     fold (\<lambda>i W. W @ [s1 (W ! (i - 2)) + W ! (i - 7) + s0 (W ! (i - 15)) + W ! (i - 16)])
       [16..<64] (be32dec_vect block 64)"

definition SHA256_Transform :: "u32 list \<Rightarrow> bytes \<Rightarrow> u32 list" where
  "SHA256_Transform state block =
     (let W = messageSchedule block;
          S = fold (RNDr W) roundCalls state
      in map (\<lambda>i. state ! i + S ! i) [0..<8])"

section \<open>Contexts\<close>

record SHA256_CTX =
  ctx_state :: "u32 list"
  ctx_count :: "u32 list"
  ctx_buf :: bytes

definition PAD :: bytes where
  "PAD = 0x80 # replicate 63 0"

definition SHA256_Init :: "SHA256_CTX \<Rightarrow> SHA256_CTX" where
  "SHA256_Init ctx = ctx\<lparr>ctx_count := [0, 0],
     ctx_state := [0x6A09E667, 0xBB67AE85, 0x3C6EF372, 0xA54FF53A,
       0x510E527F, 0x9B05688C, 0x1F83D9AB, 0x5BE0CD19]\<rparr>"

text \<open>The loop over complete blocks; it returns the new state and the bytes left over.\<close>

function SHA256_blocks :: "u32 list \<Rightarrow> bytes \<Rightarrow> u32 list \<times> bytes" where
  "SHA256_blocks state src =
     (if 64 \<le> length src then SHA256_blocks (SHA256_Transform state (take 64 src)) (drop 64 src)
      else (state, src))"
  by pat_completeness auto
termination
  by (relation "measure (\<lambda>(state, src). length src)") auto

declare SHA256_blocks.simps [simp del]

text \<open>The number of bytes in the buffer, \<open>(ctx->count[1] >> 3) & 0x3f\<close>.\<close>

definition ctx_fill :: "SHA256_CTX \<Rightarrow> nat" where
  "ctx_fill ctx = unat (drop_bit 3 (ctx_count ctx ! 1) AND 0x3f)"

definition SHA256_Update :: "SHA256_CTX \<Rightarrow> bytes \<Rightarrow> SHA256_CTX" where
  "SHA256_Update ctx src =
     (let len = of_nat (length src) :: u64;
          r = ctx_fill ctx;
          bitlen1 = push_bit 3 (ucast len :: u32);
          bitlen0 = ucast (drop_bit 29 len) :: u32;
          count1 = ctx_count ctx ! 1 + bitlen1;
          count0 = (if count1 < bitlen1 then ctx_count ctx ! 0 + 1 else ctx_count ctx ! 0) + bitlen0;
          ctx1 = ctx\<lparr>ctx_count := [count0, count1]\<rparr>
      in if length src < 64 - r then ctx1\<lparr>ctx_buf := memcpy_at (ctx_buf ctx) r src\<rparr>
         else let buf = memcpy_at (ctx_buf ctx) r (take (64 - r) src);
                  (state, rest) = SHA256_blocks (SHA256_Transform (ctx_state ctx) buf) (drop (64 - r) src)
              in ctx1\<lparr>ctx_state := state, ctx_buf := memcpy_at buf 0 rest\<rparr>)"

definition SHA256_Pad :: "SHA256_CTX \<Rightarrow> SHA256_CTX" where
  "SHA256_Pad ctx =
     (let len = be32enc_vect (ctx_count ctx) 8;
          r = ctx_fill ctx;
          plen = (if r < 56 then 56 - r else 120 - r)
      in SHA256_Update (SHA256_Update ctx (take plen PAD)) len)"

text \<open>\<open>SHA256_Final\<close> returns the digest and the cleared context.\<close>

definition SHA256_Final :: "SHA256_CTX \<Rightarrow> bytes \<times> SHA256_CTX" where
  "SHA256_Final ctx =
     (be32enc_vect (ctx_state (SHA256_Pad ctx)) 32,
      \<lparr>ctx_state = replicate 8 0, ctx_count = replicate 2 0, ctx_buf = replicate 64 0\<rparr>)"

section \<open>The standard: FIPS 180-4\<close>

definition fips_Ch :: "u32 \<Rightarrow> u32 \<Rightarrow> u32 \<Rightarrow> u32" where
  "fips_Ch x y z = (x AND y) XOR (NOT x AND z)"

definition fips_Maj :: "u32 \<Rightarrow> u32 \<Rightarrow> u32 \<Rightarrow> u32" where
  "fips_Maj x y z = (x AND y) XOR (x AND z) XOR (y AND z)"

text \<open>One round on the working variables \<open>a .. h\<close>; the state rotates.\<close>

fun fips_round :: "u32 \<times> u32 \<Rightarrow> u32 list \<Rightarrow> u32 list" where
  "fips_round (w, k) [a, b, c, d, e, f, g, h] =
     (let T1 = h + S1 e + fips_Ch e f g + k + w; T2 = S0 a + fips_Maj a b c
      in [T1 + T2, a, b, c, d + T1, e, f, g])"
| "fips_round _ xs = xs"

text \<open>The schedule word \<open>W t\<close> as a recursive function of the block's words.\<close>

fun fips_W :: "u32 list \<Rightarrow> nat \<Rightarrow> u32" where
  "fips_W M t = (if t < 16 then M ! t
     else s1 (fips_W M (t - 2)) + fips_W M (t - 7) + s0 (fips_W M (t - 15)) + fips_W M (t - 16))"

declare fips_W.simps [simp del]

definition fips_compress :: "u32 list \<Rightarrow> bytes \<Rightarrow> u32 list" where
  "fips_compress H block =
     (let M = map be32dec (chunks 4 block)
      in map2 (+) H (fold fips_round (zip (map (fips_W M) [0..<64]) roundConstants) H))"

definition fips_H0 :: "u32 list" where
  "fips_H0 = [0x6A09E667, 0xBB67AE85, 0x3C6EF372, 0xA54FF53A, 0x510E527F, 0x9B05688C, 0x1F83D9AB, 0x5BE0CD19]"

definition fips_pad :: "bytes \<Rightarrow> bytes" where
  "fips_pad m = m @ 0x80 # replicate ((119 - length m mod 64) mod 64) 0 @ rev (nat_le 8 (8 * length m))"

definition sha256 :: "bytes \<Rightarrow> bytes" where
  "sha256 m = concat (map be32enc (foldl fips_compress fips_H0 (chunks 64 (fips_pad m))))"

section \<open>The compression function computes the standard rounds\<close>

lemma nat_le_4: "nat_le 4 v = [of_nat v, of_nat (v div 256), of_nat (v div 65536), of_nat (v div 16777216)]"
  using nat_le.simps(2) [of 3 v] by (simp add: nat_le_3 div_mult2_eq [symmetric])

lemma be32enc_nat: "be32enc x = rev (nat_le 4 (unat x))"
  by (simp add: nat_le_4 be32enc_def word_unat_eq_iff unat_of_nat low_byte)

lemma length_be32enc [simp]: "length (be32enc x) = 4"
  by (simp add: be32enc_def)

lemma be32dec_take: "4 \<le> n \<Longrightarrow> be32dec (take n p) = be32dec p"
  by (simp add: be32dec_def)

lemma be32dec_vect_chunks: "length b = n \<Longrightarrow> be32dec_vect b n = map be32dec (chunks 4 b)"
  by (simp add: be32dec_vect_def chunks_conv_map be32dec_take mult.commute comp_def)

lemma Ch_fips: "Ch x y z = fips_Ch x y z"
  by (rule bit_eqI) (auto simp: Ch_def fips_Ch_def bit_simps)

lemma Maj_fips: "Maj x y z = fips_Maj x y z"
  by (rule bit_eqI) (auto simp: Maj_def fips_Maj_def bit_simps)

lemma messageSchedule_fips:
  assumes "length block = 64"
  shows "messageSchedule block = map (fips_W (map be32dec (chunks 4 block))) [0..<64]"
proof -
  define M where "M = map be32dec (chunks 4 block)"
  let ?M = M
  let ?f = "\<lambda>i W. W @ [s1 (W ! (i - 2)) + W ! (i - 7) + s0 (W ! (i - 15)) + W ! (i - 16)]"
  have M: "?M = map (fips_W ?M) [0..<16]"
    using assms by (intro nth_equalityI) (simp_all add: M_def length_chunks fips_W.simps)
  have fold_W: "fold ?f [16..<n] ?M = map (fips_W ?M) [0..<n]" if "16 \<le> n" for n
    using that
  proof (induction n rule: dec_induct)
    case base
    then show ?case using M by simp
  next
    case (step n)
    have "fold ?f [16..<Suc n] M = ?f n (map (fips_W M) [0..<n])" using step by simp
    also have "\<dots> = map (fips_W M) [0..<n] @ [fips_W M n]"
      using step(1) by (subst fips_W.simps) simp
    finally show ?case by simp
  qed
  have "(16 :: nat) \<le> 64" by simp
  from fold_W [OF this] show ?thesis
    unfolding messageSchedule_def be32dec_vect_chunks [OF assms] M_def [symmetric] .
qed

text \<open>Working variable \<open>j\<close> of the standard before round \<open>i\<close>, read from the array \<open>S\<close>.\<close>

definition workingVars :: "nat \<Rightarrow> u32 list \<Rightarrow> u32 list" where
  "workingVars i S = map (\<lambda>j. S ! ((64 - i + j) mod 8)) [0..<8]"

lemma list8_cases:
  assumes "length xs = 8"
  obtains a b c d e f g h where "xs = [a, b, c, d, e, f, g, h]"
  using assms by (auto simp: numeral_eq_Suc length_Suc_conv)

lemma upt_8: "[0..<8] = [0, 1, 2, 3, 4, 5, 6, 7 :: nat]"
  by (simp add: upt_rec)

lemma length_RNDr [simp]: "length (RNDr W p S) = length S"
  by (simp add: RNDr_def split: prod.splits)

lemma fips_round_RND:
  "fips_round (w, k) [a, b, c, d, e, f, g, h] =
     (case RND a b c d e f g h (w + k) of (d', h') \<Rightarrow> [h', a, b, c, d', e, f, g])"
  by (simp add: RND_def Let_def Ch_fips Maj_fips add.assoc add.commute [of k])

lemma RNDr_round:
  assumes "length S = 8" "i < 64"
  shows "workingVars (Suc i) (RNDr W (i, k) S) = fips_round (W ! i, k) (workingVars i S)"
proof -
  obtain a b c d e f g h where S: "S = [a, b, c, d, e, f, g, h]"
    using assms(1) by (rule list8_cases)
  define n where "n = 63 - i"
  have i: "64 - i = Suc n" "65 - i = Suc n + 1" "66 - i = Suc n + 2" "67 - i = Suc n + 3" "68 - i = Suc n + 4"
    "69 - i = Suc n + 5" "70 - i = Suc n + 6" "71 - i = Suc n + 7" "64 - Suc i = n"
    using assms(2) by (simp_all add: n_def)
  define r where "r = n mod 8"
  have m: "(n + j) mod 8 = (r + j) mod 8" "(Suc n + j) mod 8 = (Suc r + j) mod 8"
    "Suc n mod 8 = Suc r mod 8" for j
    unfolding r_def by (metis mod_add_left_eq mod_Suc_eq)+
  have "r < 8" by (simp add: r_def)
  then consider "r = 0" | "r = 1" | "r = 2" | "r = 3" | "r = 4" | "r = 5" | "r = 6" | "r = 7"
    by linarith
  then show ?thesis
    unfolding RNDr_def workingVars_def i S m prod.case
    by cases (simp_all add: upt_8 fips_round_RND del: fips_round.simps split: prod.split)
qed

lemma workingVars_0 [simp]: "length S = 8 \<Longrightarrow> workingVars 0 S = S"
  "length S = 8 \<Longrightarrow> workingVars 64 S = S"
  by (auto simp: workingVars_def upt_8 elim!: list8_cases)

lemma length_roundConstants [simp]: "length roundConstants = 64"
  by (simp add: roundConstants_def roundCalls_def)

lemma roundCalls_zip: "roundCalls = zip [0..<64] roundConstants"
proof -
  have "map fst roundCalls = [0..<64]" by (simp add: roundCalls_def upt_rec)
  then show ?thesis unfolding roundConstants_def by (metis zip_map_fst_snd)
qed

lemma length_fold_RNDr [simp]: "length (fold (RNDr W) ps S) = length S"
  by (induction ps arbitrary: S) simp_all

lemma rounds_fips:
  assumes "length S = 8" "n \<le> 64" "length W = 64"
  shows "workingVars n (fold (RNDr W) (take n (zip [0..<64] roundConstants)) S) =
    fold fips_round (take n (zip W roundConstants)) S"
  using assms(2)
proof (induction n)
  case 0
  then show ?case using assms by simp
next
  case (Suc n)
  then show ?case
    using assms by (simp add: take_Suc_conv_app_nth RNDr_round)
qed

lemma length_fips_round [simp]: "length (fips_round p xs) = length xs"
  by (cases "(p, xs)" rule: fips_round.cases) (simp_all add: Let_def)

lemma length_fold_fips_round [simp]: "length (fold fips_round ps xs) = length xs"
  by (induction ps arbitrary: xs) simp_all

lemma SHA256_Transform_fips:
  assumes "length st = 8" "length block = 64"
  shows "SHA256_Transform st block = fips_compress st block"
proof -
  let ?W = "messageSchedule block"
  have len: "length ?W = 64" by (simp add: messageSchedule_fips [OF assms(2)])
  have "fold (RNDr ?W) (zip [0..<64] roundConstants) st = fold fips_round (zip ?W roundConstants) st"
    using rounds_fips [OF assms(1) order_refl len] assms(1) len by simp
  then show ?thesis
    using assms by (auto simp: SHA256_Transform_def fips_compress_def Let_def messageSchedule_fips roundCalls_zip
        intro!: nth_equalityI)
qed

lemma length_fips_compress [simp]: "length st = 8 \<Longrightarrow> length (fips_compress st block) = 8"
  by (simp add: fips_compress_def Let_def)

section \<open>Contexts hold the state of the standard computation\<close>

text \<open>The invariant of a context that has been fed the message \<open>m\<close>.\<close>

definition sha_inv :: "SHA256_CTX \<Rightarrow> bytes \<Rightarrow> bool" where
  "sha_inv ctx m \<longleftrightarrow>
     length (ctx_buf ctx) = 64 \<and>
     ctx_state ctx = foldl fips_compress fips_H0 (chunks 64 m) \<and>
     length (ctx_count ctx) = 2 \<and>
     unat (ctx_count ctx ! 0) * 2 ^ 32 + unat (ctx_count ctx ! 1) = 8 * length m mod 2 ^ 64 \<and>
     take (length m mod 64) (ctx_buf ctx) = drop (length m - length m mod 64) m"

lemma length_fips_H0 [simp]: "length fips_H0 = 8"
  by (simp add: fips_H0_def)

lemma length_foldl_fips_compress [simp]: "length st = 8 \<Longrightarrow> length (foldl fips_compress st bs) = 8"
  by (induction bs arbitrary: st) simp_all

lemma sha_inv_Init: "length (ctx_buf ctx) = 64 \<Longrightarrow> sha_inv (SHA256_Init ctx) []"
  by (simp add: sha_inv_def SHA256_Init_def fips_H0_def)

lemma SHA256_blocks_fips:
  "length st = 8 \<Longrightarrow>
   SHA256_blocks st src = (foldl fips_compress st (chunks 64 src), drop (64 * (length src div 64)) src)"
proof (induction st src rule: SHA256_blocks.induct)
  case (1 st src)
  show ?case
  proof (cases "64 \<le> length src")
    case True
    have "64 * (length src div 64) = 64 + 64 * (length (drop 64 src) div 64)"
      using True by (simp add: div_if)
    moreover have "chunks 64 src = take 64 src # chunks 64 (drop 64 src)"
      using True by (subst chunks.simps) simp
    ultimately show ?thesis
      using 1 True by (simp add: SHA256_blocks.simps [of st] SHA256_Transform_fips add.commute)
  next
    case False
    then show ?thesis by (simp add: SHA256_blocks.simps [of st])
  qed
qed

lemma ctx_fill_inv: "sha_inv ctx m \<Longrightarrow> ctx_fill ctx = length m mod 64"
proof -
  assume inv: "sha_inv ctx m"
  let ?c1 = "ctx_count ctx ! 1"
  have "unat ?c1 < 2 ^ 32" by (rule unat_u32_less)
  then have "unat ?c1 = (unat (ctx_count ctx ! 0) * 2 ^ 32 + unat ?c1) mod 2 ^ 32" by simp
  also have "\<dots> = (8 * length m) mod 2 ^ 32"
    using inv by (simp add: sha_inv_def mod_mod_cancel)
  finally have c1: "unat ?c1 = 8 * (length m mod 2 ^ 29)"
    using mult_mod_right [of 8 "length m" "2 ^ 29"] by simp
  have "(0x3f :: u32) = mask 6" by (simp add: mask_eq_exp_minus_1)
  then have "ctx_fill ctx = unat (take_bit 6 (drop_bit 3 ?c1))"
    by (simp only: ctx_fill_def take_bit_eq_mask)
  also have "\<dots> = unat ?c1 div 8 mod 64"
    by (simp add: unsigned_take_bit_eq take_bit_nat_def unat_drop_bit)
  also have "\<dots> = length m mod 64" unfolding c1 by (simp add: mod_mod_cancel)
  finally show ?thesis .
qed

lemma mod_scale: "(y :: nat) < B \<Longrightarrow> x mod B * B + y = (x * B + y) mod (B * B)"
  by (simp add: mod_mult2_eq)

text \<open>The 64-bit counter kept in two words, most significant first.\<close>

lemma count_add:
  fixes c0 c1 :: u32 and n :: nat
  assumes "n < 2 ^ 64"
  defines "b1 \<equiv> push_bit 3 (ucast (of_nat n :: u64) :: u32)"
    and "b0 \<equiv> ucast (drop_bit 29 (of_nat n :: u64)) :: u32"
  shows "unat ((if c1 + b1 < b1 then c0 + 1 else c0) + b0) * 2 ^ 32 + unat (c1 + b1) =
    (unat c0 * 2 ^ 32 + unat c1 + 8 * n) mod 2 ^ 64"
proof -
  have ub1: "unat b1 = 8 * n mod 2 ^ 32"
    using assms(1) by (simp add: b1_def unsigned_push_bit_eq unsigned_ucast_eq unat_of_nat
        take_bit_nat_def push_bit_nat_def mod_mod_cancel mult.commute mod_mult_right_eq)
  have ub0: "unat b0 = n div 2 ^ 29 mod 2 ^ 32"
    using assms(1) by (simp add: b0_def unsigned_ucast_eq unat_drop_bit unat_of_nat take_bit_nat_def)
  have n8: "8 * n = (n div 2 ^ 29) * 2 ^ 32 + unat b1"
  proof -
    define q r where qr: "q = n div 2 ^ 29" "r = n mod 2 ^ 29"
    have "8 * n mod 2 ^ 32 = 8 * r" using mult_mod_right [of 8 n "2 ^ 29"] by (simp add: qr)
    moreover have "n = 2 ^ 29 * q + r" unfolding qr by (rule mult_div_mod_eq [symmetric])
    ultimately show ?thesis unfolding ub1 qr(1) [symmetric] by simp
  qed
  let ?k = "if c1 + b1 < b1 then 1 else 0 :: nat"
  have sum: "unat c1 + unat b1 = ?k * 2 ^ 32 + unat (c1 + b1)"
  proof (cases "unat c1 + unat b1 < 2 ^ 32")
    case True
    then have "unat (c1 + b1) = unat c1 + unat b1" by (simp add: unat_word_ariths)
    then show ?thesis by (simp add: word_less_nat_alt)
  next
    case False
    have "unat c1 < 2 ^ 32" "unat b1 < 2 ^ 32" by (rule unat_u32_less)+
    then have "unat (c1 + b1) = unat c1 + unat b1 - 2 ^ 32"
      using False by (simp add: unat_word_ariths mod_if)
    then show ?thesis using False \<open>unat c1 < 2 ^ 32\<close> by (simp add: word_less_nat_alt)
  qed
  have c0: "unat ((if c1 + b1 < b1 then c0 + 1 else c0) + b0) = (unat c0 + ?k + n div 2 ^ 29) mod 2 ^ 32"
    by (simp add: unat_word_ariths ub0 mod_simps)
  have "unat (c1 + b1) < 2 ^ 32" by (rule unat_u32_less)
  then have "(unat c0 + ?k + n div 2 ^ 29) mod 2 ^ 32 * 2 ^ 32 + unat (c1 + b1) =
      ((unat c0 + ?k + n div 2 ^ 29) * 2 ^ 32 + unat (c1 + b1)) mod (2 ^ 32 * 2 ^ 32)"
    by (rule mod_scale)
  also have "(unat c0 + ?k + n div 2 ^ 29) * 2 ^ 32 + unat (c1 + b1) = unat c0 * 2 ^ 32 + unat c1 + 8 * n"
    using sum n8 by (simp add: algebra_simps)
  finally show ?thesis unfolding c0 by simp
qed

lemma count_Update:
  assumes "sha_inv ctx m" "length x < 2 ^ 64"
  defines "c \<equiv> ctx_count (SHA256_Update ctx x)"
  shows "length c = 2 \<and> unat (c ! 0) * 2 ^ 32 + unat (c ! 1) = 8 * length (m @ x) mod 2 ^ 64"
proof -
  have "unat (c ! 0) * 2 ^ 32 + unat (c ! 1) =
      (unat (ctx_count ctx ! 0) * 2 ^ 32 + unat (ctx_count ctx ! 1) + 8 * length x) mod 2 ^ 64"
    unfolding count_add [OF assms(2), symmetric] c_def SHA256_Update_def
    by (simp add: Let_def split: prod.split)
  moreover have "length c = 2"
    by (simp add: c_def SHA256_Update_def Let_def split: prod.split)
  ultimately show ?thesis
    using assms(1) by (simp add: sha_inv_def mod_add_left_eq)
qed

text \<open>Splitting a message at the last block boundary.\<close>

lemma split_blocks:
  obtains p q where "m = p @ q" "64 dvd length p" "length q = length m mod 64"
    "q = drop (length m - length m mod 64) m"
proof
  let ?k = "length m - length m mod 64"
  show "m = take ?k m @ drop ?k m" by simp
  show "64 dvd length (take ?k m)" by (simp add: dvd_minus_mod)
qed (simp_all add: mod_less_eq_dividend)

lemma rest_append:
  assumes "n dvd length p" "length q < n"
  shows "drop (length (p @ q) - length (p @ q) mod n) (p @ q) = q" "length (p @ q) mod n = length q"
proof -
  show "length (p @ q) mod n = length q" using assms by auto
  then show "drop (length (p @ q) - length (p @ q) mod n) (p @ q) = q" by simp
qed

lemma sha_inv_Update:
  assumes inv: "sha_inv ctx m" and len: "length x < 2 ^ 64"
  shows "sha_inv (SHA256_Update ctx x) (m @ x)"
proof -
  obtain p q where m: "m = p @ q" and p: "64 dvd length p" and q: "length q = length m mod 64"
    "q = drop (length m - length m mod 64) m"
    by (rule split_blocks)
  let ?r = "length q"
  have r: "?r < 64" "ctx_fill ctx = ?r" by (simp_all add: q(1) ctx_fill_inv [OF inv])
  have buf: "take ?r (ctx_buf ctx) = q" "length (ctx_buf ctx) = 64"
    using inv q by (simp_all add: sha_inv_def)
  have st: "ctx_state ctx = foldl fips_compress fips_H0 (chunks 64 p)"
    using inv r by (simp add: sha_inv_def m chunks_append [OF _ p])
  define c where "c = ctx_count (SHA256_Update ctx x)"
  note cnt = count_Update [OF inv len, folded c_def]
  show ?thesis
  proof (cases "length x < 64 - ?r")
    case True
    have upd: "SHA256_Update ctx x = ctx\<lparr>ctx_count := c, ctx_buf := memcpy_at (ctx_buf ctx) ?r x\<rparr>"
      using True by (simp add: c_def SHA256_Update_def r Let_def)
    have "take (length (q @ x)) (memcpy_at (ctx_buf ctx) ?r x) = q @ x"
      using buf by (simp add: memcpy_at_def)
    moreover have "length (memcpy_at (ctx_buf ctx) ?r x) = 64"
      using True buf by (simp add: memcpy_at_def)
    ultimately show ?thesis
      using True cnt rest_append [OF p, of "q @ x"] st
      by (simp add: upd sha_inv_def m chunks_append [OF _ p])
  next
    case False
    define B where "B = q @ take (64 - ?r) x"
    define y where "y = drop (64 - ?r) x"
    have B: "length B = 64" "q @ x = B @ y" using False r(1) by (simp_all add: B_def y_def)
    have mB: "memcpy_at (ctx_buf ctx) ?r (take (64 - ?r) x) = B"
      using False buf by (simp add: memcpy_at_def B_def)
    define z where "z = drop (64 * (length y div 64)) y"
    have z: "length z < 64" "y = take (64 * (length y div 64)) y @ z"
      by (simp_all add: z_def minus_mult_div_eq_mod)
    have blk: "64 dvd length (take (64 * (length y div 64)) y)" by (simp add: min.absorb2)
    have upd: "SHA256_Update ctx x = ctx\<lparr>ctx_count := c,
        ctx_state := foldl fips_compress (fips_compress (ctx_state ctx) B) (chunks 64 y),
        ctx_buf := memcpy_at B 0 z\<rparr>"
      using False st B(1) unfolding c_def SHA256_Update_def r mB Let_def
      by (simp add: SHA256_Transform_fips SHA256_blocks_fips y_def z_def mB r)
    have msg: "m @ x = p @ B @ y" using B(2) by (simp add: m)
    have fin: "m @ x = (p @ B @ take (64 * (length y div 64)) y) @ z" using msg z(2) by simp
    have "64 dvd length (p @ B @ take (64 * (length y div 64)) y)"
      using p B(1) blk by simp
    note rest = rest_append [OF this z(1), folded fin]
    have "foldl fips_compress (fips_compress (ctx_state ctx) B) (chunks 64 y) =
        foldl fips_compress fips_H0 (chunks 64 (m @ x))"
      unfolding msg by (simp add: chunks_append [OF _ p] chunks_append_block [OF B(1)] st)
    moreover have "take (length z) (memcpy_at B 0 z) = z" "length (memcpy_at B 0 z) = 64"
      using z(1) B(1) by (simp_all add: memcpy_at_def)
    ultimately show ?thesis
      using cnt rest by (simp add: upd sha_inv_def)
  qed
qed

section \<open>Padding and the digest\<close>

lemma take_PAD: "0 < n \<Longrightarrow> n \<le> 64 \<Longrightarrow> take n PAD = 0x80 # replicate (n - 1) 0"
  by (cases n) (simp_all add: PAD_def min.absorb1)

lemma be32enc_vect_2:
  assumes "length c = 2"
  shows "be32enc_vect c 8 = rev (nat_le 8 (unat (c ! 0) * 2 ^ 32 + unat (c ! 1)))"
proof -
  have n: "nat_le 8 v = nat_le 4 v @ nat_le 4 (v div 2 ^ 32)" for v
    using nat_le_append [of 4 4 v] by simp
  have mod: "nat_le 4 v = nat_le 4 (v mod 2 ^ 32)" for v
    by (rule le_nat_inject [THEN iffD1]) (simp_all add: le_nat_nat_le)
  have "unat (c ! 1) < 2 ^ 32" by (rule unat_u32_less)
  then have "nat_le 8 (unat (c ! 0) * 2 ^ 32 + unat (c ! 1)) = nat_le 4 (unat (c ! 1)) @ nat_le 4 (unat (c ! 0))"
    unfolding n by (subst mod) simp
  moreover have "[0..<8 div 4] = [0, 1 :: nat]" by (simp add: upt_rec)
  ultimately show ?thesis by (simp add: be32enc_vect_def be32enc_nat)
qed

lemma nat_le_mod: "nat_le n (v mod 256 ^ n) = nat_le n v"
  by (rule le_nat_inject [THEN iffD1]) (simp_all add: le_nat_nat_le)

text \<open>\<open>SHA256_Pad\<close> feeds the context exactly the padding of the standard.\<close>

lemma sha_inv_Pad:
  assumes inv: "sha_inv ctx m"
  shows "sha_inv (SHA256_Pad ctx) (fips_pad m)"
proof -
  define r where "r = length m mod 64"
  define plen where "plen = (if r < 56 then 56 - r else 120 - r)"
  have r: "r < 64" "ctx_fill ctx = r" by (simp_all add: r_def ctx_fill_inv [OF inv])
  have pl: "0 < plen" "plen \<le> 64" using r(1) by (auto simp: plen_def)
  have zeros: "plen - 1 = (119 - r) mod 64"
    using r(1) by (auto simp: plen_def mod_if)
  have len: "be32enc_vect (ctx_count ctx) 8 = rev (nat_le 8 (8 * length m))"
    using inv nat_le_mod [of 8 "8 * length m"] by (simp add: sha_inv_def be32enc_vect_2)
  have "sha_inv (SHA256_Update ctx (take plen PAD)) (m @ take plen PAD)"
    using pl by (intro sha_inv_Update [OF inv]) (simp add: PAD_def)
  then have "sha_inv (SHA256_Pad ctx) ((m @ take plen PAD) @ rev (nat_le 8 (8 * length m)))"
    unfolding SHA256_Pad_def Let_def len r(2) plen_def [symmetric] by (rule sha_inv_Update) simp
  moreover have "(m @ take plen PAD) @ rev (nat_le 8 (8 * length m)) = fips_pad m"
    unfolding fips_pad_def take_PAD [OF pl] zeros r_def [symmetric] by simp
  ultimately show ?thesis by simp
qed

lemma be32enc_vect_concat: "length st = 8 \<Longrightarrow> be32enc_vect st 32 = concat (map be32enc st)"
  by (auto simp: be32enc_vect_def upt_8 elim!: list8_cases)

lemma SHA256_Final_inv: "sha_inv ctx m \<Longrightarrow> fst (SHA256_Final ctx) = sha256 m"
  using sha_inv_Pad [of ctx m]
  by (simp add: SHA256_Final_def sha256_def sha_inv_def be32enc_vect_concat)

text \<open>The whole use of the interface: initialise, feed the pieces in order, finish.\<close>

definition SHA256_run :: "SHA256_CTX \<Rightarrow> bytes list \<Rightarrow> bytes" where
  "SHA256_run ctx pieces = fst (SHA256_Final (foldl SHA256_Update (SHA256_Init ctx) pieces))"

interpretation sha: streaming sha_inv SHA256_Update "\<lambda>ctx. fst (SHA256_Final ctx)" sha256
  by unfold_locales (simp_all add: sha_inv_Update SHA256_Final_inv)

lemma SHA256_run_sha256:
  assumes "length (ctx_buf ctx) = 64" "\<forall>x \<in> set pieces. length x < 2 ^ 64"
  shows "SHA256_run ctx pieces = sha256 (concat pieces)"
  using sha.final_updates [OF sha_inv_Init [OF assms(1)] assms(2)] by (simp add: SHA256_run_def)

lemma length_sha256 [simp]: "length (sha256 m) = 32"
proof -
  have "length (concat (map be32enc st)) = 32" if "length st = 8" for st
    using that by (auto elim!: list8_cases)
  then show ?thesis by (simp add: sha256_def)
qed

section \<open>Properties\<close>

text \<open>
  C10: feeding a context with any sequence of pieces and finishing it yields the SHA-256 digest of
  FIPS 180-4 of the concatenated pieces, whatever the context held before.
\<close>

theorem SHA256_digest_of_pieces:
  assumes "length (ctx_buf ctx) = 64" "\<forall>x \<in> set pieces. length x < 2 ^ 64"
  shows "SHA256_run ctx pieces = sha256 (concat pieces)"
  using assms by (rule SHA256_run_sha256)

theorem SHA256_digest_of_pieces_witness:
  "SHA256_run \<lparr>ctx_state = [], ctx_count = [], ctx_buf = replicate 64 0\<rparr> [[0x61, 0x62], [], [0x63]] = sha256 [0x61, 0x62, 0x63]"
  using SHA256_digest_of_pieces [of "\<lparr>ctx_state = [], ctx_count = [], ctx_buf = replicate 64 0\<rparr>" "[[0x61, 0x62], [], [0x63]]"]
  by simp

end
