(* ===== verification/Sha256_Constants.thy ===== *)
theory Sha256_Constants
  imports Sha256
begin

text \<open>
  The constants of SHA-256 in \<open>scrypt.c\<close> are the ones of FIPS 180-4, checked by recomputing
  the roots of the first primes.
\<close>

section \<open>The constants\<close>

text \<open>FIPS 180-4 takes the round constants and the initial hash value from the fractional
  parts of the cube and square roots of the first primes.\<close>

text \<open>The primes below \<open>n\<close>, for \<open>n\<close> at most \<open>18 * 18\<close>: no divisor up to the square root.\<close>

definition primes_below :: "int \<Rightarrow> int list" where
  "primes_below n = filter (\<lambda>p. list_all (\<lambda>d. p < d * d \<or> p mod d \<noteq> 0) [2..17]) [2..n - 1]"

text \<open>\<open>k\<close> is the fractional part of the \<open>e\<close>-th root of \<open>p\<close>, cut to 32 bits; the integer parts of
  the roots at hand are below 7.\<close>

definition int_root :: "nat \<Rightarrow> int \<Rightarrow> int" where
  "int_root e p = int (length (filter (\<lambda>a. a ^ e \<le> p) [1, 2, 3, 4, 5, 6]))"

definition frac_root :: "nat \<Rightarrow> int \<Rightarrow> u32 \<Rightarrow> bool" where
  "frac_root e p k \<longleftrightarrow> (let m = int_root e p * 2 ^ 32 + uint k in
     m ^ e \<le> p * 2 ^ (32 * e) \<and> p * 2 ^ (32 * e) < (m + 1) ^ e)"

lemma primes_below_20: "primes_below 20 = [2, 3, 5, 7, 11, 13, 17, 19]"
  by code_simp

lemma primes_below_312: "primes_below 312 =
  [2, 3, 5, 7, 11, 13, 17, 19, 23, 29, 31, 37, 41, 43, 47, 53, 59, 61, 67, 71, 73, 79, 83, 89, 97,
   101, 103, 107, 109, 113, 127, 131, 137, 139, 149, 151, 157, 163, 167, 173, 179, 181, 191, 193,
   197, 199, 211, 223, 227, 229, 233, 239, 241, 251, 257, 263, 269, 271, 277, 281, 283, 293, 307, 311]"
  by code_simp

lemma roots_0: "list_all2 (frac_root 3) [2, 3, 5, 7, 11, 13, 17, 19]
  [0x428a2f98, 0x71374491, 0xb5c0fbcf, 0xe9b5dba5, 0x3956c25b, 0x59f111f1, 0x923f82a4, 0xab1c5ed5]"
  unfolding list_all2_Cons by (intro conjI list.rel_intros; simp add: frac_root_def int_root_def Let_def)

lemma roots_1: "list_all2 (frac_root 3) [23, 29, 31, 37, 41, 43, 47, 53]
  [0xd807aa98, 0x12835b01, 0x243185be, 0x550c7dc3, 0x72be5d74, 0x80deb1fe, 0x9bdc06a7, 0xc19bf174]"
  unfolding list_all2_Cons by (intro conjI list.rel_intros; simp add: frac_root_def int_root_def Let_def)

lemma roots_2: "list_all2 (frac_root 3) [59, 61, 67, 71, 73, 79, 83, 89]
  [0xe49b69c1, 0xefbe4786, 0x0fc19dc6, 0x240ca1cc, 0x2de92c6f, 0x4a7484aa, 0x5cb0a9dc, 0x76f988da]"
  unfolding list_all2_Cons by (intro conjI list.rel_intros; simp add: frac_root_def int_root_def Let_def)

lemma roots_3: "list_all2 (frac_root 3) [97, 101, 103, 107, 109, 113, 127, 131]
  [0x983e5152, 0xa831c66d, 0xb00327c8, 0xbf597fc7, 0xc6e00bf3, 0xd5a79147, 0x06ca6351, 0x14292967]"
  unfolding list_all2_Cons by (intro conjI list.rel_intros; simp add: frac_root_def int_root_def Let_def)

lemma roots_4: "list_all2 (frac_root 3) [137, 139, 149, 151, 157, 163, 167, 173]
  [0x27b70a85, 0x2e1b2138, 0x4d2c6dfc, 0x53380d13, 0x650a7354, 0x766a0abb, 0x81c2c92e, 0x92722c85]"
  unfolding list_all2_Cons by (intro conjI list.rel_intros; simp add: frac_root_def int_root_def Let_def)

lemma roots_5: "list_all2 (frac_root 3) [179, 181, 191, 193, 197, 199, 211, 223]
  [0xa2bfe8a1, 0xa81a664b, 0xc24b8b70, 0xc76c51a3, 0xd192e819, 0xd6990624, 0xf40e3585, 0x106aa070]"
  unfolding list_all2_Cons by (intro conjI list.rel_intros; simp add: frac_root_def int_root_def Let_def)

lemma roots_6: "list_all2 (frac_root 3) [227, 229, 233, 239, 241, 251, 257, 263]
  [0x19a4c116, 0x1e376c08, 0x2748774c, 0x34b0bcb5, 0x391c0cb3, 0x4ed8aa4a, 0x5b9cca4f, 0x682e6ff3]"
  unfolding list_all2_Cons by (intro conjI list.rel_intros; simp add: frac_root_def int_root_def Let_def)

lemma roots_7: "list_all2 (frac_root 3) [269, 271, 277, 281, 283, 293, 307, 311]
  [0x748f82ee, 0x78a5636f, 0x84c87814, 0x8cc70208, 0x90befffa, 0xa4506ceb, 0xbef9a3f7, 0xc67178f2]"
  unfolding list_all2_Cons by (intro conjI list.rel_intros; simp add: frac_root_def int_root_def Let_def)

lemma roundConstants_roots: "list_all2 (frac_root 3) (primes_below 312) roundConstants"
  using list_all2_appendI [OF roots_0 list_all2_appendI [OF roots_1 list_all2_appendI [OF roots_2
    list_all2_appendI [OF roots_3 list_all2_appendI [OF roots_4 list_all2_appendI [OF roots_5
    list_all2_appendI [OF roots_6 roots_7]]]]]]]
  unfolding append_Cons append_Nil primes_below_312 roundConstants_def roundCalls_def list.map snd_conv .

lemma fips_H0_roots: "list_all2 (frac_root 2) (primes_below 20) fips_H0"
  unfolding primes_below_20 fips_H0_def list_all2_Cons
  by (intro conjI list.rel_intros; simp add: frac_root_def int_root_def Let_def)

text \<open>
  C40: the initial state and the 64 round constants of the code are the fractional parts of the
  square and cube roots of the first 8 and the first 64 primes.
\<close>

theorem SHA256_constants:
  "list_all2 (frac_root 2) (primes_below 20) (ctx_state (SHA256_Init ctx)) \<and>
   list_all2 (frac_root 3) (primes_below 312) roundConstants"
  using fips_H0_roots roundConstants_roots by (simp add: SHA256_Init_def fips_H0_def)

end
