(* ===== verification/Hmac_Pbkdf2.thy ===== *)
theory Hmac_Pbkdf2
  imports Sha256
begin

text \<open>
  HMAC-SHA256 and PBKDF2-HMAC-SHA256 of \<open>dispatcher/src/hash_util/scrypt.c\<close>, and their
  correctness against RFC 2104 and RFC 8018.  Local variables of the C functions that are not
  initialised are arguments here: the theorems hold for every content of them.
\<close>

section \<open>HMAC\<close>

record HMAC_SHA256_CTX =
  ictx :: SHA256_CTX
  octx :: SHA256_CTX

text \<open>\<open>memset(pad, b, 64)\<close> and the loop that mixes the key in.\<close>

definition padXorKey :: "byte \<Rightarrow> bytes \<Rightarrow> bytes" where
  "padXorKey b K = fold (\<lambda>i pad. pad[i := pad ! i XOR K ! i]) [0..<length K] (replicate 64 b)"

definition HMAC_SHA256_Init :: "HMAC_SHA256_CTX \<Rightarrow> bytes \<Rightarrow> HMAC_SHA256_CTX" where
  "HMAC_SHA256_Init ctx K =
     (let (K', ictx0) =
            (if length K > 64
             then SHA256_Final (SHA256_Update (SHA256_Init (ictx ctx)) K)
             else (K, ictx ctx))
      in ctx\<lparr>ictx := SHA256_Update (SHA256_Init ictx0) (padXorKey 0x36 K'),
             octx := SHA256_Update (SHA256_Init (octx ctx)) (padXorKey 0x5c K')\<rparr>)"

definition HMAC_SHA256_Update :: "HMAC_SHA256_CTX \<Rightarrow> bytes \<Rightarrow> HMAC_SHA256_CTX" where
  "HMAC_SHA256_Update ctx x = ctx\<lparr>ictx := SHA256_Update (ictx ctx) x\<rparr>"

definition HMAC_SHA256_Final :: "HMAC_SHA256_CTX \<Rightarrow> bytes \<times> HMAC_SHA256_CTX" where
  "HMAC_SHA256_Final ctx =
     (let (ihash, ictx1) = SHA256_Final (ictx ctx);
          (digest, octx1) = SHA256_Final (SHA256_Update (octx ctx) ihash)
      in (digest, ctx\<lparr>ictx := ictx1, octx := octx1\<rparr>))"

text \<open>RFC 2104.\<close>

definition hmac_key :: "bytes \<Rightarrow> bytes" where
  "hmac_key K = (let K' = (if length K > 64 then sha256 K else K) in K' @ replicate (64 - length K') 0)"

definition hmac_sha256 :: "bytes \<Rightarrow> bytes \<Rightarrow> bytes" where
  "hmac_sha256 K m =
     sha256 (map (\<lambda>k. k XOR 0x5c) (hmac_key K) @ sha256 (map (\<lambda>k. k XOR 0x36) (hmac_key K) @ m))"

definition hmac_ok :: "HMAC_SHA256_CTX \<Rightarrow> bool" where
  "hmac_ok ctx \<longleftrightarrow> length (ctx_buf (ictx ctx)) = 64 \<and> length (ctx_buf (octx ctx)) = 64"

definition hmac_inv :: "bytes \<Rightarrow> HMAC_SHA256_CTX \<Rightarrow> bytes \<Rightarrow> bool" where
  "hmac_inv K ctx m \<longleftrightarrow>
     sha_inv (ictx ctx) (map (\<lambda>k. k XOR 0x36) (hmac_key K) @ m) \<and>
     sha_inv (octx ctx) (map (\<lambda>k. k XOR 0x5c) (hmac_key K))"

lemma fold_xor_prefix:
  assumes "n \<le> length K" "length K \<le> length xs"
  shows "fold (\<lambda>i pad. pad[i := pad ! i XOR K ! i]) [0..<n] xs = map2 (XOR) (take n xs) (take n K) @ drop n xs"
  using assms(1)
proof (induction n)
  case (Suc n)
  let ?ys = "map2 (XOR) (take n xs) (take n K) @ drop n xs"
  have n: "n < length xs" using Suc assms by simp
  have len: "length (map2 (XOR) (take n xs) (take n K)) = n" using Suc assms by simp
  have "?ys[n := ?ys ! n XOR K ! n] = map2 (XOR) (take n xs) (take n K) @ (xs ! n XOR K ! n) # drop (Suc n) xs"
    using n len by (simp add: Cons_nth_drop_Suc [symmetric] list_update_append nth_append)
  then show ?case
    using Suc n assms by (simp add: take_Suc_conv_app_nth)
qed simp

lemma padXorKey_map:
  assumes "length K \<le> 64"
  shows "padXorKey b K = map (\<lambda>k. k XOR b) (K @ replicate (64 - length K) 0)"
  using assms unfolding padXorKey_def
  by (subst fold_xor_prefix)
    (auto intro!: nth_equalityI simp: nth_append xor.commute)

lemma length_hmac_key [simp]: "length (hmac_key K) = 64"
  by (simp add: hmac_key_def)

lemma ctx_buf_Final [simp]: "length (ctx_buf (snd (SHA256_Final ctx))) = 64"
  by (simp add: SHA256_Final_def)

lemma sha_inv_start:
  "length (ctx_buf ctx) = 64 \<Longrightarrow> length x < 2 ^ 64 \<Longrightarrow> sha_inv (SHA256_Update (SHA256_Init ctx) x) x"
  using sha.valid_update [OF sha_inv_Init, of ctx x] by simp

lemma hmac_inv_Init:
  assumes "hmac_ok ctx" "length K < 2 ^ 64"
  shows "hmac_inv K (HMAC_SHA256_Init ctx K) []"
proof -
  define K' where "K' = (if length K > 64 then sha256 K else K)"
  define ictx0 where "ictx0 = (if length K > 64
     then snd (SHA256_Final (SHA256_Update (SHA256_Init (ictx ctx)) K)) else ictx ctx)"
  have K': "length K' \<le> 64" by (simp add: K'_def)
  have buf: "length (ctx_buf ictx0) = 64" "length (ctx_buf (octx ctx)) = 64"
    "length (ctx_buf (ictx ctx)) = 64"
    using assms by (simp_all add: ictx0_def hmac_ok_def)
  have "fst (SHA256_Final (SHA256_Update (SHA256_Init (ictx ctx)) K)) = sha256 K"
    using sha_inv_start [OF buf(3) assms(2)] by (rule sha.final_digest)
  then have init: "HMAC_SHA256_Init ctx K = ctx\<lparr>ictx := SHA256_Update (SHA256_Init ictx0) (padXorKey 0x36 K'),
      octx := SHA256_Update (SHA256_Init (octx ctx)) (padXorKey 0x5c K')\<rparr>"
    by (simp add: HMAC_SHA256_Init_def K'_def ictx0_def split: prod.split) force
  have pad: "padXorKey b K' = map (\<lambda>k. k XOR b) (hmac_key K)" for b
    using K' by (simp add: padXorKey_map hmac_key_def K'_def Let_def)
  show ?thesis
    using buf by (simp add: hmac_inv_def init pad sha_inv_start)
qed

interpretation hmac: streaming "hmac_inv K" HMAC_SHA256_Update "\<lambda>ctx. fst (HMAC_SHA256_Final ctx)" "hmac_sha256 K" for K
proof
  show "hmac_inv K (HMAC_SHA256_Update c x) (m @ x)" if "hmac_inv K c m" "length x < 2 ^ 64" for c m x
    using that sha.valid_update by (fastforce simp: hmac_inv_def HMAC_SHA256_Update_def)
next
  fix c m
  assume inv: "hmac_inv K c m"
  then have i: "fst (SHA256_Final (ictx c)) = sha256 (map (\<lambda>k. k XOR 0x36) (hmac_key K) @ m)"
    using sha.final_digest by (simp add: hmac_inv_def)
  have "sha_inv (SHA256_Update (octx c) (fst (SHA256_Final (ictx c))))
      (map (\<lambda>k. k XOR 0x5c) (hmac_key K) @ fst (SHA256_Final (ictx c)))"
    using inv unfolding i by (intro sha.valid_update) (simp_all add: hmac_inv_def)
  from sha.final_digest [OF this] show "fst (HMAC_SHA256_Final c) = hmac_sha256 K m"
    by (simp add: HMAC_SHA256_Final_def hmac_sha256_def i case_prod_beta Let_def)
qed

lemma hmac_ok_Final [simp]: "hmac_ok (snd (HMAC_SHA256_Final ctx))"
  by (simp add: HMAC_SHA256_Final_def hmac_ok_def SHA256_Final_def split: prod.split)

section \<open>PBKDF2\<close>

text \<open>\<open>for (k = 0; k < 32; k++) T[k] ^= U[k]\<close>\<close>

definition xor32 :: "bytes \<Rightarrow> bytes \<Rightarrow> bytes" where
  "xor32 T U = fold (\<lambda>k T. T[k := T ! k XOR U ! k]) [0..<32] T"

text \<open>One pass of the inner loop, on the local context, \<open>U\<close> and \<open>T\<close>.\<close>

definition pbkdf2_inner :: "bytes \<Rightarrow> HMAC_SHA256_CTX \<times> bytes \<times> bytes \<Rightarrow> HMAC_SHA256_CTX \<times> bytes \<times> bytes" where
  "pbkdf2_inner passwd = (\<lambda>(hctx, U, T).
     (let hctx1 = HMAC_SHA256_Update (HMAC_SHA256_Init hctx passwd) U;
          (U', hctx2) = HMAC_SHA256_Final hctx1
      in (hctx2, U', xor32 T U')))"

text \<open>Block number \<open>i\<close>: the value of \<open>T\<close> at the end of the pass.\<close>

definition pbkdf2_block :: "bytes \<Rightarrow> HMAC_SHA256_CTX \<Rightarrow> nat \<Rightarrow> nat \<Rightarrow> bytes" where
  "pbkdf2_block passwd PShctx c i =
     (let ivec = be32enc (of_nat (i + 1));
          (U, hctx) = HMAC_SHA256_Final (HMAC_SHA256_Update PShctx ivec);
          (hctx', U', T) = fold (\<lambda>j. pbkdf2_inner passwd) [2..<c + 1] (hctx, U, U)
      in T)"

text \<open>The loop over the blocks, writing into \<open>buf\<close> from position \<open>i * 32\<close>.\<close>

function pbkdf2_loop :: "bytes \<Rightarrow> HMAC_SHA256_CTX \<Rightarrow> nat \<Rightarrow> nat \<Rightarrow> nat \<Rightarrow> bytes \<Rightarrow> bytes" where
  "pbkdf2_loop passwd PShctx c dkLen i buf =
     (if i * 32 < dkLen
      then let clen = min (dkLen - i * 32) 32
           in pbkdf2_loop passwd PShctx c dkLen (i + 1)
                (memcpy_at buf (i * 32) (take clen (pbkdf2_block passwd PShctx c i)))
      else buf)"
  by pat_completeness auto
termination
  by (relation "measure (\<lambda>(passwd, PShctx, c, dkLen, i, buf). dkLen - i * 32)") auto

declare pbkdf2_loop.simps [simp del]

definition PBKDF2_SHA256 :: "HMAC_SHA256_CTX \<Rightarrow> bytes \<Rightarrow> bytes \<Rightarrow> nat \<Rightarrow> bytes \<Rightarrow> nat \<Rightarrow> bytes" where
  "PBKDF2_SHA256 PShctx0 passwd salt c buf dkLen =
     pbkdf2_loop passwd (HMAC_SHA256_Update (HMAC_SHA256_Init PShctx0 passwd) salt) c dkLen 0 buf"

text \<open>RFC 8018, section 5.2, with HMAC-SHA256 as the pseudorandom function.\<close>

fun rfc_U :: "bytes \<Rightarrow> bytes \<Rightarrow> nat \<Rightarrow> nat \<Rightarrow> bytes" where
  "rfc_U P S i 0 = hmac_sha256 P (S @ rev (nat_le 4 i))"
| "rfc_U P S i (Suc j) = hmac_sha256 P (rfc_U P S i j)"

fun rfc_F :: "bytes \<Rightarrow> bytes \<Rightarrow> nat \<Rightarrow> nat \<Rightarrow> bytes" where
  "rfc_F P S i 0 = rfc_U P S i 0"
| "rfc_F P S i (Suc j) = map2 (XOR) (rfc_F P S i j) (rfc_U P S i (Suc j))"

text \<open>With \<open>c\<close> iterations the block is \<open>U\<^sub>1 XOR \<dots> XOR U\<^sub>c\<close>.\<close>

definition pbkdf2 :: "bytes \<Rightarrow> bytes \<Rightarrow> nat \<Rightarrow> nat \<Rightarrow> bytes" where
  "pbkdf2 P S c dkLen = take dkLen (concat (map (\<lambda>i. rfc_F P S (i + 1) (c - 1)) [0..<(dkLen + 31) div 32]))"

lemma length_hmac [simp]: "length (hmac_sha256 K m) = 32"
  by (simp add: hmac_sha256_def)

lemma length_rfc_U [simp]: "length (rfc_U P S i j) = 32"
  by (cases j) simp_all

lemma length_rfc_F [simp]: "length (rfc_F P S i j) = 32"
  by (induction j) simp_all

lemma xor32_map2: "length T = 32 \<Longrightarrow> length U = 32 \<Longrightarrow> xor32 T U = map2 (XOR) T U"
  unfolding xor32_def by (subst fold_xor_prefix) simp_all

lemma pbkdf2_inner_step:
  assumes "hmac_ok hctx" "length passwd < 2 ^ 64" "length U = 32" "length T = 32"
  obtains hctx' where "hmac_ok hctx'"
    "pbkdf2_inner passwd (hctx, U, T) = (hctx', hmac_sha256 passwd U, map2 (XOR) T (hmac_sha256 passwd U))"
proof
  let ?ctx = "HMAC_SHA256_Update (HMAC_SHA256_Init hctx passwd) U"
  have "fst (HMAC_SHA256_Final ?ctx) = hmac_sha256 passwd ([] @ U)"
    using assms by (intro hmac.final_digest hmac.valid_update hmac_inv_Init) simp_all
  then show "pbkdf2_inner passwd (hctx, U, T) =
      (snd (HMAC_SHA256_Final ?ctx), hmac_sha256 passwd U, map2 (XOR) T (hmac_sha256 passwd U))"
    using assms by (simp add: pbkdf2_inner_def case_prod_beta xor32_map2)
qed simp

lemma pbkdf2_inner_loop:
  assumes "hmac_ok hctx" "length P < 2 ^ 64"
  shows "\<exists>hctx'. hmac_ok hctx' \<and>
    fold (\<lambda>j. pbkdf2_inner P) [2..<n + 2] (hctx, rfc_U P S i 0, rfc_U P S i 0) = (hctx', rfc_U P S i n, rfc_F P S i n)"
proof (induction n)
  case 0
  then show ?case using assms by (intro exI [of _ hctx]) simp
next
  case (Suc n)
  then obtain h where h: "hmac_ok h"
    "fold (\<lambda>j. pbkdf2_inner P) [2..<n + 2] (hctx, rfc_U P S i 0, rfc_U P S i 0) = (h, rfc_U P S i n, rfc_F P S i n)"
    by blast
  obtain h' where "hmac_ok h'" "pbkdf2_inner P (h, rfc_U P S i n, rfc_F P S i n) =
      (h', rfc_U P S i (Suc n), rfc_F P S i (Suc n))"
    using pbkdf2_inner_step [OF h(1) assms(2), of "rfc_U P S i n" "rfc_F P S i n"] by auto
  then show ?case using h by (intro exI [of _ h']) (simp del: rfc_U.simps)
qed

lemma pbkdf2_block_F:
  assumes inv: "hmac_inv P ctx S" and P: "length P < 2 ^ 64" and c: "0 < c"
  shows "pbkdf2_block P ctx c i = rfc_F P S (i + 1) (c - 1)"
proof -
  have ivec: "be32enc (of_nat (i + 1)) = rev (nat_le 4 (i + 1))"
    using nat_le_mod [of 4 "i + 1"] unfolding be32enc_nat unat_of_nat by simp
  let ?fin = "HMAC_SHA256_Final (HMAC_SHA256_Update ctx (rev (nat_le 4 (i + 1))))"
  have U: "fst ?fin = rfc_U P S (i + 1) 0"
    unfolding rfc_U.simps by (intro hmac.final_digest hmac.valid_update inv) simp
  obtain h where "fold (\<lambda>j. pbkdf2_inner P) [2..<(c - 1) + 2] (snd ?fin, rfc_U P S (i + 1) 0, rfc_U P S (i + 1) 0) =
      (h, rfc_U P S (i + 1) (c - 1), rfc_F P S (i + 1) (c - 1))"
    using pbkdf2_inner_loop [OF hmac_ok_Final P] by blast
  moreover have "[2..<(c - 1) + 2] = [2..<c + 1]" using c by simp
  ultimately show ?thesis
    by (simp only: pbkdf2_block_def Let_def ivec case_prod_beta U fst_conv snd_conv)
qed

text \<open>The loop appends the blocks one after the other to the part already written.\<close>

lemma pbkdf2_loop_blocks:
  assumes B: "\<And>i. length (pbkdf2_block P ctx c i) = 32"
  shows "length buf = dkLen \<Longrightarrow>
    pbkdf2_loop P ctx c dkLen i buf =
      take dkLen (take (i * 32) buf @ concat (map (pbkdf2_block P ctx c) [i..<(dkLen + 31) div 32]))"
proof (induction "dkLen - i * 32" arbitrary: i buf rule: less_induct)
  case less
  show ?case
  proof (cases "i * 32 < dkLen")
    case False
    then have "(dkLen + 31) div 32 \<le> i" by linarith
    then show ?thesis using False less.prems by (subst pbkdf2_loop.simps) simp
  next
    case True
    let ?T = "pbkdf2_block P ctx c i"
    let ?clen = "min (dkLen - i * 32) 32"
    let ?R = "concat (map (pbkdf2_block P ctx c) [Suc i..<(dkLen + 31) div 32])"
    define buf' where "buf' = memcpy_at buf (i * 32) (take ?clen ?T)"
    have len': "length buf' = dkLen" using True less.prems B by (simp add: buf'_def memcpy_at_def)
    have "i < (dkLen + 31) div 32" using True by linarith
    then have R: "concat (map (pbkdf2_block P ctx c) [i..<(dkLen + 31) div 32]) = ?T @ ?R"
      by (simp add: upt_conv_Cons)
    have IH: "pbkdf2_loop P ctx c dkLen (i + 1) buf' = take dkLen (take ((i + 1) * 32) buf' @ ?R)"
      using less.hyps [of "i + 1" buf'] True len' by simp
    have "take dkLen (take ((i + 1) * 32) buf' @ ?R) = take dkLen (take (i * 32) buf @ ?T @ ?R)"
    proof (cases "dkLen - i * 32 < 32")
      case True
      then show ?thesis
        using \<open>i * 32 < dkLen\<close> less.prems B by (simp add: buf'_def memcpy_at_def)
    next
      case False
      then show ?thesis using less.prems B by (simp add: buf'_def memcpy_at_def)
    qed
    moreover have "pbkdf2_loop P ctx c dkLen i buf = pbkdf2_loop P ctx c dkLen (i + 1) buf'"
      using True unfolding buf'_def by (subst pbkdf2_loop.simps) (simp only: Let_def if_True)
    ultimately show ?thesis unfolding R IH by (rule trans [rotated])
  qed
qed

lemma PBKDF2_SHA256_pbkdf2:
  assumes "hmac_ok ctx" "length P < 2 ^ 64" "length S < 2 ^ 64" "0 < c" "length buf = dkLen"
  shows "PBKDF2_SHA256 ctx P S c buf dkLen = pbkdf2 P S c dkLen"
proof -
  have inv: "hmac_inv P (HMAC_SHA256_Update (HMAC_SHA256_Init ctx P) S) S"
    using hmac.valid_update [OF hmac_inv_Init [OF assms(1,2)] assms(3)] by simp
  have B: "pbkdf2_block P (HMAC_SHA256_Update (HMAC_SHA256_Init ctx P) S) c = (\<lambda>i. rfc_F P S (i + 1) (c - 1))"
    using pbkdf2_block_F [OF inv assms(2,4)] by auto
  show ?thesis
    unfolding PBKDF2_SHA256_def by (subst pbkdf2_loop_blocks) (simp_all add: B assms(5) pbkdf2_def)
qed

lemma length_pbkdf2 [simp]: "length (pbkdf2 P S c dkLen) = dkLen"
  by (simp add: pbkdf2_def length_concat comp_def sum_list_triv)

section \<open>Properties\<close>

text \<open>
  An HMAC context started with a key of any length and fed with pieces of the message finishes
  with the RFC 2104 value of the concatenated message.
\<close>

lemma HMAC_SHA256_of_pieces:
  assumes "hmac_ok ctx" "length K < 2 ^ 64" "\<forall>x \<in> set pieces. length x < 2 ^ 64"
  shows "fst (HMAC_SHA256_Final (foldl HMAC_SHA256_Update (HMAC_SHA256_Init ctx K) pieces)) = hmac_sha256 K (concat pieces)"
  using hmac.final_updates [OF hmac_inv_Init [OF assms(1,2)] assms(3)] by simp

lemma HMAC_SHA256_of_pieces_witness:
  "fst (HMAC_SHA256_Final (foldl HMAC_SHA256_Update
     (HMAC_SHA256_Init \<lparr>ictx = \<lparr>ctx_state = [], ctx_count = [], ctx_buf = replicate 64 7\<rparr>,
        octx = \<lparr>ctx_state = [], ctx_count = [], ctx_buf = replicate 64 9\<rparr>\<rparr> (replicate 100 1)) [[1], [2, 3]])) =
   hmac_sha256 (replicate 100 1) [1, 2, 3]"
  using HMAC_SHA256_of_pieces [of "\<lparr>ictx = \<lparr>ctx_state = [], ctx_count = [], ctx_buf = replicate 64 7\<rparr>,
     octx = \<lparr>ctx_state = [], ctx_count = [], ctx_buf = replicate 64 9\<rparr>\<rparr>" "replicate 100 1" "[[1], [2, 3]]"]
  by (simp add: hmac_ok_def)

text \<open>
  \<open>PBKDF2_SHA256\<close> writes exactly the key of RFC 8018 with HMAC-SHA256 into the output buffer, for
  every output length and every positive number of iterations.
\<close>

lemma PBKDF2_SHA256_standard:
  assumes "hmac_ok ctx" "length P < 2 ^ 64" "length S < 2 ^ 64" "0 < c" "length buf = dkLen"
  shows "PBKDF2_SHA256 ctx P S c buf dkLen = pbkdf2 P S c dkLen"
  using assms by (rule PBKDF2_SHA256_pbkdf2)

end
