(* ===== verification/Scrypt.thy ===== *)
theory Scrypt
  imports Hmac_Pbkdf2
begin

text \<open>
  The memory-hard part of \<open>dispatcher/src/hash_util/scrypt.c\<close> (\<open>salsa20_8\<close>, \<open>blockmix_salsa8\<close>,
  \<open>integerify\<close>, \<open>smix\<close>, \<open>scrypt_1024_1_1_256\<close>) and its correctness against RFC 7914.  The
  word arrays \<open>B\<close>, \<open>X\<close>, \<open>Y\<close>, \<open>Z\<close> and \<open>V\<close> are lists; \<open>blkcpy\<close> and \<open>blkxor\<close> move whole \<open>size_t\<close> units,
  which on word arrays of even length is the same copy and exclusive or word by word.
\<close>

section \<open>The code\<close>

definition le32dec :: "bytes \<Rightarrow> u32" where
  "le32dec p = ucast (p ! 0) + push_bit 8 (ucast (p ! 1)) +
     push_bit 16 (ucast (p ! 2)) + push_bit 24 (ucast (p ! 3))"

definition le32enc :: "u32 \<Rightarrow> bytes" where
  "le32enc x = [ucast (x AND 0xff), ucast (drop_bit 8 x AND 0xff),
     ucast (drop_bit 16 x AND 0xff), ucast (drop_bit 24 x AND 0xff)]"

text \<open>\<open>blkcpy\<close> and \<open>blkxor\<close> at a word offset of the destination; \<open>len\<close> is in bytes, as in the
  source, and \<open>sizeof(size_t)\<close> is 8.\<close>

definition blkcpy :: "u32 list \<Rightarrow> nat \<Rightarrow> u32 list \<Rightarrow> nat \<Rightarrow> u32 list" where
  "blkcpy dest off src len = memcpy_at dest off (take (2 * (len div 8)) src)"

definition blkxor :: "u32 list \<Rightarrow> u32 list \<Rightarrow> nat \<Rightarrow> u32 list" where
  "blkxor dest src len =
     (let n = 2 * (len div 8) in map2 (XOR) (take n dest) (take n src) @ drop n dest)"

text \<open>The macro \<open>R\<close>, and one assignment \<open>x[d] ^= R(x[s] + x[t], b)\<close>.\<close>

definition R :: "u32 \<Rightarrow> nat \<Rightarrow> u32" where
  "R a b = push_bit b a OR drop_bit (32 - b) a"

definition salsaAssign :: "nat \<times> nat \<times> nat \<times> nat \<Rightarrow> u32 list \<Rightarrow> u32 list" where
  "salsaAssign = (\<lambda>(d, s, t, b) x. x[d := x ! d XOR R (x ! s + x ! t) b])"

definition columnAssigns :: "(nat \<times> nat \<times> nat \<times> nat) list" where
  "columnAssigns =
    [(4, 0, 12, 7), (8, 4, 0, 9), (12, 8, 4, 13), (0, 12, 8, 18),
     (9, 5, 1, 7), (13, 9, 5, 9), (1, 13, 9, 13), (5, 1, 13, 18),
     (14, 10, 6, 7), (2, 14, 10, 9), (6, 2, 14, 13), (10, 6, 2, 18),
     (3, 15, 11, 7), (7, 3, 15, 9), (11, 7, 3, 13), (15, 11, 7, 18)]"

definition rowAssigns :: "(nat \<times> nat \<times> nat \<times> nat) list" where
  "rowAssigns =
    [(1, 0, 3, 7), (2, 1, 0, 9), (3, 2, 1, 13), (0, 3, 2, 18),
     (6, 5, 4, 7), (7, 6, 5, 9), (4, 7, 6, 13), (5, 4, 7, 18),
     (11, 10, 9, 7), (8, 11, 10, 9), (9, 8, 11, 13), (10, 9, 8, 18),
     (12, 15, 14, 7), (13, 12, 15, 9), (14, 13, 12, 13), (15, 14, 13, 18)]"

definition salsa20_8 :: "u32 list \<Rightarrow> u32 list" where
  "salsa20_8 B =
     (let x = fold (\<lambda>i x. fold salsaAssign (columnAssigns @ rowAssigns) x) [0, 2, 4, 6 :: nat] (take 16 B)
      in map2 (+) B x)"

text \<open>One pass of the loop of \<open>blockmix_salsa8\<close> on \<open>(Bout, X)\<close>, for the even index \<open>i\<close>.\<close>

definition blockmix_step :: "u32 list \<Rightarrow> nat \<Rightarrow> nat \<Rightarrow> u32 list \<times> u32 list \<Rightarrow> u32 list \<times> u32 list" where
  "blockmix_step Bin r i = (\<lambda>(Bout, X).
     (let X1 = salsa20_8 (blkxor X (drop (i * 16) Bin) 64);
          Bout1 = blkcpy Bout (i * 8) X1 64;
          X2 = salsa20_8 (blkxor X1 (drop (i * 16 + 16) Bin) 64);
          Bout2 = blkcpy Bout1 (i * 8 + r * 16) X2 64
      in (Bout2, X2)))"

definition blockmix_salsa8 :: "u32 list \<Rightarrow> u32 list \<Rightarrow> u32 list \<Rightarrow> nat \<Rightarrow> u32 list \<times> u32 list" where
  "blockmix_salsa8 Bin Bout X r =
     fold (blockmix_step Bin r) (map (\<lambda>k. 2 * k) [0..<r])
       (Bout, blkcpy X 0 (drop ((2 * r - 1) * 16) Bin) 64)"

definition integerify :: "u32 list \<Rightarrow> nat \<Rightarrow> u64" where
  "integerify B r = push_bit 32 (ucast (drop ((2 * r - 1) * 16) B ! 1)) + ucast (drop ((2 * r - 1) * 16) B ! 0)"

record smixState =
  sm_X :: "u32 list"
  sm_Y :: "u32 list"
  sm_Z :: "u32 list"
  sm_V :: "u32 list"

text \<open>A pass of the first loop of \<open>smix\<close> (two blocks stored) and of the second (two lookups).\<close>

definition smix_fill :: "nat \<Rightarrow> nat \<Rightarrow> smixState \<Rightarrow> smixState" where
  "smix_fill r i s =
     (let V1 = blkcpy (sm_V s) (i * (32 * r)) (sm_X s) (128 * r);
          (Y1, Z1) = blockmix_salsa8 (sm_X s) (sm_Y s) (sm_Z s) r;
          V2 = blkcpy V1 ((i + 1) * (32 * r)) Y1 (128 * r);
          (X1, Z2) = blockmix_salsa8 Y1 (sm_X s) Z1 r
      in \<lparr>sm_X = X1, sm_Y = Y1, sm_Z = Z2, sm_V = V2\<rparr>)"

definition smix_mix :: "nat \<Rightarrow> u64 \<Rightarrow> smixState \<Rightarrow> smixState" where
  "smix_mix r N s =
     (let j1 = unat (integerify (sm_X s) r AND (N - 1));
          X1 = blkxor (sm_X s) (drop (j1 * (32 * r)) (sm_V s)) (128 * r);
          (Y1, Z1) = blockmix_salsa8 X1 (sm_Y s) (sm_Z s) r;
          j2 = unat (integerify Y1 r AND (N - 1));
          Y2 = blkxor Y1 (drop (j2 * (32 * r)) (sm_V s)) (128 * r);
          (X2, Z2) = blockmix_salsa8 Y2 X1 Z1 r
      in \<lparr>sm_X = X2, sm_Y = Y2, sm_Z = Z2, sm_V = sm_V s\<rparr>)"

text \<open>The indices \<open>0, 2, \<dots>\<close> below \<open>N\<close> of both loops.\<close>

definition evens_below :: "nat \<Rightarrow> nat list" where
  "evens_below N = map (\<lambda>k. 2 * k) [0..<(N + 1) div 2]"

text \<open>\<open>XY\<close> holds \<open>X\<close>, \<open>Y\<close> and \<open>Z\<close> one after the other.\<close>

definition smix :: "bytes \<Rightarrow> nat \<Rightarrow> u64 \<Rightarrow> u32 list \<Rightarrow> u32 list \<Rightarrow> bytes" where
  "smix B r N V XY =
     (let s0 = \<lparr>sm_X = map (\<lambda>k. le32dec (drop (4 * k) B)) [0..<32 * r],
                sm_Y = take (32 * r) (drop (32 * r) XY), sm_Z = drop (64 * r) XY, sm_V = V\<rparr>;
          s1 = fold (smix_fill r) (evens_below (unat N)) s0;
          s2 = fold (\<lambda>i. smix_mix r N) (evens_below (unat N)) s1
      in concat (map (\<lambda>k. le32enc (sm_X s2 ! k)) [0..<32 * r]))"

text \<open>The two contexts are the uninitialised locals of the calls of \<open>PBKDF2_SHA256\<close>; \<open>B\<close>, \<open>V\<close> and
  \<open>XY\<close> are the regions of the scratchpad and \<open>output\<close> the result buffer.\<close>

definition scrypt_1024_1_1_256_sp ::
  "HMAC_SHA256_CTX \<Rightarrow> HMAC_SHA256_CTX \<Rightarrow> bytes \<Rightarrow> bytes \<Rightarrow> bytes \<Rightarrow> u32 list \<Rightarrow> u32 list \<Rightarrow> bytes" where
  "scrypt_1024_1_1_256_sp ctx1 ctx2 inp outp B V XY =
     (let B1 = PBKDF2_SHA256 ctx1 (take 80 inp) (take 80 inp) 1 B 128;
          B2 = smix B1 1 1024 V XY
      in PBKDF2_SHA256 ctx2 (take 80 inp) B2 1 outp 32)"

text \<open>\<open>scrypt_1024_1_1_256\<close> provides the scratchpad on its stack; \<open>Scratch\<close> is its content, with the
  uninitialised locals of the callees.\<close>

record Scratch =
  sp_ctx1 :: HMAC_SHA256_CTX
  sp_ctx2 :: HMAC_SHA256_CTX
  sp_B :: bytes
  sp_V :: "u32 list"
  sp_XY :: "u32 list"

definition scrypt_1024_1_1_256 :: "Scratch \<Rightarrow> bytes \<Rightarrow> bytes \<Rightarrow> bytes" where
  "scrypt_1024_1_1_256 sp inp outp = scrypt_1024_1_1_256_sp (sp_ctx1 sp) (sp_ctx2 sp) inp outp (sp_B sp) (sp_V sp) (sp_XY sp)"

definition scratch_ok :: "Scratch \<Rightarrow> bool" where
  "scratch_ok sp \<longleftrightarrow> hmac_ok (sp_ctx1 sp) \<and> hmac_ok (sp_ctx2 sp) \<and> length (sp_B sp) = 128 \<and>
     length (sp_V sp) = 32 * 1024 \<and> length (sp_XY sp) = 80"

section \<open>RFC 7914\<close>

definition rotl32 :: "u32 \<Rightarrow> nat \<Rightarrow> u32" where
  "rotl32 a b = word_rotl b a"

fun quarterround :: "u32 \<times> u32 \<times> u32 \<times> u32 \<Rightarrow> u32 \<times> u32 \<times> u32 \<times> u32" where
  "quarterround (y0, y1, y2, y3) =
     (let z1 = y1 XOR rotl32 (y0 + y3) 7;
          z2 = y2 XOR rotl32 (z1 + y0) 9;
          z3 = y3 XOR rotl32 (z2 + z1) 13;
          z0 = y0 XOR rotl32 (z3 + z2) 18
      in (z0, z1, z2, z3))"

definition rowround :: "u32 list \<Rightarrow> u32 list" where
  "rowround y =
     (let (z0, z1, z2, z3) = quarterround (y ! 0, y ! 1, y ! 2, y ! 3);
          (z5, z6, z7, z4) = quarterround (y ! 5, y ! 6, y ! 7, y ! 4);
          (z10, z11, z8, z9) = quarterround (y ! 10, y ! 11, y ! 8, y ! 9);
          (z15, z12, z13, z14) = quarterround (y ! 15, y ! 12, y ! 13, y ! 14)
      in [z0, z1, z2, z3, z4, z5, z6, z7, z8, z9, z10, z11, z12, z13, z14, z15])"

definition columnround :: "u32 list \<Rightarrow> u32 list" where
  "columnround x =
     (let (y0, y4, y8, y12) = quarterround (x ! 0, x ! 4, x ! 8, x ! 12);
          (y5, y9, y13, y1) = quarterround (x ! 5, x ! 9, x ! 13, x ! 1);
          (y10, y14, y2, y6) = quarterround (x ! 10, x ! 14, x ! 2, x ! 6);
          (y15, y3, y7, y11) = quarterround (x ! 15, x ! 3, x ! 7, x ! 11)
      in [y0, y1, y2, y3, y4, y5, y6, y7, y8, y9, y10, y11, y12, y13, y14, y15])"

definition salsa20_8_core :: "u32 list \<Rightarrow> u32 list" where
  "salsa20_8_core B = map2 (+) B (((\<lambda>x. rowround (columnround x)) ^^ 4) B)"

text \<open>\<open>scryptBlockMix\<close> on a list of 64-byte blocks: the chain of \<open>Y\<close> blocks, even ones first.\<close>

fun mixChain :: "u32 list \<Rightarrow> u32 list list \<Rightarrow> u32 list list" where
  "mixChain X [] = []"
| "mixChain X (B # Bs) = (let T = salsa20_8_core (map2 (XOR) X B) in T # mixChain T Bs)"

definition scryptBlockMix :: "nat \<Rightarrow> u32 list \<Rightarrow> u32 list" where
  "scryptBlockMix r B =
     (let bs = chunks 16 B; Y = mixChain (bs ! (2 * r - 1)) bs
      in concat (map (\<lambda>k. Y ! (2 * k)) [0..<r]) @ concat (map (\<lambda>k. Y ! (2 * k + 1)) [0..<r]))"

text \<open>\<open>Integerify\<close> reads the last 64-byte block as a little-endian number.\<close>

definition Integerify :: "nat \<Rightarrow> u32 list \<Rightarrow> nat" where
  "Integerify r X = le_nat (concat (map le32enc (drop ((2 * r - 1) * 16) X)))"

definition romixStep :: "nat \<Rightarrow> (nat \<Rightarrow> u32 list) \<Rightarrow> nat \<Rightarrow> u32 list \<Rightarrow> u32 list" where
  "romixStep r V N X = scryptBlockMix r (map2 (XOR) X (V (Integerify r X mod N)))"

definition scryptROMix :: "nat \<Rightarrow> nat \<Rightarrow> bytes \<Rightarrow> bytes" where
  "scryptROMix r N B =
     (let X0 = map le32dec (chunks 4 B);
          V = (\<lambda>i. (scryptBlockMix r ^^ i) X0);
          X = (romixStep r V N ^^ N) (V N)
      in concat (map le32enc X))"

definition scrypt :: "bytes \<Rightarrow> bytes \<Rightarrow> nat \<Rightarrow> nat \<Rightarrow> nat \<Rightarrow> nat \<Rightarrow> bytes" where
  "scrypt P S N r p dkLen =
     (let B = chunks (128 * r) (pbkdf2 P S 1 (p * 128 * r))
      in pbkdf2 P (concat (map (scryptROMix r N) B)) 1 dkLen)"

section \<open>Salsa20/8\<close>

lemma R_rotl:
  assumes "0 < b" "b < 32"
  shows "R a b = rotl32 a b"
proof (rule bit_word_eqI)
  fix n
  assume n: "n < LENGTH(32)"
  show "bit (R a b) n \<longleftrightarrow> bit (rotl32 a b) n"
  proof (cases "b \<le> n")
    case True
    have "n + (32 - b) = (n - b) + 32" using True assms by simp
    then have "(n + (32 - b)) mod 32 = (n - b) mod 32" by (metis mod_add_self2)
    also have "\<dots> = n - b" using n by simp
    finally have "(n + (32 - b)) mod 32 = n - b" .
    moreover have "\<not> bit a (32 - b + n)" using True assms by (auto dest: bit_imp_le_length)
    ultimately show ?thesis
      using True n assms by (simp add: R_def rotl32_def bit_simps)
  next
    case False
    then have "(n + (32 - b)) mod 32 = 32 - b + n" using assms by (simp add: add.commute)
    then show ?thesis
      using False n assms by (simp add: R_def rotl32_def bit_simps)
  qed
qed

lemma list16_cases:
  assumes "length xs = 16"
  obtains x0 x1 x2 x3 x4 x5 x6 x7 x8 x9 x10 x11 x12 x13 x14 x15
  where "xs = [x0, x1, x2, x3, x4, x5, x6, x7, x8, x9, x10, x11, x12, x13, x14, x15]"
  using assms by (auto simp: numeral_eq_Suc length_Suc_conv)

lemma columnAssigns_round: "length x = 16 \<Longrightarrow> fold salsaAssign columnAssigns x = columnround x"
  by (elim list16_cases) (simp add: columnAssigns_def columnround_def salsaAssign_def R_rotl Let_def)

lemma rowAssigns_round: "length x = 16 \<Longrightarrow> fold salsaAssign rowAssigns x = rowround x"
  by (elim list16_cases) (simp add: rowAssigns_def rowround_def salsaAssign_def R_rotl Let_def)

lemma length_rounds [simp]: "length (rowround x) = 16" "length (columnround x) = 16"
  by (simp_all add: rowround_def columnround_def Let_def)

lemma salsa20_8_correct:
  assumes "length B = 16"
  shows "salsa20_8 B = salsa20_8_core B"
proof -
  have "fold salsaAssign (columnAssigns @ rowAssigns) x = rowround (columnround x)" if "length x = 16" for x
    using that by (simp add: columnAssigns_round rowAssigns_round)
  then show ?thesis
    using assms by (simp add: salsa20_8_def salsa20_8_core_def numeral_eq_Suc del: fold_append)
qed

lemma length_core [simp]: "length B = 16 \<Longrightarrow> length (salsa20_8_core B) = 16"
  by (simp add: salsa20_8_core_def numeral_eq_Suc)

section \<open>Block mix\<close>

lemma length_mixChain [simp]: "length (mixChain X Bs) = length Bs"
  by (induction Bs arbitrary: X) (simp_all add: Let_def)

lemma mixChain_nth:
  "j < length Bs \<Longrightarrow>
   mixChain X Bs ! j = salsa20_8_core (map2 (XOR) (if j = 0 then X else mixChain X Bs ! (j - 1)) (Bs ! j))"
proof (induction Bs arbitrary: X j)
  case (Cons B Bs)
  then show ?case by (cases j) (auto simp: Let_def nth_Cons')
qed simp

lemma length_mixChain_nth:
  assumes "length X = 16" "\<forall>b \<in> set Bs. length b = 16" "j < length Bs"
  shows "length (mixChain X Bs ! j) = 16"
  using assms(3)
proof (induction j)
  case 0
  then show ?case using assms by (subst mixChain_nth) simp_all
next
  case (Suc j)
  then show ?case using assms by (subst mixChain_nth) simp_all
qed

lemma chunks_nth: "0 < n \<Longrightarrow> j < length xs div n \<Longrightarrow> chunks n xs ! j = take n (drop (n * j) xs)"
  by (simp add: chunks_conv_map)

lemma blkxor_64: "length X = 16 \<Longrightarrow> blkxor X src 64 = map2 (XOR) X (take 16 src)"
  by (simp add: blkxor_def)

lemma blkcpy_64: "length X = 16 \<Longrightarrow> blkcpy dst off X 64 = memcpy_at dst off X"
  by (simp add: blkcpy_def)

lemma concat_upt_Suc: "concat (map f [0..<Suc n]) = concat (map f [0..<n]) @ f n"
  by simp

lemma length_concat_const: "(\<And>k. k < n \<Longrightarrow> length (f k) = m) \<Longrightarrow> length (concat (map f [0..<n])) = n * m"
  by (induction n) simp_all

lemma drop_split: "drop m xs = take n (drop m xs) @ drop (n + m) xs"
  by (metis append_take_drop_id drop_drop)

text \<open>The state of the loop after \<open>n\<close> passes.\<close>

lemma blockmix_loop:
  assumes Bin: "length Bin = 32 * r" and Bout: "length Bout = 32 * r" and X: "length X0 = 16"
    and n: "n \<le> r"
  defines "Y \<equiv> mixChain X0 (chunks 16 Bin)"
  shows "fold (blockmix_step Bin r) (map (\<lambda>k. 2 * k) [0..<n]) (Bout, X0) =
    (concat (map (\<lambda>k. Y ! (2 * k)) [0..<n]) @ drop (16 * n) (take (16 * r) Bout) @
     concat (map (\<lambda>k. Y ! (2 * k + 1)) [0..<n]) @ drop (16 * r + 16 * n) Bout,
     if n = 0 then X0 else Y ! (2 * n - 1))"
  using n
proof (induction n)
  case 0
  then show ?case by simp
next
  case (Suc n)
  have nc: "length (chunks 16 Bin) = 2 * r" by (simp add: length_chunks Bin)
  have c16: "\<forall>b \<in> set (chunks 16 Bin). length b = 16" by (simp add: length_chunks_elem)
  have Ylen: "length (Y ! j) = 16" if "j < 2 * r" for j
    unfolding Y_def using that nc by (intro length_mixChain_nth X c16) simp
  let ?X = "if n = 0 then X0 else Y ! (2 * n - 1)"
  have Xlen: "length ?X = 16" using X Ylen Suc by auto
  have blk: "take 16 (drop (j * 16) Bin) = chunks 16 Bin ! j" if "j < 2 * r" for j
    using that Bin by (simp add: chunks_nth mult.commute)
  have X1: "salsa20_8 (blkxor ?X (drop (2 * n * 16) Bin) 64) = Y ! (2 * n)"
  proof -
    have "take 16 (drop (2 * n * 16) Bin) = chunks 16 Bin ! (2 * n)" using Suc by (intro blk) simp
    moreover have "length (chunks 16 Bin ! (2 * n)) = 16" using c16 nc Suc by simp
    ultimately show ?thesis
      using Xlen Suc nc mixChain_nth [of "2 * n" "chunks 16 Bin" X0]
      by (simp add: blkxor_64 salsa20_8_correct Y_def)
  qed
  have X2: "salsa20_8 (blkxor (Y ! (2 * n)) (drop (2 * n * 16 + 16) Bin) 64) = Y ! (2 * n + 1)"
  proof -
    have "take 16 (drop (2 * n * 16 + 16) Bin) = chunks 16 Bin ! (2 * n + 1)"
      using Suc blk [of "2 * n + 1"] by (simp add: algebra_simps)
    moreover have "length (chunks 16 Bin ! (2 * n + 1)) = 16" using c16 nc Suc by simp
    ultimately show ?thesis
      using Ylen [of "2 * n"] Suc nc mixChain_nth [of "2 * n + 1" "chunks 16 Bin" X0]
      by (simp add: blkxor_64 salsa20_8_correct Y_def)
  qed
  let ?E = "concat (map (\<lambda>k. Y ! (2 * k)) [0..<n])" and ?O = "concat (map (\<lambda>k. Y ! (2 * k + 1)) [0..<n])"
  have E: "length ?E = n * 16" "length ?O = n * 16"
    using Suc by (auto intro!: length_concat_const Ylen)
  define M1 where "M1 = drop (16 * Suc n) (take (16 * r) Bout)"
  define M2 where "M2 = drop (16 * r + 16 * Suc n) Bout"
  define o1 where "o1 = take 16 (drop (16 * n) (take (16 * r) Bout))"
  define o2 where "o2 = take 16 (drop (16 * r + 16 * n) Bout)"
  have split1: "drop (16 * n) (take (16 * r) Bout) = o1 @ M1"
    unfolding o1_def M1_def mult_Suc_right by (rule drop_split)
  have split2: "drop (16 * r + 16 * n) Bout = o2 @ M2"
    unfolding o2_def M2_def mult_Suc_right add.left_commute [of _ 16] by (rule drop_split)
  have lens: "length o1 = 16" "length o2 = 16" "length M1 = 16 * r - 16 * Suc n"
    using Bout Suc.prems by (simp_all add: o1_def o2_def M1_def)
  have Y16: "length (Y ! (2 * n)) = 16" "length (Y ! (2 * n + 1)) = 16" using Suc by (auto intro!: Ylen)
  have step: "blockmix_step Bin r (2 * n) (?E @ (o1 @ M1) @ ?O @ o2 @ M2, ?X) =
      (?E @ Y ! (2 * n) @ M1 @ ?O @ Y ! (2 * n + 1) @ M2, Y ! (2 * n + 1))"
  proof -
    have "memcpy_at (?E @ o1 @ (M1 @ ?O @ o2 @ M2)) (2 * n * 8) (Y ! (2 * n)) =
        ?E @ Y ! (2 * n) @ (M1 @ ?O @ o2 @ M2)"
      using E lens Y16 by (intro memcpy_at_replace) simp_all
    moreover have "memcpy_at ((?E @ Y ! (2 * n) @ M1 @ ?O) @ o2 @ M2) (2 * n * 8 + r * 16) (Y ! (2 * n + 1)) =
        (?E @ Y ! (2 * n) @ M1 @ ?O) @ Y ! (2 * n + 1) @ M2"
      using E lens Y16 Suc.prems by (intro memcpy_at_replace) simp_all
    ultimately show ?thesis
      unfolding blockmix_step_def prod.case Let_def X1 X2
      using Y16 by (simp add: blkcpy_64)
  qed
  show ?case
    using Suc step unfolding concat_upt_Suc split1 split2 M1_def [symmetric] M2_def [symmetric]
    by simp
qed

lemma blockmix_salsa8_correct:
  assumes "length Bin = 32 * r" "length Bout = 32 * r" "length Z = 16" "0 < r"
  shows "fst (blockmix_salsa8 Bin Bout Z r) = scryptBlockMix r Bin"
    and "length (snd (blockmix_salsa8 Bin Bout Z r)) = 16"
proof -
  let ?X0 = "blkcpy Z 0 (drop ((2 * r - 1) * 16) Bin) 64"
  let ?Y = "mixChain ?X0 (chunks 16 Bin)"
  have last: "length (drop ((2 * r - 1) * 16) Bin) = 16" using assms by (simp add: diff_mult_distrib)
  then have X0: "?X0 = drop ((2 * r - 1) * 16) Bin" using assms(3) by (simp add: blkcpy_def memcpy_at_def)
  also have "\<dots> = chunks 16 Bin ! (2 * r - 1)"
    using assms last by (subst chunks_nth) (simp_all add: mult.commute)
  finally have X0': "?X0 = chunks 16 Bin ! (2 * r - 1)" .
  have run: "blockmix_salsa8 Bin Bout Z r =
      (concat (map (\<lambda>k. ?Y ! (2 * k)) [0..<r]) @ concat (map (\<lambda>k. ?Y ! (2 * k + 1)) [0..<r]), ?Y ! (2 * r - 1))"
    using blockmix_loop [OF assms(1,2), of ?X0 r] last X0 assms
    by (simp add: blockmix_salsa8_def)
  show "fst (blockmix_salsa8 Bin Bout Z r) = scryptBlockMix r Bin"
    unfolding run scryptBlockMix_def Let_def X0' [symmetric] by simp
  have "length (?Y ! (2 * r - 1)) = 16"
    using assms last X0 by (intro length_mixChain_nth) (simp_all add: length_chunks length_chunks_elem)
  then show "length (snd (blockmix_salsa8 Bin Bout Z r)) = 16" by (simp add: run)
qed

lemma length_scryptBlockMix:
  assumes "length B = 32 * r"
  shows "length (scryptBlockMix r B) = 32 * r"
proof (cases "r = 0")
  case False
  let ?Y = "mixChain (chunks 16 B ! (2 * r - 1)) (chunks 16 B)"
  have c: "\<forall>b \<in> set (chunks 16 B). length b = 16" "length (chunks 16 B) = 2 * r"
    using assms by (simp_all add: length_chunks length_chunks_elem)
  then have "length (?Y ! j) = 16" if "j < 2 * r" for j
    using that False by (intro length_mixChain_nth) simp_all
  then show ?thesis
    unfolding scryptBlockMix_def Let_def
    by (simp add: length_concat_const [where m = 16])
qed (simp add: scryptBlockMix_def)

section \<open>ROMix\<close>

lemma blkcpy_block: "length X = 32 * r \<Longrightarrow> blkcpy dst off X (128 * r) = memcpy_at dst off X"
  by (simp add: blkcpy_def)

lemma blkxor_block: "length X = 32 * r \<Longrightarrow> blkxor X src (128 * r) = map2 (XOR) X (take (32 * r) src)"
  by (simp add: blkxor_def)

lemma evens_below_double: "evens_below (2 * h) = map (\<lambda>k. 2 * k) [0..<h]"
  by (simp add: evens_below_def)

text \<open>The table \<open>V\<close> after \<open>k\<close> passes of the first loop.\<close>

definition smix_ok :: "nat \<Rightarrow> smixState \<Rightarrow> bool" where
  "smix_ok r s \<longleftrightarrow> length (sm_X s) = 32 * r \<and> length (sm_Y s) = 32 * r \<and> length (sm_Z s) = 16"

lemma smix_fill_step:
  assumes "smix_ok r s" "0 < r"
  shows "smix_ok r (smix_fill r i s)"
    "sm_X (smix_fill r i s) = scryptBlockMix r (scryptBlockMix r (sm_X s))"
    "sm_V (smix_fill r i s) = memcpy_at (memcpy_at (sm_V s) (i * (32 * r)) (sm_X s))
       ((i + 1) * (32 * r)) (scryptBlockMix r (sm_X s))"
proof -
  obtain Y1 Z1 where b1: "blockmix_salsa8 (sm_X s) (sm_Y s) (sm_Z s) r = (Y1, Z1)" by fastforce
  have Y1: "Y1 = scryptBlockMix r (sm_X s)" "length Z1 = 16" "length Y1 = 32 * r"
    using blockmix_salsa8_correct [of "sm_X s" r "sm_Y s" "sm_Z s"] assms b1
    by (simp_all add: smix_ok_def length_scryptBlockMix)
  obtain X1 Z2 where b2: "blockmix_salsa8 Y1 (sm_X s) Z1 r = (X1, Z2)" by fastforce
  have X1: "X1 = scryptBlockMix r Y1" "length Z2 = 16" "length X1 = 32 * r"
    using blockmix_salsa8_correct [of Y1 r "sm_X s" Z1] assms b2 Y1
    by (simp_all add: smix_ok_def length_scryptBlockMix)
  have eq: "smix_fill r i s = \<lparr>sm_X = X1, sm_Y = Y1, sm_Z = Z2,
      sm_V = memcpy_at (memcpy_at (sm_V s) (i * (32 * r)) (sm_X s)) ((i + 1) * (32 * r)) Y1\<rparr>"
    using assms Y1(3) by (simp add: smix_fill_def b1 b2 blkcpy_block smix_ok_def)
  show "smix_ok r (smix_fill r i s)"
    "sm_X (smix_fill r i s) = scryptBlockMix r (scryptBlockMix r (sm_X s))"
    "sm_V (smix_fill r i s) = memcpy_at (memcpy_at (sm_V s) (i * (32 * r)) (sm_X s))
       ((i + 1) * (32 * r)) (scryptBlockMix r (sm_X s))"
    using X1 Y1 unfolding eq by (simp_all add: smix_ok_def)
qed

lemma length_iterBlockMix: "length X = 32 * r \<Longrightarrow> length ((scryptBlockMix r ^^ i) X) = 32 * r"
  by (induction i) (simp_all add: length_scryptBlockMix)

lemma smix_fill_loop:
  assumes "smix_ok r s" "0 < r" "length (sm_V s) = 32 * r * (2 * h)" "k \<le> h"
  defines "Vi \<equiv> \<lambda>i. (scryptBlockMix r ^^ i) (sm_X s)"
  shows "smix_ok r (fold (smix_fill r) (map (\<lambda>k. 2 * k) [0..<k]) s) \<and>
    sm_X (fold (smix_fill r) (map (\<lambda>k. 2 * k) [0..<k]) s) = Vi (2 * k) \<and>
    sm_V (fold (smix_fill r) (map (\<lambda>k. 2 * k) [0..<k]) s) =
      concat (map Vi [0..<2 * k]) @ drop (2 * k * (32 * r)) (sm_V s)"
  using assms(4)
proof (induction k)
  case 0
  then show ?case using assms by (simp add: Vi_def)
next
  case (Suc k)
  let ?t = "fold (smix_fill r) (map (\<lambda>k. 2 * k) [0..<k]) s"
  have IH: "smix_ok r ?t" "sm_X ?t = Vi (2 * k)"
    "sm_V ?t = concat (map Vi [0..<2 * k]) @ drop (2 * k * (32 * r)) (sm_V s)"
    using Suc by simp_all
  note st = smix_fill_step [OF IH(1) assms(2), of "2 * k"]
  have len: "length (Vi i) = 32 * r" for i
    using assms(1) by (simp add: Vi_def smix_ok_def length_iterBlockMix)
  have lenC: "length (concat (map Vi [0..<n])) = n * (32 * r)" for n
    by (rule length_concat_const) (rule len)
  define old1 where "old1 = take (32 * r) (drop (2 * k * (32 * r)) (sm_V s))"
  define old2 where "old2 = take (32 * r) (drop ((2 * k + 1) * (32 * r)) (sm_V s))"
  define rest where "rest = drop (2 * Suc k * (32 * r)) (sm_V s)"
  have "2 * Suc k * (32 * r) \<le> length (sm_V s)" 
    using mult_le_mono1 [OF Suc.prems, of "64 * r"] assms(3) by (simp add: algebra_simps)
  then have old: "length old1 = 32 * r" "length old2 = 32 * r"
    by (simp_all add: old1_def old2_def algebra_simps)
  have "drop (2 * k * (32 * r)) (sm_V s) = old1 @ drop (2 * k * (32 * r) + 32 * r) (sm_V s)"
    unfolding old1_def by simp
  also have "drop (2 * k * (32 * r) + 32 * r) (sm_V s) = old2 @ rest"
    using take_drop_append [of "32 * r" "(2 * k + 1) * (32 * r)" "sm_V s"]
    by (simp add: old2_def rest_def algebra_simps)
  finally have V: "sm_V ?t = concat (map Vi [0..<2 * k]) @ old1 @ old2 @ rest" by (simp add: IH(3))
  have V1: "memcpy_at (sm_V ?t) (2 * k * (32 * r)) (Vi (2 * k)) =
      concat (map Vi [0..<2 * k]) @ Vi (2 * k) @ old2 @ rest"
    unfolding V using old len lenC by (intro memcpy_at_replace) simp_all
  have V2: "memcpy_at ((concat (map Vi [0..<2 * k]) @ Vi (2 * k)) @ old2 @ rest) ((2 * k + 1) * (32 * r)) (Vi (2 * k + 1)) =
      (concat (map Vi [0..<2 * k]) @ Vi (2 * k)) @ Vi (2 * k + 1) @ rest"
    using old len lenC by (intro memcpy_at_replace) simp_all
  have nx: "scryptBlockMix r (Vi (2 * k)) = Vi (2 * k + 1)" "scryptBlockMix r (Vi (2 * k + 1)) = Vi (2 * Suc k)"
    by (simp_all add: Vi_def)
  have "sm_V (smix_fill r (2 * k) ?t) = concat (map Vi [0..<2 * Suc k]) @ rest"
    using st(3) V1 V2 nx by (simp add: IH(2))
  then show ?case using st nx by (simp add: IH(2) rest_def)
qed

text \<open>Reading entry \<open>j\<close> of the table.\<close>

lemma table_lookup:
  assumes "\<And>i. length (f i) = m" "j < n"
  shows "take m (drop (j * m) (concat (map f [0..<n]))) = f j"
proof -
  have "[0..<n] = [0..<j] @ j # [Suc j..<n]"
    using assms(2) by (metis upt_add_eq_append upt_conv_Cons le_add1 le_add_diff_inverse less_imp_le plus_nat.add_0)
  then have "concat (map f [0..<n]) = concat (map f [0..<j]) @ f j @ concat (map f [Suc j..<n])" by simp
  moreover have "length (concat (map f [0..<j])) = j * m" by (rule length_concat_const) (rule assms(1))
  ultimately show ?thesis using assms(1) by simp
qed

lemma le32enc_nat: "le32enc x = nat_le 4 (unat x)"
  by (simp add: nat_le_4 le32enc_def word_unat_eq_iff unat_of_nat low_byte)

lemma le_nat_le32enc: "le_nat (le32enc x) = unat x"
  unfolding le32enc_nat le_nat_nat_le using unat_u32_less [of x] by simp

lemma length_le32enc [simp]: "length (le32enc x) = 4"
  by (simp add: le32enc_def)

lemma integerify_correct:
  assumes "length X = 32 * r" "0 < r" "e < 64"
  shows "unat (integerify X r AND (2 ^ e - 1)) = Integerify r X mod 2 ^ e"
proof -
  let ?D = "drop ((2 * r - 1) * 16) X"
  have len: "length ?D = 16" using assms by (simp add: diff_mult_distrib)
  obtain a b ws where D: "?D = a # b # ws"
    using len by (auto simp: numeral_eq_Suc length_Suc_conv simp del: length_drop)
  have "Integerify r X = (unat a + 2 ^ 32 * unat b) + 2 ^ 64 * le_nat (concat (map le32enc ws))"
    unfolding Integerify_def D by (simp add: le_nat_append le_nat_le32enc)
  then have I: "Integerify r X mod 2 ^ 64 = unat a + 2 ^ 32 * unat b"
    using unat_u32_less [of a] unat_u32_less [of b] by (simp only: mod_mult_self2) simp
  have "unat (integerify X r) = (unat a + 2 ^ 32 * unat b) mod 2 ^ 64"
    unfolding integerify_def D by (simp add: unat_word_ariths unsigned_push_bit_eq unsigned_ucast_eq take_bit_nat_def push_bit_nat_def mod_simps)
      (simp add: add.commute mult.commute)
  then have low: "unat (integerify X r) mod 2 ^ e = Integerify r X mod 2 ^ e"
    using mod_mod_cancel [OF le_imp_power_dvd [of e 64 2], of "Integerify r X"] assms(3)
    unfolding I [symmetric] by simp
  have "(2 ^ e - 1 :: u64) = mask e" by (simp add: mask_eq_exp_minus_1)
  then have "unat (integerify X r AND (2 ^ e - 1)) = unat (take_bit e (integerify X r))"
    by (simp only: take_bit_eq_mask)
  also have "\<dots> = unat (integerify X r) mod 2 ^ e"
    by (simp add: unsigned_take_bit_eq take_bit_nat_def)
  finally show ?thesis using low by simp
qed

lemma smix_mix_step:
  assumes ok: "smix_ok r s" and r: "0 < r" and e: "e < 64"
    and V: "sm_V s = concat (map Vi [0..<2 ^ e])" and Vi: "\<And>i. length (Vi i) = 32 * r"
  defines "f \<equiv> romixStep r Vi (2 ^ e)"
  shows "smix_ok r (smix_mix r (2 ^ e) s)"
    "sm_X (smix_mix r (2 ^ e) s) = f (f (sm_X s))"
    "sm_V (smix_mix r (2 ^ e) s) = sm_V s"
proof -
  have look: "blkxor X (drop (unat (integerify X r AND (2 ^ e - 1)) * (32 * r)) (sm_V s)) (128 * r) =
      map2 (XOR) X (Vi (Integerify r X mod 2 ^ e))" if "length X = 32 * r" for X
    using that r e Vi unfolding V
    by (simp add: blkxor_block integerify_correct table_lookup)
  have Xl: "length (sm_X s) = 32 * r" "length (sm_Y s) = 32 * r" "length (sm_Z s) = 16"
    using ok by (simp_all add: smix_ok_def)
  define X1 where "X1 = map2 (XOR) (sm_X s) (Vi (Integerify r (sm_X s) mod 2 ^ e))"
  have X1: "length X1 = 32 * r" by (simp add: X1_def Xl Vi)
  obtain Y1 Z1 where b1: "blockmix_salsa8 X1 (sm_Y s) (sm_Z s) r = (Y1, Z1)" by fastforce
  have Y1: "Y1 = f (sm_X s)" "length Z1 = 16" "length Y1 = 32 * r"
    using blockmix_salsa8_correct [OF X1 Xl(2,3) r] b1 X1
    by (simp_all add: length_scryptBlockMix f_def romixStep_def X1_def)
  define Y2 where "Y2 = map2 (XOR) Y1 (Vi (Integerify r Y1 mod 2 ^ e))"
  have Y2: "length Y2 = 32 * r" by (simp add: Y2_def Y1(3) Vi)
  obtain X2 Z2 where b2: "blockmix_salsa8 Y2 X1 Z1 r = (X2, Z2)" by fastforce
  have X2: "X2 = f Y1" "length Z2 = 16" "length X2 = 32 * r"
    using blockmix_salsa8_correct [OF Y2 X1 Y1(2) r] b2 Y2
    by (simp_all add: length_scryptBlockMix f_def romixStep_def Y2_def)
  have eq: "smix_mix r (2 ^ e) s = \<lparr>sm_X = X2, sm_Y = Y2, sm_Z = Z2, sm_V = sm_V s\<rparr>"
    unfolding smix_mix_def Let_def look [OF Xl(1)] X1_def [symmetric] b1 prod.case look [OF Y1(3)]
      Y2_def [symmetric] b2 ..
  show "smix_ok r (smix_mix r (2 ^ e) s)" "sm_V (smix_mix r (2 ^ e) s) = sm_V s"
    using X2 Y2 by (simp_all add: eq smix_ok_def)
  show "sm_X (smix_mix r (2 ^ e) s) = f (f (sm_X s))"
    by (simp add: eq X2(1) Y1(1))
qed

lemma smix_mix_loop:
  assumes "smix_ok r s" "0 < r" "e < 64" "sm_V s = concat (map Vi [0..<2 ^ e])" "\<And>i. length (Vi i) = 32 * r"
  shows "sm_X ((smix_mix r (2 ^ e) ^^ k) s) = (romixStep r Vi (2 ^ e) ^^ (2 * k)) (sm_X s) \<and>
    sm_V ((smix_mix r (2 ^ e) ^^ k) s) = sm_V s \<and> smix_ok r ((smix_mix r (2 ^ e) ^^ k) s)"
proof (induction k)
  case (Suc k)
  let ?t = "(smix_mix r (2 ^ e) ^^ k) s"
  have "smix_ok r ?t" "sm_V ?t = concat (map Vi [0..<2 ^ e])" using Suc assms by simp_all
  from smix_mix_step [OF this(1) assms(2,3) this(2) assms(5)] show ?case using Suc by simp
qed (use assms in simp)

lemma fold_const: "fold (\<lambda>i. f) xs s = (f ^^ length xs) s"
  by (induction xs arbitrary: s) (simp_all add: funpow_swap1)

lemma smix_correct:
  assumes B: "length B = 128 * r" and r: "0 < r" and e: "0 < e" "e < 64"
    and V: "length V = 32 * r * 2 ^ e" and XY: "length XY = 64 * r + 16"
  shows "smix B r (2 ^ e) V XY = scryptROMix r (2 ^ e) B"
proof -
  define X0 where "X0 = map (\<lambda>k. le32dec (drop (4 * k) B)) [0..<32 * r]"
  define s where "s = \<lparr>sm_X = X0, sm_Y = take (32 * r) (drop (32 * r) XY), sm_Z = drop (64 * r) XY, sm_V = V\<rparr>"
  define Vi where "Vi = (\<lambda>i. (scryptBlockMix r ^^ i) X0)"
  obtain h where h: "(2 :: nat) ^ e = 2 * h" using e(1) by (cases e) auto
  have N: "unat (2 ^ e :: u64) = 2 * h" 
    unfolding h [symmetric]
    using unat_of_nat [of "2 ^ e", where ?'a = 64] power_strict_increasing [OF e(2), of "2 :: nat"] by simp
  have X0: "X0 = map le32dec (chunks 4 B)"
    using B by (simp add: X0_def chunks_conv_map le32dec_def comp_def)
  have ok: "smix_ok r s" using XY by (simp add: s_def smix_ok_def X0_def)
  have Vl: "length (Vi i) = 32 * r" for i by (simp add: Vi_def length_iterBlockMix X0_def)
  define t where "t = fold (smix_fill r) (map (\<lambda>k. 2 * k) [0..<h]) s"
  have t: "smix_ok r t" "sm_X t = Vi (2 ^ e)" "sm_V t = concat (map Vi [0..<2 ^ e])"
    using smix_fill_loop [OF ok r, of h h] V h
    by (simp_all add: s_def t_def Vi_def)
  have X: "sm_X ((smix_mix r (2 ^ e) ^^ h) t) = (romixStep r Vi (2 ^ e) ^^ (2 ^ e)) (Vi (2 ^ e))"
    "smix_ok r ((smix_mix r (2 ^ e) ^^ h) t)"
    using smix_mix_loop [OF t(1) r e(2) t(3) Vl, of h] by (simp_all add: t(2) h)
  have run: "smix B r (2 ^ e) V XY =
      concat (map (\<lambda>k. le32enc (sm_X ((smix_mix r (2 ^ e) ^^ h) t) ! k)) [0..<32 * r])"
    unfolding smix_def Let_def N evens_below_double fold_const
    by (simp add: s_def t_def X0_def)
  have "map (\<lambda>k. le32enc (xs ! k)) [0..<32 * r] = map le32enc xs" if "length xs = 32 * r" for xs
    using that by (auto intro!: nth_equalityI)
  then show ?thesis
    using X by (simp add: run scryptROMix_def Let_def X0 [symmetric] Vi_def smix_ok_def)
qed

section \<open>The whole hash\<close>

lemma scrypt_correct:
  assumes "hmac_ok ctx1" "hmac_ok ctx2" "80 \<le> length inp" "length outp = 32" "length B = 128"
    "length V = 32 * 1024" "length XY = 80"
  shows "scrypt_1024_1_1_256_sp ctx1 ctx2 inp outp B V XY = scrypt (take 80 inp) (take 80 inp) 1024 1 1 32"
proof -
  let ?P = "take 80 inp"
  have P: "length ?P < 2 ^ 64" using assms(3) by simp
  have B1: "PBKDF2_SHA256 ctx1 ?P ?P 1 B 128 = pbkdf2 ?P ?P 1 128"
    using assms P by (intro PBKDF2_SHA256_pbkdf2) simp_all
  have "smix (pbkdf2 ?P ?P 1 128) 1 (2 ^ 10) V XY = scryptROMix 1 (2 ^ 10) (pbkdf2 ?P ?P 1 128)"
    using assms by (intro smix_correct) simp_all
  then have B2: "smix (pbkdf2 ?P ?P 1 128) 1 1024 V XY = scryptROMix 1 1024 (pbkdf2 ?P ?P 1 128)" by simp
  have len: "length (scryptROMix 1 1024 (pbkdf2 ?P ?P 1 128)) < 2 ^ 64"
    unfolding B2 [symmetric] by (simp add: smix_def Let_def length_concat comp_def sum_list_triv)
  have "chunks (128 * 1) (pbkdf2 ?P ?P 1 (1 * 128 * 1)) = [pbkdf2 ?P ?P 1 128]"
    using chunks_append_block [of "pbkdf2 ?P ?P 1 128" 128 "[]"] by simp
  note chk = this
  show ?thesis
    unfolding scrypt_1024_1_1_256_sp_def scrypt_def Let_def B1 B2 chk
    by (subst PBKDF2_SHA256_pbkdf2) (use assms P len in simp_all)
qed

lemma scrypt_1024_1_1_256_correct:
  assumes "scratch_ok sp" "length inp = 80" "length outp = 32"
  shows "scrypt_1024_1_1_256 sp inp outp = scrypt inp inp 1024 1 1 32"
proof -
  have "scrypt_1024_1_1_256 sp inp outp = scrypt (take 80 inp) (take 80 inp) 1024 1 1 32"
    unfolding scrypt_1024_1_1_256_def using assms by (intro scrypt_correct) (simp_all add: scratch_ok_def)
  then show ?thesis using assms(2) by simp
qed

lemma length_scrypt [simp]: "length (scrypt P S N r p n) = n"
  by (simp add: scrypt_def Let_def)

text \<open>The addresses of the three regions, computed by \<open>scrypt_1024_1_1_256_sp\<close> from the address of
  the scratchpad: \<open>B\<close> is aligned to 64 bytes, \<open>XY\<close> and \<open>V\<close> follow.\<close>

definition scratchB :: "u64 \<Rightarrow> u64" where
  "scratchB sp = (sp + 63) AND NOT 63"

definition scratchXY :: "u64 \<Rightarrow> u64" where
  "scratchXY sp = scratchB sp + 128 * 1 * 1"

definition scratchV :: "u64 \<Rightarrow> u64" where
  "scratchV sp = scratchB sp + 128 * 1 * 1 + (256 * 1 + 64)"

definition scratchSize :: nat where
  "scratchSize = 131583"

lemma scratchB_align:
  assumes "unat sp + 63 < 2 ^ 64"
  shows "unat (scratchB sp) = (unat sp + 63) div 64 * 64"
proof -
  have "(63 :: u64) = mask 6" by (simp add: mask_eq_exp_minus_1)
  moreover have "w AND NOT (mask 6) = push_bit 6 (drop_bit 6 w)" for w :: u64
    by (rule bit_eqI) (auto simp: bit_simps)
  ultimately have "unat (scratchB sp) = unat (push_bit 6 (drop_bit 6 (sp + 63)))"
    by (simp only: scratchB_def)
  also have "\<dots> = (unat sp + 63) div 64 * 64 mod 2 ^ 64"
    using assms by (simp add: unsigned_push_bit_eq unat_drop_bit unat_word_ariths take_bit_nat_def push_bit_nat_def)
  also have "\<dots> = (unat sp + 63) div 64 * 64"
    using assms div_times_less_eq_dividend [of "unat sp + 63" 64] by (intro mod_less) linarith
  finally show ?thesis .
qed

lemma scratchpad_bounds:
  assumes "unat sp + scratchSize \<le> 2 ^ 64"
  shows "unat (scratchB sp) mod 64 = 0" "unat sp \<le> unat (scratchB sp)"
    "unat (scratchXY sp) = unat (scratchB sp) + 128"
    "unat (scratchV sp) = unat (scratchXY sp) + (256 + 64)"
    "unat (scratchV sp) + 128 * 1024 \<le> unat sp + scratchSize"
proof -
  have B: "unat (scratchB sp) = (unat sp + 63) div 64 * 64"
    using assms by (intro scratchB_align) (simp add: scratchSize_def)
  then show "unat (scratchB sp) mod 64 = 0" "unat sp \<le> unat (scratchB sp)" by simp_all
  have le: "unat (scratchB sp) \<le> unat sp + 63" unfolding B by (rule div_times_less_eq_dividend)
  have "unat (scratchB sp) + 128 + (256 + 64) + 128 * 1024 \<le> unat sp + scratchSize"
    using le by (simp add: scratchSize_def)
  then show "unat (scratchXY sp) = unat (scratchB sp) + 128"
    "unat (scratchV sp) = unat (scratchXY sp) + (256 + 64)"
    "unat (scratchV sp) + 128 * 1024 \<le> unat sp + scratchSize"
    using assms by (simp_all add: scratchXY_def scratchV_def unat_word_ariths)
qed

section \<open>Properties\<close>

text \<open>
  The unrolled loops of \<open>smix\<close> compute \<open>scryptROMix\<close> of RFC 7914 for every block size and every
  power of two as cost parameter, whatever the scratch arrays held before.
\<close>

lemma smix_standard:
  assumes "length B = 128 * r" "0 < r" "0 < e" "e < 64" "length V = 32 * r * 2 ^ e" "length XY = 64 * r + 16"
  shows "smix B r (2 ^ e) V XY = scryptROMix r (2 ^ e) B"
  using assms by (rule smix_correct)

lemma smix_standard_witness:
  "smix (replicate 128 5) 1 (2 ^ 2) (replicate 128 0) (replicate 80 1) = scryptROMix 1 (2 ^ 2) (replicate 128 5)"
  using smix_standard [of "replicate 128 5" 1 2 "replicate 128 0" "replicate 80 1"] by simp

text \<open>
  C2: \<open>scrypt_1024_1_1_256\<close> maps an 80-byte block header to the scrypt hash of RFC 7914 with the header as
  password and salt, N = 1024, r = p = 1 and 32 bytes of output.
\<close>

theorem scrypt_1024_1_1_256_standard:
  assumes "scratch_ok sp" "length inp = 80" "length outp = 32"
  shows "scrypt_1024_1_1_256 sp inp outp = scrypt inp inp 1024 1 1 32"
  using assms by (rule scrypt_1024_1_1_256_correct)

theorem scrypt_1024_1_1_256_standard_witness:
  "scrypt_1024_1_1_256 \<lparr>sp_ctx1 = \<lparr>ictx = \<lparr>ctx_state = [], ctx_count = [], ctx_buf = replicate 64 7\<rparr>,
       octx = \<lparr>ctx_state = [], ctx_count = [], ctx_buf = replicate 64 9\<rparr>\<rparr>,
     sp_ctx2 = \<lparr>ictx = \<lparr>ctx_state = [], ctx_count = [], ctx_buf = replicate 64 7\<rparr>,
       octx = \<lparr>ctx_state = [], ctx_count = [], ctx_buf = replicate 64 9\<rparr>\<rparr>,
     sp_B = replicate 128 1, sp_V = replicate 32768 2, sp_XY = replicate 80 3\<rparr> (replicate 80 4) (replicate 32 0) =
   scrypt (replicate 80 4) (replicate 80 4) 1024 1 1 32"
  by (rule scrypt_1024_1_1_256_standard) (simp_all add: scratch_ok_def hmac_ok_def)

text \<open>
  Wherever the scratchpad of 131583 bytes lies, the aligned regions \<open>B\<close>, \<open>XY\<close> and \<open>V\<close> do not overlap
  and stay inside it.
\<close>

lemma scratchpad_in_bounds:
  assumes "unat sp + scratchSize \<le> 2 ^ 64"
  shows "unat (scratchB sp) mod 64 = 0 \<and> unat sp \<le> unat (scratchB sp) \<and>
    unat (scratchXY sp) = unat (scratchB sp) + 128 \<and> unat (scratchV sp) = unat (scratchXY sp) + (256 + 64) \<and>
    unat (scratchV sp) + 128 * 1024 \<le> unat sp + scratchSize"
  using scratchpad_bounds [OF assms] by simp

end
