(* ===== verification/Hash_Util.thy ===== *)
theory Hash_Util
  imports Scrypt Difficulty
begin

text \<open>
  The helpers of \<open>dispatcher/src/hash_util/hash_util.cpp\<close>: hexadecimal strings, the double
  SHA-256, the merkle root of a block template and the comparison of a hash with a target.
\<close>

section \<open>Hexadecimal strings\<close>

datatype ByteArrayFormat = LittleEndian | BigEndian

text \<open>\<open>strtol(s, NULL, 16)\<close> of the C library: leading white space, a sign, an optional prefix \<open>0x\<close>
  that is followed by a digit, and the longest run of digits; the string ends at the first NUL.\<close>

definition isSpace :: "char \<Rightarrow> bool" where
  "isSpace c \<longleftrightarrow> of_char c = (32 :: nat) \<or> (9 \<le> (of_char c :: nat) \<and> of_char c \<le> (13 :: nat))"

definition hexDigitVal :: "char \<Rightarrow> int option" where
  "hexDigitVal c = (let n = of_char c :: int in
     if 48 \<le> n \<and> n \<le> 57 then Some (n - 48)
     else if 97 \<le> n \<and> n \<le> 102 then Some (n - 87)
     else if 65 \<le> n \<and> n \<le> 70 then Some (n - 55)
     else None)"

fun hexDigits :: "int \<Rightarrow> string \<Rightarrow> int" where
  "hexDigits acc [] = acc"
| "hexDigits acc (c # cs) = (case hexDigitVal c of None \<Rightarrow> acc | Some d \<Rightarrow> hexDigits (16 * acc + d) cs)"

fun skipPrefix :: "string \<Rightarrow> string" where
  "skipPrefix (a # b # c # cs) =
     (if a = CHR ''0'' \<and> (b = CHR ''x'' \<or> b = CHR ''X'') \<and> hexDigitVal c \<noteq> None then c # cs else a # b # c # cs)"
| "skipPrefix s = s"

fun strtolSigned :: "string \<Rightarrow> int" where
  "strtolSigned [] = 0"
| "strtolSigned (c # cs) =
     (if c = CHR ''-'' then - hexDigits 0 (skipPrefix cs)
      else if c = CHR ''+'' then hexDigits 0 (skipPrefix cs)
      else hexDigits 0 (skipPrefix (c # cs)))"

definition strtol16 :: "string \<Rightarrow> int" where
  "strtol16 s = strtolSigned (dropWhile isSpace (takeWhile (\<lambda>c. c \<noteq> CHR 0x00) s))"

definition hexToBytes :: "string \<Rightarrow> ByteArrayFormat \<Rightarrow> bytes" where
  "hexToBytes hex byteFormat =
     (let bytes = map (\<lambda>s. of_int (strtol16 s)) (chunks 2 (take (2 * (length hex div 2)) hex))
      in if byteFormat = LittleEndian then rev bytes else bytes)"

definition hexChar :: "nat \<Rightarrow> char" where
  "hexChar d = ''0123456789abcdef'' ! d"

text \<open>\<open>std::hex\<close> with \<open>setw(2)\<close> and \<open>setfill('0')\<close> on one byte.\<close>

definition putByte :: "byte \<Rightarrow> string" where
  "putByte b = [hexChar (unat b div 16), hexChar (unat b mod 16)]"

definition bytesToHex :: "bytes \<Rightarrow> ByteArrayFormat \<Rightarrow> string" where
  "bytesToHex bytes byteFormat =
     (if bytes = [] then []
      else if byteFormat = BigEndian then concat (map putByte bytes)
      else concat (map putByte (rev bytes)))"

lemma hexChar_table:
  "list_all (\<lambda>d. hexDigitVal (hexChar d) = Some (int d) \<and> \<not> isSpace (hexChar d) \<and>
     hexChar d \<noteq> CHR 0x00 \<and> hexChar d \<noteq> CHR ''-'' \<and> hexChar d \<noteq> CHR ''+'') [0..<16]"
  by code_simp

lemma hexChar_val:
  assumes "d < 16"
  shows "hexDigitVal (hexChar d) = Some (int d)" "\<not> isSpace (hexChar d)" "hexChar d \<noteq> CHR 0x00"
    "hexChar d \<noteq> CHR ''-''" "hexChar d \<noteq> CHR ''+''"
  using hexChar_table assms unfolding list_all_iff by auto

lemma strtol16_putByte: "of_int (strtol16 (putByte b)) = b"
proof -
  have d: "unat b div 16 < 16" "unat b mod 16 < 16" using unat_byte_less [of b] by auto
  have "strtol16 (putByte b) = int (unat b div 16) * 16 + int (unat b mod 16)"
    using hexChar_val [OF d(1)] hexChar_val [OF d(2)] by (simp add: strtol16_def putByte_def)
  also have "\<dots> = int (unat b)" by (simp add: zdiv_int zmod_int mult.commute)
  finally show ?thesis by simp
qed

lemma chunks_concat:
  "0 < n \<Longrightarrow> \<forall>x \<in> set xs. length x = n \<Longrightarrow> chunks n (concat xs) = xs"
  by (induction xs) (simp_all add: chunks_append_block)

lemma length_hexToBytes: "length (hexToBytes hex fmt) = length hex div 2"
  by (simp add: hexToBytes_def Let_def length_chunks)

lemma hexToBytes_concat:
  assumes "\<forall>x \<in> set xs. length x = 2"
  shows "hexToBytes (concat xs) fmt =
    (if fmt = LittleEndian then rev (map (\<lambda>s. of_int (strtol16 s)) xs) else map (\<lambda>s. of_int (strtol16 s)) xs)"
proof -
  have "length (concat xs) = 2 * length xs" using assms by (induction xs) simp_all
  then show ?thesis using assms by (simp add: hexToBytes_def chunks_concat Let_def)
qed

lemma map_strtol16_putByte: "map (\<lambda>s. of_int (strtol16 s)) (map putByte xs) = xs"
  by (induction xs) (simp_all add: strtol16_putByte)

lemma hex_roundtrip: "hexToBytes (bytesToHex bs fmt) fmt = bs"
proof -
  have "\<forall>x \<in> set (map putByte xs). length x = 2" for xs by (simp add: putByte_def)
  note conv = hexToBytes_concat [OF this]
  have "hexToBytes [] fmt = []" by (simp add: hexToBytes_def Let_def)
  then show ?thesis
    by (cases fmt) (auto simp: bytesToHex_def conv map_strtol16_putByte simp del: map_map)
qed

text \<open>Strings of lower-case digits, the ones \<open>bytesToHex\<close> produces.\<close>

definition isLowerHex :: "string \<Rightarrow> bool" where
  "isLowerHex s \<longleftrightarrow> list_all (\<lambda>c. c \<in> set ''0123456789abcdef'') s"

lemma lowerHex_hexChar: "c \<in> set ''0123456789abcdef'' \<Longrightarrow> \<exists>d < 16. c = hexChar d"
proof -
  assume "c \<in> set ''0123456789abcdef''"
  then obtain i where "i < length ''0123456789abcdef''" "''0123456789abcdef'' ! i = c"
    unfolding in_set_conv_nth by blast
  then show ?thesis unfolding hexChar_def by (intro exI [of _ i]) simp
qed

lemma lowerHex_pair:
  assumes "length s = 2" "isLowerHex s"
  shows "\<exists>b. s = putByte b"
proof -
  obtain x y where s: "s = [x, y]" using assms(1) by (auto simp: numeral_2_eq_2 length_Suc_conv)
  obtain a b where ab: "a < 16" "x = hexChar a" "b < 16" "y = hexChar b"
    using assms(2) lowerHex_hexChar unfolding s isLowerHex_def list.pred_inject by metis
  have "unat (of_nat (16 * a + b) :: byte) = 16 * a + b" using ab unfolding unat_of_nat by simp
  then have "s = putByte (of_nat (16 * a + b))" unfolding putByte_def using ab s by simp
  then show ?thesis by blast
qed

lemma lowerHex_putBytes:
  assumes "even (length s)" "isLowerHex s"
  shows "\<exists>bs. s = concat (map putByte bs)"
proof -
  have "concat (chunks 2 s) = s" using assms(1) by (intro concat_chunks) simp_all
  moreover have "\<forall>c \<in> set (chunks 2 s). \<exists>b. c = putByte b"
  proof
    fix c
    assume c: "c \<in> set (chunks 2 s)"
    then have "set c \<subseteq> set s" using \<open>concat (chunks 2 s) = s\<close> by (metis UN_upper set_concat)
    then have "isLowerHex c" using assms(2) unfolding isLowerHex_def list_all_iff by blast
    with length_chunks_elem [OF c] show "\<exists>b. c = putByte b" by (rule lowerHex_pair)
  qed
  then have "\<exists>bs. chunks 2 s = map putByte bs"
    unfolding ex_map_conv .
  ultimately show ?thesis by metis
qed

lemma hex_roundtrip_string:
  assumes "even (length s)" "isLowerHex s"
  shows "bytesToHex (hexToBytes s fmt) fmt = s"
proof -
  obtain bs where s: "s = concat (map putByte bs)" using lowerHex_putBytes [OF assms] by blast
  have "\<forall>x \<in> set (map putByte bs). length x = 2" by (simp add: putByte_def)
  from hexToBytes_concat [OF this] show ?thesis
    by (cases fmt) (simp_all add: s bytesToHex_def map_strtol16_putByte del: map_map)
qed

section \<open>Double SHA-256 and merkle roots\<close>

text \<open>The argument \<open>ctx\<close> is the uninitialised local context.\<close>

definition doubleSHA256 :: "SHA256_CTX \<Rightarrow> bytes \<Rightarrow> bytes" where
  "doubleSHA256 ctx data =
     (let (firstHash, ctx1) = SHA256_Final (SHA256_Update (SHA256_Init ctx) data);
          (secondHash, ctx2) = SHA256_Final (SHA256_Update (SHA256_Init ctx1) firstHash)
      in secondHash)"

definition calculateMerkleRoot :: "SHA256_CTX \<Rightarrow> bytes \<Rightarrow> bytes \<Rightarrow> bytes \<Rightarrow> bytes \<Rightarrow> bytes list \<Rightarrow> bytes" where
  "calculateMerkleRoot ctx coinbase1 coinbase2 extraNonce1 extraNonce2 merkleBranches =
     (let coinbase = coinbase1 @ extraNonce1 @ extraNonce2 @ coinbase2
      in foldl (\<lambda>currentHash branch. doubleSHA256 ctx (currentHash @ branch)) (doubleSHA256 ctx coinbase) merkleBranches)"

lemma doubleSHA256_sha256:
  assumes "length (ctx_buf ctx) = 64" "length data < 2 ^ 64"
  shows "doubleSHA256 ctx data = sha256 (sha256 data)"
  using sha.final_digest [OF sha_inv_start [OF assms]]
    sha.final_digest [OF sha_inv_start [of "snd (SHA256_Final (SHA256_Update (SHA256_Init ctx) data))" "sha256 data"]]
  by (simp add: doubleSHA256_def case_prod_beta)

text \<open>The merkle tree of a block: pairs are hashed level by level, the last node of an odd level
  with itself.\<close>

fun merkleLevel :: "bytes list \<Rightarrow> bytes list" where
  "merkleLevel [] = []"
| "merkleLevel [x] = [sha256 (sha256 (x @ x))]"
| "merkleLevel (x # y # xs) = sha256 (sha256 (x @ y)) # merkleLevel xs"

lemma length_merkleLevel: "length (merkleLevel xs) = (length xs + 1) div 2"
  by (induction xs rule: merkleLevel.induct) simp_all

function merkleTreeRoot :: "bytes list \<Rightarrow> bytes" where
  "merkleTreeRoot [] = replicate 32 0"
| "merkleTreeRoot [x] = x"
| "merkleTreeRoot (x # y # xs) = merkleTreeRoot (merkleLevel (x # y # xs))"
  by pat_completeness auto
termination
  by (relation "measure length") (auto simp: length_merkleLevel)

text \<open>The branch that a pool sends: the siblings on the path from the first leaf to the root, from
  the leaves after the first.\<close>

function merkleBranch :: "bytes list \<Rightarrow> bytes list" where
  "merkleBranch [] = []"
| "merkleBranch (b # xs) = b # merkleBranch (merkleLevel xs)"
  by pat_completeness auto
termination
  by (relation "measure length") (auto simp: length_merkleLevel)

lemma merkleBranch_root:
  "foldl (\<lambda>h b. sha256 (sha256 (h @ b))) c (merkleBranch xs) = merkleTreeRoot (c # xs)"
  by (induction xs arbitrary: c rule: merkleBranch.induct) simp_all

lemma length_merkleLevel_elem: "\<forall>x \<in> set (merkleLevel xs). length x = 32"
  by (induction xs rule: merkleLevel.induct) simp_all

lemma length_merkleBranch_elem:
  "\<forall>x \<in> set xs. length x = 32 \<Longrightarrow> \<forall>x \<in> set (merkleBranch xs). length x = 32"
  by (induction xs rule: merkleBranch.induct) (simp_all add: length_merkleLevel_elem)

lemma foldl_doubleSHA256:
  assumes "length (ctx_buf ctx) = 64"
  shows "length c = 32 \<Longrightarrow> \<forall>b \<in> set bs. length b = 32 \<Longrightarrow>
    foldl (\<lambda>h b. doubleSHA256 ctx (h @ b)) c bs = foldl (\<lambda>h b. sha256 (sha256 (h @ b))) c bs"
  by (induction bs arbitrary: c) (simp_all add: doubleSHA256_sha256 [OF assms])

lemma calculateMerkleRoot_tree:
  assumes "length (ctx_buf ctx) = 64" "length (cb1 @ en1 @ en2 @ cb2) < 2 ^ 64" "\<forall>t \<in> set txs. length t = 32"
  shows "calculateMerkleRoot ctx cb1 cb2 en1 en2 (merkleBranch txs) =
    merkleTreeRoot (sha256 (sha256 (cb1 @ en1 @ en2 @ cb2)) # txs)"
  using assms doubleSHA256_sha256 [OF assms(1,2)]
  by (simp add: calculateMerkleRoot_def Let_def foldl_doubleSHA256 length_merkleBranch_elem merkleBranch_root)

section \<open>Hash against target\<close>

text \<open>The loop, with \<open>n\<close> bytes left to compare, from the most significant one down.\<close>

fun verifyLoop :: "bytes \<Rightarrow> bytes \<Rightarrow> nat \<Rightarrow> bool" where
  "verifyLoop hash target 0 = True"
| "verifyLoop hash target (Suc i) =
     (if hash ! i < target ! i then True
      else if hash ! i > target ! i then False
      else verifyLoop hash target i)"

definition verifyHashVsTarget :: "bytes \<Rightarrow> bytes \<Rightarrow> bool" where
  "verifyHashVsTarget hash target = verifyLoop hash target 32"

lemma verifyLoop_le_nat:
  "n \<le> length h \<Longrightarrow> n \<le> length t \<Longrightarrow> verifyLoop h t n \<longleftrightarrow> le_nat (take n h) \<le> le_nat (take n t)"
proof (induction n)
  case (Suc n)
  have split: "le_nat (take (Suc n) x) = le_nat (take n x) + 256 ^ n * unat (x ! n)"
    if "Suc n \<le> length x" for x
    using that by (simp add: take_Suc_conv_app_nth le_nat_append)
  have less: "le_nat (take n x) < 256 ^ n" for x by (rule le_nat_less_exp) simp
  have gt: "a + 256 ^ n * u < b + 256 ^ n * v" if "u < v" "a < 256 ^ n" for a b u v :: nat
  proof -
    have "a + 256 ^ n * u < 256 ^ n * Suc u" using that by simp
    also have "\<dots> \<le> 256 ^ n * v" using that by (intro mult_le_mono2) simp
    finally show ?thesis by simp
  qed
  consider "h ! n < t ! n" | "h ! n = t ! n" | "h ! n > t ! n" by fastforce
  then show ?case
  proof cases
    case 1
    then show ?thesis
      using gt [OF _ less] Suc.prems by (simp add: split word_less_nat_alt less_imp_le)
  next
    case 2
    then show ?thesis using Suc by (simp add: split)
  next
    case 3
    then show ?thesis
      using gt [OF _ less] Suc.prems by (simp add: split word_less_nat_alt not_le)
  qed
qed simp

lemma verifyHashVsTarget_le:
  "length h = 32 \<Longrightarrow> length t = 32 \<Longrightarrow> verifyHashVsTarget h t \<longleftrightarrow> le_nat h \<le> le_nat t"
  unfolding verifyHashVsTarget_def by (subst verifyLoop_le_nat) simp_all

text \<open>A hash meets the base target divided by a difficulty exactly if the hash times the
  difficulty does not exceed the base target.\<close>

lemma verify_divided_target:
  assumes "length h = 32" "length t = 32" "0 < unat d"
  shows "verifyHashVsTarget h (divideTarget t d) \<longleftrightarrow> le_nat h * unat d \<le> le_nat t"
proof (cases "1 < unat d")
  case True
  from divideTarget_number [OF assms(2) True] show ?thesis
    using assms by (simp add: verifyHashVsTarget_le less_eq_div_iff_mult_less_eq)
next
  case False
  then have d1: "unat d = 1" using assms(3) by simp
  then have "d \<le> 1" by (simp add: word_le_nat_alt)
  then have "divideTarget t d = t" by (simp add: divideTarget_def)
  then show ?thesis using assms d1 by (simp add: verifyHashVsTarget_le)
qed

section \<open>Properties\<close>

text \<open>
  Converting bytes to a hexadecimal string and back, in the same byte order, is the identity, and
  the string has only lower-case digits.
\<close>

lemma hex_bytes_roundtrip: "hexToBytes (bytesToHex bs fmt) fmt = bs"
  by (rule hex_roundtrip)

text \<open>
  A string of lower-case hexadecimal digits of even length survives the conversion to bytes and back.
\<close>

theorem hex_string_roundtrip:
  assumes "even (length s)" "isLowerHex s"
  shows "bytesToHex (hexToBytes s fmt) fmt = s"
  using assms by (rule hex_roundtrip_string)

theorem hex_string_roundtrip_witness:
  "even (length ''00ff1b'') \<and> bytesToHex (hexToBytes ''00ff1b'' LittleEndian) LittleEndian = ''00ff1b''"
  using hex_string_roundtrip [of "''00ff1b''" LittleEndian] by (simp add: isLowerHex_def)

text \<open>
  C34: from the branch of the merkle tree that a pool sends, \<open>calculateMerkleRoot\<close> computes the root of
  the whole tree whose first leaf is the hash of the coinbase transaction.
\<close>

theorem calculateMerkleRoot_of_tree:
  assumes "length (ctx_buf ctx) = 64" "length (cb1 @ en1 @ en2 @ cb2) < 2 ^ 64" "\<forall>t \<in> set txs. length t = 32"
  shows "calculateMerkleRoot ctx cb1 cb2 en1 en2 (merkleBranch txs) =
    merkleTreeRoot (sha256 (sha256 (cb1 @ en1 @ en2 @ cb2)) # txs)"
  using assms by (rule calculateMerkleRoot_tree)

theorem calculateMerkleRoot_of_tree_witness:
  "calculateMerkleRoot \<lparr>ctx_state = [], ctx_count = [], ctx_buf = replicate 64 0\<rparr> [1] [2] [3] [4]
     (merkleBranch [replicate 32 1, replicate 32 2]) =
   merkleTreeRoot (sha256 (sha256 ([1] @ [3] @ [4] @ [2])) # [replicate 32 1, replicate 32 2])"
  by (rule calculateMerkleRoot_of_tree) simp_all

text \<open>
  C14: \<open>verifyHashVsTarget\<close> holds exactly if the hash, as a little-endian 256-bit number, is at most the
  target.
\<close>

theorem verifyHashVsTarget_iff:
  assumes "length h = 32" "length t = 32"
  shows "verifyHashVsTarget h t \<longleftrightarrow> le_nat h \<le> le_nat t"
  using assms by (rule verifyHashVsTarget_le)

theorem verifyHashVsTarget_iff_witness:
  "verifyHashVsTarget (replicate 31 0xff @ [0]) (replicate 31 0 @ [1]) \<longleftrightarrow>
   le_nat (replicate 31 0xff @ [0]) \<le> le_nat (replicate 31 0 @ [1])"
  by (rule verifyHashVsTarget_iff) simp_all

text \<open>
  A hash meets the base target divided by the pool's difficulty exactly if hash times difficulty does
  not exceed the base target.
\<close>

lemma share_meets_divided_target:
  assumes "length h = 32" "length t = 32" "0 < unat d"
  shows "verifyHashVsTarget h (divideTarget t d) \<longleftrightarrow> le_nat h * unat d \<le> le_nat t"
  using assms by (rule verify_divided_target)

end
