(* ===== verification/Structs.thy ===== *)
theory Structs
  imports Prelude
begin

text \<open>
  The records of \<open>dispatcher/src/structs.h\<close>.  The structs that travel over the network are
  packed: \<open>encode\<close> functions give the bytes that \<open>memcpy\<close> of the struct produces on the
  little-endian targets, \<open>read\<close> functions the struct that a \<open>reinterpret_cast\<close> of a buffer
  position denotes.
\<close>

definition SIGNATURE_SIZE :: nat where "SIGNATURE_SIZE = 64"
definition NUM_COMPUTORS :: nat where "NUM_COMPUTORS = 676"
definition INT32_MAX :: nat where "INT32_MAX = 0x7FFFFFFF"

section \<open>Statistics\<close>

record PeerStats =
  ps_ip :: string
  ps_port :: int
  ps_reconnects :: u64
  ps_solutionsReceived :: u64
  ps_packetsReceived :: u64
  ps_bytesReceived :: u64
  ps_disconnects :: u64
  ps_sendFailures :: u64

record DispatcherStats =
  st_tasksDistributed :: u64
  st_solutionsReceived :: u64
  st_solutionsAccepted :: u64
  st_solutionsRejected :: u64
  st_solutionsStale :: u64
  st_solutionsPassedPoolDiff :: u64
  st_poolSharesAccepted :: u64
  st_poolSharesRejected :: u64
  st_poolDifficulty :: u64
  st_computorShares :: "u64 list"
  st_computorLastSeen :: "int list"

definition initialStats :: DispatcherStats where
  "initialStats = \<lparr>st_tasksDistributed = 0, st_solutionsReceived = 0, st_solutionsAccepted = 0,
     st_solutionsRejected = 0, st_solutionsStale = 0, st_solutionsPassedPoolDiff = 0,
     st_poolSharesAccepted = 0, st_poolSharesRejected = 0, st_poolDifficulty = 1,
     st_computorShares = replicate NUM_COMPUTORS 0, st_computorLastSeen = replicate NUM_COMPUTORS 0\<rparr>"

section \<open>Tasks and solutions\<close>

definition DOGE :: byte where "DOGE = 0"

record CustomQubicMiningTask =
  cqt_jobId :: u64
  cqt_customMiningType :: byte

definition CustomQubicMiningTask_type :: byte where "CustomQubicMiningTask_type = 68"

record QubicDogeMiningTask =
  dt_cleanJobQueue :: byte
  dt_dispatcherDifficulty :: bytes
  dt_version :: bytes
  dt_nTime :: bytes
  dt_nBits :: bytes
  dt_prevHash :: bytes
  dt_extraNonce1NumBytes :: u32
  dt_coinbase1NumBytes :: u32
  dt_coinbase2NumBytes :: u32
  dt_numMerkleBranches :: u32

record CustomQubicMiningSolution =
  cqs_sourcePublicKey :: bytes
  cqs_jobId :: u64
  cqs_customMiningType :: byte

definition CustomQubicMiningSolution_type :: byte where "CustomQubicMiningSolution_type = 69"

record QubicDogeMiningSolution =
  ds_nTime :: bytes
  ds_nonce :: bytes
  ds_merkleRoot :: bytes
  ds_extraNonce2 :: bytes

record DispatcherMiningTask =
  dmt_taskId :: string
  dmt_targetPool :: bytes
  dmt_partialHeader :: bytes
  dmt_nBits :: bytes
  dmt_extraNonce1 :: bytes
  dmt_coinbase1 :: bytes
  dmt_coinbase2 :: bytes
  dmt_merkleBranches :: "bytes list"

definition extraNonce2NumBytes :: nat where "extraNonce2NumBytes = 8"

record DispatcherMiningSolution =
  dms_jobId :: u64
  dms_nTime :: bytes
  dms_nonce :: bytes
  dms_merkleRoot :: bytes
  dms_extraNonce2 :: bytes
  dms_sourcePublicKey :: bytes

section \<open>The message header\<close>

record RequestResponseHeader =
  rrh_size :: bytes
  rrh_type :: byte
  rrh_dejavu :: u32

text \<open>\<open>size()\<close> reads four bytes at the address of \<open>_size\<close>, so the type byte is masked away.\<close>

definition header_size :: "RequestResponseHeader \<Rightarrow> u32" where
  "header_size h =
     (let w = load_le (rrh_size h @ [rrh_type h]) :: u32
      in if w AND 0xFFFFFF = 0 then of_nat INT32_MAX else w AND 0xFFFFFF)"

definition header_setSize :: "u32 \<Rightarrow> RequestResponseHeader \<Rightarrow> RequestResponseHeader" where
  "header_setSize n h = h\<lparr>rrh_size := [ucast n, ucast (drop_bit 8 n), ucast (drop_bit 16 n)]\<rparr>"

definition header_zeroDejavu :: "RequestResponseHeader \<Rightarrow> RequestResponseHeader" where
  "header_zeroDejavu h = h\<lparr>rrh_dejavu := 0\<rparr>"

definition header_setType :: "byte \<Rightarrow> RequestResponseHeader \<Rightarrow> RequestResponseHeader" where
  "header_setType t h = h\<lparr>rrh_type := t\<rparr>"

definition header_ok :: "RequestResponseHeader \<Rightarrow> bool" where
  "header_ok h \<longleftrightarrow> length (rrh_size h) = 3"

record ExchangePublicPeers =
  epp_peers :: "bytes list"

definition ExchangePublicPeers_type :: byte where "ExchangePublicPeers_type = 0"

section \<open>Layout\<close>

definition sizeof_header :: nat where "sizeof_header = 8"
definition sizeof_CustomQubicMiningTask :: nat where "sizeof_CustomQubicMiningTask = 9"
definition sizeof_QubicDogeMiningTask :: nat where "sizeof_QubicDogeMiningTask = 65"
definition sizeof_CustomQubicMiningSolution :: nat where "sizeof_CustomQubicMiningSolution = 41"
definition sizeof_QubicDogeMiningSolution :: nat where "sizeof_QubicDogeMiningSolution = 48"

lemmas sizeof_defs [layout] = sizeof_header_def sizeof_CustomQubicMiningTask_def sizeof_QubicDogeMiningTask_def
  sizeof_CustomQubicMiningSolution_def sizeof_QubicDogeMiningSolution_def SIGNATURE_SIZE_def

definition field :: "nat \<Rightarrow> nat \<Rightarrow> bytes \<Rightarrow> bytes" where
  "field off n buf = take n (drop off buf)"

definition encode_header :: "RequestResponseHeader \<Rightarrow> bytes" where
  "encode_header h = rrh_size h @ [rrh_type h] @ store_le 4 (rrh_dejavu h)"

definition read_header :: "bytes \<Rightarrow> RequestResponseHeader" where
  "read_header buf = \<lparr>rrh_size = field 0 3 buf, rrh_type = buf ! 3, rrh_dejavu = load_le (field 4 4 buf)\<rparr>"

definition encode_CustomQubicMiningTask :: "CustomQubicMiningTask \<Rightarrow> bytes" where
  "encode_CustomQubicMiningTask t = store_le 8 (cqt_jobId t) @ [cqt_customMiningType t]"

definition read_CustomQubicMiningTask :: "bytes \<Rightarrow> CustomQubicMiningTask" where
  "read_CustomQubicMiningTask buf = \<lparr>cqt_jobId = load_le (field 0 8 buf), cqt_customMiningType = buf ! 8\<rparr>"

definition encode_QubicDogeMiningTask :: "QubicDogeMiningTask \<Rightarrow> bytes" where
  "encode_QubicDogeMiningTask t =
     [dt_cleanJobQueue t] @ dt_dispatcherDifficulty t @ dt_version t @ dt_nTime t @ dt_nBits t @ dt_prevHash t @
     store_le 4 (dt_extraNonce1NumBytes t) @ store_le 4 (dt_coinbase1NumBytes t) @
     store_le 4 (dt_coinbase2NumBytes t) @ store_le 4 (dt_numMerkleBranches t)"

definition read_QubicDogeMiningTask :: "bytes \<Rightarrow> QubicDogeMiningTask" where
  "read_QubicDogeMiningTask buf =
     \<lparr>dt_cleanJobQueue = buf ! 0, dt_dispatcherDifficulty = field 1 4 buf, dt_version = field 5 4 buf,
      dt_nTime = field 9 4 buf, dt_nBits = field 13 4 buf, dt_prevHash = field 17 32 buf,
      dt_extraNonce1NumBytes = load_le (field 49 4 buf), dt_coinbase1NumBytes = load_le (field 53 4 buf),
      dt_coinbase2NumBytes = load_le (field 57 4 buf), dt_numMerkleBranches = load_le (field 61 4 buf)\<rparr>"

definition task_ok :: "QubicDogeMiningTask \<Rightarrow> bool" where
  "task_ok t \<longleftrightarrow> length (dt_dispatcherDifficulty t) = 4 \<and> length (dt_version t) = 4 \<and> length (dt_nTime t) = 4 \<and>
     length (dt_nBits t) = 4 \<and> length (dt_prevHash t) = 32"

definition encode_CustomQubicMiningSolution :: "CustomQubicMiningSolution \<Rightarrow> bytes" where
  "encode_CustomQubicMiningSolution s = cqs_sourcePublicKey s @ store_le 8 (cqs_jobId s) @ [cqs_customMiningType s]"

definition read_CustomQubicMiningSolution :: "bytes \<Rightarrow> CustomQubicMiningSolution" where
  "read_CustomQubicMiningSolution buf =
     \<lparr>cqs_sourcePublicKey = field 0 32 buf, cqs_jobId = load_le (field 32 8 buf), cqs_customMiningType = buf ! 40\<rparr>"

definition encode_QubicDogeMiningSolution :: "QubicDogeMiningSolution \<Rightarrow> bytes" where
  "encode_QubicDogeMiningSolution s = ds_nTime s @ ds_nonce s @ ds_merkleRoot s @ ds_extraNonce2 s"

definition read_QubicDogeMiningSolution :: "bytes \<Rightarrow> QubicDogeMiningSolution" where
  "read_QubicDogeMiningSolution buf =
     \<lparr>ds_nTime = field 0 4 buf, ds_nonce = field 4 4 buf, ds_merkleRoot = field 8 32 buf, ds_extraNonce2 = field 40 8 buf\<rparr>"

definition solution_ok :: "QubicDogeMiningSolution \<Rightarrow> bool" where
  "solution_ok s \<longleftrightarrow> length (ds_nTime s) = 4 \<and> length (ds_nonce s) = 4 \<and> length (ds_merkleRoot s) = 32 \<and>
     length (ds_extraNonce2 s) = 8"

lemma load_store_4 [simp]: "load_le (store_le 4 (w :: u32)) = w"
  by (rule load_store_le) simp

lemma load_store_8 [simp]: "load_le (store_le 8 (w :: u64)) = w"
  by (rule load_store_le) simp

lemma length_encode [layout]:
  "header_ok h \<Longrightarrow> length (encode_header h) = sizeof_header"
  "length (encode_CustomQubicMiningTask ct) = sizeof_CustomQubicMiningTask"
  "task_ok dt \<Longrightarrow> length (encode_QubicDogeMiningTask dt) = sizeof_QubicDogeMiningTask"
  "length (cqs_sourcePublicKey cs) = 32 \<Longrightarrow>
     length (encode_CustomQubicMiningSolution cs) = sizeof_CustomQubicMiningSolution"
  "solution_ok s \<Longrightarrow> length (encode_QubicDogeMiningSolution s) = sizeof_QubicDogeMiningSolution"
  by (simp_all add: encode_header_def encode_CustomQubicMiningTask_def encode_QubicDogeMiningTask_def
      encode_CustomQubicMiningSolution_def encode_QubicDogeMiningSolution_def header_ok_def task_ok_def
      solution_ok_def sizeof_defs)

text \<open>Reading back what was written, whatever follows in the buffer.\<close>

lemma read_encode_header: "header_ok h \<Longrightarrow> read_header (encode_header h @ rest) = h"
  by (simp add: read_header_def encode_header_def header_ok_def field_def nth_append)

lemma read_encode_CustomQubicMiningTask: "read_CustomQubicMiningTask (encode_CustomQubicMiningTask t @ rest) = t"
  by (simp add: read_CustomQubicMiningTask_def encode_CustomQubicMiningTask_def field_def nth_append)

lemma read_encode_QubicDogeMiningTask:
  "task_ok t \<Longrightarrow> read_QubicDogeMiningTask (encode_QubicDogeMiningTask t @ rest) = t"
  by (simp add: read_QubicDogeMiningTask_def encode_QubicDogeMiningTask_def task_ok_def field_def)

lemma read_encode_CustomQubicMiningSolution:
  "length (cqs_sourcePublicKey s) = 32 \<Longrightarrow>
   read_CustomQubicMiningSolution (encode_CustomQubicMiningSolution s @ rest) = s"
  by (simp add: read_CustomQubicMiningSolution_def encode_CustomQubicMiningSolution_def field_def nth_append)

lemma read_encode_QubicDogeMiningSolution:
  "solution_ok s \<Longrightarrow> read_QubicDogeMiningSolution (encode_QubicDogeMiningSolution s @ rest) = s"
  by (simp add: read_QubicDogeMiningSolution_def encode_QubicDogeMiningSolution_def solution_ok_def field_def)

section \<open>The size field\<close>

lemma header_size_nat:
  assumes "header_ok h"
  shows "unat (header_size h) = (if le_nat (rrh_size h) = 0 then INT32_MAX else le_nat (rrh_size h))"
proof -
  let ?w = "load_le (rrh_size h @ [rrh_type h]) :: u32"
  have less: "le_nat (rrh_size h) < 256 ^ 3" using le_nat_less [of "rrh_size h"] assms by (simp add: header_ok_def)
  have "(0xFFFFFF :: u32) = mask 24" by (simp add: mask_eq_exp_minus_1)
  then have "unat (?w AND 0xFFFFFF) = unat (take_bit 24 ?w)" by (simp only: take_bit_eq_mask)
  also have "\<dots> = unat ?w mod 2 ^ 24" by (simp add: unsigned_take_bit_eq take_bit_nat_def)
  also have "unat ?w = le_nat (rrh_size h) + 256 ^ 3 * unat (rrh_type h)"
    using assms by (subst unat_load_le) (simp_all add: header_ok_def le_nat_append)
  also have "\<dots> mod 2 ^ 24 = le_nat (rrh_size h)" using less by simp
  finally have low: "unat (?w AND 0xFFFFFF) = le_nat (rrh_size h)" .
  then have "?w AND 0xFFFFFF = 0 \<longleftrightarrow> le_nat (rrh_size h) = 0" by (metis unat_eq_zero)
  then show ?thesis using low by (simp add: header_size_def Let_def INT32_MAX_def)
qed

lemma header_ok_setSize [simp]: "header_ok (header_setSize n h)"
  by (simp add: header_ok_def header_setSize_def)

lemma header_size_setSize:
  "unat (header_size (header_setSize n h)) = (if unat n mod 2 ^ 24 = 0 then INT32_MAX else unat n mod 2 ^ 24)"
proof -
  have "rrh_size (header_setSize n h) = nat_le 3 (unat n)"
    by (simp add: header_setSize_def nat_le_3 word_unat_eq_iff low_byte unat_of_nat)
  then have "le_nat (rrh_size (header_setSize n h)) = unat n mod 2 ^ 24" by (simp add: le_nat_nat_le)
  then show ?thesis by (simp add: header_size_nat)
qed

lemma header_size_type: "header_ok h \<Longrightarrow> header_size (header_setType t h) = header_size h"
  using header_size_nat [of h] header_size_nat [of "header_setType t h"]
  by (simp add: header_setType_def header_ok_def word_unat_eq_iff)

section \<open>Properties\<close>

text \<open>
  \<open>size()\<close> returns what \<open>setSize\<close> stored, cut to 24 bits, and \<open>INT32_MAX\<close> when these bits are zero;
  the type byte behind the size field has no influence.
\<close>

lemma header_size_roundtrip:
  "unat (header_size (header_setType ty (header_setSize n h))) =
   (if unat n mod 2 ^ 24 = 0 then INT32_MAX else unat n mod 2 ^ 24)"
  by (simp add: header_size_type header_size_setSize)

end
