(* ===== verification/Concurrency.thy ===== *)
theory Concurrency
  imports Prelude "HOL-Library.AList"
begin

text \<open>
  The thread-safe containers of \<open>dispatcher/src/concurrency\<close>.  Every method runs with the
  mutex held, so a method is one atomic step on the contents; threads interleave between
  methods.  The interfaces the other components rely on are the locales \<open>fifo\<close> and \<open>key_map\<close>,
  interpreted by the two classes; the waiting of \<open>pop\<close> on the condition variable is a step
  relation of its own.
\<close>

section \<open>The queue\<close>

record 'a ConcurrentQueue =
  m_queue :: "'a list"

definition q_push :: "'a ConcurrentQueue \<Rightarrow> 'a \<Rightarrow> 'a ConcurrentQueue" where
  "q_push q x = q\<lparr>m_queue := m_queue q @ [x]\<rparr>"

text \<open>The part of \<open>pop\<close> after the wait; \<open>None\<close> when the predicate of the wait is false.\<close>

definition q_pop :: "'a ConcurrentQueue \<Rightarrow> ('a \<times> 'a ConcurrentQueue) option" where
  "q_pop q = (case m_queue q of [] \<Rightarrow> None | x # xs \<Rightarrow> Some (x, q\<lparr>m_queue := xs\<rparr>))"

definition q_clear :: "'a ConcurrentQueue \<Rightarrow> 'a ConcurrentQueue" where
  "q_clear q = q\<lparr>m_queue := []\<rparr>"

definition q_try_pop :: "'a ConcurrentQueue \<Rightarrow> 'a option \<times> 'a ConcurrentQueue" where
  "q_try_pop q = (case m_queue q of [] \<Rightarrow> (None, q) | x # xs \<Rightarrow> (Some x, q\<lparr>m_queue := xs\<rparr>))"

definition q_size :: "'a ConcurrentQueue \<Rightarrow> nat" where
  "q_size q = length (m_queue q)"

text \<open>What a client of a queue relies on.\<close>

locale fifo =
  fixes contents :: "'q \<Rightarrow> 'a list"
    and push :: "'q \<Rightarrow> 'a \<Rightarrow> 'q"
    and try_pop :: "'q \<Rightarrow> 'a option \<times> 'q"
  assumes contents_push: "contents (push q x) = contents q @ [x]"
    and try_pop_None: "fst (try_pop q) = None \<Longrightarrow> contents q = [] \<and> contents (snd (try_pop q)) = []"
    and try_pop_Some: "fst (try_pop q) = Some x \<Longrightarrow> contents q = x # contents (snd (try_pop q))"
begin

text \<open>A history of calls by any number of threads: \<open>Some x\<close> pushes \<open>x\<close>, \<open>None\<close> pops.  The values
  handed out, in order, followed by what is left, are the initial contents followed by the
  values pushed.\<close>

primrec history :: "'a option list \<Rightarrow> 'q \<Rightarrow> 'a list \<times> 'q" where
  "history [] q = ([], q)"
| "history (op # ops) q =
     (case op of
        Some x \<Rightarrow> history ops (push q x)
      | None \<Rightarrow> (case try_pop q of (r, q') \<Rightarrow> (case history ops q' of (out, q'') \<Rightarrow>
          (case r of None \<Rightarrow> out | Some x \<Rightarrow> x # out, q''))))"

lemma history_fifo:
  "history ops q = (out, q') \<Longrightarrow> out @ contents q' = contents q @ List.map_filter (\<lambda>op. op) ops"
proof (induction ops arbitrary: q out q')
  case Nil
  then show ?case by (simp add: List.map_filter_def)
next
  case (Cons op ops)
  show ?case
  proof (cases op)
    case (Some x)
    with Cons.prems have "history ops (push q x) = (out, q')" by simp
    from Cons.IH [OF this] Some show ?thesis by (simp add: contents_push List.map_filter_simps)
  next
    case None
    obtain r q1 where r: "try_pop q = (r, q1)" by fastforce
    obtain out1 q2 where h: "history ops q1 = (out1, q2)" by fastforce
    with Cons.IH have IH: "out1 @ contents q2 = contents q1 @ List.map_filter (\<lambda>op. op) ops" by blast
    have eq: "q' = q2" "out = (case r of None \<Rightarrow> out1 | Some x \<Rightarrow> x # out1)"
      using Cons.prems None r h by simp_all
    show ?thesis
      using IH try_pop_None [of q] try_pop_Some [of q] None r
      by (cases r) (simp_all add: eq List.map_filter_simps)
  qed
qed

end

interpretation cq: fifo m_queue q_push q_try_pop
  by unfold_locales (auto simp: q_push_def q_try_pop_def split: list.splits)

text \<open>The contents of the queue after a history, and the values it handed out.\<close>

fun queueHistory :: "'a option list \<Rightarrow> 'a ConcurrentQueue \<Rightarrow> 'a list \<times> 'a ConcurrentQueue" where
  "queueHistory [] q = ([], q)"
| "queueHistory (Some x # ops) q = queueHistory ops (q_push q x)"
| "queueHistory (None # ops) q =
     (case q_try_pop q of (r, q') \<Rightarrow> (case queueHistory ops q' of (out, q'') \<Rightarrow>
        (case r of None \<Rightarrow> out | Some x \<Rightarrow> x # out, q'')))"

lemma queueHistory_history: "queueHistory ops q = cq.history ops q"
  by (induction ops q rule: queueHistory.induct) (simp_all split: prod.splits)

section \<open>Waiting for data\<close>

text \<open>The threads at the condition variable: \<open>sleeping\<close> wait inside \<open>m_cv.wait\<close>, \<open>woken\<close> have been
  notified or woken spuriously and compete for the mutex, \<open>toNotify\<close> counts pushes that have
  released the mutex and not yet called \<open>notify_one\<close>.\<close>

record 'a waitState =
  w_queue :: "'a list"
  sleeping :: nat
  woken :: nat
  toNotify :: nat

text \<open>The steps that the implementation takes by itself: a pending notification is delivered, or a woken thread runs.  New calls
  and spurious wake-ups are not among them.\<close>

inductive q_own :: "'a waitState \<Rightarrow> 'a waitState \<Rightarrow> bool" where
  notify_idle: "toNotify s = Suc n \<Longrightarrow> sleeping s = 0 \<Longrightarrow> q_own s (s\<lparr>toNotify := n\<rparr>)"
| notify: "toNotify s = Suc n \<Longrightarrow> sleeping s = Suc m \<Longrightarrow>
    q_own s (s\<lparr>toNotify := n, sleeping := m, woken := Suc (woken s)\<rparr>)"
| wake_pop: "woken s = Suc k \<Longrightarrow> w_queue s = x # xs \<Longrightarrow> q_own s (s\<lparr>woken := k, w_queue := xs\<rparr>)"
| wake_wait: "woken s = Suc k \<Longrightarrow> w_queue s = [] \<Longrightarrow>
    q_own s (s\<lparr>woken := k, sleeping := Suc (sleeping s)\<rparr>)"

text \<open>All steps: those, the calls of other threads, and spurious wake-ups.\<close>

inductive q_step :: "'a waitState \<Rightarrow> 'a waitState \<Rightarrow> bool" where
  own: "q_own s s' \<Longrightarrow> q_step s s'"
| push: "q_step s (s\<lparr>w_queue := w_queue s @ [x], toNotify := Suc (toNotify s)\<rparr>)"
| pop_now: "w_queue s = x # xs \<Longrightarrow> q_step s (s\<lparr>w_queue := xs\<rparr>)"
| pop_wait: "w_queue s = [] \<Longrightarrow> q_step s (s\<lparr>sleeping := Suc (sleeping s)\<rparr>)"
| spurious: "sleeping s = Suc m \<Longrightarrow> q_step s (s\<lparr>sleeping := m, woken := Suc (woken s)\<rparr>)"
| clear: "q_step s (s\<lparr>w_queue := []\<rparr>)"

inductive q_reachable :: "'a waitState \<Rightarrow> bool" where
  init: "q_reachable \<lparr>w_queue = [], sleeping = 0, woken = 0, toNotify = 0\<rparr>"
| step: "q_reachable s \<Longrightarrow> q_step s s' \<Longrightarrow> q_reachable s'"

inductive_cases q_ownE: "q_own s s'"
inductive_cases q_stepE: "q_step s s'"

text \<open>No wake-up is lost: while a thread sleeps, there is a woken thread or a notification on its
  way for every element of the queue.\<close>

lemma wakeup_inv: "q_reachable s \<Longrightarrow> sleeping s = 0 \<or> length (w_queue s) \<le> woken s + toNotify s"
  by (induction rule: q_reachable.induct) (auto elim!: q_stepE q_ownE)

lemma own_reachable: "q_own\<^sup>*\<^sup>* s t \<Longrightarrow> q_reachable s \<Longrightarrow> q_reachable t"
  by (induction rule: rtranclp_induct) (auto intro: q_reachable.step q_step.own)

text \<open>Only finitely many own steps follow each other, and they stop only when nothing is pending.\<close>

definition pendingWork :: "'a waitState \<Rightarrow> nat" where
  "pendingWork s = 2 * toNotify s + woken s"

lemma own_work: "q_own s t \<Longrightarrow> pendingWork t < pendingWork s"
  by (induction rule: q_own.induct) (simp_all add: pendingWork_def)

lemma own_bounded: "(q_own ^^ n) s t \<Longrightarrow> n + pendingWork t \<le> pendingWork s"
proof (induction n arbitrary: t)
  case (Suc n)
  then obtain u where "(q_own ^^ n) s u" "q_own u t" by auto
  with Suc.IH [of u] own_work [of u t] show ?case by simp
qed simp

lemma own_enabled:
  assumes "0 < pendingWork s"
  shows "\<exists>t. q_own s t"
proof (cases "toNotify s")
  case 0
  then obtain k where k: "woken s = Suc k" using assms by (cases "woken s") (simp_all add: pendingWork_def)
  then show ?thesis by (cases "w_queue s") (blast intro: q_own.wake_pop q_own.wake_wait)+
next
  case (Suc n)
  then show ?thesis by (cases "sleeping s") (blast intro: q_own.notify q_own.notify_idle)+
qed

lemma stuck_served:
  assumes "q_reachable s" "q_own\<^sup>*\<^sup>* s t" "\<nexists>u. q_own t u"
  shows "w_queue t = [] \<or> sleeping t = 0"
proof -
  have "pendingWork t = 0" using own_enabled [of t] assms(3) by blast
  then show ?thesis using wakeup_inv [OF own_reachable [OF assms(2,1)]] by (auto simp: pendingWork_def)
qed

lemma no_lost_wakeup:
  assumes "q_reachable s" "w_queue s \<noteq> []" "0 < sleeping s"
  shows "\<exists>s' s''. q_own\<^sup>*\<^sup>* s s' \<and> q_own s' s'' \<and> w_queue s' = w_queue s \<and> w_queue s'' = tl (w_queue s) \<and>
    0 < woken s' \<and> woken s'' = woken s' - 1"
proof -
  obtain x xs where q: "w_queue s = x # xs" using assms(2) by (cases "w_queue s") auto
  have run: "\<exists>u. q_own t u \<and> w_queue u = tl (w_queue s) \<and> woken u = woken t - 1"
    if "0 < woken t" "w_queue t = w_queue s" for t :: "'a waitState"
  proof -
    from that obtain k where "woken t = Suc k" by (cases "woken t") auto
    with that q show ?thesis
      by (intro exI [of _ "t\<lparr>woken := k, w_queue := xs\<rparr>"] conjI wake_pop) simp_all
  qed
  show ?thesis
  proof (cases "0 < woken s")
    case True
    with run [of s] show ?thesis by blast
  next
    case False
    then have "0 < toNotify s" using wakeup_inv [OF assms(1)] assms q by auto
    then obtain n m where nm: "toNotify s = Suc n" "sleeping s = Suc m"
      using assms(3) by (metis not0_implies_Suc not_gr_zero)
    let ?t = "s\<lparr>toNotify := n, sleeping := m, woken := Suc (woken s)\<rparr>"
    have "q_own s ?t" using nm by (rule notify)
    then have "q_own\<^sup>*\<^sup>* s ?t" by (rule r_into_rtranclp)
    moreover obtain u where "q_own ?t u" "w_queue u = tl (w_queue s)" "woken u = woken ?t - 1"
      using run [of ?t] by auto
    ultimately show ?thesis by (intro exI [of _ ?t] exI [of _ u]) simp
  qed
qed

section \<open>The hash map\<close>

text \<open>The entries of the \<open>unordered_map\<close>, at most one per key.\<close>

record ('k, 'v) ConcurrentHashMap =
  m_map :: "('k \<times> 'v) list"

definition hm_insert :: "('k, 'v) ConcurrentHashMap \<Rightarrow> 'k \<Rightarrow> 'v \<Rightarrow> ('k, 'v) ConcurrentHashMap" where
  "hm_insert m key v = m\<lparr>m_map := AList.update key v (m_map m)\<rparr>"

definition hm_get :: "('k, 'v) ConcurrentHashMap \<Rightarrow> 'k \<Rightarrow> 'v option" where
  "hm_get m key = map_of (m_map m) key"

definition hm_erase :: "('k, 'v) ConcurrentHashMap \<Rightarrow> 'k \<Rightarrow> bool \<times> ('k, 'v) ConcurrentHashMap" where
  "hm_erase m key = (map_of (m_map m) key \<noteq> None, m\<lparr>m_map := AList.delete key (m_map m)\<rparr>)"

definition hm_clear :: "('k, 'v) ConcurrentHashMap \<Rightarrow> ('k, 'v) ConcurrentHashMap" where
  "hm_clear m = m\<lparr>m_map := []\<rparr>"

definition hm_contains :: "('k, 'v) ConcurrentHashMap \<Rightarrow> 'k \<Rightarrow> bool" where
  "hm_contains m key \<longleftrightarrow> map_of (m_map m) key \<noteq> None"

definition hm_size :: "('k, 'v) ConcurrentHashMap \<Rightarrow> nat" where
  "hm_size m = length (m_map m)"

definition hm_inv :: "('k, 'v) ConcurrentHashMap \<Rightarrow> bool" where
  "hm_inv m \<longleftrightarrow> distinct (map fst (m_map m))"

text \<open>What a client of a map relies on.\<close>

locale key_map =
  fixes inv :: "'m \<Rightarrow> bool"
    and get :: "'m \<Rightarrow> 'k \<Rightarrow> 'v option"
    and insert :: "'m \<Rightarrow> 'k \<Rightarrow> 'v \<Rightarrow> 'm"
    and erase :: "'m \<Rightarrow> 'k \<Rightarrow> bool \<times> 'm"
    and clear :: "'m \<Rightarrow> 'm"
    and size :: "'m \<Rightarrow> nat"
  assumes get_insert: "get (insert m k v) k' = (if k' = k then Some v else get m k')"
    and get_erase: "get (snd (erase m k)) k' = (if k' = k then None else get m k')"
    and fst_erase: "fst (erase m k) \<longleftrightarrow> get m k \<noteq> None"
    and get_clear: "get (clear m) k = None"
    and inv_insert: "inv m \<Longrightarrow> inv (insert m k v)"
    and inv_erase: "inv m \<Longrightarrow> inv (snd (erase m k))"
    and inv_clear: "inv (clear m)"
    and size_card: "inv m \<Longrightarrow> size m = card {k. get m k \<noteq> None}"
    and finite_get: "finite {k. get m k \<noteq> None}"
begin

lemma size_insert: "inv m \<Longrightarrow> size (insert m k v) = (if get m k = None then Suc (size m) else size m)"
proof -
  assume inv: "inv m"
  have "{k'. get (insert m k v) k' \<noteq> None} = Set.insert k {k'. get m k' \<noteq> None}"
    by (auto simp: get_insert)
  then show ?thesis
    using inv inv_insert [OF inv] finite_get by (simp add: size_card card_insert_if)
qed

lemma erase_insert: "get (snd (erase (insert m k v) k)) k' = get (snd (erase m k)) k'"
  by (simp add: get_erase get_insert)

lemma size_clear: "size (clear m) = 0"
  using size_card [OF inv_clear, of m] by (simp add: get_clear)

end

interpretation chm: key_map hm_inv hm_get hm_insert hm_erase hm_clear hm_size
proof
  fix m :: "('a, 'b) ConcurrentHashMap"
  have dom: "{k. map_of xs k \<noteq> None} = fst ` set xs" for xs :: "('a \<times> 'b) list"
    using dom_map_of_conv_image_fst [of xs] by (simp add: dom_def)
  show "finite {k. hm_get m k \<noteq> None}" unfolding hm_get_def dom by simp
  show "hm_size m = card {k. hm_get m k \<noteq> None}" if "hm_inv m"
    using that distinct_card [of "map fst (m_map m)"]
    unfolding hm_get_def dom by (simp add: hm_size_def hm_inv_def)
qed (simp_all add: hm_get_def hm_insert_def hm_erase_def hm_clear_def hm_inv_def update_conv' delete_conv'
    distinct_update distinct_delete)

section \<open>Properties\<close>

text \<open>
  Whatever the order in which threads push and pop, the values handed out followed by the contents
  of the queue are the initial contents followed by the values pushed: nothing is lost, duplicated or
  reordered.
\<close>

lemma queue_is_fifo:
  "fst (queueHistory ops q) @ m_queue (snd (queueHistory ops q)) = m_queue q @ List.map_filter (\<lambda>op. op) ops"
  unfolding queueHistory_history by (rule cq.history_fifo) simp

text \<open>
  C32: no wake-up is lost.  From every reachable state the queue, left to itself without new calls and without spurious wake-ups, takes at
  most twice as many steps as there are pending notifications plus one per woken thread, and when it stops, the queue is empty or no thread
  sleeps in \<open>pop\<close>.  In particular, if a thread sleeps although the queue has an element, then these steps alone lead to a woken thread that
  takes the first element.
\<close>

theorem pop_no_lost_wakeup:
  assumes "q_reachable s"
  shows "(\<forall>n t. (q_own ^^ n) s t \<longrightarrow> n \<le> 2 * toNotify s + woken s) \<and>
    (\<forall>t. q_own\<^sup>*\<^sup>* s t \<and> (\<nexists>u. q_own t u) \<longrightarrow> w_queue t = [] \<or> sleeping t = 0) \<and>
    (w_queue s \<noteq> [] \<and> 0 < sleeping s \<longrightarrow>
      (\<exists>s' s''. q_own\<^sup>*\<^sup>* s s' \<and> q_own s' s'' \<and> w_queue s' = w_queue s \<and> w_queue s'' = tl (w_queue s) \<and>
        0 < woken s' \<and> woken s'' = woken s' - 1))"
proof (intro conjI allI impI)
  show "n \<le> 2 * toNotify s + woken s" if "(q_own ^^ n) s t" for n t
    using own_bounded [OF that] by (simp add: pendingWork_def)
qed (use stuck_served [OF assms] no_lost_wakeup [OF assms] in \<open>simp_all only: simp_thms\<close>)

theorem pop_no_lost_wakeup_witness:
  "\<exists>s' s''. q_own\<^sup>*\<^sup>* \<lparr>w_queue = [7 :: nat], sleeping = 1, woken = 0, toNotify = 1\<rparr> s' \<and> q_own s' s'' \<and>
     w_queue s' = [7] \<and> w_queue s'' = [] \<and> 0 < woken s' \<and> woken s'' = woken s' - 1"
proof -
  let ?i = "\<lparr>w_queue = [] :: nat list, sleeping = 0, woken = 0, toNotify = 0\<rparr>"
  have "q_reachable ?i" by (rule q_reachable.init)
  from q_reachable.step [OF this pop_wait] have "q_reachable (?i\<lparr>sleeping := 1\<rparr>)" by simp
  from q_reachable.step [OF this push, of 7]
  have "q_reachable \<lparr>w_queue = [7 :: nat], sleeping = 1, woken = 0, toNotify = 1\<rparr>" by simp
  from pop_no_lost_wakeup [OF this] show ?thesis by simp
qed

end
