(* ===== verification/Connection.thy ===== *)
theory Connection
  imports Structs
begin

text \<open>
  The class \<open>Connection\<close> of \<open>dispatcher/src/connection/connection.cpp\<close>: the socket wrapper and
  the send and receive loops.  The operating system is an input: \<open>n_incoming\<close> lists what the
  reads will deliver, \<open>n_sendResults\<close> what the sends will return, and \<open>n_outgoing\<close> collects the bytes
  that sends accepted.
\<close>

definition INVALID_SKT :: int where "INVALID_SKT = -1"

record Socket =
  s_isConnected :: bool
  s_rawSocket :: int

definition Socket_new :: Socket where
  "Socket_new = \<lparr>s_isConnected = False, s_rawSocket = INVALID_SKT\<rparr>"

definition Socket_of :: "int \<Rightarrow> Socket" where
  "Socket_of raw = \<lparr>s_isConnected = (raw \<noteq> INVALID_SKT), s_rawSocket = raw\<rparr>"

definition Socket_reset :: "Socket \<Rightarrow> Socket" where
  "Socket_reset s = \<lparr>s_isConnected = False, s_rawSocket = INVALID_SKT\<rparr>"

text \<open>Move construction returns the new socket and the emptied source; move assignment to a
  different object closes the old socket first.\<close>

definition Socket_move :: "Socket \<Rightarrow> Socket \<times> Socket" where
  "Socket_move other =
     (\<lparr>s_isConnected = (s_rawSocket other \<noteq> INVALID_SKT), s_rawSocket = s_rawSocket other\<rparr>,
      \<lparr>s_isConnected = False, s_rawSocket = INVALID_SKT\<rparr>)"

definition Socket_assign :: "Socket \<Rightarrow> Socket \<Rightarrow> Socket \<times> Socket" where
  "Socket_assign this other =
     (let this1 = Socket_reset this
      in (this1\<lparr>s_rawSocket := s_rawSocket other, s_isConnected := s_rawSocket other \<noteq> INVALID_SKT\<rparr>,
          \<lparr>s_isConnected = False, s_rawSocket = INVALID_SKT\<rparr>))"

definition socket_inv :: "Socket \<Rightarrow> bool" where
  "socket_inv s \<longleftrightarrow> (s_isConnected s \<longrightarrow> s_rawSocket s \<noteq> INVALID_SKT)"

section \<open>The network\<close>

text \<open>A read delivers data, reports the end of the stream, or fails (an error or a timeout).\<close>

datatype recvEvent = Data bytes | Closed | Fail

record Net =
  n_incoming :: "recvEvent list"
  n_sendResults :: "int list"
  n_outgoing :: bytes

text \<open>\<open>read(fd, buf, n)\<close>: the bytes it delivers, or \<open>None\<close> for a result below zero.  At the end of
  the list nothing more arrives and the read times out.\<close>

definition sock_read :: "nat \<Rightarrow> recvEvent list \<Rightarrow> bytes option \<times> recvEvent list" where
  "sock_read n es =
     (case es of
        [] \<Rightarrow> (None, [])
      | Closed # es' \<Rightarrow> (Some [], es)
      | Fail # es' \<Rightarrow> (None, es')
      | Data d # es' \<Rightarrow>
          (if length d \<le> n then (Some d, es') else (Some (take n d), Data (drop n d) # es')))"

section \<open>Sending\<close>

text \<open>The loop of both overloads of \<open>sendMessage\<close>; \<open>None\<close> when it is still waiting for \<open>send\<close>.\<close>

fun sendLoop :: "bytes \<Rightarrow> nat \<Rightarrow> int list \<Rightarrow> bytes \<Rightarrow> (bool \<times> int list \<times> bytes) option" where
  "sendLoop msg totalSent rs out =
     (if totalSent < length msg
      then (case rs of
              [] \<Rightarrow> None
            | r # rs' \<Rightarrow>
                if r = -1 then Some (False, rs', out)
                else sendLoop msg (totalSent + nat r) rs' (out @ take (nat r) (drop totalSent msg)))
      else Some (True, rs, out))"

declare sendLoop.simps [simp del]

definition sendMessage :: "bytes \<Rightarrow> Socket \<times> Net \<Rightarrow> (bool \<times> Socket \<times> Net) option" where
  "sendMessage msg = (\<lambda>(sock, net).
     if \<not> s_isConnected sock then Some (False, sock, net)
     else (case sendLoop msg 0 (n_sendResults net) (n_outgoing net) of
        None \<Rightarrow> None
      | Some (ok, rs, out) \<Rightarrow>
          Some (ok, if ok then sock else sock\<lparr>s_isConnected := False\<rparr>,
                net\<lparr>n_sendResults := rs, n_outgoing := out\<rparr>)))"

text \<open>What \<open>send\<close> documents: an error, or a positive number of bytes not above the number offered.\<close>

fun sends_ok :: "nat \<Rightarrow> int list \<Rightarrow> bool" where
  "sends_ok n [] \<longleftrightarrow> n = 0"
| "sends_ok n (r # rs) \<longleftrightarrow> n = 0 \<or> r = -1 \<or> (0 < r \<and> nat r \<le> n \<and> sends_ok (n - nat r) rs)"

lemma sendLoop_result:
  assumes "sends_ok (length msg - tot) rs" "tot \<le> length msg"
  shows "\<exists>ok rs' k. sendLoop msg tot rs out = Some (ok, rs', out @ take k (drop tot msg)) \<and>
    (ok \<longrightarrow> k = length msg - tot) \<and> (\<not> ok \<longrightarrow> k < length msg - tot \<and> -1 \<in> set rs)"
  using assms
proof (induction msg tot rs out rule: sendLoop.induct)
  case (1 msg tot rs out)
  show ?case
  proof (cases "tot < length msg")
    case False
    then show ?thesis using 1 by (subst sendLoop.simps) auto
  next
    case True
    then obtain r rs' where rs: "rs = r # rs'" using 1 by (cases rs) auto
    show ?thesis
    proof (cases "r = -1")
      case True
      then show ?thesis
        using \<open>tot < length msg\<close> by (subst sendLoop.simps) (auto simp: rs intro!: exI [of _ 0])
    next
      case False
      have r: "0 < r" "nat r \<le> length msg - tot" "sends_ok (length msg - (tot + nat r)) rs'"
        using 1 rs False True by auto
      let ?out = "out @ take (nat r) (drop tot msg)"
      have "\<exists>ok rs'' k. sendLoop msg (tot + nat r) rs' ?out = Some (ok, rs'', ?out @ take k (drop (tot + nat r) msg)) \<and>
          (ok \<longrightarrow> k = length msg - (tot + nat r)) \<and>
          (\<not> ok \<longrightarrow> k < length msg - (tot + nat r) \<and> -1 \<in> set rs')"
        using 1(1) [OF True rs False] r by simp
      then obtain ok rs'' k where IH:
        "sendLoop msg (tot + nat r) rs' ?out = Some (ok, rs'', ?out @ take k (drop (tot + nat r) msg))"
        "ok \<longrightarrow> k = length msg - (tot + nat r)"
        "\<not> ok \<longrightarrow> k < length msg - (tot + nat r) \<and> -1 \<in> set rs'"
        by blast
      have "take (nat r) (drop tot msg) @ take k (drop (tot + nat r) msg) = take (nat r + k) (drop tot msg)"
        unfolding take_add by (simp add: add.commute)
      then have "sendLoop msg tot rs out = Some (ok, rs'', out @ take (nat r + k) (drop tot msg))"
        using IH(1) True False by (subst sendLoop.simps) (simp add: rs)
      moreover have "ok \<longrightarrow> nat r + k = length msg - tot" "\<not> ok \<longrightarrow> nat r + k < length msg - tot \<and> -1 \<in> set rs"
        using IH r by (auto simp: rs)
      ultimately show ?thesis by blast
    qed
  qed
qed

lemma sendMessage_result:
  assumes "s_isConnected sock" "sends_ok (length msg) (n_sendResults net)"
  obtains ok sock' net' k where "sendMessage msg (sock, net) = Some (ok, sock', net')"
    "n_outgoing net' = n_outgoing net @ take k msg" "ok \<longleftrightarrow> k = length msg" "k \<le> length msg"
    "s_isConnected sock' \<longleftrightarrow> ok" "s_rawSocket sock' = s_rawSocket sock" "n_incoming net' = n_incoming net"
proof -
  obtain ok rs' k where run: "sendLoop msg 0 (n_sendResults net) (n_outgoing net) = Some (ok, rs', n_outgoing net @ take k msg)"
    and k: "ok \<longrightarrow> k = length msg" "\<not> ok \<longrightarrow> k < length msg"
    using sendLoop_result [of msg 0 "n_sendResults net" "n_outgoing net"] assms(2) by auto
  have "sendMessage msg (sock, net) = Some (ok, if ok then sock else sock\<lparr>s_isConnected := False\<rparr>,
      net\<lparr>n_sendResults := rs', n_outgoing := n_outgoing net @ take k msg\<rparr>)"
    using assms(1) run by (simp add: sendMessage_def)
  from that [OF this] k assms(1) show ?thesis by force
qed

section \<open>Receiving\<close>

definition receiveResponse :: "nat \<Rightarrow> Socket \<times> Net \<Rightarrow> bytes option \<times> Net" where
  "receiveResponse n = (\<lambda>(sock, net).
     if \<not> s_isConnected sock then (None, net)
     else (case sock_read n (n_incoming net) of (r, es) \<Rightarrow> (r, net\<lparr>n_incoming := es\<rparr>)))"

text \<open>\<open>receiveResponse()\<close> with the buffer of 4096 bytes returns a string, empty on failure.\<close>

definition receiveString :: "Socket \<times> Net \<Rightarrow> bytes \<times> Net" where
  "receiveString c = (case receiveResponse 4096 c of (r, net) \<Rightarrow> (case r of None \<Rightarrow> [] | Some d \<Rightarrow> d, net))"

text \<open>The loop of \<open>receiveAllData\<close>: success, the bytes written to the buffer, the rest of the input.\<close>

fun recvAll :: "nat \<Rightarrow> bytes \<Rightarrow> recvEvent list \<Rightarrow> bool \<times> bytes \<times> recvEvent list" where
  "recvAll n acc [] = (n \<le> length acc, acc, [])"
| "recvAll n acc (e # es) =
     (if n \<le> length acc then (True, acc, e # es)
      else (case e of
              Closed \<Rightarrow> (False, acc, e # es)
            | Fail \<Rightarrow> (False, acc, es)
            | Data d \<Rightarrow>
                if d = [] then (False, acc, es)
                else if length d \<le> n - length acc then recvAll n (acc @ d) es
                else (True, acc @ take (n - length acc) d, Data (drop (n - length acc) d) # es)))"

definition receiveAllData :: "nat \<Rightarrow> Socket \<times> Net \<Rightarrow> bool \<times> bytes \<times> Net" where
  "receiveAllData n = (\<lambda>(sock, net).
     if \<not> s_isConnected sock then (False, [], net)
     else (case recvAll n [] (n_incoming net) of (ok, d, es) \<Rightarrow> (ok, d, net\<lparr>n_incoming := es\<rparr>)))"

text \<open>The bytes that arrive before the stream ends or a read fails.\<close>

fun streamBytes :: "recvEvent list \<Rightarrow> bytes" where
  "streamBytes [] = []"
| "streamBytes (Data d # es) = (if d = [] then [] else d @ streamBytes es)"
| "streamBytes (Closed # es) = []"
| "streamBytes (Fail # es) = []"

lemma recvAll_ok:
  "length acc \<le> n \<Longrightarrow> n \<le> length acc + length (streamBytes es) \<Longrightarrow>
   \<exists>es'. recvAll n acc es = (True, acc @ take (n - length acc) (streamBytes es), es') \<and>
     streamBytes es' = drop (n - length acc) (streamBytes es)"
proof (induction n acc es rule: recvAll.induct)
  case (2 n acc e es)
  show ?case
  proof (cases "n = length acc")
    case False
    with 2 have lt: "\<not> n \<le> length acc" by simp
    then obtain d where e: "e = Data d" "d \<noteq> []" using 2 by (cases e) (auto split: if_splits)
    show ?thesis
    proof (cases "length d \<le> n - length acc")
      case True
      then show ?thesis using 2(1) [OF lt e(1) e(2) True] 2(2,3) e lt by simp
    next
      case False
      then show ?thesis using e lt by simp
    qed
  qed simp
qed simp

lemma recvAll_short:
  "length acc + length (streamBytes es) < n \<Longrightarrow>
   \<exists>es'. recvAll n acc es = (False, acc @ streamBytes es, es')"
proof (induction n acc es rule: recvAll.induct)
  case (2 n acc e es)
  show ?case
  proof (cases e)
    case (Data d)
    then show ?thesis using 2 by (cases "d = []") auto
  qed (use 2 in auto)
qed simp

lemma length_recvAll:
  "length acc \<le> n \<Longrightarrow> recvAll n acc es = (ok, d, es') \<Longrightarrow> length d \<le> n \<and> (ok \<longleftrightarrow> length d = n)"
proof -
  assume acc: "length acc \<le> n" and run: "recvAll n acc es = (ok, d, es')"
  show ?thesis
  proof (cases "n \<le> length acc + length (streamBytes es)")
    case True
    with recvAll_ok [OF acc this] run acc show ?thesis by auto
  next
    case False
    with recvAll_short [of acc es n] run show ?thesis by auto
  qed
qed

section \<open>Opening and closing\<close>

text \<open>The results of \<open>getaddrinfo\<close>, \<open>socket\<close> and \<open>connect\<close> are inputs.\<close>

definition closeConnection :: "Socket \<Rightarrow> Socket" where
  "closeConnection s = Socket_reset s"

definition openConnection :: "bool \<Rightarrow> int \<Rightarrow> bool \<Rightarrow> Socket \<Rightarrow> bool \<times> Socket" where
  "openConnection dnsOk raw connectOk s =
     (let s1 = closeConnection s
      in if \<not> dnsOk then (False, s1)
         else let s2 = s1\<lparr>s_rawSocket := raw\<rparr>
              in if \<not> connectOk then (False, Socket_reset s2)
                 else (True, s2\<lparr>s_isConnected := True\<rparr>))"

text \<open>\<open>connect\<close> does not succeed on an invalid descriptor.\<close>

lemma socket_inv_ops:
  "socket_inv Socket_new"
  "socket_inv (Socket_of raw)"
  "socket_inv (Socket_reset s)"
  "socket_inv (fst (Socket_move s)) \<and> socket_inv (snd (Socket_move s))"
  "socket_inv (fst (Socket_assign t s)) \<and> socket_inv (snd (Socket_assign t s))"
  "(connectOk \<Longrightarrow> raw \<noteq> INVALID_SKT) \<Longrightarrow> socket_inv (snd (openConnection dnsOk raw connectOk s))"
  "socket_inv (closeConnection s)"
  by (auto simp: socket_inv_def Socket_new_def Socket_of_def Socket_reset_def Socket_move_def Socket_assign_def
      openConnection_def closeConnection_def Let_def)

lemma socket_inv_sendMessage:
  "socket_inv sock \<Longrightarrow> sendMessage msg (sock, net) = Some (ok, sock', net') \<Longrightarrow> socket_inv sock'"
  by (auto simp: sendMessage_def socket_inv_def split: if_splits option.splits)

lemma openConnection_result:
  "fst (openConnection dnsOk raw connectOk s) \<longleftrightarrow> dnsOk \<and> connectOk"
  "s_isConnected (snd (openConnection dnsOk raw connectOk s)) \<longleftrightarrow> dnsOk \<and> connectOk"
  "\<not> (dnsOk \<and> connectOk) \<Longrightarrow> s_rawSocket (snd (openConnection dnsOk raw connectOk s)) = INVALID_SKT"
  by (auto simp: openConnection_def closeConnection_def Socket_reset_def Let_def)

section \<open>Properties\<close>

text \<open>
  C33: on a connected socket, and with sends that make progress or fail, \<open>sendMessage\<close> returns; it returns
  true exactly if the whole message was handed to the socket, in order, and after a failure a proper
  prefix was sent and the socket is marked as disconnected.
\<close>

theorem sendMessage_all_or_disconnected:
  assumes "s_isConnected sock" "sends_ok (length msg) (n_sendResults net)"
  shows "\<exists>ok sock' net' k. sendMessage msg (sock, net) = Some (ok, sock', net') \<and>
    n_outgoing net' = n_outgoing net @ take k msg \<and> k \<le> length msg \<and> (ok \<longleftrightarrow> k = length msg) \<and>
    (s_isConnected sock' \<longleftrightarrow> ok)"
  by (rule sendMessage_result [OF assms]) blast

theorem sendMessage_all_or_disconnected_witness:
  "\<exists>ok sock' net' k. sendMessage [1, 2, 3, 4, 5] (\<lparr>s_isConnected = True, s_rawSocket = 3\<rparr>,
      \<lparr>n_incoming = [], n_sendResults = [2, 3], n_outgoing = [9]\<rparr>) = Some (ok, sock', net') \<and>
    n_outgoing net' = [9] @ take k [1, 2, 3, 4, 5] \<and> k \<le> length [1, 2, 3, 4, 5 :: byte] \<and>
    (ok \<longleftrightarrow> k = length [1, 2, 3, 4, 5 :: byte]) \<and> (s_isConnected sock' \<longleftrightarrow> ok)"
  using sendMessage_all_or_disconnected [of "\<lparr>s_isConnected = True, s_rawSocket = 3\<rparr>" "[1, 2, 3, 4, 5]"
      "\<lparr>n_incoming = [], n_sendResults = [2, 3], n_outgoing = [9]\<rparr>"] by simp

text \<open>
  \<open>receiveAllData\<close> succeeds exactly if the stream still has the requested number of bytes, and then
  delivers exactly these bytes, however the stream is cut into reads, and leaves the rest.
\<close>

lemma receiveAllData_exact:
  assumes "s_isConnected sock"
  shows "case receiveAllData n (sock, net) of (ok, d, net') \<Rightarrow>
    (ok \<longleftrightarrow> n \<le> length (streamBytes (n_incoming net))) \<and> d = take n (streamBytes (n_incoming net)) \<and>
    (ok \<longrightarrow> streamBytes (n_incoming net') = drop n (streamBytes (n_incoming net)))"
proof (cases "n \<le> length (streamBytes (n_incoming net))")
  case True
  with recvAll_ok [of "[]" n "n_incoming net"] assms show ?thesis by (auto simp: receiveAllData_def)
next
  case False
  with recvAll_short [of "[]" "n_incoming net" n] assms show ?thesis by (auto simp: receiveAllData_def)
qed

end
