(* ===== verification/Qubic_Connection.thy ===== *)
theory Qubic_Connection
  imports Connection
begin

text \<open>
  The class \<open>QubicConnection\<close> of \<open>dispatcher/src/connection/qubic_connection.cpp\<close>: receiving a
  packet of an expected type during the handshake, receiving a packet with data of variable size, and opening a connection to a Qubic node.  A
  write past the end of the member buffer is the error value \<open>BufferOverflow\<close>.
\<close>

datatype netError = BufferOverflow

definition bufferSize :: nat where "bufferSize = 4096"
definition END_RESPONSE_TYPE :: byte where "END_RESPONSE_TYPE = 35"
definition RequestComputors_type :: byte where "RequestComputors_type = 11"
definition maxSkip :: nat where "maxSkip = 3"

section \<open>Receiving packets\<close>

text \<open>\<open>remainingSize = packetSize - sizeof(RequestResponseHeader)\<close> as an \<open>int\<close>, and its conversion to
  the \<open>unsigned int\<close> parameter of \<open>receiveAllData\<close>.\<close>

definition remainingSize :: "RequestResponseHeader \<Rightarrow> int" where
  "remainingSize h = uint (header_size h) - 8"

definition asUnsigned :: "int \<Rightarrow> nat" where
  "asUnsigned n = unat (of_int n :: u32)"

text \<open>Skipping a packet: its bytes are drained through the buffer in chunks.\<close>

function drainPacket :: "int \<Rightarrow> Socket \<times> Net \<Rightarrow> bool \<times> Net" where
  "drainPacket remaining c =
     (if 0 < remaining
      then let chunkSize = (if remaining < int bufferSize then remaining else int bufferSize)
           in case receiveAllData (nat chunkSize) c of (ok, d, net) \<Rightarrow>
                if \<not> ok then (False, net) else drainPacket (remaining - chunkSize) (fst c, net)
      else (True, snd c))"
  by pat_completeness auto
termination
  by (relation "measure (\<lambda>(remaining, c). nat remaining)") (auto simp: bufferSize_def split: if_splits)

declare drainPacket.simps [simp del]

text \<open>\<open>receivePacketWithHeaderAs<T>\<close> for a type with message type \<open>ty\<close> and size \<open>tsize\<close>; the first
  argument counts the packets that may still be skipped.\<close>

fun receivePacketWithHeaderAs :: "nat \<Rightarrow> byte \<Rightarrow> nat \<Rightarrow> Socket \<times> Net \<Rightarrow> netError + bytes \<times> Net" where
  "receivePacketWithHeaderAs skips ty tsize (sock, net) =
     (case receiveResponse sizeof_header (sock, net) of (r, net1) \<Rightarrow>
        if map_option length r \<noteq> Some sizeof_header then Inr (replicate tsize 0, net1)
        else let h = read_header (the r) in
          if rrh_type h = END_RESPONSE_TYPE then Inr (replicate tsize 0, net1)
          else if rrh_type h \<noteq> ty then
            (case skips of
               0 \<Rightarrow> Inr (replicate tsize 0, net1)
             | Suc k \<Rightarrow>
                (case drainPacket (remainingSize h) (sock, net1) of (ok, net2) \<Rightarrow>
                   if \<not> ok then Inr (replicate tsize 0, net2)
                   else receivePacketWithHeaderAs k ty tsize (sock, net2)))
          else if remainingSize h = 0 then Inr (replicate tsize 0, net1)
          else if remainingSize h > int bufferSize then Inr (replicate tsize 0, net1)
          else (case receiveAllData (asUnsigned (remainingSize h)) (sock, net1) of (ok, d, net2) \<Rightarrow>
            if length d > bufferSize then Inl BufferOverflow
            else if \<not> ok then Inr (replicate tsize 0, net2)
            else Inr (take tsize (d @ replicate (tsize - length d) 0), net2)))"

declare receivePacketWithHeaderAs.simps [simp del]

text \<open>Draining consumes exactly the bytes of the packet.\<close>

lemma receiveAllData_ok:
  assumes "s_isConnected sock" "n \<le> length (streamBytes (n_incoming net))"
  obtains net' where "receiveAllData n (sock, net) = (True, take n (streamBytes (n_incoming net)), net')"
    "streamBytes (n_incoming net') = drop n (streamBytes (n_incoming net))" "n_outgoing net' = n_outgoing net"
proof -
  obtain es where es: "recvAll n [] (n_incoming net) = (True, take n (streamBytes (n_incoming net)), es)"
    "streamBytes es = drop n (streamBytes (n_incoming net))"
    using recvAll_ok [of "[]" n "n_incoming net"] assms(2) by auto
  show ?thesis
    by (rule that [of "net\<lparr>n_incoming := es\<rparr>"]) (use assms es in \<open>simp_all add: receiveAllData_def\<close>)
qed

lemma drainPacket_ok:
  assumes "s_isConnected sock" "nat n \<le> length (streamBytes (n_incoming net))"
  shows "\<exists>net'. drainPacket n (sock, net) = (True, net') \<and>
    streamBytes (n_incoming net') = drop (nat n) (streamBytes (n_incoming net)) \<and> n_outgoing net' = n_outgoing net"
  using assms(2)
proof (induction "nat n" arbitrary: n net rule: less_induct)
  case less
  show ?case
  proof (cases "0 < n")
    case False
    then show ?thesis by (subst drainPacket.simps) simp
  next
    case True
    define k where "k = (if n < int bufferSize then n else int bufferSize)"
    have k: "0 < k" "k \<le> n" using True by (auto simp: k_def bufferSize_def)
    obtain net1 where n1: "receiveAllData (nat k) (sock, net) = (True, take (nat k) (streamBytes (n_incoming net)), net1)"
      "streamBytes (n_incoming net1) = drop (nat k) (streamBytes (n_incoming net))" "n_outgoing net1 = n_outgoing net"
      using receiveAllData_ok [OF assms(1), of "nat k" net] less.prems k by (auto simp: nat_le_iff)
    have "nat (n - k) < nat n" "nat (n - k) \<le> length (streamBytes (n_incoming net1))"
      using k less.prems by (auto simp: n1(2) nat_diff_distrib)
    from less.hyps [OF this] obtain net2 where
      "drainPacket (n - k) (sock, net1) = (True, net2)"
      "streamBytes (n_incoming net2) = drop (nat (n - k)) (streamBytes (n_incoming net1))"
      "n_outgoing net2 = n_outgoing net1" by blast
    moreover have "nat k + nat (n - k) = nat n" using k by (simp add: nat_diff_distrib)
    ultimately show ?thesis
      using True n1 by (subst drainPacket.simps) (simp add: k_def [symmetric] Let_def add.commute)
  qed
qed

text \<open>The buffer overflows only after a header whose size field is between 1 and 7.\<close>

lemma asUnsigned_nonneg: "0 \<le> n \<Longrightarrow> n < 2 ^ 31 \<Longrightarrow> asUnsigned n = nat n"
  by (simp add: asUnsigned_def unat_eq_nat_uint uint_word_of_int)

lemma length_receiveAllData: "receiveAllData n c = (ok, d, net) \<Longrightarrow> length d \<le> n"
  by (auto simp: receiveAllData_def split: prod.splits if_splits dest: length_recvAll [rotated])

lemma remainingSize_bounds:
  assumes "header_ok h"
  shows "remainingSize h < 2 ^ 31"
    and "remainingSize h < 0 \<longleftrightarrow> 1 \<le> le_nat (rrh_size h) \<and> le_nat (rrh_size h) \<le> 7"
proof -
  have u: "uint (header_size h) = int (if le_nat (rrh_size h) = 0 then INT32_MAX else le_nat (rrh_size h))"
    using header_size_nat [OF assms] unfolding uint_nat by simp
  have "le_nat (rrh_size h) < 256 ^ 3" using assms by (intro le_nat_less_exp) (simp add: header_ok_def)
  then show "remainingSize h < 2 ^ 31"
    "remainingSize h < 0 \<longleftrightarrow> 1 \<le> le_nat (rrh_size h) \<and> le_nat (rrh_size h) \<le> 7"
    by (auto simp: remainingSize_def u INT32_MAX_def)
qed

lemma header_ok_read: "sizeof_header \<le> length d \<Longrightarrow> header_ok (read_header d)"
  by (simp add: header_ok_def read_header_def field_def sizeof_header_def)

lemma short_size:
  assumes "length z = sizeof_header" "bufferSize < n" "n \<le> asUnsigned (remainingSize (read_header z))"
    "\<not> int bufferSize < remainingSize (read_header z)"
  shows "0 < le_nat (take 3 z) \<and> le_nat (take 3 z) < 8"
proof -
  have ok: "header_ok (read_header z)" using assms(1) by (simp add: header_ok_read)
  have "remainingSize (read_header z) < 0"
    using assms(2-4) asUnsigned_nonneg [of "remainingSize (read_header z)"] remainingSize_bounds(1) [OF ok]
    by (cases "0 \<le> remainingSize (read_header z)") auto
  moreover have "rrh_size (read_header z) = take 3 z" by (simp add: read_header_def field_def)
  ultimately show ?thesis using remainingSize_bounds(2) [OF ok] by auto
qed

text \<open>What the reads have consumed of the stream.\<close>

lemma receiveResponse_stream:
  assumes "receiveResponse n (sock, net) = (Some r, net')" "r \<noteq> []"
  shows "s_isConnected sock" "streamBytes (n_incoming net) = r @ streamBytes (n_incoming net')"
  using assms by (auto simp: receiveResponse_def sock_read_def split: if_splits list.splits recvEvent.splits)

lemma drainPacket_stream:
  assumes "drainPacket n (sock, net) = (True, net')" "s_isConnected sock"
  obtains d where "length d = nat n" "streamBytes (n_incoming net) = d @ streamBytes (n_incoming net')"
  using assms(1)
proof (induction "nat n" arbitrary: n net thesis rule: less_induct)
  case less
  show ?case
  proof (cases "0 < n")
    case False
    then show ?thesis using less.prems(2) by (intro less.prems(1) [of "[]"]) (simp_all add: drainPacket.simps [of n])
  next
    case True
    define k where "k = (if n < int bufferSize then n else int bufferSize)"
    have k: "0 < k" "k \<le> n" using True by (auto simp: k_def bufferSize_def)
    obtain ok e net1 where r: "receiveAllData (nat k) (sock, net) = (ok, e, net1)" by (metis prod_cases3)
    have m: "ok" "drainPacket (n - k) (sock, net1) = (True, net')"
      using less.prems(2) True r by (simp_all add: drainPacket.simps [of n] k_def [symmetric] Let_def split: if_splits)
    note c = receiveAllData_exact [OF assms(2), of "nat k" net, unfolded r prod.case]
    have "nat (n - k) < nat n" using k by simp
    from less.hyps [OF this _ m(2)] obtain d where d: "length d = nat (n - k)" "streamBytes (n_incoming net1) = d @ streamBytes (n_incoming net')"
      by blast
    have "streamBytes (n_incoming net) = e @ streamBytes (n_incoming net1)" "length e = nat k" using c m(1) by auto
    moreover have "nat k + nat (n - k) = nat n" using k by (simp add: nat_diff_distrib)
    ultimately show ?thesis using d by (intro less.prems(1) [of "e @ d"]) simp_all
  qed
qed

text \<open>A packet that is skipped while a packet of type \<open>ty\<close> is expected.\<close>

definition skippable :: "byte \<Rightarrow> bytes \<times> bytes \<Rightarrow> bool" where
  "skippable ty = (\<lambda>(z, d). length z = sizeof_header \<and> rrh_type (read_header z) \<notin> {ty, END_RESPONSE_TYPE} \<and>
     length d = nat (remainingSize (read_header z)))"

text \<open>The stream that overruns the buffer: skipped packets, a header of the expected type with a size field from 1 to 7, and more bytes than
  the buffer has.\<close>

definition overrunning :: "nat \<Rightarrow> byte \<Rightarrow> bytes \<Rightarrow> bool" where
  "overrunning skips ty bs \<longleftrightarrow> (\<exists>ps z post. bs = concat (map (\<lambda>(z, d). z @ d) ps) @ z @ post \<and> length ps \<le> skips \<and>
     list_all (skippable ty) ps \<and> length z = sizeof_header \<and> rrh_type (read_header z) = ty \<and> ty \<noteq> END_RESPONSE_TYPE \<and>
     1 \<le> le_nat (take 3 z) \<and> le_nat (take 3 z) \<le> 7 \<and> bufferSize < length post)"

lemma overrunningI:
  assumes "length z = sizeof_header" "rrh_type (read_header z) = ty" "ty \<noteq> END_RESPONSE_TYPE" "0 < le_nat (take 3 z) \<and> le_nat (take 3 z) < 8"
    "bufferSize < length post"
  shows "overrunning skips ty (z @ post)"
  unfolding overrunning_def using assms by (intro exI [of _ "[]"] exI [of _ z] exI [of _ post]) simp

lemma overrunning_Suc:
  assumes "overrunning k ty bs" "skippable ty (z, d)"
  shows "overrunning (Suc k) ty (z @ d @ bs)"
proof -
  from assms(1) obtain ps z' post where "bs = concat (map (\<lambda>(z, d). z @ d) ps) @ z' @ post" "length ps \<le> k"
     "list_all (skippable ty) ps" "length z' = sizeof_header" "rrh_type (read_header z') = ty" "ty \<noteq> END_RESPONSE_TYPE"
     "1 \<le> le_nat (take 3 z')" "le_nat (take 3 z') \<le> 7" "bufferSize < length post"
    unfolding overrunning_def by blast
  then show ?thesis
    unfolding overrunning_def using assms(2) by (intro exI [of _ "(z, d) # ps"] exI [of _ z'] exI [of _ post]) simp
qed

lemma overflow_step:
  assumes "receivePacketWithHeaderAs skips ty tsize (sock, net) = Inl e"
  obtains z net1 where "receiveResponse sizeof_header (sock, net) = (Some z, net1)" "length z = sizeof_header"
    "rrh_type (read_header z) \<noteq> END_RESPONSE_TYPE"
    "rrh_type (read_header z) = ty \<and> \<not> int bufferSize < remainingSize (read_header z) \<and>
       bufferSize < length (fst (snd (receiveAllData (asUnsigned (remainingSize (read_header z))) (sock, net1)))) \<or>
     rrh_type (read_header z) \<noteq> ty \<and> (\<exists>k net2. skips = Suc k \<and> drainPacket (remainingSize (read_header z)) (sock, net1) = (True, net2) \<and>
       receivePacketWithHeaderAs k ty tsize (sock, net2) = Inl e)"
proof -
  obtain r net1 where r: "receiveResponse sizeof_header (sock, net) = (r, net1)" by (metis prod.exhaust)
  with assms obtain z where z: "r = Some z" "length z = sizeof_header"
    by (cases r) (auto simp: receivePacketWithHeaderAs.simps [of skips] split: if_splits)
  show thesis
    using assms r z
    by (intro that [of z net1])
      (auto simp: receivePacketWithHeaderAs.simps [of skips] Let_def split: if_splits nat.splits prod.splits)
qed

lemma overflow_cause:
  "receivePacketWithHeaderAs skips ty tsize (sock, net) = Inl e \<Longrightarrow> overrunning skips ty (streamBytes (n_incoming net))"
proof (induction skips arbitrary: net rule: less_induct)
  case (less skips)
  obtain z net1 where r: "receiveResponse sizeof_header (sock, net) = (Some z, net1)" "length z = sizeof_header"
    "rrh_type (read_header z) \<noteq> END_RESPONSE_TYPE"
    and c: "rrh_type (read_header z) = ty \<and> \<not> int bufferSize < remainingSize (read_header z) \<and>
       bufferSize < length (fst (snd (receiveAllData (asUnsigned (remainingSize (read_header z))) (sock, net1)))) \<or>
     rrh_type (read_header z) \<noteq> ty \<and> (\<exists>k net2. skips = Suc k \<and> drainPacket (remainingSize (read_header z)) (sock, net1) = (True, net2) \<and>
       receivePacketWithHeaderAs k ty tsize (sock, net2) = Inl e)"
    using less.prems by (rule overflow_step)
  have "z \<noteq> []" using r(2) by (auto simp: sizeof_header_def)
  note s = receiveResponse_stream [OF r(1) this]
  from c show ?case
  proof (elim disjE conjE exE)
    let ?n = "asUnsigned (remainingSize (read_header z))"
    assume t: "rrh_type (read_header z) = ty" and m: "\<not> int bufferSize < remainingSize (read_header z)"
      and b: "bufferSize < length (fst (snd (receiveAllData ?n (sock, net1))))"
    obtain ok d net2 where d: "receiveAllData ?n (sock, net1) = (ok, d, net2)" by (metis prod_cases3)
    have "d = take ?n (streamBytes (n_incoming net1))" using receiveAllData_exact [OF s(1), of ?n net1] by (simp add: d)
    then have l: "bufferSize < length (streamBytes (n_incoming net1))" using b by (simp add: d)
    have "0 < le_nat (take 3 z) \<and> le_nat (take 3 z) < 8"
      using short_size [OF r(2) _ _ m, of "length d"] length_receiveAllData [OF d] b by (simp add: d)
    from overrunningI [OF r(2) t _ this l] show ?thesis using s(2) r(3) t by simp
  next
    fix k net2
    assume t: "rrh_type (read_header z) \<noteq> ty" and k: "skips = Suc k"
      and d: "drainPacket (remainingSize (read_header z)) (sock, net1) = (True, net2)"
      and o: "receivePacketWithHeaderAs k ty tsize (sock, net2) = Inl e"
    obtain p where p: "length p = nat (remainingSize (read_header z))" "streamBytes (n_incoming net1) = p @ streamBytes (n_incoming net2)"
      using drainPacket_stream [OF d s(1)] .
    have "overrunning k ty (streamBytes (n_incoming net2))" using less.IH [OF _ o] by (simp add: k)
    from overrunning_Suc [OF this, of z p] show ?thesis using r(2,3) t p s(2) by (simp add: skippable_def k)
  qed
qed

text \<open>A packet of the expected type whose size field is between 1 and 7, followed by more than
  \<open>bufferSize\<close> bytes, does overflow the buffer.\<close>

lemma asUnsigned_neg: "-8 \<le> n \<Longrightarrow> n < 0 \<Longrightarrow> asUnsigned n = nat (2 ^ 32 + n)"
proof -
  assume n: "-8 \<le> n" "n < 0"
  have "(2 ^ 32 + n) mod 2 ^ 32 = 2 ^ 32 + n" using n by (intro mod_pos_pos_trivial) auto
  then have "n mod 2 ^ 32 = 2 ^ 32 + n" by simp
  then show ?thesis by (simp add: asUnsigned_def unat_eq_nat_uint uint_word_of_int)
qed

lemma recvAll_single: "d \<noteq> [] \<Longrightarrow> length d \<le> n \<Longrightarrow> recvAll n [] [Data d] = (length d = n, d, [])"
  by (cases "n = 0") auto

lemma overflow_happens:
  assumes "s_isConnected sock" "header_ok h" "1 \<le> le_nat (rrh_size h)" "le_nat (rrh_size h) \<le> 7"
    "rrh_type h \<noteq> END_RESPONSE_TYPE" "bufferSize < length d" "length d < 2 ^ 31"
  shows "receivePacketWithHeaderAs skips (rrh_type h) tsize
    (sock, net\<lparr>n_incoming := [Data (encode_header h), Data d]\<rparr>) = Inl BufferOverflow"
proof -
  have len: "length (encode_header h) = sizeof_header" using assms(2) by (simp add: length_encode)
  have rd: "read_header (encode_header h) = h" using read_encode_header [OF assms(2), of "[]"] by simp
  have neg: "remainingSize h < 0" using assms remainingSize_bounds(2) [OF assms(2)] by simp
  have "-8 \<le> remainingSize h" unfolding remainingSize_def by simp
  then have "2 ^ 31 < asUnsigned (remainingSize h)" using neg by (simp add: asUnsigned_neg)
  then have d: "length d \<le> asUnsigned (remainingSize h)" using assms(7) by simp
  have ne: "d \<noteq> []" using assms(6) by auto
  have all: "receiveAllData (asUnsigned (remainingSize h)) (sock, net\<lparr>n_incoming := [Data d]\<rparr>) =
      (length d = asUnsigned (remainingSize h), d, net\<lparr>n_incoming := []\<rparr>)"
    using assms(1) recvAll_single [OF ne d] by (simp add: receiveAllData_def)
  show ?thesis
    using assms(1,5,6) neg all
    by (simp add: receivePacketWithHeaderAs.simps receiveResponse_def sock_read_def len rd Let_def)
qed

section \<open>Packets with data of variable size\<close>

text \<open>The bytes that the pending reads still deliver.\<close>

definition pendingBytes :: "recvEvent list \<Rightarrow> nat" where
  "pendingBytes es = (\<Sum>e\<leftarrow>es. case e of Data d \<Rightarrow> length d | _ \<Rightarrow> 0)"

lemma pendingBytes_simps [simp]:
  "pendingBytes [] = 0" "pendingBytes (Data d # es) = length d + pendingBytes es" "pendingBytes (Closed # es) = pendingBytes es"
  "pendingBytes (Fail # es) = pendingBytes es"
  by (simp_all add: pendingBytes_def)

lemma receiveResponse_pending:
  "receiveResponse n (sock, net) = (Some d, net') \<Longrightarrow> pendingBytes (n_incoming net') + length d = pendingBytes (n_incoming net)"
  by (auto simp: receiveResponse_def sock_read_def split: if_splits list.splits recvEvent.splits)

lemma recvAll_pending: "recvAll n acc es = (ok, d, es') \<Longrightarrow> pendingBytes es' \<le> pendingBytes es"
  by (induction n acc es arbitrary: ok d es' rule: recvAll.induct) (fastforce split: if_splits recvEvent.splits)+

lemma receiveAllData_pending:
  "receiveAllData n (sock, net) = (ok, d, net') \<Longrightarrow> pendingBytes (n_incoming net') \<le> pendingBytes (n_incoming net)"
  by (auto simp: receiveAllData_def dest: recvAll_pending split: if_splits prod.splits)

text \<open>\<open>receivePacketAndExtraDataWithHeaderAs<T>\<close> with a caller's buffer of \<open>cap\<close> bytes: the returned value and the bytes written.  A
  packet of another type is read into the member buffer as a whole.\<close>

function receivePacketAndExtraDataWithHeaderAs :: "byte \<Rightarrow> nat \<Rightarrow> Socket \<times> Net \<Rightarrow> netError + int \<times> bytes \<times> Net" where
  "receivePacketAndExtraDataWithHeaderAs ty cap (sock, net) =
     (case receiveResponse sizeof_header (sock, net) of (r, net1) \<Rightarrow>
        if r = None \<or> r = Some [] then Inr (0, [], net1)
        else if length (the r) \<noteq> sizeof_header then Inr (-1, [], net1)
        else let h = read_header (the r) in
          if rrh_type h = END_RESPONSE_TYPE then Inr (-1, [], net1)
          else (case receiveAllData (asUnsigned (remainingSize h)) (sock, net1) of (ok, d, net2) \<Rightarrow>
            if rrh_type h \<noteq> ty then
              if length d > bufferSize then Inl BufferOverflow
              else if \<not> ok then Inr (-1, [], net2)
              else receivePacketAndExtraDataWithHeaderAs ty cap (sock, net2)
            else if remainingSize h = 0 then Inr (0, [], net1)
            else if length d > cap then Inl BufferOverflow
            else if \<not> ok then Inr (-1, d, net2)
            else Inr (remainingSize h, d, net2)))"
  by pat_completeness auto
termination
  by (relation "measure (\<lambda>(ty, cap, sock, net). pendingBytes (n_incoming net))")
    (auto simp: sizeof_header_def dest!: receiveResponse_pending [OF sym] receiveAllData_pending [OF sym])

declare receivePacketAndExtraDataWithHeaderAs.simps [simp del]

text \<open>The header and payload of one packet in a single delivery.\<close>

lemma packet_delivered:
  assumes "s_isConnected sock" "header_ok h" "remainingSize h = int (length d)" "d \<noteq> []" "length d < 2 ^ 31"
  obtains net1 where "receiveResponse sizeof_header (sock, net\<lparr>n_incoming := Data (encode_header h @ d) # es\<rparr>) = (Some (encode_header h), net1)"
    "receiveAllData (asUnsigned (remainingSize h)) (sock, net1) = (True, d, net\<lparr>n_incoming := es\<rparr>)"
proof -
  have len: "length (encode_header h) = sizeof_header" using assms(2) by (simp add: length_encode)
  have a: "asUnsigned (remainingSize h) = length d" using assms(3,5) by (simp add: asUnsigned_nonneg)
  have "recvAll (length d) d es = (True, d, es)" by (cases es) simp_all
  then have "recvAll (length d) [] (Data d # es) = (True, d, es)" using assms(4) by simp
  then show thesis
    using assms(1,4) by (intro that [of "net\<lparr>n_incoming := Data d # es\<rparr>"]) (simp_all add: receiveResponse_def sock_read_def len a receiveAllData_def)
qed

lemma extra_data_received:
  assumes "s_isConnected sock" "header_ok h" "remainingSize h = int (length d)" "d \<noteq> []" "length d < 2 ^ 31"
    "rrh_type h = ty" "ty \<noteq> END_RESPONSE_TYPE" "length d \<le> cap"
  shows "receivePacketAndExtraDataWithHeaderAs ty cap (sock, net\<lparr>n_incoming := Data (encode_header h @ d) # es\<rparr>) =
    Inr (int (length d), d, net\<lparr>n_incoming := es\<rparr>)"
proof -
  have len: "length (encode_header h) = sizeof_header" using assms(2) by (simp add: length_encode)
  then have ne: "encode_header h \<noteq> []" by (auto simp: sizeof_header_def)
  have rd: "read_header (encode_header h) = h" using read_encode_header [OF assms(2), of "[]"] by simp
  show ?thesis
    by (rule packet_delivered [OF assms(1-5), where net = net and es = es], subst receivePacketAndExtraDataWithHeaderAs.simps)
      (use assms(3,4,6-8) in \<open>simp add: len ne rd Let_def\<close>)
qed

text \<open>A packet of another type is skipped if it fits into the member buffer, and overruns the buffer otherwise.\<close>

lemma packet_skipped:
  assumes "s_isConnected sock" "header_ok h" "remainingSize h = int (length d)" "d \<noteq> []" "length d < 2 ^ 31"
    "rrh_type h \<noteq> ty" "rrh_type h \<noteq> END_RESPONSE_TYPE"
  shows "receivePacketAndExtraDataWithHeaderAs ty cap (sock, net\<lparr>n_incoming := Data (encode_header h @ d) # es\<rparr>) =
    (if length d > bufferSize then Inl BufferOverflow
     else receivePacketAndExtraDataWithHeaderAs ty cap (sock, net\<lparr>n_incoming := es\<rparr>))"
proof -
  have len: "length (encode_header h) = sizeof_header" using assms(2) by (simp add: length_encode)
  then have ne: "encode_header h \<noteq> []" by (auto simp: sizeof_header_def)
  have rd: "read_header (encode_header h) = h" using read_encode_header [OF assms(2), of "[]"] by simp
  show ?thesis
    by (rule packet_delivered [OF assms(1-5), where net = net and es = es], subst receivePacketAndExtraDataWithHeaderAs.simps)
      (use assms(6,7) in \<open>simp add: len ne rd Let_def\<close>)
qed

section \<open>Opening a connection\<close>

record QubicConnection =
  qc_socket :: Socket
  qc_net :: Net
  qc_peerIp :: string
  qc_peerPort :: int

text \<open>The results of the system calls while a connection is opened, and the traffic of the new
  connection.\<close>

record osConnect =
  os_raw :: int
  os_ptonOk :: bool
  os_connectResult :: int
  os_inProgress :: bool
  os_pollResult :: int
  os_pollOut :: bool
  os_sockErr :: int
  os_net :: Net

text \<open>The handshake packet: a header and 16 zero bytes.\<close>

definition exchangePacket :: bytes where
  "exchangePacket =
     encode_header (header_zeroDejavu (header_setType ExchangePublicPeers_type
       (header_setSize 24 \<lparr>rrh_size = [0, 0, 0], rrh_type = 0, rrh_dejavu = 0\<rparr>))) @ replicate 16 0"

definition connected :: "osConnect \<Rightarrow> bool" where
  "connected os \<longleftrightarrow>
     os_ptonOk os \<and> \<not> (os_connectResult os < 0 \<and> \<not> os_inProgress os) \<and>
     (os_connectResult os = 0 \<or> (0 < os_pollResult os \<and> os_pollOut os \<and> os_sockErr os = 0))"

definition handshake :: "Socket \<Rightarrow> Net \<Rightarrow> (netError + Socket \<times> Net) option" where
  "handshake sock net =
     (case receivePacketWithHeaderAs maxSkip ExchangePublicPeers_type 16 (sock, net) of
        Inl e \<Rightarrow> Some (Inl e)
      | Inr (peers, net1) \<Rightarrow>
          (case sendMessage exchangePacket (sock, net1) of
             None \<Rightarrow> None
           | Some (ok, sock2, net2) \<Rightarrow>
               (case receivePacketWithHeaderAs maxSkip RequestComputors_type 1 (sock2, net2) of
                  Inl e \<Rightarrow> Some (Inl e)
                | Inr (req, net3) \<Rightarrow> Some (Inr (sock2, net3)))))"

definition openQubicConnection ::
  "osConnect \<Rightarrow> string \<Rightarrow> int \<Rightarrow> QubicConnection \<Rightarrow> (netError + bool \<times> QubicConnection) option" where
  "openQubicConnection os ip port c =
     (let c1 = c\<lparr>qc_socket := (closeConnection (qc_socket c))\<lparr>s_rawSocket := os_raw os\<rparr>,
                 qc_peerIp := ip, qc_peerPort := port\<rparr>
      in if \<not> connected os then Some (Inr (False, c1\<lparr>qc_socket := Socket_reset (qc_socket c1)\<rparr>))
         else (case handshake ((qc_socket c1)\<lparr>s_isConnected := True\<rparr>) (os_net os) of
            None \<Rightarrow> None
          | Some (Inl e) \<Rightarrow> Some (Inl e)
          | Some (Inr (sock, net)) \<Rightarrow> Some (Inr (True, c1\<lparr>qc_socket := sock, qc_net := net\<rparr>))))"

definition reconnect :: "osConnect \<Rightarrow> QubicConnection \<Rightarrow> (netError + bool \<times> QubicConnection) option" where
  "reconnect os c =
     (if qc_peerIp c = [] \<or> qc_peerPort c = 0 then Some (Inr (False, c))
      else openQubicConnection os (qc_peerIp c) (qc_peerPort c) c)"

lemma exchangePacket_header:
  "length exchangePacket = 24" "header_size (read_header exchangePacket) = 24"
  "rrh_type (read_header exchangePacket) = ExchangePublicPeers_type"
  by (simp_all add: exchangePacket_def encode_header_def header_zeroDejavu_def header_setType_def header_setSize_def
      read_header_def field_def header_size_def ExchangePublicPeers_type_def store_le_def load_le_def)

lemma openQubicConnection_failed:
  "\<not> connected os \<Longrightarrow> openQubicConnection os ip port c =
     Some (Inr (False, c\<lparr>qc_socket := \<lparr>s_isConnected = False, s_rawSocket = INVALID_SKT\<rparr>,
       qc_peerIp := ip, qc_peerPort := port\<rparr>))"
  by (simp add: openQubicConnection_def Let_def Socket_reset_def)

lemma openQubicConnection_peer:
  "openQubicConnection os ip port c = Some (Inr (ok, c')) \<Longrightarrow>
   (ok \<longleftrightarrow> connected os) \<and> qc_peerIp c' = ip \<and> qc_peerPort c' = port"
  by (auto simp: openQubicConnection_def Let_def split: if_splits option.splits sum.splits prod.splits)

lemma socket_inv_handshake:
  "socket_inv sock \<Longrightarrow> handshake sock net = Some (Inr (sock', net')) \<Longrightarrow> socket_inv sock'"
  by (auto simp: handshake_def split: sum.splits option.splits prod.splits dest: socket_inv_sendMessage)

lemma socket_inv_openQubicConnection:
  "openQubicConnection os ip port c = Some (Inr (ok, c')) \<Longrightarrow> (connected os \<Longrightarrow> os_raw os \<noteq> INVALID_SKT) \<Longrightarrow>
   socket_inv (qc_socket c')"
  by (auto simp: openQubicConnection_def Let_def Socket_reset_def socket_inv_def split: if_splits option.splits sum.splits prod.splits
      dest!: socket_inv_handshake [rotated])

text \<open>A send error during the handshake: the connection is reported as open, but is marked
  disconnected.\<close>

lemma openQubicConnection_send_error:
  assumes "connected os" "n_incoming (os_net os) = []" "n_sendResults (os_net os) = -1 # rs"
  shows "\<exists>c'. openQubicConnection os ip port c = Some (Inr (True, c')) \<and> \<not> s_isConnected (qc_socket c')"
  using assms exchangePacket_header(1)
  by (simp add: openQubicConnection_def Let_def handshake_def receivePacketWithHeaderAs.simps receiveResponse_def
      sock_read_def sendMessage_def sendLoop.simps)

section \<open>Properties\<close>

text \<open>
  C36: a node that answers the handshake with a header whose size field is between 1 and 7, followed by
  more than 4096 bytes, makes the code write past the end of the member buffer: the negative
  remaining size passes the bound check and becomes a huge unsigned length.  And this is the only way: whenever the receiving of a packet
  overruns the buffer, the bytes that arrive are at most as many complete packets of other types as may be skipped, then a header of the
  expected type with such a size field, and then more than 4096 bytes.
\<close>

theorem handshake_overflow:
  assumes "s_isConnected sock" "header_ok h" "1 \<le> le_nat (rrh_size h)" "le_nat (rrh_size h) \<le> 7"
    "rrh_type h \<noteq> END_RESPONSE_TYPE" "bufferSize < length d" "length d < 2 ^ 31"
  shows "receivePacketWithHeaderAs skips (rrh_type h) tsize
      (sock, net\<lparr>n_incoming := [Data (encode_header h), Data d]\<rparr>) = Inl BufferOverflow \<and>
    (receivePacketWithHeaderAs skips' ty tsize' (sock', net') = Inl BufferOverflow \<longrightarrow>
      (\<exists>ps z post. streamBytes (n_incoming net') = concat (map (\<lambda>(z, d). z @ d) ps) @ z @ post \<and> length ps \<le> skips' \<and>
        list_all (skippable ty) ps \<and> length z = sizeof_header \<and> rrh_type (read_header z) = ty \<and> ty \<noteq> END_RESPONSE_TYPE \<and>
        1 \<le> le_nat (take 3 z) \<and> le_nat (take 3 z) \<le> 7 \<and> bufferSize < length post))"
  using overflow_happens [OF assms] overflow_cause [of skips' ty tsize' sock' net' BufferOverflow] unfolding overrunning_def by blast

theorem handshake_overflow_witness:
  "receivePacketWithHeaderAs maxSkip ExchangePublicPeers_type 16 (\<lparr>s_isConnected = True, s_rawSocket = 3\<rparr>,
     \<lparr>n_incoming = [Data (encode_header \<lparr>rrh_size = [7, 0, 0], rrh_type = ExchangePublicPeers_type, rrh_dejavu = 0\<rparr>),
        Data (replicate 5000 0)], n_sendResults = [], n_outgoing = []\<rparr>) = Inl BufferOverflow"
  using handshake_overflow [of "\<lparr>s_isConnected = True, s_rawSocket = 3\<rparr>"
      "\<lparr>rrh_size = [7, 0, 0], rrh_type = ExchangePublicPeers_type, rrh_dejavu = 0\<rparr>" "replicate 5000 0" maxSkip 16
      "\<lparr>n_incoming = [], n_sendResults = [], n_outgoing = []\<rparr>"]
  by (simp add: header_ok_def END_RESPONSE_TYPE_def ExchangePublicPeers_type_def bufferSize_def)

end
