(* ===== verification/Qubic_Recv.thy ===== *)
theory Qubic_Recv
  imports Qubic_Connection Concurrency
begin

text \<open>
  The receiving thread for the Qubic network, \<open>dispatcher/src/threads/qubic_recv_thread.cpp\<close>:
  the check of a solution packet, the reassembly of packets from the byte stream of a peer, and
  the reconnect logic.  The hash function and the signature check are arguments \<open>k12\<close> and
  \<open>verify\<close>, since the theorems hold for every choice of them.
\<close>

section \<open>Solution packets\<close>

definition solutionPacketSize :: nat where
  "solutionPacketSize =
     sizeof_header + sizeof_CustomQubicMiningSolution + sizeof_QubicDogeMiningSolution + SIGNATURE_SIZE"

lemma solutionPacketSize_eq [layout]: "solutionPacketSize = 161"
  by (simp add: solutionPacketSize_def sizeof_defs)

type_synonym k12fun = "bytes \<Rightarrow> bytes"
type_synonym verifyfun = "bytes \<Rightarrow> bytes \<Rightarrow> bytes \<Rightarrow> bool"

text \<open>\<open>recvData\<close> is the buffer from the start of the packet on.\<close>

definition processSolution ::
  "k12fun \<Rightarrow> verifyfun \<Rightarrow> bytes \<Rightarrow> nat \<Rightarrow> DispatcherMiningSolution ConcurrentQueue \<Rightarrow>
   DispatcherMiningSolution ConcurrentQueue" where
  "processSolution k12 verify recvData packetSize queue =
     (if packetSize \<noteq> solutionPacketSize then queue
      else if rrh_type (read_header recvData) \<noteq> CustomQubicMiningSolution_type then queue
      else
        let qubicSol = read_CustomQubicMiningSolution (drop sizeof_header recvData)
        in if cqs_customMiningType qubicSol \<noteq> DOGE then queue
           else
             let messageSize = packetSize - sizeof_header;
                 payload = drop sizeof_header recvData;
                 digest = k12 (take (messageSize - SIGNATURE_SIZE) payload);
                 signature = field (messageSize - SIGNATURE_SIZE) SIGNATURE_SIZE payload
             in if \<not> verify (cqs_sourcePublicKey qubicSol) digest signature then queue
                else
                  let dogeSol = read_QubicDogeMiningSolution
                        (drop (sizeof_header + sizeof_CustomQubicMiningSolution) recvData)
                  in q_push queue
                       \<lparr>dms_jobId = cqs_jobId qubicSol, dms_nTime = ds_nTime dogeSol, dms_nonce = ds_nonce dogeSol,
                        dms_merkleRoot = ds_merkleRoot dogeSol, dms_extraNonce2 = ds_extraNonce2 dogeSol,
                        dms_sourcePublicKey = cqs_sourcePublicKey qubicSol\<rparr>)"

text \<open>The packet a miner sends for a solution: what \<open>processSolution\<close> accepts.\<close>

definition solutionPacket :: "u32 \<Rightarrow> CustomQubicMiningSolution \<Rightarrow> QubicDogeMiningSolution \<Rightarrow> bytes \<Rightarrow> bytes" where
  "solutionPacket dejavu cs s sig =
     encode_header (header_setType CustomQubicMiningSolution_type
       (header_setSize (of_nat solutionPacketSize) \<lparr>rrh_size = [0, 0, 0], rrh_type = 0, rrh_dejavu = dejavu\<rparr>)) @
     encode_CustomQubicMiningSolution cs @ encode_QubicDogeMiningSolution s @ sig"

definition toDispatcherSolution :: "CustomQubicMiningSolution \<Rightarrow> QubicDogeMiningSolution \<Rightarrow> DispatcherMiningSolution" where
  "toDispatcherSolution cs s =
     \<lparr>dms_jobId = cqs_jobId cs, dms_nTime = ds_nTime s, dms_nonce = ds_nonce s, dms_merkleRoot = ds_merkleRoot s,
      dms_extraNonce2 = ds_extraNonce2 s, dms_sourcePublicKey = cqs_sourcePublicKey cs\<rparr>"

section \<open>Reassembly of packets\<close>

definition maxPacketSize :: nat where "maxPacketSize = 10 * 1024 * 1024"

text \<open>The loop of \<open>processRecvBuffer\<close> from position \<open>pos\<close>; \<open>None\<close> as position stands for the cleared
  buffer after a broken header.\<close>

function recvLoop ::
  "k12fun \<Rightarrow> verifyfun \<Rightarrow> nat \<Rightarrow> bytes \<Rightarrow> DispatcherMiningSolution ConcurrentQueue \<Rightarrow> PeerStats \<Rightarrow>
   nat option \<times> DispatcherMiningSolution ConcurrentQueue \<times> PeerStats" where
  "recvLoop k12 verify pos buf queue ps =
     (if pos + sizeof_header \<le> length buf
      then let packetSize = unat (header_size (read_header (drop pos buf)))
           in if packetSize < sizeof_header \<or> packetSize > maxPacketSize then (None, queue, ps)
              else if pos + packetSize > length buf then (Some pos, queue, ps)
              else
                let ps1 = ps\<lparr>ps_packetsReceived := ps_packetsReceived ps + 1\<rparr>;
                    queue1 = processSolution k12 verify (drop pos buf) packetSize queue;
                    ps2 = (if q_size queue1 > q_size queue
                           then ps1\<lparr>ps_solutionsReceived := ps_solutionsReceived ps1 + 1\<rparr> else ps1)
                in recvLoop k12 verify (pos + packetSize) buf queue1 ps2
      else (Some pos, queue, ps))"
  by pat_completeness auto
termination
  by (relation "measure (\<lambda>(k12, verify, pos, buf, queue, ps). length buf - pos)") (auto simp: sizeof_header_def)

declare recvLoop.simps [simp del]

definition processRecvBuffer ::
  "k12fun \<Rightarrow> verifyfun \<Rightarrow> bytes \<Rightarrow> DispatcherMiningSolution ConcurrentQueue \<Rightarrow> PeerStats \<Rightarrow>
   bytes \<times> DispatcherMiningSolution ConcurrentQueue \<times> PeerStats" where
  "processRecvBuffer k12 verify buf queue ps =
     (case recvLoop k12 verify 0 buf queue ps of
        (None, queue1, ps1) \<Rightarrow> ([], queue1, ps1)
      | (Some pos, queue1, ps1) \<Rightarrow> (drop pos buf, queue1, ps1))"

text \<open>What a read of \<open>d\<close> bytes does to the buffer of a peer.\<close>

definition receiveBytes ::
  "k12fun \<Rightarrow> verifyfun \<Rightarrow> bytes \<Rightarrow> bytes \<times> DispatcherMiningSolution ConcurrentQueue \<times> PeerStats \<Rightarrow>
   bytes \<times> DispatcherMiningSolution ConcurrentQueue \<times> PeerStats" where
  "receiveBytes k12 verify d = (\<lambda>(buf, queue, ps).
     processRecvBuffer k12 verify (buf @ d) queue
       (ps\<lparr>ps_bytesReceived := ps_bytesReceived ps + of_nat (length d)\<rparr>))"

section \<open>Properties of the packet check\<close>

lemma processSolution_cases:
  obtains (dropped) "processSolution k12 verify d n q = q"
  | (accepted) s where "processSolution k12 verify d n q = q_push q s" "n = solutionPacketSize"
      "rrh_type (read_header d) = CustomQubicMiningSolution_type"
      "verify (dms_sourcePublicKey s) (k12 (field sizeof_header (solutionPacketSize - sizeof_header - SIGNATURE_SIZE) d))
         (field (solutionPacketSize - SIGNATURE_SIZE) SIGNATURE_SIZE d)"
      "s = toDispatcherSolution (read_CustomQubicMiningSolution (drop sizeof_header d))
         (read_QubicDogeMiningSolution (drop (sizeof_header + sizeof_CustomQubicMiningSolution) d))"
      "cqs_customMiningType (read_CustomQubicMiningSolution (drop sizeof_header d)) = DOGE"
proof -
  show ?thesis
    by (cases "processSolution k12 verify d n q = q", rule that(1), assumption, rule that(2))
      (auto simp: processSolution_def Let_def toDispatcherSolution_def field_def layout split: if_splits)
qed

lemma processSolution_packet:
  assumes "length (cqs_sourcePublicKey cs) = 32" "solution_ok s" "length sig = SIGNATURE_SIZE"
    "cqs_customMiningType cs = DOGE"
  shows "processSolution k12 verify (solutionPacket dv cs s sig @ rest) solutionPacketSize q =
    (if verify (cqs_sourcePublicKey cs) (k12 (encode_CustomQubicMiningSolution cs @ encode_QubicDogeMiningSolution s)) sig
     then q_push q (toDispatcherSolution cs s) else q)"
proof -
  define h where "h = header_setType CustomQubicMiningSolution_type
       (header_setSize (of_nat solutionPacketSize) \<lparr>rrh_size = [0, 0, 0], rrh_type = 0, rrh_dejavu = dv\<rparr>)"
  have h: "header_ok h" "rrh_type h = CustomQubicMiningSolution_type"
    by (simp_all add: h_def header_setType_def header_setSize_def header_ok_def)
  define eh where "eh = encode_header h"
  define ec where "ec = encode_CustomQubicMiningSolution cs"
  define es where "es = encode_QubicDogeMiningSolution s"
  have len: "length eh = 8" "length ec = 41" "length es = 48" "length sig = 64"
    using h(1) assms by (simp_all add: eh_def ec_def es_def layout)
  have pkt: "solutionPacket dv cs s sig = eh @ ec @ es @ sig"
    by (simp add: solutionPacket_def eh_def ec_def es_def h_def)
  have hd: "read_header (eh @ x) = h" "read_CustomQubicMiningSolution (ec @ x) = cs"
    "read_QubicDogeMiningSolution (es @ x) = s" for x
    using h assms by (simp_all add: eh_def ec_def es_def read_encode_header read_encode_CustomQubicMiningSolution
        read_encode_QubicDogeMiningSolution)
  show ?thesis
    using len hd h(2) assms(4)
    by (simp add: processSolution_def pkt layout field_def Let_def toDispatcherSolution_def ec_def [symmetric] es_def [symmetric])
qed

section \<open>Properties of the reassembly\<close>

lemma field_append: "off + n \<le> length d \<Longrightarrow> field off n (d @ rest) = field off n d"
  by (simp add: field_def)

lemma field_drop: "field off n (drop k d) = field (k + off) n d"
  by (simp add: field_def add.commute)

lemma read_header_append: "sizeof_header \<le> length d \<Longrightarrow> read_header (d @ rest) = read_header d"
  by (simp add: read_header_def field_append sizeof_header_def nth_append)

lemma processSolution_append:
  assumes "n \<le> length d"
  shows "processSolution k12 verify (d @ rest) n q = processSolution k12 verify d n q"
proof (cases "n = solutionPacketSize")
  case True
  then have len: "161 \<le> length d" using assms by (simp add: layout)
  have h: "read_header (d @ rest) = read_header d" using len by (simp add: read_header_append layout)
  have c: "read_CustomQubicMiningSolution (drop sizeof_header (d @ rest)) =
      read_CustomQubicMiningSolution (drop sizeof_header d)"
    using len by (simp add: read_CustomQubicMiningSolution_def field_append layout nth_append, linarith)
  have g: "read_QubicDogeMiningSolution (drop (sizeof_header + sizeof_CustomQubicMiningSolution) (d @ rest)) =
      read_QubicDogeMiningSolution (drop (sizeof_header + sizeof_CustomQubicMiningSolution) d)"
    using len by (simp add: read_QubicDogeMiningSolution_def field_append layout)
  have m: "take (n - sizeof_header - SIGNATURE_SIZE) (drop sizeof_header (d @ rest)) =
      take (n - sizeof_header - SIGNATURE_SIZE) (drop sizeof_header d)"
    "field (n - sizeof_header - SIGNATURE_SIZE) SIGNATURE_SIZE (drop sizeof_header (d @ rest)) =
     field (n - sizeof_header - SIGNATURE_SIZE) SIGNATURE_SIZE (drop sizeof_header d)"
    using len True by (simp_all add: layout field_append)
  show ?thesis unfolding processSolution_def Let_def h c g m ..
qed (simp add: processSolution_def)

lemma recvLoop_shift:
  "recvLoop k12 verify (pos + off) buf q ps =
   (case recvLoop k12 verify off (drop pos buf) q ps of (p, r) \<Rightarrow> (map_option (\<lambda>p. pos + p) p, r))"
proof (induction "length buf - (pos + off)" arbitrary: off q ps rule: less_induct)
  case less
  show ?case
  proof (cases "pos + off + sizeof_header \<le> length buf")
    case True
    let ?n = "unat (header_size (read_header (drop (pos + off) buf)))"
    have dd: "drop off (drop pos buf) = drop (pos + off) buf" by (simp add: add.commute)
    have c: "off + sizeof_header \<le> length (drop pos buf)" using True by simp
    have len: "length buf - (pos + (off + ?n)) < length buf - (pos + off)" if "\<not> ?n < sizeof_header"
      using that True by (simp add: sizeof_header_def)
    note unf = recvLoop.simps [of k12 verify "pos + off" buf q ps] recvLoop.simps [of k12 verify off "drop pos buf" q ps]
    have gt: "off + ?n > length (drop pos buf) \<longleftrightarrow> pos + off + ?n > length buf" using True by auto
    consider "?n < sizeof_header \<or> ?n > maxPacketSize" | "\<not> (?n < sizeof_header \<or> ?n > maxPacketSize)" "pos + off + ?n > length buf"
      | "\<not> (?n < sizeof_header \<or> ?n > maxPacketSize)" "\<not> pos + off + ?n > length buf" by blast
    then show ?thesis
    proof cases
      case 1
      then show ?thesis unfolding unf Let_def dd using True c by simp
    next
      case 2
      then show ?thesis unfolding unf Let_def dd gt using True c by simp
    next
      case 3
      then have "\<not> ?n < sizeof_header" by simp
      note IH = less.hyps [OF len, OF this, unfolded add.assoc [symmetric]]
      show ?thesis
        unfolding unf Let_def dd gt IH using True c 3 by (simp only: if_True if_False simp_thms)
    qed
  next
    case False
    moreover from False have "\<not> off + sizeof_header \<le> length (drop pos buf)" by (simp add: sizeof_header_def)
    ultimately show ?thesis
      by (simp only: recvLoop.simps [of k12 verify "pos + off"] recvLoop.simps [of k12 verify off "drop pos buf"]
          if_False prod.case option.map)
  qed
qed

text \<open>A well-formed packet: its header carries its length.\<close>

definition packet_ok :: "bytes \<Rightarrow> bool" where
  "packet_ok p \<longleftrightarrow> sizeof_header \<le> length p \<and> length p \<le> maxPacketSize \<and>
     unat (header_size (read_header p)) = length p"

lemma packet_ok_nonempty: "packet_ok p \<Longrightarrow> p \<noteq> []"
  by (auto simp: packet_ok_def sizeof_header_def)

text \<open>The effect of one packet on the queue, and of a list of packets.\<close>

definition packetEffect :: "k12fun \<Rightarrow> verifyfun \<Rightarrow> bytes list \<Rightarrow> DispatcherMiningSolution ConcurrentQueue \<Rightarrow>
    DispatcherMiningSolution ConcurrentQueue" where
  "packetEffect k12 verify ps q = foldl (\<lambda>q p. processSolution k12 verify p (length p) q) q ps"

lemma packetEffect_simps [simp]:
  "packetEffect k12 verify [] q = q"
  "packetEffect k12 verify (p # ps) q = packetEffect k12 verify ps (processSolution k12 verify p (length p) q)"
  "packetEffect k12 verify (ps @ ps') q = packetEffect k12 verify ps' (packetEffect k12 verify ps q)"
  by (simp_all add: packetEffect_def)

lemma q_size_processSolution:
  "q_size (processSolution k12 verify d n q) = q_size q \<or> q_size (processSolution k12 verify d n q) = Suc (q_size q)"
  by (rule processSolution_cases [of k12 verify d n q]) (simp_all add: q_size_def q_push_def)

lemma q_size_packetEffect: "q_size q \<le> q_size (packetEffect k12 verify ps q)"
proof (induction ps arbitrary: q)
  case (Cons p ps)
  from Cons [of "processSolution k12 verify p (length p) q"] q_size_processSolution [of k12 verify p "length p" q]
  show ?case by auto
qed simp

text \<open>One complete packet at the front of the buffer.\<close>

definition countSolution :: "nat \<Rightarrow> PeerStats \<Rightarrow> PeerStats" where
  "countSolution n ps = ps\<lparr>ps_packetsReceived := ps_packetsReceived ps + 1,
     ps_solutionsReceived := ps_solutionsReceived ps + of_nat n\<rparr>"

lemma recvLoop_packet:
  assumes "packet_ok p" and q1_def: "q1 = processSolution k12 verify p (length p) q"
  shows "recvLoop k12 verify 0 (p @ x) q ps =
    (case recvLoop k12 verify 0 x q1 (countSolution (q_size q1 - q_size q) ps) of
       (r, s) \<Rightarrow> (map_option (\<lambda>r. length p + r) r, s))"
proof -
  have p: "sizeof_header \<le> length p" "\<not> length p < sizeof_header" "\<not> maxPacketSize < length p"
    "unat (header_size (read_header (p @ x))) = length p"
    using assms(1) by (simp_all add: packet_ok_def read_header_append)
  have eff: "processSolution k12 verify (p @ x) (length p) q = q1"
    by (simp add: processSolution_append q1_def)
  have sz: "(if q_size q1 > q_size q
        then (ps\<lparr>ps_packetsReceived := ps_packetsReceived ps + 1\<rparr>)\<lparr>ps_solutionsReceived :=
          ps_solutionsReceived (ps\<lparr>ps_packetsReceived := ps_packetsReceived ps + 1\<rparr>) + 1\<rparr>
        else ps\<lparr>ps_packetsReceived := ps_packetsReceived ps + 1\<rparr>) = countSolution (q_size q1 - q_size q) ps"
    using q_size_processSolution [of k12 verify p "length p" q] by (auto simp: countSolution_def q1_def)
  have "recvLoop k12 verify 0 (p @ x) q ps =
      recvLoop k12 verify (length p + 0) (p @ x) q1 (countSolution (q_size q1 - q_size q) ps)"
    using p by (subst recvLoop.simps) (simp add: Let_def eff sz split del: if_split)
  then show ?thesis using recvLoop_shift [of k12 verify "length p" 0 "p @ x"] by simp
qed

lemma recvLoop_partial:
  assumes "packet_ok p" "x @ y = p @ z" "length x < length p"
  shows "recvLoop k12 verify 0 x q ps = (Some 0, q, ps)"
proof (cases "sizeof_header \<le> length x")
  case True
  have "read_header x = read_header (x @ y)" using True by (simp add: read_header_append)
  also have "\<dots> = read_header p" using assms by (simp add: read_header_append packet_ok_def)
  finally show ?thesis
    using True assms by (subst recvLoop.simps) (simp add: packet_ok_def Let_def)
next
  case False
  then show ?thesis by (subst recvLoop.simps) simp
qed

text \<open>A prefix of a stream of well-formed packets: the complete packets are processed in order and
  the beginning of the next one stays in the buffer.\<close>

definition statsAdvance :: "nat \<Rightarrow> nat \<Rightarrow> PeerStats \<Rightarrow> PeerStats" where
  "statsAdvance packets solutions ps =
     ps\<lparr>ps_packetsReceived := ps_packetsReceived ps + of_nat packets,
        ps_solutionsReceived := ps_solutionsReceived ps + of_nat solutions\<rparr>"

lemma recvLoop_stream:
  assumes "\<forall>p \<in> set todo. packet_ok p" "x @ y = concat todo"
  shows "\<exists>ready later x'. todo = ready @ later \<and> x = concat ready @ x' \<and> x' @ y = concat later \<and>
    (later \<noteq> [] \<longrightarrow> length x' < length (hd later)) \<and>
    recvLoop k12 verify 0 x q ps = (Some (length (concat ready)), packetEffect k12 verify ready q,
      statsAdvance (length ready) (q_size (packetEffect k12 verify ready q) - q_size q) ps)"
  using assms
proof (induction todo arbitrary: x q ps)
  case Nil
  then show ?case by (simp add: recvLoop.simps statsAdvance_def sizeof_header_def)
next
  case (Cons p todo)
  show ?case
  proof (cases "length x < length p")
    case True
    then have "recvLoop k12 verify 0 x q ps = (Some 0, q, ps)"
      using Cons.prems by (intro recvLoop_partial [of p x y "concat todo"]) simp_all
    then show ?thesis
      using True Cons.prems by (intro exI [of _ "[]"] exI [of _ "p # todo"] exI [of _ x]) (simp add: statsAdvance_def)
  next
    case False
    then obtain x2 where x: "x = p @ x2"
      using Cons.prems(2) by (auto simp: append_eq_append_conv2)
    define q1 where "q1 = processSolution k12 verify p (length p) q"
    define s1 where "s1 = countSolution (q_size q1 - q_size q) ps"
    obtain ready later x' where IH: "todo = ready @ later" "x2 = concat ready @ x'" "x' @ y = concat later"
      "later \<noteq> [] \<longrightarrow> length x' < length (hd later)"
      "recvLoop k12 verify 0 x2 q1 s1 = (Some (length (concat ready)), packetEffect k12 verify ready q1,
        statsAdvance (length ready) (q_size (packetEffect k12 verify ready q1) - q_size q1) s1)"
      using Cons.IH [of x2 q1 s1] Cons.prems by (auto simp: x)
    have "packet_ok p" using Cons.prems by simp
    from recvLoop_packet [OF this q1_def, of x2 ps] IH(5)
    have run: "recvLoop k12 verify 0 x q ps = (Some (length (concat (p # ready))), packetEffect k12 verify (p # ready) q,
        statsAdvance (length ready) (q_size (packetEffect k12 verify ready q1) - q_size q1) s1)"
      by (simp add: x s1_def q1_def)
    have "q_size q \<le> q_size q1" "q_size q1 \<le> q_size (packetEffect k12 verify ready q1)"
      using q_size_processSolution [of k12 verify p "length p" q] q_size_packetEffect [of q1 k12 verify ready]
      by (auto simp: q1_def)
    then have "statsAdvance (length ready) (q_size (packetEffect k12 verify ready q1) - q_size q1) s1 =
        statsAdvance (length (p # ready)) (q_size (packetEffect k12 verify (p # ready) q) - q_size q) ps"
      by (simp add: statsAdvance_def s1_def countSolution_def q1_def [symmetric] of_nat_diff algebra_simps)
    with run IH show ?thesis
      by (intro exI [of _ "p # ready"] exI [of _ later] exI [of _ x']) (simp add: x)
  qed
qed

text \<open>The invariant between two reads: the packets seen so far have taken effect.\<close>

lemma receiveBytes_stream:
  assumes "\<forall>p \<in> set todo. packet_ok p" "buf @ concat ds @ y = concat todo"
  shows "\<exists>ready later x'. todo = ready @ later \<and> buf @ concat ds = concat ready @ x' \<and>
    (ds \<noteq> [] \<longrightarrow> later \<noteq> [] \<longrightarrow> length x' < length (hd later)) \<and>
    fold (receiveBytes k12 verify) ds (buf, q, ps) =
      (x', packetEffect k12 verify ready q,
       (statsAdvance (length ready) (q_size (packetEffect k12 verify ready q) - q_size q) ps)
         \<lparr>ps_bytesReceived := ps_bytesReceived ps + of_nat (length (concat ds))\<rparr>)"
  using assms
proof (induction ds arbitrary: buf todo q ps)
  case Nil
  then show ?case by (intro exI [of _ "[]"] exI [of _ todo] exI [of _ buf]) (simp add: statsAdvance_def)
next
  case (Cons d ds)
  define ps0 where "ps0 = ps\<lparr>ps_bytesReceived := ps_bytesReceived ps + of_nat (length d)\<rparr>"
  have "(buf @ d) @ (concat ds @ y) = concat todo" using Cons.prems(2) by simp
  from recvLoop_stream [OF Cons.prems(1) this, of k12 verify q ps0]
  obtain r1 l1 b1 where 1: "todo = r1 @ l1" "buf @ d = concat r1 @ b1" "b1 @ (concat ds @ y) = concat l1"
    "l1 \<noteq> [] \<longrightarrow> length b1 < length (hd l1)"
    "recvLoop k12 verify 0 (buf @ d) q ps0 = (Some (length (concat r1)), packetEffect k12 verify r1 q,
      statsAdvance (length r1) (q_size (packetEffect k12 verify r1 q) - q_size q) ps0)"
    by blast
  define q1 where "q1 = packetEffect k12 verify r1 q"
  define ps1 where "ps1 = statsAdvance (length r1) (q_size q1 - q_size q) ps0"
  have step: "receiveBytes k12 verify d (buf, q, ps) = (b1, q1, ps1)"
    using 1(2,5) by (simp add: receiveBytes_def processRecvBuffer_def ps0_def q1_def ps1_def)
  have "\<forall>p \<in> set l1. packet_ok p" using Cons.prems(1) 1(1) by simp
  from Cons.IH [OF this, of b1 q1 ps1] 1(3) obtain r2 l2 b2 where 2: "l1 = r2 @ l2" "b1 @ concat ds = concat r2 @ b2"
    "ds \<noteq> [] \<longrightarrow> l2 \<noteq> [] \<longrightarrow> length b2 < length (hd l2)"
    "fold (receiveBytes k12 verify) ds (b1, q1, ps1) = (b2, packetEffect k12 verify r2 q1,
      (statsAdvance (length r2) (q_size (packetEffect k12 verify r2 q1) - q_size q1) ps1)
        \<lparr>ps_bytesReceived := ps_bytesReceived ps1 + of_nat (length (concat ds))\<rparr>)"
    by auto
  have le: "q_size q \<le> q_size q1" "q_size q1 \<le> q_size (packetEffect k12 verify r2 q1)"
    using q_size_packetEffect by (simp_all add: q1_def)
  have bound: "l2 \<noteq> [] \<longrightarrow> length b2 < length (hd l2)"
  proof (cases "ds = []")
    case True
    then have "fold (receiveBytes k12 verify) ds (b1, q1, ps1) = (b1, q1, ps1)" by simp
    then have "b2 = b1" using 2(4) by simp
    then have "concat r2 = []" using 2(2) True by simp
    moreover have "\<forall>p \<in> set r2. p \<noteq> []"
      using Cons.prems(1) 1(1) 2(1) packet_ok_nonempty by auto
    ultimately have "r2 = []" by (cases r2) auto
    with \<open>b2 = b1\<close> 1(4) 2(1) show ?thesis by simp
  qed (use 2(3) in simp)
  have eff: "packetEffect k12 verify (r1 @ r2) q = packetEffect k12 verify r2 q1" by (simp add: q1_def)
  have "(statsAdvance (length r2) (q_size (packetEffect k12 verify r2 q1) - q_size q1) ps1)
        \<lparr>ps_bytesReceived := ps_bytesReceived ps1 + of_nat (length (concat ds))\<rparr> =
      (statsAdvance (length (r1 @ r2)) (q_size (packetEffect k12 verify (r1 @ r2) q) - q_size q) ps)
        \<lparr>ps_bytesReceived := ps_bytesReceived ps + of_nat (length (concat (d # ds)))\<rparr>"
    unfolding eff using le by (simp add: ps1_def statsAdvance_def ps0_def of_nat_diff algebra_simps)
  then have run: "fold (receiveBytes k12 verify) (d # ds) (buf, q, ps) = (b2, packetEffect k12 verify (r1 @ r2) q,
      (statsAdvance (length (r1 @ r2)) (q_size (packetEffect k12 verify (r1 @ r2) q) - q_size q) ps)
        \<lparr>ps_bytesReceived := ps_bytesReceived ps + of_nat (length (concat (d # ds)))\<rparr>)"
    using 2(4) step eff by simp
  show ?case
  proof (intro exI conjI)
    show "todo = (r1 @ r2) @ l2" using 1(1) 2(1) by simp
    have "buf @ concat (d # ds) = concat r1 @ (b1 @ concat ds)" using 1(2) by (metis append.assoc concat.simps(2))
    then show "buf @ concat (d # ds) = concat (r1 @ r2) @ b2" using 2(2) by simp
    show "d # ds \<noteq> [] \<longrightarrow> l2 \<noteq> [] \<longrightarrow> length b2 < length (hd l2)" using bound by simp
  qed (rule run)
qed

lemma reassembly:
  assumes "\<forall>p \<in> set packets. packet_ok p" "concat ds = concat packets" "ds \<noteq> []"
  shows "fold (receiveBytes k12 verify) ds ([], q, ps) =
    ([], packetEffect k12 verify packets q,
     (statsAdvance (length packets) (q_size (packetEffect k12 verify packets q) - q_size q) ps)
       \<lparr>ps_bytesReceived := ps_bytesReceived ps + of_nat (length (concat packets))\<rparr>)"
proof -
  have "[] @ concat ds @ [] = concat packets" using assms(2) by simp
  from receiveBytes_stream [OF assms(1) this, of k12 verify q ps, unfolded append_Nil] assms(3)
  obtain ready later x' where r: "packets = ready @ later" "concat ds = concat ready @ x'"
    "later \<noteq> [] \<longrightarrow> length x' < length (hd later)"
    "fold (receiveBytes k12 verify) ds ([], q, ps) = (x', packetEffect k12 verify ready q,
       (statsAdvance (length ready) (q_size (packetEffect k12 verify ready q) - q_size q) ps)
         \<lparr>ps_bytesReceived := ps_bytesReceived ps + of_nat (length (concat ds))\<rparr>)"
    by blast
  have "x' = concat later" using r(1,2) assms(2) by simp
  then have "later = []" using r(3) by (cases later) auto
  with r \<open>x' = concat later\<close> show ?thesis by (simp add: assms(2))
qed

text \<open>Whatever arrives, the rest in the buffer is shorter than the largest packet, so the
  positions fit into the 32-bit variables of the source.\<close>

lemma recvLoop_rest:
  "recvLoop k12 verify pos buf q ps = (Some p, q', ps') \<Longrightarrow> pos \<le> length buf \<Longrightarrow>
   p \<le> length buf \<and> length buf - p < maxPacketSize"
proof (induction "length buf - pos" arbitrary: pos q ps rule: less_induct)
  case less
  let ?n = "unat (header_size (read_header (drop pos buf)))"
  show ?case
  proof (cases "pos + sizeof_header \<le> length buf")
    case False
    then show ?thesis
      using less.prems by (simp add: recvLoop.simps [of _ _ pos] sizeof_header_def maxPacketSize_def)
  next
    case True
    show ?thesis
    proof (cases "?n < sizeof_header \<or> ?n > maxPacketSize \<or> pos + ?n > length buf")
      case True
      then show ?thesis
        using less.prems \<open>pos + sizeof_header \<le> length buf\<close>
        by (auto simp: recvLoop.simps [of _ _ pos] Let_def split: if_splits)
    next
      case False
      then have "length buf - (pos + ?n) < length buf - pos" "pos + ?n \<le> length buf"
        using True by (auto simp: sizeof_header_def)
      with less.hyps less.prems(1) False True show ?thesis
        by (simp add: recvLoop.simps [of _ _ pos] Let_def split del: if_split)
    qed
  qed
qed

lemma processRecvBuffer_bound: "length (fst (processRecvBuffer k12 verify buf q ps)) < maxPacketSize"
  using recvLoop_rest [of k12 verify 0 buf q ps]
  by (auto simp: processRecvBuffer_def maxPacketSize_def split: option.splits prod.splits)

section \<open>Properties\<close>

text \<open>
  C3: however the byte stream of a peer is cut into reads, a stream of well-formed packets has the
  effect of processing its packets one by one in order; every byte and packet is counted and the
  buffer is empty at the end.
\<close>

theorem packet_reassembly:
  assumes "\<forall>p \<in> set packets. packet_ok p" "concat ds = concat packets" "ds \<noteq> []"
  shows "fold (receiveBytes k12 verify) ds ([], q, ps) =
    ([], packetEffect k12 verify packets q,
     (statsAdvance (length packets) (q_size (packetEffect k12 verify packets q) - q_size q) ps)
       \<lparr>ps_bytesReceived := ps_bytesReceived ps + of_nat (length (concat packets))\<rparr>)"
  using assms by (rule reassembly)

theorem packet_reassembly_witness:
  "\<forall>k12 verify q ps. fold (receiveBytes k12 verify) [[8, 0], [0, 5, 0, 0, 0], [0, 9, 0, 0, 6, 1], [2, 3, 4, 5]] ([], q, ps) =
    ([], packetEffect k12 verify [[8, 0, 0, 5, 0, 0, 0, 0], [9, 0, 0, 6, 1, 2, 3, 4, 5]] q,
     (statsAdvance 2 (q_size (packetEffect k12 verify [[8, 0, 0, 5, 0, 0, 0, 0], [9, 0, 0, 6, 1, 2, 3, 4, 5]] q) - q_size q) ps)
       \<lparr>ps_bytesReceived := ps_bytesReceived ps + 17\<rparr>)"
proof (intro allI)
  fix k12 verify q ps
  have "\<forall>p \<in> set [[8, 0, 0, 5, 0, 0, 0, 0], [9, 0, 0, 6, 1, 2, 3, 4, 5]]. packet_ok p"
    by (simp add: packet_ok_def maxPacketSize_def sizeof_header_def read_header_def header_size_def field_def load_le_def Let_def)
  note packet_reassembly [OF this, of "[[8, 0], [0, 5, 0, 0, 0], [0, 9, 0, 0, 6, 1], [2, 3, 4, 5]]" k12 verify q ps]
  then show "fold (receiveBytes k12 verify) [[8, 0], [0, 5, 0, 0, 0], [0, 9, 0, 0, 6, 1], [2, 3, 4, 5]] ([], q, ps) =
    ([], packetEffect k12 verify [[8, 0, 0, 5, 0, 0, 0, 0], [9, 0, 0, 6, 1, 2, 3, 4, 5]] q,
     (statsAdvance 2 (q_size (packetEffect k12 verify [[8, 0, 0, 5, 0, 0, 0, 0], [9, 0, 0, 6, 1, 2, 3, 4, 5]] q) - q_size q) ps)
       \<lparr>ps_bytesReceived := ps_bytesReceived ps + 17\<rparr>)"
    by (simp add: numeral_2_eq_2)
qed

text \<open>
  C39: whatever bytes arrive, the rest that \<open>processRecvBuffer\<close> leaves in the buffer of a peer is shorter
  than the largest packet.
\<close>

theorem recv_buffer_bounded:
  "length (fst (processRecvBuffer k12 verify buf q ps)) < maxPacketSize"
  by (rule processRecvBuffer_bound)

end
