(* ===== verification/Qubic_Peers.thy ===== *)
theory Qubic_Peers
  imports Qubic_Recv
begin

text \<open>
  The peers of the receiving thread, \<open>dispatcher/src/threads/qubic_recv_thread.cpp\<close>: the
  reconnect state with its exponential backoff, the poll list and one pass of the main loop.
  Clock readings and the results of the system calls are inputs of a pass.
\<close>

definition reconnectBaseDelaySec :: nat where "reconnectBaseDelaySec = 2"
definition reconnectMaxDelaySec :: nat where "reconnectMaxDelaySec = 60"

text \<open>\<open>None\<close> is the time point \<open>min\<close>: no reconnect is pending.\<close>

record ReconnectState =
  rs_delaySec :: nat
  rs_nextRetryTime :: "int option"

definition rs_initial :: ReconnectState where
  "rs_initial = \<lparr>rs_delaySec = reconnectBaseDelaySec, rs_nextRetryTime = None\<rparr>"

definition rs_scheduleRetry :: "int \<Rightarrow> ReconnectState \<Rightarrow> ReconnectState" where
  "rs_scheduleRetry now rs = rs\<lparr>rs_nextRetryTime := Some (now + int (rs_delaySec rs))\<rparr>"

definition rs_backoff :: "ReconnectState \<Rightarrow> ReconnectState" where
  "rs_backoff rs = rs\<lparr>rs_delaySec :=
     (if rs_delaySec rs < reconnectBaseDelaySec then reconnectBaseDelaySec
      else min (rs_delaySec rs * 2) reconnectMaxDelaySec)\<rparr>"

definition rs_reset :: "ReconnectState \<Rightarrow> ReconnectState" where
  "rs_reset rs = rs\<lparr>rs_delaySec := reconnectBaseDelaySec, rs_nextRetryTime := None\<rparr>"

definition rs_isPending :: "ReconnectState \<Rightarrow> bool" where
  "rs_isPending rs \<longleftrightarrow> rs_nextRetryTime rs \<noteq> None"

definition rs_isReady :: "int \<Rightarrow> ReconnectState \<Rightarrow> bool" where
  "rs_isReady now rs = (case rs_nextRetryTime rs of None \<Rightarrow> False | Some t \<Rightarrow> t \<le> now)"

text \<open>The entries of the parallel vectors \<open>connections\<close>, \<open>recvBuffers\<close>, \<open>reconnectStates\<close> and
  \<open>peerStats\<close> at one index.\<close>

record Peer =
  p_conn :: QubicConnection
  p_recvBuf :: bytes
  p_rs :: ReconnectState
  p_stats :: PeerStats

definition peerConnected :: "Peer \<Rightarrow> bool" where
  "peerConnected p = s_isConnected (qc_socket (p_conn p))"

definition markDisconnected :: "int \<Rightarrow> Peer \<Rightarrow> Peer" where
  "markDisconnected now p =
     p\<lparr>p_conn := (p_conn p)\<lparr>qc_socket := closeConnection (qc_socket (p_conn p))\<rparr>,
       p_recvBuf := [],
       p_rs := rs_scheduleRetry now (p_rs p),
       p_stats := (p_stats p)\<lparr>ps_disconnects := ps_disconnects (p_stats p) + 1\<rparr>\<rparr>"

text \<open>The poll list as the indices of the connected peers, in order.\<close>

definition buildPollList :: "Peer list \<Rightarrow> nat list" where
  "buildPollList peers = filter (\<lambda>i. peerConnected (peers ! i)) [0..<length peers]"

text \<open>The outcome of a pass: it does not return while a send blocks, or the buffer overflows.\<close>

type_synonym 'a outcome = "(netError + 'a) option"

text \<open>One attempt for the ready peer \<open>i\<close>.\<close>

definition reconnectPeer :: "int \<Rightarrow> osConnect \<Rightarrow> Peer \<Rightarrow> (bool \<times> Peer) outcome" where
  "reconnectPeer now os p =
     (case reconnect os (p_conn p) of
        None \<Rightarrow> None
      | Some (Inl e) \<Rightarrow> Some (Inl e)
      | Some (Inr (ok, conn)) \<Rightarrow>
          Some (Inr (if ok
            then (True, p\<lparr>p_conn := conn, p_rs := rs_reset (p_rs p),
                          p_stats := (p_stats p)\<lparr>ps_reconnects := ps_reconnects (p_stats p) + 1\<rparr>\<rparr>)
            else (False, p\<lparr>p_conn := conn, p_rs := rs_scheduleRetry now (rs_backoff (p_rs p))\<rparr>))))"

text \<open>The scan of \<open>tryOneReconnect\<close>, with \<open>n\<close> positions left; \<open>now\<close> gives the clock when a peer is
  looked at.\<close>

fun tryOneReconnect :: "(nat \<Rightarrow> int) \<Rightarrow> osConnect \<Rightarrow> nat \<Rightarrow> Peer list \<Rightarrow> nat \<Rightarrow> (bool \<times> Peer list \<times> nat) outcome" where
  "tryOneReconnect now os 0 peers nextReconnIdx = Some (Inr (False, peers, nextReconnIdx))"
| "tryOneReconnect now os (Suc n) peers nextReconnIdx =
     (let i = nextReconnIdx mod length peers;
          next' = (nextReconnIdx + 1) mod length peers
      in if \<not> rs_isReady (now i) (p_rs (peers ! i)) then tryOneReconnect now os n peers next'
         else (case reconnectPeer (now i) os (peers ! i) of
            None \<Rightarrow> None
          | Some (Inl e) \<Rightarrow> Some (Inl e)
          | Some (Inr (ok, p)) \<Rightarrow> Some (Inr (ok, peers[i := p], next'))))"

record RecvState =
  r_peers :: "Peer list"
  r_pollList :: "nat list"
  r_nextReconnIdx :: nat
  r_queue :: "DispatcherMiningSolution ConcurrentQueue"

text \<open>The inputs of one pass of the main loop: clock readings, the results of a connection attempt,
  the result of \<open>poll\<close> and, per entry of the poll list, the flags \<open>POLLIN\<close> and
  \<open>POLLERR | POLLHUP\<close>.\<close>

record PassInput =
  i_now :: "nat \<Rightarrow> int"
  i_os :: osConnect
  i_poll :: int
  i_revents :: "nat \<Rightarrow> bool \<times> bool"

text \<open>The events of one entry of the poll list.\<close>

definition handleEvents ::
  "k12fun \<Rightarrow> verifyfun \<Rightarrow> PassInput \<Rightarrow> nat \<Rightarrow> nat \<Rightarrow>
   Peer list \<times> DispatcherMiningSolution ConcurrentQueue \<times> bool \<Rightarrow>
   Peer list \<times> DispatcherMiningSolution ConcurrentQueue \<times> bool" where
  "handleEvents k12 verify inp p connIdx = (\<lambda>(peers, queue, needRebuild).
     let peer = peers ! connIdx; (pollin, pollerr) = i_revents inp p
     in if pollin then
          (case sock_read 4096 (n_incoming (qc_net (p_conn peer))) of (r, es) \<Rightarrow>
             let peer1 = peer\<lparr>p_conn := (p_conn peer)\<lparr>qc_net := (qc_net (p_conn peer))\<lparr>n_incoming := es\<rparr>\<rparr>\<rparr>
             in case r of
                  Some (d # ds) \<Rightarrow>
                    (case receiveBytes k12 verify (d # ds) (p_recvBuf peer, queue, p_stats peer) of (buf, queue1, ps) \<Rightarrow>
                       (peers[connIdx := peer1\<lparr>p_recvBuf := buf, p_stats := ps\<rparr>], queue1, needRebuild))
                | _ \<Rightarrow> (peers[connIdx := markDisconnected (i_now inp connIdx) peer1], queue, True))
        else if pollerr then (peers[connIdx := markDisconnected (i_now inp connIdx) peer], queue, True)
        else (peers, queue, needRebuild))"

text \<open>One pass of the loop of \<open>qubicReceiveLoop\<close>.\<close>

definition recvPass :: "k12fun \<Rightarrow> verifyfun \<Rightarrow> PassInput \<Rightarrow> RecvState \<Rightarrow> RecvState outcome" where
  "recvPass k12 verify inp s =
     (case tryOneReconnect (i_now inp) (i_os inp) (length (r_peers s)) (r_peers s) (r_nextReconnIdx s) of
        None \<Rightarrow> None
      | Some (Inl e) \<Rightarrow> Some (Inl e)
      | Some (Inr (ok, peers1, nxt)) \<Rightarrow>
          let poll1 = (if ok then buildPollList peers1 else r_pollList s);
              s1 = s\<lparr>r_peers := peers1, r_pollList := poll1, r_nextReconnIdx := nxt\<rparr>
          in Some (Inr (
            if poll1 = [] then s1
            else if 0 < i_poll inp then
              (case fold (\<lambda>(p, connIdx). handleEvents k12 verify inp p connIdx) (List.enumerate 0 poll1)
                  (peers1, r_queue s, False) of
                 (peers2, queue2, needRebuild) \<Rightarrow>
                   s1\<lparr>r_peers := peers2, r_queue := queue2,
                      r_pollList := if needRebuild then buildPollList peers2 else poll1\<rparr>)
            else if i_poll inp < 0 then s1\<lparr>r_pollList := buildPollList peers1\<rparr>
            else s1)))"

text \<open>The state when the loop starts: peers that are not connected get an immediate first
  attempt.\<close>

definition startPeer :: "int \<Rightarrow> QubicConnection \<Rightarrow> PeerStats \<Rightarrow> Peer" where
  "startPeer now conn ps =
     \<lparr>p_conn = conn, p_recvBuf = [],
      p_rs = (if s_isConnected (qc_socket conn) then rs_initial
              else rs_scheduleRetry now (rs_initial\<lparr>rs_delaySec := 0\<rparr>)),
      p_stats = ps\<lparr>ps_ip := qc_peerIp conn, ps_port := qc_peerPort conn\<rparr>\<rparr>"

definition startState ::
  "int \<Rightarrow> DispatcherMiningSolution ConcurrentQueue \<Rightarrow> (QubicConnection \<times> PeerStats) list \<Rightarrow> RecvState" where
  "startState now queue cs =
     (let peers = map (\<lambda>(c, ps). startPeer now c ps) cs
      in \<lparr>r_peers = peers, r_pollList = buildPollList peers, r_nextReconnIdx = 0, r_queue = queue\<rparr>)"

section \<open>Steps of the thread and of its environment\<close>

text \<open>A failed send of the distribution thread only clears the flag of the socket.\<close>

definition sendFailed :: "Peer \<Rightarrow> Peer" where
  "sendFailed p = p\<lparr>p_conn := (p_conn p)\<lparr>qc_socket := (qc_socket (p_conn p))\<lparr>s_isConnected := False\<rparr>\<rparr>\<rparr>"

inductive recv_step :: "k12fun \<Rightarrow> verifyfun \<Rightarrow> RecvState \<Rightarrow> RecvState \<Rightarrow> bool" for k12 verify where
  pass: "recvPass k12 verify inp s = Some (Inr s') \<Longrightarrow> recv_step k12 verify s s'"
| send_failed: "i < length (r_peers s) \<Longrightarrow>
    recv_step k12 verify s (s\<lparr>r_peers := (r_peers s)[i := sendFailed (r_peers s ! i)]\<rparr>)"

inductive_cases recv_stepE: "recv_step k12 verify s s'"

section \<open>Backoff\<close>

definition delay_ok :: "ReconnectState \<Rightarrow> bool" where
  "delay_ok rs \<longleftrightarrow> rs_delaySec rs = 0 \<or>
     (reconnectBaseDelaySec \<le> rs_delaySec rs \<and> rs_delaySec rs \<le> reconnectMaxDelaySec)"

lemmas rs_defs = rs_scheduleRetry_def rs_backoff_def rs_reset_def rs_isPending_def rs_isReady_def rs_initial_def
  reconnectBaseDelaySec_def reconnectMaxDelaySec_def

lemma delay_ok_ops:
  "delay_ok rs_initial"
  "delay_ok rs \<Longrightarrow> delay_ok (rs_scheduleRetry now rs)"
  "delay_ok rs \<Longrightarrow> delay_ok (rs_backoff rs)"
  "delay_ok (rs_reset rs)"
  by (auto simp: delay_ok_def rs_defs)

text \<open>The delay after \<open>k\<close> failed attempts in a row.\<close>

lemma backoff_sequence:
  assumes "rs_delaySec rs = reconnectBaseDelaySec"
  shows "rs_delaySec ((rs_backoff ^^ k) rs) = min (2 ^ Suc k) reconnectMaxDelaySec"
proof (induction k)
  case (Suc k)
  have "(2 :: nat) \<le> 2 ^ Suc k" by simp
  then show ?case using Suc by (auto simp: rs_backoff_def reconnectBaseDelaySec_def reconnectMaxDelaySec_def min_def)
qed (use assms in \<open>simp add: rs_defs\<close>)

section \<open>No peer is forgotten\<close>

text \<open>A peer is connected exactly when no reconnect is pending for it, and the poll list has exactly
  the connected peers.\<close>

definition peer_ok :: "Peer \<Rightarrow> bool" where
  "peer_ok p \<longleftrightarrow> (peerConnected p \<longleftrightarrow> \<not> rs_isPending (p_rs p)) \<and> delay_ok (p_rs p)"

definition recv_inv :: "RecvState \<Rightarrow> bool" where
  "recv_inv s \<longleftrightarrow> (\<forall>p \<in> set (r_peers s). peer_ok p) \<and>
     set (r_pollList s) = {i. i < length (r_peers s) \<and> peerConnected (r_peers s ! i)}"

lemma set_buildPollList: "set (buildPollList peers) = {i. i < length peers \<and> peerConnected (peers ! i)}"
  by (auto simp: buildPollList_def)

text \<open>A send loop fails only after \<open>send\<close> reported an error.\<close>

lemma sendLoop_error: "sendLoop msg tot rs out = Some (False, rs', out') \<Longrightarrow> -1 \<in> set rs"
  by (induction msg tot rs out rule: sendLoop.induct) (subst (asm) (2) sendLoop.simps, auto split: if_splits list.splits)

lemma receiveResponse_sends: "receiveResponse n (sock, net) = (r, net') \<Longrightarrow> n_sendResults net' = n_sendResults net"
  by (auto simp: receiveResponse_def split: if_splits prod.splits)

lemma receiveAllData_sends: "receiveAllData n (sock, net) = (ok, d, net') \<Longrightarrow> n_sendResults net' = n_sendResults net"
  by (auto simp: receiveAllData_def split: if_splits prod.splits)

lemma drainPacket_sends: "drainPacket n (sock, net) = (ok, net') \<Longrightarrow> n_sendResults net' = n_sendResults net"
proof (induction "nat n" arbitrary: n net rule: less_induct)
  case less
  show ?case
  proof (cases "0 < n")
    case True
    define k where "k = (if n < int bufferSize then n else int bufferSize)"
    obtain ok1 d net1 where r: "receiveAllData (nat k) (sock, net) = (ok1, d, net1)" by (metis prod_cases3)
    have "nat (n - k) < nat n" using True by (simp add: k_def bufferSize_def)
    note IH = less.hyps [OF this]
    show ?thesis
      using less.prems True r receiveAllData_sends [OF r]
      by (auto simp: drainPacket.simps [of n] k_def [symmetric] Let_def split: if_splits dest: IH)
  qed (use less in \<open>simp add: drainPacket.simps [of n]\<close>)
qed

lemma receivePacket_sends:
  "receivePacketWithHeaderAs k ty tsize (sock, net) = Inr (d, net') \<Longrightarrow> n_sendResults net' = n_sendResults net"
proof (induction k arbitrary: net)
  case 0
  then show ?case
    by (auto simp: receivePacketWithHeaderAs.simps [of 0] Let_def split: prod.splits if_splits
        dest!: receiveResponse_sends receiveAllData_sends)
next
  case (Suc k)
  from Suc.prems show ?case
    by (auto simp: receivePacketWithHeaderAs.simps [of "Suc k"] Let_def split: prod.splits if_splits
        dest!: receiveResponse_sends receiveAllData_sends drainPacket_sends Suc.IH)
qed

lemma openQubicConnection_connected:
  assumes "openQubicConnection os ip port c = Some (Inr (ok, c'))" "-1 \<notin> set (n_sendResults (os_net os))"
  shows "s_isConnected (qc_socket c') \<longleftrightarrow> ok"
  using assms
  by (auto simp: openQubicConnection_def Let_def handshake_def sendMessage_def Socket_reset_def closeConnection_def
      split: if_splits option.splits sum.splits prod.splits dest!: receivePacket_sends sendLoop_error)

lemma peer_ok_reconnectPeer:
  assumes "reconnectPeer now os p = Some (Inr (ok, p'))" "-1 \<notin> set (n_sendResults (os_net os))"
    "rs_isPending (p_rs p)" "peer_ok p"
  shows "peer_ok p' \<and> (peerConnected p' \<longleftrightarrow> ok)"
  using assms
  by (auto simp: reconnectPeer_def reconnect_def peerConnected_def peer_ok_def delay_ok_ops
      split: if_splits option.splits sum.splits dest!: openQubicConnection_connected) (auto simp: rs_defs)

lemma tryOneReconnect_inv:
  assumes "tryOneReconnect now os n peers nxt = Some (Inr (ok, peers', nxt'))" "-1 \<notin> set (n_sendResults (os_net os))"
    "\<forall>p \<in> set peers. peer_ok p"
  shows "length peers' = length peers \<and> (\<forall>p \<in> set peers'. peer_ok p) \<and>
    (\<not> ok \<longrightarrow> (\<forall>i < length peers. peerConnected (peers' ! i) = peerConnected (peers ! i)))"
  using assms(1)
proof (induction n arbitrary: nxt)
  case 0
  then show ?case using assms(3) by simp
next
  case (Suc n)
  let ?i = "nxt mod length peers"
  show ?case
  proof (cases "rs_isReady (now ?i) (p_rs (peers ! ?i))")
    case False
    then have "tryOneReconnect now os n peers ((nxt + 1) mod length peers) = Some (Inr (ok, peers', nxt'))"
      using Suc.prems by (simp add: Let_def)
    from Suc.IH [OF this] show ?thesis .
  next
    case True
    then obtain p where p: "reconnectPeer (now ?i) os (peers ! ?i) = Some (Inr (ok, p))" "peers' = peers[?i := p]"
      using Suc.prems by (auto simp: Let_def split: option.splits sum.splits prod.splits)
    show ?thesis
    proof (cases "peers = []")
      case False
      then have i: "?i < length peers" by simp
      then have ok: "peer_ok (peers ! ?i)" using assms(3) by simp
      have pend: "rs_isPending (p_rs (peers ! ?i))"
        using True by (auto simp: rs_isReady_def rs_isPending_def split: option.splits)
      note new = peer_ok_reconnectPeer [OF p(1) assms(2) pend ok]
      have "\<not> peerConnected (peers ! ?i)" using ok pend by (simp add: peer_ok_def)
      then show ?thesis
        using new p(2) assms(3) i by (auto simp: nth_list_update dest!: subsetD [OF set_update_subset_insert])
    qed (use p assms(3) in simp)
  qed
qed

lemma peer_ok_markDisconnected: "peer_ok p \<Longrightarrow> peer_ok (markDisconnected now p)"
  by (simp add: peer_ok_def markDisconnected_def peerConnected_def closeConnection_def Socket_reset_def
      delay_ok_ops) (simp add: rs_defs)

lemma handleEvents_peer:
  obtains p' where "fst (handleEvents k12 verify inp n i (peers, q, need)) = peers[i := p']"
    "peer_ok (peers ! i) \<longrightarrow> peer_ok p'"
    "\<not> snd (snd (handleEvents k12 verify inp n i (peers, q, need))) \<longrightarrow>
       \<not> need \<and> p_rs p' = p_rs (peers ! i) \<and> peerConnected p' = peerConnected (peers ! i)"
proof -
  let ?p = "peers ! i"
  obtain r es where rd: "sock_read 4096 (n_incoming (qc_net (p_conn ?p))) = (r, es)" by fastforce
  obtain pin perr where ev: "i_revents inp n = (pin, perr)" by fastforce
  define p1 where "p1 = ?p\<lparr>p_conn := (p_conn ?p)\<lparr>qc_net := (qc_net (p_conn ?p))\<lparr>n_incoming := es\<rparr>\<rparr>\<rparr>"
  have p1: "peer_ok p1 = peer_ok ?p" "peerConnected p1 = peerConnected ?p" "p_rs p1 = p_rs ?p"
    by (simp_all add: p1_def peer_ok_def peerConnected_def)
  have upd: "peer_ok (p1\<lparr>p_recvBuf := b, p_stats := st\<rparr>) = peer_ok ?p"
    "peerConnected (p1\<lparr>p_recvBuf := b, p_stats := st\<rparr>) = peerConnected ?p"
    "p_rs (p1\<lparr>p_recvBuf := b, p_stats := st\<rparr>) = p_rs ?p" for b st
    by (simp_all add: p1_def peer_ok_def peerConnected_def)
  consider (recv) d ds where "pin" "r = Some (d # ds)" | (lost) "pin" "r = None \<or> r = Some []"
    | (err) "\<not> pin" "perr" | (none) "\<not> pin" "\<not> perr"
    by (metis option.exhaust list.exhaust)
  then show ?thesis
  proof cases
    case recv
    obtain buf q1 ps where rb: "receiveBytes k12 verify (d # ds) (p_recvBuf ?p, q, p_stats ?p) = (buf, q1, ps)"
      by (metis prod_cases3)
    show ?thesis
      by (rule that [of "p1\<lparr>p_recvBuf := buf, p_stats := ps\<rparr>"])
        (use recv rd ev rb upd in \<open>simp_all add: handleEvents_def Let_def p1_def\<close>)
  next
    case lost
    show ?thesis
      by (rule that [of "markDisconnected (i_now inp i) p1"])
        (use lost rd ev p1 in \<open>auto simp: handleEvents_def Let_def p1_def peer_ok_markDisconnected\<close>)
  next
    case err
    show ?thesis
      by (rule that [of "markDisconnected (i_now inp i) ?p"])
        (use err ev in \<open>auto simp: handleEvents_def Let_def peer_ok_markDisconnected\<close>)
  next
    case none
    show ?thesis
      by (rule that [of ?p]) (use none ev in \<open>auto simp: handleEvents_def Let_def\<close>)
  qed
qed

text \<open>A property of the peers and the rebuild flag that every single event keeps holds after all
  events.\<close>

lemma fold_events:
  assumes "I peers need" "\<And>peers q need n i. I peers need \<Longrightarrow> (n, i) \<in> set evs \<Longrightarrow>
      I (fst (handleEvents k12 verify inp n i (peers, q, need))) (snd (snd (handleEvents k12 verify inp n i (peers, q, need))))"
  shows "case fold (\<lambda>(p, i). handleEvents k12 verify inp p i) evs (peers, q, need) of (peers', q', need') \<Rightarrow> I peers' need'"
  using assms
proof (induction evs arbitrary: peers q need)
  case (Cons e evs)
  obtain n i where e: "e = (n, i)" by fastforce
  obtain peers1 q1 need1 where h: "handleEvents k12 verify inp n i (peers, q, need) = (peers1, q1, need1)"
    by (metis prod_cases3)
  have "I peers1 need1" using Cons.prems(2) [OF Cons.prems(1), of n i q] h e by simp
  from Cons.IH [OF this, of q1] Cons.prems(2) show ?case by (simp add: e h)
qed simp

text \<open>The parts of a pass: the reconnect attempt, the poll list, the events.\<close>

lemma recvPass_cases:
  assumes "recvPass k12 verify inp s = Some (Inr s')"
  obtains ok peers1 nxt poll1 peers2 q2 need2 where
    "tryOneReconnect (i_now inp) (i_os inp) (length (r_peers s)) (r_peers s) (r_nextReconnIdx s) = Some (Inr (ok, peers1, nxt))"
    "poll1 = (if ok then buildPollList peers1 else r_pollList s)"
    "fold (\<lambda>(p, connIdx). handleEvents k12 verify inp p connIdx) (List.enumerate 0 poll1) (peers1, r_queue s, False) =
       (peers2, q2, need2)"
    "r_peers s' = peers1 \<and> (r_pollList s' = poll1 \<or> r_pollList s' = buildPollList peers1) \<or>
     0 < i_poll inp \<and> r_peers s' = peers2 \<and> r_pollList s' = (if need2 then buildPollList peers2 else poll1)"
    "i_poll inp < 0 \<Longrightarrow> r_peers s' = peers1 \<and> (r_pollList s' = [] \<or> r_pollList s' = buildPollList peers1)"
proof -
  obtain ok peers1 nxt where t: "tryOneReconnect (i_now inp) (i_os inp) (length (r_peers s)) (r_peers s) (r_nextReconnIdx s) =
      Some (Inr (ok, peers1, nxt))"
    using assms(1) by (auto simp: recvPass_def split: option.splits sum.splits)
  define poll1 where "poll1 = (if ok then buildPollList peers1 else r_pollList s)"
  obtain peers2 q2 need2 where f: "fold (\<lambda>(p, connIdx). handleEvents k12 verify inp p connIdx) (List.enumerate 0 poll1)
      (peers1, r_queue s, False) = (peers2, q2, need2)"
    by (metis prod_cases3)
  define s1 where "s1 = s\<lparr>r_peers := peers1, r_pollList := poll1, r_nextReconnIdx := nxt\<rparr>"
  have s': "s' = (if poll1 = [] then s1 else if 0 < i_poll inp then s1\<lparr>r_peers := peers2, r_queue := q2,
      r_pollList := if need2 then buildPollList peers2 else poll1\<rparr>
      else if i_poll inp < 0 then s1\<lparr>r_pollList := buildPollList peers1\<rparr> else s1)"
    using assms(1) unfolding recvPass_def t option.case sum.case prod.case Let_def poll1_def [symmetric] s1_def [symmetric] f
    by simp
  show ?thesis
    by (rule that [OF t poll1_def f]) (auto simp: s' s1_def)
qed

lemma recvPass_inv:
  assumes "recvPass k12 verify inp s = Some (Inr s')" "-1 \<notin> set (n_sendResults (os_net (i_os inp)))" "recv_inv s"
  shows "recv_inv s' \<and> length (r_peers s') = length (r_peers s)"
  using assms(1)
proof (rule recvPass_cases)
  fix ok peers1 nxt poll1 peers2 q2 need2
  assume t: "tryOneReconnect (i_now inp) (i_os inp) (length (r_peers s)) (r_peers s) (r_nextReconnIdx s) = Some (Inr (ok, peers1, nxt))"
    and poll1_def: "poll1 = (if ok then buildPollList peers1 else r_pollList s)"
    and f: "fold (\<lambda>(p, connIdx). handleEvents k12 verify inp p connIdx) (List.enumerate 0 poll1) (peers1, r_queue s, False) =
       (peers2, q2, need2)"
    and s': "r_peers s' = peers1 \<and> (r_pollList s' = poll1 \<or> r_pollList s' = buildPollList peers1) \<or>
     0 < i_poll inp \<and> r_peers s' = peers2 \<and> r_pollList s' = (if need2 then buildPollList peers2 else poll1)"
  note inv = tryOneReconnect_inv [OF t assms(2)] assms(3) [unfolded recv_inv_def]
  have poll1: "set poll1 = {i. i < length peers1 \<and> peerConnected (peers1 ! i)}"
    using inv by (auto simp: poll1_def set_buildPollList)
  define I where "I = (\<lambda>peers need. length peers = length (r_peers s) \<and> (\<forall>p \<in> set peers. peer_ok p) \<and>
    (\<not> need \<longrightarrow> set poll1 = {i. i < length peers \<and> peerConnected (peers ! i)}))"
  have I1: "I peers1 False" using inv poll1 by (simp add: I_def)
  have step: "I (fst (handleEvents k12 verify inp n i (peers, q, need))) (snd (snd (handleEvents k12 verify inp n i (peers, q, need))))"
    if I: "I peers need" and i: "(n, i) \<in> set (List.enumerate 0 poll1)" for peers q need n i
  proof -
    have "i \<in> set poll1" using i by (auto simp: in_set_enumerate_eq)
    then have i: "i < length peers" using I poll1 inv by (simp add: I_def)
    obtain p' where p': "fst (handleEvents k12 verify inp n i (peers, q, need)) = peers[i := p']"
      "peer_ok (peers ! i) \<longrightarrow> peer_ok p'"
      "\<not> snd (snd (handleEvents k12 verify inp n i (peers, q, need))) \<longrightarrow>
         \<not> need \<and> p_rs p' = p_rs (peers ! i) \<and> peerConnected p' = peerConnected (peers ! i)"
      by (rule handleEvents_peer)
    show ?thesis
      using p' I i unfolding I_def
      by (auto simp: nth_list_update dest!: subsetD [OF set_update_subset_insert])
  qed
  have I2: "I peers2 need2"
    using fold_events [of I peers1 False "List.enumerate 0 poll1", OF I1 step, of "r_queue s"] f by simp
  show ?thesis
    using s' I1 I2 poll1 by (auto simp: recv_inv_def I_def set_buildPollList split: if_splits)
qed

lemma recv_inv_start: "recv_inv (startState now q cs)"
  by (auto simp: recv_inv_def startState_def Let_def set_buildPollList peer_ok_def startPeer_def peerConnected_def
      delay_ok_def split: prod.splits) (auto simp: rs_defs split: if_splits)

section \<open>A forgotten peer stays forgotten\<close>

text \<open>After a failed send a peer is not connected and has no reconnect pending, but may still be polled; it is lost when it is
  not polled any more.\<close>

definition peer_stale :: "nat \<Rightarrow> RecvState \<Rightarrow> bool" where
  "peer_stale i s \<longleftrightarrow> i < length (r_peers s) \<and> \<not> peerConnected (r_peers s ! i) \<and>
     \<not> rs_isPending (p_rs (r_peers s ! i)) \<and> (\<forall>j \<in> set (r_pollList s). j < length (r_peers s))"

definition peer_lost :: "nat \<Rightarrow> RecvState \<Rightarrow> bool" where
  "peer_lost i s \<longleftrightarrow> peer_stale i s \<and> i \<notin> set (r_pollList s)"

text \<open>The list that a pass polls, and the passes that see no event of one peer.\<close>

definition polledBy :: "PassInput \<Rightarrow> RecvState \<Rightarrow> nat list" where
  "polledBy inp s =
     (case tryOneReconnect (i_now inp) (i_os inp) (length (r_peers s)) (r_peers s) (r_nextReconnIdx s) of
        Some (Inr (True, peers1, nxt)) \<Rightarrow> buildPollList peers1
      | _ \<Rightarrow> r_pollList s)"

definition quietFor :: "nat \<Rightarrow> PassInput \<Rightarrow> RecvState \<Rightarrow> bool" where
  "quietFor i inp s \<longleftrightarrow>
     i_poll inp \<le> 0 \<or> list_all (\<lambda>(n, j). j = i \<longrightarrow> i_revents inp n = (False, False)) (List.enumerate 0 (polledBy inp s))"

inductive quiet_step :: "k12fun \<Rightarrow> verifyfun \<Rightarrow> nat \<Rightarrow> RecvState \<Rightarrow> RecvState \<Rightarrow> bool" for k12 verify i where
  pass: "recvPass k12 verify inp s = Some (Inr s') \<Longrightarrow> quietFor i inp s \<Longrightarrow> quiet_step k12 verify i s s'"
| send_failed: "j < length (r_peers s) \<Longrightarrow>
    quiet_step k12 verify i s (s\<lparr>r_peers := (r_peers s)[j := sendFailed (r_peers s ! j)]\<rparr>)"

lemma tryOneReconnect_other:
  assumes "tryOneReconnect now os n peers nxt = Some (Inr (ok, peers', nxt'))" "\<not> rs_isPending (p_rs (peers ! i))"
    "i < length peers"
  shows "length peers' = length peers \<and> peers' ! i = peers ! i"
  using assms(1)
proof (induction n arbitrary: nxt)
  case (Suc n)
  let ?j = "nxt mod length peers"
  show ?case
  proof (cases "rs_isReady (now ?j) (p_rs (peers ! ?j))")
    case False
    then have "tryOneReconnect now os n peers ((nxt + 1) mod length peers) = Some (Inr (ok, peers', nxt'))"
      using Suc.prems by (simp add: Let_def)
    from Suc.IH [OF this] show ?thesis .
  next
    case True
    then have "i \<noteq> ?j" using assms(2) by (auto simp: rs_isReady_def rs_isPending_def split: option.splits)
    then show ?thesis
      using Suc.prems True by (auto simp: Let_def split: option.splits sum.splits prod.splits)
  qed
qed simp

lemma recvPass_stale:
  assumes "recvPass k12 verify inp s = Some (Inr s')" "peer_stale i s" "quietFor i inp s \<or> i \<notin> set (r_pollList s)"
  shows "peer_stale i s'" "i \<notin> set (r_pollList s) \<or> i_poll inp < 0 \<Longrightarrow> i \<notin> set (r_pollList s')"
proof -
  from assms(1) have "peer_stale i s' \<and> (i \<notin> set (r_pollList s) \<or> i_poll inp < 0 \<longrightarrow> i \<notin> set (r_pollList s'))"
  proof (rule recvPass_cases)
    fix ok peers1 nxt poll1 peers2 q2 need2
    assume t: "tryOneReconnect (i_now inp) (i_os inp) (length (r_peers s)) (r_peers s) (r_nextReconnIdx s) = Some (Inr (ok, peers1, nxt))"
      and poll1_def: "poll1 = (if ok then buildPollList peers1 else r_pollList s)"
      and f: "fold (\<lambda>(p, connIdx). handleEvents k12 verify inp p connIdx) (List.enumerate 0 poll1) (peers1, r_queue s, False) =
         (peers2, q2, need2)"
      and s': "r_peers s' = peers1 \<and> (r_pollList s' = poll1 \<or> r_pollList s' = buildPollList peers1) \<or>
       0 < i_poll inp \<and> r_peers s' = peers2 \<and> r_pollList s' = (if need2 then buildPollList peers2 else poll1)"
      and bad: "i_poll inp < 0 \<Longrightarrow> r_peers s' = peers1 \<and> (r_pollList s' = [] \<or> r_pollList s' = buildPollList peers1)"
    have st: "i < length (r_peers s)" "\<not> peerConnected (r_peers s ! i)" "\<not> rs_isPending (p_rs (r_peers s ! i))"
      "\<forall>j \<in> set (r_pollList s). j < length (r_peers s)"
      using assms(2) by (auto simp: peer_stale_def)
    note same = tryOneReconnect_other [OF t st(3,1)]
    have poll1: "i \<notin> set (r_pollList s) \<longrightarrow> i \<notin> set poll1" "\<forall>j \<in> set poll1. j < length (r_peers s)" "polledBy inp s = poll1"
      using st same t by (auto simp: poll1_def set_buildPollList polledBy_def split: bool.splits)
    define I where "I = (\<lambda>(peers :: Peer list) (need :: bool). length peers = length (r_peers s) \<and> peers ! i = r_peers s ! i)"
    have I1: "I peers1 False" using same by (simp add: I_def)
    have I2: "I peers2 need2" if "0 < i_poll inp"
    proof -
      have "I (fst (handleEvents k12 verify inp n j (peers, q, need))) (snd (snd (handleEvents k12 verify inp n j (peers, q, need))))"
        if I: "I peers need" and j: "(n, j) \<in> set (List.enumerate 0 poll1)" for peers q need n j
      proof (cases "i = j")
        case True
        have "i \<in> set poll1" using j True by (auto simp: in_set_enumerate_eq)
        then have "quietFor i inp s" using assms(3) poll1(1) by blast
        then have "i_revents inp n = (False, False)" using \<open>0 < i_poll inp\<close> j True by (auto simp: quietFor_def poll1(3) list_all_iff)
        then show ?thesis using I by (simp add: handleEvents_def Let_def)
      next
        case False
        obtain p' where "fst (handleEvents k12 verify inp n j (peers, q, need)) = peers[j := p']" by (rule handleEvents_peer)
        then show ?thesis using I False by (simp add: I_def)
      qed
      from fold_events [of I peers1 False "List.enumerate 0 poll1", OF I1 this, of "r_queue s"] show ?thesis using f by simp
    qed
    show ?thesis
      using s' I1 I2 poll1 st bad unfolding peer_stale_def by (auto simp: I_def set_buildPollList split: if_splits)
  qed
  then show "peer_stale i s'" "i \<notin> set (r_pollList s) \<or> i_poll inp < 0 \<Longrightarrow> i \<notin> set (r_pollList s')" by blast+
qed

lemma sendFailed_stale:
  assumes "peer_stale i s"
  shows "peer_stale i (s\<lparr>r_peers := (r_peers s)[j := sendFailed (r_peers s ! j)]\<rparr>)"
  using assms by (cases "i = j") (auto simp: peer_stale_def sendFailed_def peerConnected_def)

lemma recv_step_lost: "recv_step k12 verify s s' \<Longrightarrow> peer_lost i s \<Longrightarrow> peer_lost i s'"
  by (induction rule: recv_step.induct) (simp_all add: peer_lost_def sendFailed_stale recvPass_stale)

lemma recv_steps_lost: "(recv_step k12 verify)\<^sup>*\<^sup>* s s' \<Longrightarrow> peer_lost i s \<Longrightarrow> peer_lost i s'"
  by (induction rule: rtranclp_induct) (auto dest: recv_step_lost)

lemma quiet_steps_stale: "(quiet_step k12 verify i)\<^sup>*\<^sup>* s s' \<Longrightarrow> peer_stale i s \<Longrightarrow> peer_stale i s'"
proof (induction rule: rtranclp_induct)
  case (step t u)
  from step.hyps(2) step.IH [OF step.prems] show ?case
    by (induction rule: quiet_step.induct) (simp_all add: sendFailed_stale recvPass_stale(1))
qed

text \<open>A failed send makes a peer stale.\<close>

lemma peer_gets_stale:
  assumes "recv_inv s" "i < length (r_peers s)" "peerConnected (r_peers s ! i)"
  shows "peer_stale i (s\<lparr>r_peers := (r_peers s)[i := sendFailed (r_peers s ! i)]\<rparr>)"
proof -
  have "peer_ok (r_peers s ! i)" using assms(1,2) by (simp add: recv_inv_def)
  then show ?thesis using assms by (auto simp: peer_stale_def sendFailed_def peerConnected_def peer_ok_def recv_inv_def)
qed

section \<open>Properties\<close>

text \<open>
  C13: the loop starts in a state in which every peer is either connected and polled or has a reconnect
  scheduled, with a delay of 0 or 2 to 60 seconds, and every pass in which \<open>send\<close> reports no error keeps it
  so: no peer is forgotten.
\<close>

theorem peers_covered:
  assumes "recv_inv s" "recvPass k12 verify inp s = Some (Inr s')" "-1 \<notin> set (n_sendResults (os_net (i_os inp)))"
  shows "recv_inv (startState now q cs) \<and> recv_inv s' \<and> length (r_peers s') = length (r_peers s)"
  using recv_inv_start recvPass_inv [OF assms(2,3,1)] by blast

definition exampleConn :: "bool \<Rightarrow> QubicConnection" where
  "exampleConn up = \<lparr>qc_socket = \<lparr>s_isConnected = up, s_rawSocket = 3\<rparr>,
     qc_net = \<lparr>n_incoming = [], n_sendResults = [], n_outgoing = []\<rparr>, qc_peerIp = ''10.0.0.1'', qc_peerPort = 21841\<rparr>"

definition exampleStats :: PeerStats where
  "exampleStats = \<lparr>ps_ip = [], ps_port = 0, ps_reconnects = 0, ps_solutionsReceived = 0, ps_packetsReceived = 0,
     ps_bytesReceived = 0, ps_disconnects = 0, ps_sendFailures = 0\<rparr>"

definition exampleInput :: "int \<Rightarrow> PassInput" where
  "exampleInput pollResult = \<lparr>i_now = (\<lambda>_. 100),
     i_os = \<lparr>os_raw = -1, os_ptonOk = True, os_connectResult = 0, os_inProgress = False, os_pollResult = 0,
       os_pollOut = False, os_sockErr = 0, os_net = \<lparr>n_incoming = [], n_sendResults = [], n_outgoing = []\<rparr>\<rparr>,
     i_poll = pollResult, i_revents = (\<lambda>_. (False, True))\<rparr>"

definition exampleState :: RecvState where
  "exampleState = startState 50 \<lparr>m_queue = []\<rparr> [(exampleConn True, exampleStats)]"

lemmas example_defs = exampleState_def exampleConn_def exampleStats_def exampleInput_def startState_def startPeer_def
  buildPollList_def peerConnected_def recvPass_def rs_defs handleEvents_def

theorem peers_covered_witness:
  "(\<exists>s'. recvPass (\<lambda>m. m) (\<lambda>_ _ _. True) (exampleInput 1) exampleState = Some (Inr s') \<and> recv_inv s' \<and>
     length (r_peers s') = 1)"
proof -
  obtain s' where run: "recvPass (\<lambda>m. m) (\<lambda>_ _ _. True) (exampleInput 1) exampleState = Some (Inr s')"
    by (simp add: example_defs)
  have "recv_inv exampleState" unfolding exampleState_def by (rule recv_inv_start)
  from peers_covered [OF this run] run show ?thesis by (simp add: exampleInput_def) (simp add: example_defs)
qed


text \<open>Two peers: the send to the first fails, then poll reports an error on the second, and the rebuilt list is without the first.\<close>

definition examplePeers :: RecvState where
  "examplePeers = startState 50 \<lparr>m_queue = []\<rparr> [(exampleConn True, exampleStats), (exampleConn True, exampleStats)]"


end
