(* ===== verification/Share_Valid.thy ===== *)
theory Share_Valid
  imports Hash_Util Connection Concurrency
begin

text \<open>
  The share validation thread, \<open>dispatcher/src/threads/share_valid_thread.cpp\<close>: the
  deduplication of solutions, the reconstruction of the block header, the check against the
  pool target, the counters and the submission to the pool.  Serialising the submission is the
  JSON library's work and an argument \<open>dump\<close>; the log output is left out.
\<close>

section \<open>The approximate difficulty of a hash\<close>

text \<open>The index of the most significant non-zero byte among the first \<open>n\<close>.\<close>

fun findMsb :: "bytes \<Rightarrow> nat \<Rightarrow> nat option" where
  "findMsb hash 0 = None"
| "findMsb hash (Suc i) = (if hash ! i \<noteq> 0 then Some i else findMsb hash i)"

definition hashTopOf :: "bytes \<Rightarrow> nat \<Rightarrow> u64" where
  "hashTopOf hash hashMsb =
     fold (\<lambda>i hashTop. push_bit 8 hashTop OR (if i \<le> hashMsb then ucast (hash ! (hashMsb - i)) else 0)) [0..<8] 0"

fun shiftDiff :: "nat \<Rightarrow> u64 \<Rightarrow> u64" where
  "shiftDiff 0 diff = diff"
| "shiftDiff (Suc n) diff = (if diff > (- 1) div 256 then - 1 else shiftDiff n (diff * 256))"

definition hashDifficulty :: "bytes \<Rightarrow> u64" where
  "hashDifficulty hash =
     (case findMsb hash 32 of
        None \<Rightarrow> 0
      | Some hashMsb \<Rightarrow>
          if hashMsb > 29 then 0
          else
            let hashTop = hashTopOf hash hashMsb
            in if hashTop = 0 then 0
               else
                 let byteShift = 29 - hashMsb; baseTop = 0x00FFFF0000000000 :: u64
                 in if byteShift > 0 then shiftDiff byteShift (baseTop div hashTop) else baseTop div hashTop)"

section \<open>Validation of one solution\<close>

text \<open>\<open>std::to_string\<close> on an unsigned number.\<close>

fun decString :: "nat \<Rightarrow> string" where
  "decString n = (if n < 10 then [''0123456789'' ! n] else decString (n div 10) @ [''0123456789'' ! (n mod 10)])"

declare decString.simps [simp del]

definition dedupeKeyOf :: "DispatcherMiningSolution \<Rightarrow> string" where
  "dedupeKeyOf sol = decString (unat (dms_jobId sol)) @ ''_'' @
     bytesToHex (dms_nonce sol) BigEndian @ bytesToHex (dms_extraNonce2 sol) BigEndian"

text \<open>The first four bytes of \<open>extraNonce2\<close>, modulo the number of computors.\<close>

definition computorIdxOf :: "bytes \<Rightarrow> nat" where
  "computorIdxOf en2 =
     unat ((push_bit 24 (ucast (en2 ! 0)) OR push_bit 16 (ucast (en2 ! 1)) OR push_bit 8 (ucast (en2 ! 2)) OR
       ucast (en2 ! 3) :: u32) mod 676)"

text \<open>The parameters of \<open>mining.submit\<close>.\<close>

record Submission =
  sub_id :: u64
  sub_worker :: string
  sub_taskId :: string
  sub_extraNonce2 :: string
  sub_nTime :: string
  sub_nonce :: string

record ValidState =
  v_recentSubmits :: "string list"
  v_lastCleanJobId :: u64
  v_fullHeader :: bytes
  v_scryptHash :: bytes
  v_stats :: DispatcherStats
  v_nextStratumSendId :: u64
  v_conn :: "Socket \<times> Net"

datatype verdict = Duplicate | Stale | WrongSize | BadHeader | BelowTarget | Accepted

definition buildHeader :: "DispatcherMiningTask \<Rightarrow> DispatcherMiningSolution \<Rightarrow> bytes \<Rightarrow> bytes \<times> nat" where
  "buildHeader task sol hdr =
     (let h1 = memcpy_at hdr 0 (dmt_partialHeader task);
          o1 = length (dmt_partialHeader task);
          h2 = memcpy_at h1 o1 (dms_merkleRoot sol);
          o2 = o1 + length (dms_merkleRoot sol);
          h3 = memcpy_at h2 o2 (dms_nTime sol);
          o3 = o2 + length (dms_nTime sol);
          h4 = memcpy_at h3 o3 (dmt_nBits task);
          o4 = o3 + length (dmt_nBits task);
          h5 = memcpy_at h4 o4 (dms_nonce sol);
          o5 = o4 + length (dms_nonce sol)
      in (h5, o5))"

definition countRejected :: "ValidState \<Rightarrow> ValidState" where
  "countRejected s = s\<lparr>v_stats := (v_stats s)\<lparr>st_solutionsRejected := st_solutionsRejected (v_stats s) + 1\<rparr>\<rparr>"

text \<open>The counters of an accepted solution; \<open>now\<close> is the time in seconds.\<close>

definition countAccepted :: "int \<Rightarrow> nat \<Rightarrow> DispatcherStats \<Rightarrow> DispatcherStats" where
  "countAccepted now computorIdx st =
     (let st1 = st\<lparr>st_solutionsAccepted := st_solutionsAccepted st + 1\<rparr>;
          st2 = (if computorIdx < NUM_COMPUTORS
                 then st1\<lparr>st_computorShares := (st_computorShares st1)[computorIdx := st_computorShares st1 ! computorIdx + 1],
                          st_computorLastSeen := (st_computorLastSeen st1)[computorIdx := now]\<rparr>
                 else st1)
      in st2\<lparr>st_solutionsPassedPoolDiff := st_solutionsPassedPoolDiff st2 + 1\<rparr>)"

definition submissionOf :: "string \<Rightarrow> u64 \<Rightarrow> DispatcherMiningTask \<Rightarrow> DispatcherMiningSolution \<Rightarrow> Submission" where
  "submissionOf workerName sendId task sol =
     \<lparr>sub_id = sendId, sub_worker = workerName, sub_taskId = dmt_taskId task,
      sub_extraNonce2 = bytesToHex (dms_extraNonce2 sol) BigEndian,
      sub_nTime = bytesToHex (dms_nTime sol) LittleEndian,
      sub_nonce = bytesToHex (dms_nonce sol) LittleEndian\<rparr>"

text \<open>The submission to the pool; \<open>None\<close> while a send blocks.\<close>

definition submitShare ::
  "(Submission \<Rightarrow> bytes) \<Rightarrow> string \<Rightarrow> DispatcherMiningTask \<Rightarrow> DispatcherMiningSolution \<Rightarrow> ValidState \<Rightarrow> ValidState option" where
  "submitShare dump workerName task sol s =
     (if s_isConnected (fst (v_conn s))
      then (case sendMessage (dump (submissionOf workerName (v_nextStratumSendId s) task sol) @ [10]) (v_conn s) of
              None \<Rightarrow> None
            | Some (ok, conn) \<Rightarrow> Some (s\<lparr>v_nextStratumSendId := v_nextStratumSendId s + 1, v_conn := conn\<rparr>))
      else Some s)"

text \<open>One pass of the loop after \<open>queue.pop()\<close>, with what it decided.\<close>

definition validateSolution ::
  "Scratch \<Rightarrow> (Submission \<Rightarrow> bytes) \<Rightarrow> string \<Rightarrow> int \<Rightarrow> (u64, DispatcherMiningTask) ConcurrentHashMap \<Rightarrow>
   DispatcherMiningSolution \<Rightarrow> ValidState \<Rightarrow> (verdict \<times> ValidState) option" where
  "validateSolution sp dump workerName now activeTasks sol s =
     (let dedupeKey = dedupeKeyOf sol in
      if dedupeKey \<in> set (v_recentSubmits s) then Some (Duplicate, s)
      else
        let s1 = s\<lparr>v_stats := (v_stats s)\<lparr>st_solutionsReceived := st_solutionsReceived (v_stats s) + 1\<rparr>\<rparr>;
            s2 = (if dms_jobId sol \<noteq> v_lastCleanJobId s1
                  then s1\<lparr>v_recentSubmits := [], v_lastCleanJobId := dms_jobId sol\<rparr> else s1)
        in case hm_get activeTasks (dms_jobId sol) of
             None \<Rightarrow> Some (Stale, s2\<lparr>v_stats := (v_stats s2)\<lparr>st_solutionsStale := st_solutionsStale (v_stats s2) + 1\<rparr>\<rparr>)
           | Some task \<Rightarrow>
               if extraNonce2NumBytes \<noteq> length (dms_extraNonce2 sol) then Some (WrongSize, countRejected s2)
               else
                 (case buildHeader task sol (v_fullHeader s2) of (hdr, offset) \<Rightarrow>
                   let s3 = s2\<lparr>v_fullHeader := hdr\<rparr> in
                   if offset \<noteq> 80 then Some (BadHeader, countRejected s3)
                   else
                     let s4 = s3\<lparr>v_scryptHash := scrypt_1024_1_1_256 sp hdr (v_scryptHash s3)\<rparr>;
                         computorIdx = computorIdxOf (dms_extraNonce2 sol)
                     in if \<not> verifyHashVsTarget (v_scryptHash s4) (dmt_targetPool task)
                        then Some (BelowTarget, countRejected s4)
                        else
                          let s5 = s4\<lparr>v_stats := countAccepted now computorIdx (v_stats s4),
                                      v_recentSubmits := dedupeKey # v_recentSubmits s4\<rparr>
                          in map_option (\<lambda>s'. (Accepted, s')) (submitShare dump workerName task sol s5)))"

section \<open>The difficulty shown in the log\<close>

lemma unat_shift_in:
  fixes t :: u64
  assumes "unat t < 256 ^ 7"
  shows "unat (push_bit 8 t OR ucast (b :: byte)) = 256 * unat t + unat b"
proof -
  have "unat (ucast b OR push_bit 8 t :: u64) = unat (ucast b :: u64) + 2 ^ 8 * unat t"
    using assms unat_byte_less [of b] by (intro unat_or_push_bit) simp_all
  then show ?thesis by (simp add: or.commute)
qed

lemma fold_shift_in:
  fixes bs :: bytes
  shows "length bs + k \<le> 8 \<Longrightarrow> unat t < 256 ^ k \<Longrightarrow>
   256 ^ length bs * unat t \<le> unat (fold (\<lambda>b t. push_bit 8 t OR ucast b) bs (t :: u64))"
proof (induction bs arbitrary: k t)
  case (Cons b bs)
  have "unat t < 256 ^ 7" using Cons.prems power_increasing [of k 7 "256 :: nat"] by simp
  note sh = unat_shift_in [OF this, of b]
  have "unat (push_bit 8 t OR ucast b) < 256 ^ Suc k"
    unfolding sh using Cons.prems unat_byte_less [of b] by simp
  from Cons.IH [of "Suc k", OF _ this] Cons.prems
  have "256 ^ length bs * (256 * unat t + unat b) \<le> unat (fold (\<lambda>b t. push_bit 8 t OR ucast b) (b # bs) t)"
    by (simp add: sh)
  moreover have "256 ^ length (b # bs) * unat t \<le> 256 ^ length bs * (256 * unat t + unat b)" by simp
  ultimately show ?case by linarith
qed simp

lemma hashTopOf_large:
  assumes "hash ! hashMsb \<noteq> 0"
  shows "256 ^ 7 \<le> unat (hashTopOf hash hashMsb)"
proof -
  define g where "g = (\<lambda>i. if i \<le> hashMsb then hash ! (hashMsb - i) else 0)"
  have body: "(if i \<le> hashMsb then ucast (hash ! (hashMsb - i)) else 0) = (ucast (g i) :: u64)" for i
    by (simp add: g_def)
  have "hashTopOf hash hashMsb = fold (\<lambda>b t. push_bit 8 t OR ucast b) (map g [0..<8]) 0"
    unfolding hashTopOf_def body by (simp only: fold_map comp_def)
  also have "[0..<8] = 0 # [1..<8]" by (simp add: upt_rec)
  finally have eq: "hashTopOf hash hashMsb = fold (\<lambda>b t. push_bit 8 t OR ucast b) (map g [1..<8]) (ucast (g 0))"
    by (simp only: list.map fold.simps comp_def) simp
  have "256 ^ length (map g [1..<8]) * unat (ucast (g 0) :: u64) \<le> unat (hashTopOf hash hashMsb)"
    unfolding eq by (rule fold_shift_in [of _ 1]) (simp_all add: unat_byte_less)
  moreover have "unat (g 0) \<noteq> 0" using assms by (simp add: g_def unat_eq_zero)
  ultimately show ?thesis by simp
qed

lemma findMsb_nonzero: "findMsb hash n = Some i \<Longrightarrow> hash ! i \<noteq> 0 \<and> i < n"
  by (induction n) (auto split: if_splits)

lemma shiftDiff_0: "shiftDiff n 0 = 0"
  by (induction n) simp_all

lemma hashDifficulty_zero: "hashDifficulty hash = 0"
proof (cases "findMsb hash 32")
  case (Some i)
  have "256 ^ 7 \<le> unat (hashTopOf hash i)" using findMsb_nonzero [OF Some] by (intro hashTopOf_large) simp
  then have "unat (0x00FFFF0000000000 :: u64) < unat (hashTopOf hash i)" by simp
  then have "(0x00FFFF0000000000 :: u64) div hashTopOf hash i = 0"
    by (simp add: word_unat_eq_iff unat_div)
  then show ?thesis
    by (cases "i < 29") (auto simp: hashDifficulty_def Some Let_def shiftDiff_0)
qed (simp add: hashDifficulty_def)

section \<open>The deduplication key\<close>

definition decDigit :: "char \<Rightarrow> nat" where
  "decDigit c = of_char c - 48"

definition decVal :: "string \<Rightarrow> nat" where
  "decVal s = foldl (\<lambda>v c. 10 * v + decDigit c) 0 s"

lemma decDigit_table: "list_all (\<lambda>d. decDigit (''0123456789'' ! d) = d \<and> ''0123456789'' ! d \<noteq> CHR ''_'') [0..<10]"
  by code_simp

lemma decDigit_nth: "d < 10 \<Longrightarrow> decDigit (''0123456789'' ! d) = d" "d < 10 \<Longrightarrow> ''0123456789'' ! d \<noteq> CHR ''_''"
  using decDigit_table unfolding list_all_iff by auto

lemma decVal_decString: "decVal (decString n) = n"
proof (induction n rule: decString.induct)
  case (1 n)
  show ?case
  proof (cases "n < 10")
    case True
    then show ?thesis by (simp add: decString.simps [of n] decVal_def decDigit_nth)
  next
    case False
    with 1 have "decVal (decString (n div 10)) = n div 10" by simp
    then show ?thesis
      using False by (simp add: decString.simps [of n] decVal_def decDigit_nth)
  qed
qed

lemma decString_no_underscore: "CHR ''_'' \<notin> set (decString n)"
proof (induction n rule: decString.induct)
  case (1 n)
  show ?case
    using 1 decDigit_nth(2) [of n] decDigit_nth(2) [of "n mod 10"]
    by (cases "n < 10") (simp_all add: decString.simps [of n] del: nth_Cons_numeral)
qed

lemma append_key_inject:
  assumes "CHR ''_'' \<notin> set a" "CHR ''_'' \<notin> set b" "a @ CHR ''_'' # x = b @ CHR ''_'' # y"
  shows "a = b \<and> x = y"
  using assms
proof (induction a arbitrary: b)
  case Nil
  then show ?case by (cases b) auto
next
  case (Cons c a)
  then show ?case by (cases b) auto
qed

lemma length_bytesToHex: "length (bytesToHex bs fmt) = 2 * length bs"
proof -
  have "length (concat (map putByte xs)) = 2 * length xs" for xs by (induction xs) (simp_all add: putByte_def)
  then show ?thesis by (simp add: bytesToHex_def)
qed

lemma bytesToHex_inject: "bytesToHex xs fmt = bytesToHex ys fmt \<longleftrightarrow> xs = ys"
  by (metis hex_roundtrip)

lemma dedupeKey_inject:
  assumes "length (dms_nonce a) = length (dms_nonce b)"
  shows "dedupeKeyOf a = dedupeKeyOf b \<longleftrightarrow>
    dms_jobId a = dms_jobId b \<and> dms_nonce a = dms_nonce b \<and> dms_extraNonce2 a = dms_extraNonce2 b"
proof
  let ?x = "\<lambda>s. bytesToHex (dms_nonce s) BigEndian @ bytesToHex (dms_extraNonce2 s) BigEndian"
  assume "dedupeKeyOf a = dedupeKeyOf b"
  then have "decString (unat (dms_jobId a)) = decString (unat (dms_jobId b)) \<and> ?x a = ?x b"
    by (intro append_key_inject decString_no_underscore) (simp add: dedupeKeyOf_def)
  then have "unat (dms_jobId a) = unat (dms_jobId b)" "?x a = ?x b"
    using decVal_decString by metis+
  then show "dms_jobId a = dms_jobId b \<and> dms_nonce a = dms_nonce b \<and> dms_extraNonce2 a = dms_extraNonce2 b"
    using assms by (simp add: length_bytesToHex append_eq_append_conv bytesToHex_inject word_unat_eq_iff)
qed (simp add: dedupeKeyOf_def)

section \<open>What a pass decides\<close>

lemma submitShare_same:
  "submitShare dump worker task sol s = Some s' \<Longrightarrow>
   v_stats s' = v_stats s \<and> v_recentSubmits s' = v_recentSubmits s \<and> v_lastCleanJobId s' = v_lastCleanJobId s"
  by (auto simp: submitShare_def split: if_splits option.splits)

lemma computorIdx_less: "computorIdxOf en2 < NUM_COMPUTORS"
proof -
  have "unat (w mod 676 :: u32) < 676" for w
    unfolding unat_mod by simp
  then show ?thesis unfolding computorIdxOf_def NUM_COMPUTORS_def .
qed

lemma buildHeader_eq:
  assumes "length hdr = 80" "length (dmt_partialHeader task) = 36" "length (dms_merkleRoot sol) = 32"
    "length (dms_nTime sol) = 4" "length (dmt_nBits task) = 4" "length (dms_nonce sol) = 4"
  shows "buildHeader task sol hdr =
    (dmt_partialHeader task @ dms_merkleRoot sol @ dms_nTime sol @ dmt_nBits task @ dms_nonce sol, 80)"
  using assms by (simp add: buildHeader_def Let_def memcpy_at_def)

text \<open>The effect on the counters and the set of recent submissions, by verdict.\<close>

definition recentAfter :: "DispatcherMiningSolution \<Rightarrow> ValidState \<Rightarrow> string list" where
  "recentAfter sol s = (if dms_jobId sol \<noteq> v_lastCleanJobId s then [] else v_recentSubmits s)"

lemma validate_duplicate:
  "validateSolution sp dump worker now tasks sol s = Some (Duplicate, s') \<longleftrightarrow>
   dedupeKeyOf sol \<in> set (v_recentSubmits s) \<and> s' = s"
  by (auto simp: validateSolution_def Let_def split: if_splits option.splits prod.splits)

lemma validate_effect:
  assumes "validateSolution sp dump worker now tasks sol s = Some (v, s')" "v \<noteq> Duplicate"
  shows "dedupeKeyOf sol \<notin> set (v_recentSubmits s)"
    "v_lastCleanJobId s' = dms_jobId sol"
    "v_recentSubmits s' = (if v = Accepted then [dedupeKeyOf sol] else []) @ recentAfter sol s"
    "v_stats s' =
      (let st = (v_stats s)\<lparr>st_solutionsReceived := st_solutionsReceived (v_stats s) + 1\<rparr>
       in case v of
            Stale \<Rightarrow> st\<lparr>st_solutionsStale := st_solutionsStale st + 1\<rparr>
          | Accepted \<Rightarrow> countAccepted now (computorIdxOf (dms_extraNonce2 sol)) st
          | _ \<Rightarrow> st\<lparr>st_solutionsRejected := st_solutionsRejected st + 1\<rparr>)"
  using assms
  by (auto simp: validateSolution_def Let_def countRejected_def recentAfter_def split: if_splits option.splits prod.splits
      dest!: submitShare_same)

text \<open>The bookkeeping of the counters.\<close>

definition counters_ok :: "DispatcherStats \<Rightarrow> bool" where
  "counters_ok st \<longleftrightarrow>
     st_solutionsReceived st = st_solutionsAccepted st + st_solutionsRejected st + st_solutionsStale st \<and>
     st_solutionsPassedPoolDiff st = st_solutionsAccepted st \<and>
     length (st_computorShares st) = NUM_COMPUTORS \<and> sum_list (st_computorShares st) = st_solutionsAccepted st"

lemma sum_list_update_word:
  fixes xs :: "u64 list"
  shows "i < length xs \<Longrightarrow> sum_list (xs[i := 1 + xs ! i]) = 1 + sum_list xs"
proof (induction xs arbitrary: i)
  case (Cons x xs)
  then show ?case by (cases i) (simp_all add: add.assoc add.commute add.left_commute)
qed simp

lemma counters_ok_initial: "counters_ok initialStats"
proof -
  have "sum_list (replicate n 0) = (0 :: u64)" for n by (induction n) simp_all
  then show ?thesis by (simp add: counters_ok_def initialStats_def)
qed

lemma counters_ok_validate:
  assumes "validateSolution sp dump worker now tasks sol s = Some (v, s')" "counters_ok (v_stats s)"
  shows "counters_ok (v_stats s')"
proof (cases "v = Duplicate")
  case True
  then show ?thesis using assms by (simp add: validate_duplicate)
next
  case False
  have idx: "computorIdxOf (dms_extraNonce2 sol) < NUM_COMPUTORS" by (rule computorIdx_less)
  show ?thesis
    using assms(2) idx False unfolding validate_effect(4) [OF assms(1) False]
    by (cases v) (simp_all add: Let_def counters_ok_def countAccepted_def sum_list_update_word add.assoc add.commute add.left_commute)
qed

text \<open>A solution is accepted exactly if it is not a repetition, its job is active and the scrypt hash
  of the reconstructed header is at most the pool target; the share is sent once to the pool.\<close>

definition solution_shape :: "DispatcherMiningSolution \<Rightarrow> bool" where
  "solution_shape sol \<longleftrightarrow> length (dms_nTime sol) = 4 \<and> length (dms_nonce sol) = 4 \<and> length (dms_merkleRoot sol) = 32 \<and>
     length (dms_extraNonce2 sol) = 8"

definition task_shape :: "DispatcherMiningTask \<Rightarrow> bool" where
  "task_shape task \<longleftrightarrow> length (dmt_partialHeader task) = 36 \<and> length (dmt_nBits task) = 4 \<and> length (dmt_targetPool task) = 32"

definition headerOf :: "DispatcherMiningTask \<Rightarrow> DispatcherMiningSolution \<Rightarrow> bytes" where
  "headerOf task sol = dmt_partialHeader task @ dms_merkleRoot sol @ dms_nTime sol @ dmt_nBits task @ dms_nonce sol"

definition valid_shape :: "ValidState \<Rightarrow> bool" where
  "valid_shape s \<longleftrightarrow> length (v_fullHeader s) = 80 \<and> length (v_scryptHash s) = 32"

lemma validate_verdict:
  assumes "scratch_ok sp" "solution_shape sol" "valid_shape s" "dedupeKeyOf sol \<notin> set (v_recentSubmits s)"
    "hm_get tasks (dms_jobId sol) = Some task" "task_shape task"
    "validateSolution sp dump worker now tasks sol s = Some (v, s')"
  shows "v = (if le_nat (scrypt (headerOf task sol) (headerOf task sol) 1024 1 1 32) \<le> le_nat (dmt_targetPool task)
    then Accepted else BelowTarget)"
proof -
  let ?h = "headerOf task sol"
  have hdr: "length ?h = 80" using assms by (simp add: headerOf_def solution_shape_def task_shape_def)
  have build: "buildHeader task sol (v_fullHeader s) = (?h, 80)"
    using assms unfolding headerOf_def by (intro buildHeader_eq) (simp_all add: solution_shape_def task_shape_def valid_shape_def)
  have hash: "scrypt_1024_1_1_256 sp ?h (v_scryptHash s) = scrypt ?h ?h 1024 1 1 32"
    using assms hdr by (intro scrypt_1024_1_1_256_correct) (simp_all add: valid_shape_def)
  have ver: "verifyHashVsTarget (scrypt ?h ?h 1024 1 1 32) (dmt_targetPool task) \<longleftrightarrow>
      le_nat (scrypt ?h ?h 1024 1 1 32) \<le> le_nat (dmt_targetPool task)"
    using assms by (intro verifyHashVsTarget_le) (simp_all add: task_shape_def)
  show ?thesis
    using assms(2,4,5,7) ver
    by (auto simp: validateSolution_def Let_def build hash solution_shape_def extraNonce2NumBytes_def split: if_splits)
qed

section \<open>Repeated solutions\<close>

text \<open>A run of the thread over a list of solutions, with the active tasks and the time of each pass.\<close>

fun validateAll ::
  "Scratch \<Rightarrow> (Submission \<Rightarrow> bytes) \<Rightarrow> string \<Rightarrow>
   (int \<times> (u64, DispatcherMiningTask) ConcurrentHashMap \<times> DispatcherMiningSolution) list \<Rightarrow> ValidState \<Rightarrow>
   (verdict list \<times> ValidState) option" where
  "validateAll sp dump worker [] s = Some ([], s)"
| "validateAll sp dump worker ((now, tasks, sol) # xs) s =
     (case validateSolution sp dump worker now tasks sol s of
        None \<Rightarrow> None
      | Some (v, t1) \<Rightarrow> (case validateAll sp dump worker xs t1 of None \<Rightarrow> None | Some (vs, t2) \<Rightarrow> Some (v # vs, t2)))"

text \<open>While solutions of one job arrive, a key that has been accepted is a duplicate.  The first of them may belong to another
  job than the solutions before it: its clearing of the set comes before its own key enters it.\<close>

lemma recent_kept:
  assumes "validateSolution sp dump worker now tasks sol s = Some (v, s')"
  shows "v = Duplicate \<Longrightarrow> s' = s" "v \<noteq> Duplicate \<Longrightarrow> v_lastCleanJobId s' = dms_jobId sol"
    "v = Accepted \<Longrightarrow> dedupeKeyOf sol \<in> set (v_recentSubmits s') \<and> dedupeKeyOf sol \<notin> set (v_recentSubmits s)"
    "dms_jobId sol = v_lastCleanJobId s \<Longrightarrow> set (v_recentSubmits s) \<subseteq> set (v_recentSubmits s')"
proof -
  show same: "s' = s" if "v = Duplicate" using assms that by (simp add: validate_duplicate)
  note e = validate_effect [OF assms]
  show "v_lastCleanJobId s' = dms_jobId sol" if "v \<noteq> Duplicate" using that by (rule e(2))
  show "dedupeKeyOf sol \<in> set (v_recentSubmits s') \<and> dedupeKeyOf sol \<notin> set (v_recentSubmits s)" if "v = Accepted"
    using e(1,3) that by simp
  show "set (v_recentSubmits s) \<subseteq> set (v_recentSubmits s')" if "dms_jobId sol = v_lastCleanJobId s"
    using same e(3) that by (cases "v = Duplicate") (simp_all add: recentAfter_def)
qed

lemma one_job_no_repeat:
  assumes "validateAll sp dump worker xs s = Some (vs, s')" "\<forall>x \<in> set xs. dms_jobId (snd (snd x)) = j"
  shows "distinct (map (\<lambda>(x, v). dedupeKeyOf (snd (snd x))) (filter (\<lambda>(x, v). v = Accepted) (zip xs vs))) \<and>
    (v_lastCleanJobId s = j \<longrightarrow> (\<forall>(x, v) \<in> set (zip xs vs). v = Accepted \<longrightarrow> dedupeKeyOf (snd (snd x)) \<notin> set (v_recentSubmits s)))"
  using assms
proof (induction xs arbitrary: s vs)
  case (Cons x xs)
  obtain now tasks sol where x: "x = (now, tasks, sol)" by (metis prod_cases3)
  obtain v t1 vs1 where run: "validateSolution sp dump worker now tasks sol s = Some (v, t1)"
    "validateAll sp dump worker xs t1 = Some (vs1, s')" "vs = v # vs1"
    using Cons.prems(1) by (auto simp: x split: option.splits prod.splits)
  have j: "dms_jobId sol = j" using Cons.prems(2) by (simp add: x)
  note kept = recent_kept [OF run(1), unfolded j]
  note IH = Cons.IH [OF run(2)] Cons.prems(2)
  show ?case
  proof (cases "v = Duplicate")
    case True
    then show ?thesis using IH kept(1) by (auto simp: run(3))
  next
    case False
    have new: "dedupeKeyOf (snd (snd y)) \<notin> set (v_recentSubmits t1)" if "(y, Accepted) \<in> set (zip xs vs1)" for y
      using IH kept(2) False that by auto
    have "dedupeKeyOf (snd (snd y)) \<notin> set (v_recentSubmits s)" if "(y, Accepted) \<in> set (zip xs vs1)" "v_lastCleanJobId s = j" for y
      using new [OF that(1)] kept(4) that(2) by blast
    moreover have "dedupeKeyOf sol \<notin> set (map (\<lambda>(x, v). dedupeKeyOf (snd (snd x))) (filter (\<lambda>(x, v). v = Accepted) (zip xs vs1)))"
      if "v = Accepted"
    proof
      assume "dedupeKeyOf sol \<in> set (map (\<lambda>(x, v). dedupeKeyOf (snd (snd x))) (filter (\<lambda>(x, v). v = Accepted) (zip xs vs1)))"
      then obtain y where "(y, Accepted) \<in> set (zip xs vs1)" "dedupeKeyOf sol = dedupeKeyOf (snd (snd y))" by auto
      then show False using new kept(3) [OF that] by metis
    qed
    ultimately show ?thesis using IH kept(3) by (simp add: x run(3)) (auto split: prod.splits)
  qed
qed simp

text \<open>A solution of another job in between, even one that is rejected, makes the thread accept
  the same solution a second time.\<close>

lemma reaccepted:
  assumes "validateSolution sp dump worker now tasks a s = Some (Accepted, t1)"
    "validateSolution sp dump worker now1 tasks1 b t1 = Some (v, t2)" "v \<noteq> Duplicate"
    "dms_jobId b \<noteq> dms_jobId a" "dedupeKeyOf b \<noteq> dedupeKeyOf a"
    "validateSolution sp dump worker now2 tasks2 a t2 = Some (w, t3)"
  shows "w \<noteq> Duplicate"
proof -
  have "v_lastCleanJobId t1 = dms_jobId a" using validate_effect(2) [OF assms(1)] by simp
  then have "v_recentSubmits t2 = (if v = Accepted then [dedupeKeyOf b] else [])"
    using validate_effect(3) [OF assms(2,3)] assms(4) by (simp add: recentAfter_def)
  then show ?thesis
    using assms(5,6) by (auto simp: validate_duplicate split: if_splits)
qed

section \<open>Validation against the pool target\<close>

text \<open>The message for the pool.\<close>

definition submitMessage ::
  "(Submission \<Rightarrow> bytes) \<Rightarrow> string \<Rightarrow> DispatcherMiningTask \<Rightarrow> DispatcherMiningSolution \<Rightarrow> ValidState \<Rightarrow> bytes" where
  "submitMessage dump worker task sol s = dump (submissionOf worker (v_nextStratumSendId s) task sol) @ [10]"

lemma submitShare_sends:
  assumes "s_isConnected (fst (v_conn s))"
    "sends_ok (length (submitMessage dump worker task sol s)) (n_sendResults (snd (v_conn s)))"
  shows "\<exists>s' k. submitShare dump worker task sol s = Some s' \<and> k \<le> length (submitMessage dump worker task sol s) \<and>
    n_outgoing (snd (v_conn s')) = n_outgoing (snd (v_conn s)) @ take k (submitMessage dump worker task sol s) \<and>
    (s_isConnected (fst (v_conn s')) \<longleftrightarrow> k = length (submitMessage dump worker task sol s)) \<and>
    v_nextStratumSendId s' = v_nextStratumSendId s + 1"
proof -
  obtain sock net where c: "v_conn s = (sock, net)" by fastforce
  from assms [unfolded c fst_conv snd_conv] obtain ok sock' net' k
    where "sendMessage (submitMessage dump worker task sol s) (sock, net) = Some (ok, sock', net')"
      "n_outgoing net' = n_outgoing net @ take k (submitMessage dump worker task sol s)"
      "ok \<longleftrightarrow> k = length (submitMessage dump worker task sol s)" "k \<le> length (submitMessage dump worker task sol s)"
      "s_isConnected sock' \<longleftrightarrow> ok"
    by (rule sendMessage_result)
  then show ?thesis
    using assms(1) by (intro exI [of _ "s\<lparr>v_nextStratumSendId := v_nextStratumSendId s + 1, v_conn := (sock', net')\<rparr>"] exI [of _ k])
      (simp add: submitShare_def c submitMessage_def)
qed

lemma validate_share_form:
  assumes "scratch_ok sp" "solution_shape sol" "valid_shape s" "dedupeKeyOf sol \<notin> set (v_recentSubmits s)"
    "hm_get tasks (dms_jobId sol) = Some task" "task_shape task"
  shows "\<exists>s1. v_conn s1 = v_conn s \<and> v_nextStratumSendId s1 = v_nextStratumSendId s \<and>
    validateSolution sp dump worker now tasks sol s =
      (if le_nat (scrypt (headerOf task sol) (headerOf task sol) 1024 1 1 32) \<le> le_nat (dmt_targetPool task)
       then map_option (Pair Accepted) (submitShare dump worker task sol s1) else Some (BelowTarget, s1))"
proof -
  let ?h = "headerOf task sol"
  have hdr: "length ?h = 80" using assms by (simp add: headerOf_def solution_shape_def task_shape_def)
  have build: "buildHeader task sol (v_fullHeader s) = (?h, 80)"
    using assms unfolding headerOf_def by (intro buildHeader_eq) (simp_all add: solution_shape_def task_shape_def valid_shape_def)
  have hash: "scrypt_1024_1_1_256 sp ?h (v_scryptHash s) = scrypt ?h ?h 1024 1 1 32"
    using assms hdr by (intro scrypt_1024_1_1_256_correct) (simp_all add: valid_shape_def)
  have ver: "verifyHashVsTarget (scrypt ?h ?h 1024 1 1 32) (dmt_targetPool task) \<longleftrightarrow>
      le_nat (scrypt ?h ?h 1024 1 1 32) \<le> le_nat (dmt_targetPool task)"
    using assms by (intro verifyHashVsTarget_le) (simp_all add: task_shape_def)
  have size: "extraNonce2NumBytes = length (dms_extraNonce2 sol)"
    using assms(2) by (simp add: solution_shape_def extraNonce2NumBytes_def)
  define t where "t = (if dms_jobId sol \<noteq> v_lastCleanJobId s
      then s\<lparr>v_stats := (v_stats s)\<lparr>st_solutionsReceived := st_solutionsReceived (v_stats s) + 1\<rparr>,
             v_recentSubmits := [], v_lastCleanJobId := dms_jobId sol\<rparr>
      else s\<lparr>v_stats := (v_stats s)\<lparr>st_solutionsReceived := st_solutionsReceived (v_stats s) + 1\<rparr>\<rparr>)"
  define u where "u = t\<lparr>v_fullHeader := ?h, v_scryptHash := scrypt ?h ?h 1024 1 1 32\<rparr>"
  have t: "v_fullHeader t = v_fullHeader s" "v_scryptHash t = v_scryptHash s" "v_conn t = v_conn s"
    "v_nextStratumSendId t = v_nextStratumSendId s"
    by (simp_all add: t_def)
  have "validateSolution sp dump worker now tasks sol s =
      (if verifyHashVsTarget (scrypt ?h ?h 1024 1 1 32) (dmt_targetPool task)
       then map_option (Pair Accepted) (submitShare dump worker task sol
         (u\<lparr>v_stats := countAccepted now (computorIdxOf (dms_extraNonce2 sol)) (v_stats u),
            v_recentSubmits := dedupeKeyOf sol # v_recentSubmits u\<rparr>))
       else Some (BelowTarget, countRejected u))"
    using assms(4) t(1,2) build hash size
    by (simp add: validateSolution_def Let_def assms(5) t_def [symmetric] u_def split del: if_split)
      (simp add: Let_def u_def)
  then show ?thesis
    unfolding ver
    by (rule_tac exI [of _ "if le_nat (scrypt ?h ?h 1024 1 1 32) \<le> le_nat (dmt_targetPool task)
          then u\<lparr>v_stats := countAccepted now (computorIdxOf (dms_extraNonce2 sol)) (v_stats u),
            v_recentSubmits := dedupeKeyOf sol # v_recentSubmits u\<rparr> else countRejected u"])
      (simp add: u_def countRejected_def t)
qed

section \<open>Properties\<close>

text \<open>
  C1: a new solution of an active job is accepted exactly if the scrypt hash of the block header rebuilt from
  job and solution, read as a little-endian number, is at most the pool target; the pass returns, an
  accepted share is sent to the pool as one \<open>mining.submit\<close> message (completely, unless the socket fails and
  is marked as disconnected), and a share above the target is not sent.
\<close>

theorem share_accepted_iff_meets_target:
  assumes "scratch_ok sp" "solution_shape sol" "valid_shape s" "dedupeKeyOf sol \<notin> set (v_recentSubmits s)"
    "hm_get tasks (dms_jobId sol) = Some task" "task_shape task" "s_isConnected (fst (v_conn s))"
    "sends_ok (length (submitMessage dump worker task sol s)) (n_sendResults (snd (v_conn s)))"
  shows "\<exists>v s'. validateSolution sp dump worker now tasks sol s = Some (v, s') \<and>
    (if le_nat (scrypt (headerOf task sol) (headerOf task sol) 1024 1 1 32) \<le> le_nat (dmt_targetPool task)
     then v = Accepted \<and> (\<exists>k. n_outgoing (snd (v_conn s')) =
              n_outgoing (snd (v_conn s)) @ take k (submitMessage dump worker task sol s) \<and>
            k \<le> length (submitMessage dump worker task sol s) \<and>
            (s_isConnected (fst (v_conn s')) \<longleftrightarrow> k = length (submitMessage dump worker task sol s)))
     else v = BelowTarget \<and> v_conn s' = v_conn s)"
proof -
  obtain s1 where s1: "v_conn s1 = v_conn s" "v_nextStratumSendId s1 = v_nextStratumSendId s"
    "validateSolution sp dump worker now tasks sol s =
      (if le_nat (scrypt (headerOf task sol) (headerOf task sol) 1024 1 1 32) \<le> le_nat (dmt_targetPool task)
       then map_option (Pair Accepted) (submitShare dump worker task sol s1) else Some (BelowTarget, s1))"
    using validate_share_form [OF assms(1-6)] by blast
  have msg: "submitMessage dump worker task sol s1 = submitMessage dump worker task sol s"
    by (simp add: submitMessage_def s1(2))
  from submitShare_sends [of s1 dump worker task sol, unfolded msg s1(1), OF assms(7,8)] show ?thesis
    unfolding s1(3) using s1(1)
    by (cases "le_nat (scrypt (headerOf task sol) (headerOf task sol) 1024 1 1 32) \<le> le_nat (dmt_targetPool task)") auto
qed

definition exampleSolution :: "u64 \<Rightarrow> DispatcherMiningSolution" where
  "exampleSolution job = \<lparr>dms_jobId = job, dms_nTime = [1, 2, 3, 4], dms_nonce = [5, 6, 7, 8], dms_merkleRoot = replicate 32 1,
     dms_extraNonce2 = replicate 8 2, dms_sourcePublicKey = replicate 32 3\<rparr>"

definition exampleTask :: DispatcherMiningTask where
  "exampleTask = \<lparr>dmt_taskId = ''t'', dmt_targetPool = replicate 32 255, dmt_partialHeader = replicate 36 1,
     dmt_nBits = [0, 0, 0, 30], dmt_extraNonce1 = [1], dmt_coinbase1 = [], dmt_coinbase2 = [], dmt_merkleBranches = []\<rparr>"

definition exampleValid :: "string list \<Rightarrow> ValidState" where
  "exampleValid keys = \<lparr>v_recentSubmits = keys, v_lastCleanJobId = 1, v_fullHeader = replicate 80 0,
     v_scryptHash = replicate 32 0, v_stats = initialStats, v_nextStratumSendId = 5,
     v_conn = (\<lparr>s_isConnected = True, s_rawSocket = 4\<rparr>, \<lparr>n_incoming = [], n_sendResults = [1, 2], n_outgoing = []\<rparr>)\<rparr>"

definition exampleScratch :: Scratch where
  "exampleScratch = (let c = \<lparr>ctx_state = [], ctx_count = [], ctx_buf = replicate 64 7\<rparr>;
       h = \<lparr>ictx = c, octx = c\<rparr>
     in \<lparr>sp_ctx1 = h, sp_ctx2 = h, sp_B = replicate 128 1, sp_V = replicate 32768 2, sp_XY = replicate 80 3\<rparr>)"

lemmas share_example_defs = exampleSolution_def exampleTask_def exampleValid_def

text \<open>The largest target is met by every hash, so the share is accepted and all three bytes are sent.\<close>

theorem share_accepted_iff_meets_target_witness:
  "\<exists>v s'. validateSolution exampleScratch (\<lambda>_. [9, 9]) ''w'' 0 \<lparr>m_map = [(1, exampleTask)]\<rparr> (exampleSolution 1)
      (exampleValid []) = Some (v, s') \<and>
    (if le_nat (scrypt (headerOf exampleTask (exampleSolution 1)) (headerOf exampleTask (exampleSolution 1)) 1024 1 1 32) \<le>
        le_nat (dmt_targetPool exampleTask)
     then v = Accepted \<and> (\<exists>k. n_outgoing (snd (v_conn s')) = [] @ take k [9, 9, 10] \<and>
            k \<le> length [9, 9, 10 :: byte] \<and> (s_isConnected (fst (v_conn s')) \<longleftrightarrow> k = length [9, 9, 10 :: byte]))
     else v = BelowTarget \<and> v_conn s' = v_conn (exampleValid []))"
proof -
  have msg: "submitMessage (\<lambda>_. [9, 9]) ''w'' exampleTask (exampleSolution 1) (exampleValid []) = [9, 9, 10]"
    by (simp add: submitMessage_def)
  have out: "n_outgoing (snd (v_conn (exampleValid []))) = []" by (simp add: exampleValid_def)
  show ?thesis
    by (rule share_accepted_iff_meets_target [of exampleScratch "exampleSolution 1" "exampleValid []"
        "\<lparr>m_map = [(1, exampleTask)]\<rparr>" exampleTask "\<lambda>_. [9, 9]" "''w''" 0, unfolded msg out])
      (simp_all add: share_example_defs exampleScratch_def Let_def scratch_ok_def hmac_ok_def solution_shape_def
        valid_shape_def task_shape_def hm_get_def)
qed

text \<open>
  C30: in every reachable state of the thread the number of solutions received is the number of accepted,
  rejected and stale ones, the shares of the 676 computors add up to the accepted ones, and the
  counter of shares that passed the pool difficulty equals them: the counters start so and every pass
  keeps it, modulo the wrap-around of the 64-bit counters.
\<close>

theorem share_counters_consistent:
  assumes "counters_ok (v_stats s)" "validateSolution sp dump worker now tasks sol s = Some (v, s')"
  shows "counters_ok initialStats \<and> counters_ok (v_stats s')"
  using counters_ok_initial counters_ok_validate [OF assms(2,1)] by blast

theorem share_counters_consistent_witness:
  "\<exists>s'. validateSolution exampleScratch (\<lambda>_. []) ''w'' 0 \<lparr>m_map = []\<rparr> (exampleSolution 2) (exampleValid []) =
     Some (Stale, s') \<and> counters_ok (v_stats s')"
proof -
  have ok: "counters_ok (v_stats (exampleValid []))" using counters_ok_initial by (simp add: exampleValid_def)
  obtain s' where "validateSolution exampleScratch (\<lambda>_. []) ''w'' 0 \<lparr>m_map = []\<rparr> (exampleSolution 2) (exampleValid []) =
      Some (Stale, s')"
    by (simp add: validateSolution_def Let_def share_example_defs hm_get_def)
  with share_counters_consistent [OF ok this] show ?thesis by blast
qed

text \<open>
  C28: among solutions of one job, whatever job came before them, no two accepted ones have the same deduplication key; and if the job
  is already the current one, none has a key that was accepted before.
\<close>

theorem no_repeat_within_job:
  assumes "validateAll sp dump worker xs s = Some (vs, s')" "\<forall>x \<in> set xs. dms_jobId (snd (snd x)) = j"
  shows "distinct (map (\<lambda>(x, v). dedupeKeyOf (snd (snd x))) (filter (\<lambda>(x, v). v = Accepted) (zip xs vs))) \<and>
    (v_lastCleanJobId s = j \<longrightarrow> (\<forall>(x, v) \<in> set (zip xs vs). v = Accepted \<longrightarrow> dedupeKeyOf (snd (snd x)) \<notin> set (v_recentSubmits s)))"
  using assms by (rule one_job_no_repeat)

text \<open>The first solution of job 1 after job 7 is accepted, which empties the set, and its repetition is not.\<close>

lemma example_accepted:
  assumes "valid_shape s" "dedupeKeyOf (exampleSolution 1) \<notin> set (v_recentSubmits s)" "\<not> s_isConnected (fst (v_conn s))"
  shows "\<exists>s'. validateSolution exampleScratch (\<lambda>_. []) ''w'' 0 \<lparr>m_map = [(1, exampleTask)]\<rparr> (exampleSolution 1) s = Some (Accepted, s')"
proof -
  let ?h = "headerOf exampleTask (exampleSolution 1)"
  have "le_nat (scrypt ?h ?h 1024 1 1 32) < 256 ^ 32" using le_nat_less [of "scrypt ?h ?h 1024 1 1 32"] by simp
  also have "256 ^ n = Suc (le_nat (replicate n 255))" for n by (induction n) simp_all
  then have "256 ^ 32 = Suc (le_nat (dmt_targetPool exampleTask))" by (simp only: exampleTask_def DispatcherMiningTask.simps)
  finally have t: "le_nat (scrypt ?h ?h 1024 1 1 32) \<le> le_nat (dmt_targetPool exampleTask)" by simp
  have "\<exists>s1. v_conn s1 = v_conn s \<and> v_nextStratumSendId s1 = v_nextStratumSendId s \<and>
      validateSolution exampleScratch (\<lambda>_. []) ''w'' 0 \<lparr>m_map = [(1, exampleTask)]\<rparr> (exampleSolution 1) s =
      (if le_nat (scrypt ?h ?h 1024 1 1 32) \<le> le_nat (dmt_targetPool exampleTask)
       then map_option (Pair Accepted) (submitShare (\<lambda>_. []) ''w'' exampleTask (exampleSolution 1) s1) else Some (BelowTarget, s1))"
    by (rule validate_share_form) (use assms(1,2) in \<open>simp_all add: exampleSolution_def exampleTask_def exampleScratch_def Let_def scratch_ok_def
      hmac_ok_def solution_shape_def task_shape_def hm_get_def\<close>)
  then obtain s1 where "v_conn s1 = v_conn s" "validateSolution exampleScratch (\<lambda>_. []) ''w'' 0 \<lparr>m_map = [(1, exampleTask)]\<rparr> (exampleSolution 1) s =
      map_option (Pair Accepted) (submitShare (\<lambda>_. []) ''w'' exampleTask (exampleSolution 1) s1)"
    using t by auto
  then show ?thesis using assms(3) by (simp add: submitShare_def)
qed

theorem no_repeat_within_job_witness:
  "\<exists>s'. validateAll exampleScratch (\<lambda>_. []) ''w''
      (replicate 2 (0, \<lparr>m_map = [(1, exampleTask)]\<rparr>, exampleSolution 1))
      ((exampleValid [])\<lparr>v_lastCleanJobId := 7, v_conn := (\<lparr>s_isConnected = False, s_rawSocket = 4\<rparr>, \<lparr>n_incoming = [], n_sendResults = [], n_outgoing = []\<rparr>)\<rparr>) =
      Some ([Accepted, Duplicate], s')"
proof -
  let ?x = "(0, \<lparr>m_map = [(1, exampleTask)]\<rparr>, exampleSolution 1)"
  let ?s = "(exampleValid [])\<lparr>v_lastCleanJobId := 7, v_conn := (\<lparr>s_isConnected = False, s_rawSocket = 4\<rparr>, \<lparr>n_incoming = [], n_sendResults = [], n_outgoing = []\<rparr>)\<rparr>"
  let ?run = "validateSolution exampleScratch (\<lambda>_. []) ''w'' 0 \<lparr>m_map = [(1, exampleTask)]\<rparr> (exampleSolution 1)"
  have "valid_shape ?s" by (simp add: valid_shape_def exampleValid_def)
  then obtain t where t: "?run ?s = Some (Accepted, t)" using example_accepted [of ?s] by (auto simp: exampleValid_def)
  then have "?run t = Some (Duplicate, t)" using recent_kept(3) [OF t] by (simp add: validate_duplicate)
  with t have r: "validateAll exampleScratch (\<lambda>_. []) ''w'' [?x, ?x] ?s = Some ([Accepted, Duplicate], t)" by simp
  from no_repeat_within_job [OF r, of 1] show ?thesis using r by (simp add: numeral_2_eq_2 exampleSolution_def)
qed

text \<open>
  Two solutions with nonces of the same length have the same deduplication key exactly if job id, nonce and
  extra nonce agree; the time stamp is no part of the key.
\<close>

theorem dedupe_key_identifies:
  assumes "length (dms_nonce a) = length (dms_nonce b)"
  shows "dedupeKeyOf a = dedupeKeyOf b \<longleftrightarrow>
    dms_jobId a = dms_jobId b \<and> dms_nonce a = dms_nonce b \<and> dms_extraNonce2 a = dms_extraNonce2 b"
  using assms by (rule dedupeKey_inject)

theorem dedupe_key_identifies_witness:
  "dedupeKeyOf (exampleSolution 1) \<noteq> dedupeKeyOf (exampleSolution 12)"
  by (subst dedupe_key_identifies) (simp_all add: exampleSolution_def)

text \<open>
  A solution of another job that is not itself a duplicate, even a stale or rejected one, empties the
  set of recent submissions, so a key accepted before is not recognised any more.
\<close>

lemma other_job_forgets_keys:
  assumes "validateSolution sp dump worker now tasks b s = Some (v, s')" "v \<noteq> Duplicate"
    "dms_jobId b \<noteq> v_lastCleanJobId s" "dedupeKeyOf b \<noteq> dedupeKeyOf a"
  shows "dedupeKeyOf a \<notin> set (v_recentSubmits s')"
  using validate_effect(3) [OF assms(1,2)] assms(3,4) by (auto simp: recentAfter_def split: if_splits)

lemma other_job_forgets_keys_witness:
  "dedupeKeyOf (exampleSolution 1) \<in> set (v_recentSubmits (exampleValid [dedupeKeyOf (exampleSolution 1)])) \<and>
   (\<exists>s'. validateSolution exampleScratch (\<lambda>_. []) ''w'' 0 \<lparr>m_map = []\<rparr> (exampleSolution 2)
      (exampleValid [dedupeKeyOf (exampleSolution 1)]) = Some (Stale, s') \<and>
     dedupeKeyOf (exampleSolution 1) \<notin> set (v_recentSubmits s'))"
proof -
  let ?s = "exampleValid [dedupeKeyOf (exampleSolution 1)]"
  have ne: "dedupeKeyOf (exampleSolution 2) \<noteq> dedupeKeyOf (exampleSolution 1)"
    by (subst dedupeKey_inject) (simp_all add: exampleSolution_def)
  then obtain s' where run: "validateSolution exampleScratch (\<lambda>_. []) ''w'' 0 \<lparr>m_map = []\<rparr> (exampleSolution 2) ?s = Some (Stale, s')"
    by (simp add: validateSolution_def Let_def exampleValid_def hm_get_def)
  have "dms_jobId (exampleSolution 2) \<noteq> v_lastCleanJobId ?s" by (simp add: exampleSolution_def exampleValid_def)
  from other_job_forgets_keys [OF run _ this ne] run show ?thesis by (simp add: exampleValid_def)
qed

text \<open>
  C38: the share difficulty the thread logs, computed by \<open>hashDifficulty\<close>, is 0 for every hash: the dividend is
  always smaller than the top eight bytes of the hash.
\<close>

theorem hashDifficulty_always_zero: "hashDifficulty hash = 0"
  by (rule hashDifficulty_zero)

end
