(* ===== verification/Task_Dist.thy ===== *)
theory Task_Dist
  imports Hash_Util Connection Concurrency
begin

text \<open>
  The task distribution thread, \<open>dispatcher/src/threads/task_dist_thread.cpp\<close>: building and
  sending the task packet, the responses of the pool, and the loop that keeps the latest job.
  The JSON library is not part of the repository: a message is the record \<open>JsonMsg\<close> of what the
  library's accessors return for it, with \<open>None\<close> where an accessor throws.  Signing is the argument
  \<open>sign\<close>, clock readings are arguments too.
\<close>

section \<open>Messages from the pool\<close>

record NotifyParams =
  np_taskId :: string
  np_prevHash :: string
  np_coinbase1 :: string
  np_coinbase2 :: string
  np_merkleBranches :: "string list"
  np_version :: string
  np_nBits :: string
  np_nTime :: string
  np_cleanJobQueue :: bool

record JsonMsg =
  j_containsId :: bool
  j_idNull :: bool
  j_idUnsigned :: bool
  j_method :: string
  j_setDifficulty :: "u64 option"
  j_notify :: "NotifyParams option"
  j_containsError :: bool
  j_errorNull :: bool
  j_containsResult :: bool
  j_resultTrue :: bool

datatype distError = JsonException

section \<open>Building and sending a task\<close>

text \<open>The byte swap within the 4-byte words of the previous hash.\<close>

fun swapWords :: "bytes \<Rightarrow> bytes" where
  "swapWords (a # b # c # d # xs) = d # c # b # a # swapWords xs"
| "swapWords xs = xs"

definition taskBufferSize :: nat where "taskBufferSize = 4096"

definition totalNumBytes :: "DispatcherMiningTask \<Rightarrow> nat" where
  "totalNumBytes t =
     sizeof_header + sizeof_CustomQubicMiningTask + sizeof_QubicDogeMiningTask
     + length (dmt_extraNonce1 t) + length (dmt_coinbase1 t) + length (dmt_coinbase2 t)
     + length (dmt_merkleBranches t) * 4
     + sum_list (map length (dmt_merkleBranches t)) + SIGNATURE_SIZE"

definition dogeTaskOf :: "bool \<Rightarrow> DifficultyTarget \<Rightarrow> bytes \<Rightarrow> bytes \<Rightarrow> bytes \<Rightarrow> bytes \<Rightarrow> DispatcherMiningTask \<Rightarrow> QubicDogeMiningTask" where
  "dogeTaskOf clean diff version ntime nbits prevHash t =
     \<lparr>dt_cleanJobQueue = (if clean then 1 else 0), dt_dispatcherDifficulty = m_compactRep diff, dt_version = version,
      dt_nTime = ntime, dt_nBits = nbits, dt_prevHash = prevHash,
      dt_extraNonce1NumBytes = of_nat (length (dmt_extraNonce1 t)),
      dt_coinbase1NumBytes = of_nat (length (dmt_coinbase1 t)),
      dt_coinbase2NumBytes = of_nat (length (dmt_coinbase2 t)),
      dt_numMerkleBranches = of_nat (length (dmt_merkleBranches t))\<rparr>"

text \<open>Writing the packet into the static buffer, in the order of the source; it returns the buffer
  and the final offset.\<close>

definition buildPacket ::
  "(bytes \<Rightarrow> bytes) \<Rightarrow> u64 \<Rightarrow> bool \<Rightarrow> DifficultyTarget \<Rightarrow> bytes \<Rightarrow> bytes \<Rightarrow> bytes \<Rightarrow> bytes \<Rightarrow>
   DispatcherMiningTask \<Rightarrow> bytes \<Rightarrow> bytes \<times> nat" where
  "buildPacket sign jobId clean diff version ntime nbits prevHash t buf =
     (let header = header_setType CustomQubicMiningTask_type
            (header_setSize (of_nat (totalNumBytes t)) (header_zeroDejavu (read_header buf)));
          b1 = memcpy_at buf 0 (encode_header header);
          o1 = sizeof_header;
          b2 = memcpy_at b1 (o1 + 8) [DOGE];
          o2 = o1 + sizeof_CustomQubicMiningTask;
          b3 = memcpy_at b2 o2 (encode_QubicDogeMiningTask (dogeTaskOf clean diff version ntime nbits prevHash t));
          o3 = o2 + sizeof_QubicDogeMiningTask;
          b4 = memcpy_at b3 o3 (dmt_extraNonce1 t);
          o4 = o3 + length (dmt_extraNonce1 t);
          b5 = memcpy_at b4 o4 (dmt_coinbase1 t);
          o5 = o4 + length (dmt_coinbase1 t);
          b6 = memcpy_at b5 o5 (dmt_coinbase2 t);
          o6 = o5 + length (dmt_coinbase2 t);
          b7 = memcpy_at b6 o6 (concat (map (\<lambda>br. store_le 4 (of_nat (length br) :: u32)) (dmt_merkleBranches t)));
          o7 = o6 + length (dmt_merkleBranches t) * 4;
          (b8, o8) = foldl (\<lambda>(b, off) br. (memcpy_at b off br, off + length br)) (b7, o7) (dmt_merkleBranches t);
          b9 = memcpy_at b8 sizeof_header (store_le 8 jobId);
          b10 = memcpy_at b9 o8 (sign (field sizeof_header (o8 - sizeof_header) b9));
          o10 = o8 + SIGNATURE_SIZE
      in (b10, o10))"

text \<open>Sending the packet over every connection; the number of successful sends.\<close>

fun sendToAll :: "bytes \<Rightarrow> (Socket \<times> Net) list \<Rightarrow> (nat \<times> (Socket \<times> Net) list) option" where
  "sendToAll msg [] = Some (0, [])"
| "sendToAll msg (c # cs) =
     (case sendMessage msg c of
        None \<Rightarrow> None
      | Some (ok, c') \<Rightarrow>
          (case sendToAll msg cs of
             None \<Rightarrow> None
           | Some (n, cs') \<Rightarrow> Some (if ok then Suc n else n, c' # cs')))"

record DistState =
  d_divisor :: u64
  d_currentPoolDifficulty :: DifficultyTarget
  d_activeTasks :: "(u64, DispatcherMiningTask) ConcurrentHashMap"
  d_connections :: "(Socket \<times> Net) list"
  d_stats :: DispatcherStats
  d_buffer :: bytes

definition dispatcherTaskOf :: "NotifyParams \<Rightarrow> DifficultyTarget \<Rightarrow> bytes \<Rightarrow> DispatcherMiningTask" where
  "dispatcherTaskOf p diff extraNonce1 =
     \<lparr>dmt_taskId = np_taskId p, dmt_targetPool = m_fullRep diff,
      dmt_partialHeader = hexToBytes (np_version p) LittleEndian @ swapWords (hexToBytes (np_prevHash p) BigEndian),
      dmt_nBits = hexToBytes (np_nBits p) LittleEndian,
      dmt_extraNonce1 = extraNonce1,
      dmt_coinbase1 = hexToBytes (np_coinbase1 p) BigEndian,
      dmt_coinbase2 = hexToBytes (np_coinbase2 p) BigEndian,
      dmt_merkleBranches = map (\<lambda>b. hexToBytes b BigEndian) (np_merkleBranches p)\<rparr>"

definition distributeTask ::
  "(bytes \<Rightarrow> bytes) \<Rightarrow> u64 \<Rightarrow> bytes \<Rightarrow> bool \<Rightarrow> NotifyParams \<Rightarrow> DistState \<Rightarrow> DistState option" where
  "distributeTask sign nowMs extraNonce1 propagateCleanJobFlag params s =
     (let cleanJobQueue = np_cleanJobQueue params \<or> propagateCleanJobFlag;
          s1 = (if cleanJobQueue then s\<lparr>d_activeTasks := hm_clear (d_activeTasks s)\<rparr> else s);
          version = hexToBytes (np_version params) LittleEndian;
          ntime = hexToBytes (np_nTime params) LittleEndian;
          nbits = hexToBytes (np_nBits params) LittleEndian;
          prevHash = swapWords (hexToBytes (np_prevHash params) BigEndian)
      in if length version \<noteq> 4 \<or> length prevHash \<noteq> 32 \<or> length ntime \<noteq> 4 \<or> length nbits \<noteq> 4 then Some s1
         else
           let task = dispatcherTaskOf params (d_currentPoolDifficulty s1) extraNonce1
           in if totalNumBytes task > taskBufferSize then Some s1
              else
                (case buildPacket sign nowMs cleanJobQueue (d_currentPoolDifficulty s1) version ntime nbits prevHash task
                    (d_buffer s1) of (buf, offset) \<Rightarrow>
                  let s2 = s1\<lparr>d_buffer := buf\<rparr>
                  in if offset \<noteq> totalNumBytes task then Some s2
                     else
                       (case sendToAll (take (totalNumBytes task) buf) (d_connections s2) of
                          None \<Rightarrow> None
                        | Some (numSends, conns) \<Rightarrow>
                            Some (s2\<lparr>d_connections := conns,
                                     d_activeTasks := hm_insert (d_activeTasks s2) nowMs task,
                                     d_stats := (d_stats s2)\<lparr>st_tasksDistributed := st_tasksDistributed (d_stats s2) + 1\<rparr>\<rparr>))))"

section \<open>Pool responses and the loop\<close>

definition checkShareResponse :: "JsonMsg \<Rightarrow> DispatcherStats \<Rightarrow> DispatcherStats" where
  "checkShareResponse msg st =
     (if j_containsError msg \<and> \<not> j_errorNull msg
      then st\<lparr>st_poolSharesRejected := st_poolSharesRejected st + 1\<rparr>
      else if j_containsResult msg \<and> j_resultTrue msg
      then st\<lparr>st_poolSharesAccepted := st_poolSharesAccepted st + 1\<rparr>
      else st)"

definition setDifficulty :: "DifficultyTarget \<Rightarrow> u64 \<Rightarrow> DistState \<Rightarrow> DistState" where
  "setDifficulty base d s =
     s\<lparr>d_divisor := d,
       d_currentPoolDifficulty := DifficultyTarget_fromFull (divideTarget (m_fullRep base) d),
       d_stats := (d_stats s)\<lparr>st_poolDifficulty := d\<rparr>\<rparr>"

text \<open>The loop that drains the queue after a job notification, on the messages in the queue.\<close>

fun drainQueue ::
  "DifficultyTarget \<Rightarrow> JsonMsg list \<Rightarrow> NotifyParams \<Rightarrow> bool \<Rightarrow> DistState \<Rightarrow> distError + NotifyParams \<times> bool \<times> DistState" where
  "drainQueue base [] latestNotify cleanJobQueue s = Inr (latestNotify, cleanJobQueue, s)"
| "drainQueue base (msg # ms) latestNotify cleanJobQueue s =
     (if \<not> j_containsId msg then drainQueue base ms latestNotify cleanJobQueue s
      else if j_idNull msg then
        (if j_method msg = ''mining.set_difficulty'' then
           (case j_setDifficulty msg of
              None \<Rightarrow> Inl JsonException
            | Some d \<Rightarrow> drainQueue base ms latestNotify cleanJobQueue (setDifficulty base d s))
         else if j_method msg = ''mining.notify'' then
           (case j_notify msg of
              None \<Rightarrow> Inl JsonException
            | Some p \<Rightarrow> drainQueue base ms p (cleanJobQueue \<or> np_cleanJobQueue p) s)
         else drainQueue base ms latestNotify cleanJobQueue s)
      else if j_idUnsigned msg then
        drainQueue base ms latestNotify cleanJobQueue (s\<lparr>d_stats := checkShareResponse msg (d_stats s)\<rparr>)
      else drainQueue base ms latestNotify cleanJobQueue s)"

text \<open>One pass of the loop: the popped message, and the messages that are in the queue while the
  pass drains it.  The result is the new state and the messages left.\<close>

definition distPass ::
  "(bytes \<Rightarrow> bytes) \<Rightarrow> u64 \<Rightarrow> DifficultyTarget \<Rightarrow> bytes \<Rightarrow> JsonMsg \<Rightarrow> JsonMsg list \<Rightarrow> DistState \<Rightarrow>
   (distError + JsonMsg list \<times> DistState) option" where
  "distPass sign nowMs base extraNonce1 msg queued s =
     (if \<not> j_containsId msg then Some (Inr (queued, s))
      else if j_idNull msg then
        (if j_method msg = ''mining.set_difficulty'' then
           (case j_setDifficulty msg of
              None \<Rightarrow> Some (Inl JsonException)
            | Some d \<Rightarrow> Some (Inr (queued, setDifficulty base d s)))
         else if j_method msg = ''mining.notify'' then
           (case j_notify msg of
              None \<Rightarrow> Some (Inl JsonException)
            | Some p \<Rightarrow>
                (case drainQueue base queued p (np_cleanJobQueue p) s of
                   Inl e \<Rightarrow> Some (Inl e)
                 | Inr (latest, clean, t) \<Rightarrow>
                     map_option (\<lambda>t'. Inr ([], t')) (distributeTask sign nowMs extraNonce1 clean latest t)))
         else Some (Inr (queued, s)))
      else if j_idUnsigned msg then Some (Inr (queued, s\<lparr>d_stats := checkShareResponse msg (d_stats s)\<rparr>))
      else Some (Inr (queued, s)))"

section \<open>The packet\<close>

lemma memcpy_at_append: "length A = off \<Longrightarrow> memcpy_at (A @ B) off src = A @ src @ drop (length src) B"
  by (simp add: memcpy_at_def)

text \<open>The layout of a task packet.\<close>

definition taskPayload :: "u64 \<Rightarrow> QubicDogeMiningTask \<Rightarrow> DispatcherMiningTask \<Rightarrow> bytes" where
  "taskPayload jobId dt t =
     encode_CustomQubicMiningTask \<lparr>cqt_jobId = jobId, cqt_customMiningType = DOGE\<rparr> @
     encode_QubicDogeMiningTask dt @
     dmt_extraNonce1 t @ dmt_coinbase1 t @ dmt_coinbase2 t @
     concat (map (\<lambda>br. store_le 4 (of_nat (length br) :: u32)) (dmt_merkleBranches t)) @
     concat (dmt_merkleBranches t)"

definition taskHeader :: "nat \<Rightarrow> RequestResponseHeader" where
  "taskHeader n = header_setType CustomQubicMiningTask_type
     (header_setSize (of_nat n) \<lparr>rrh_size = [0, 0, 0], rrh_type = 0, rrh_dejavu = 0\<rparr>)"

definition taskPacket :: "(bytes \<Rightarrow> bytes) \<Rightarrow> u64 \<Rightarrow> QubicDogeMiningTask \<Rightarrow> DispatcherMiningTask \<Rightarrow> bytes" where
  "taskPacket sign jobId dt t =
     encode_header (taskHeader (totalNumBytes t)) @ taskPayload jobId dt t @ sign (taskPayload jobId dt t)"

lemma foldl_memcpy:
  "foldl (\<lambda>(b, off) br. (memcpy_at b off br, off + length br)) (A @ B, length A) brs =
   (A @ concat brs @ drop (length (concat brs)) B, length A + length (concat brs))"
proof (induction brs arbitrary: A B)
  case (Cons br brs)
  have "memcpy_at (A @ B) (length A) br = (A @ br) @ drop (length br) B" by (simp add: memcpy_at_def)
  then show ?case using Cons [of "A @ br" "drop (length br) B"] by (simp add: add.commute add.left_commute)
qed simp

lemma length_branchSizes: "length (concat (map (\<lambda>br. store_le 4 (of_nat (length br) :: u32)) brs)) = length brs * 4"
  by (induction brs) simp_all

lemma totalNumBytes_payload:
  "task_ok dt \<Longrightarrow> totalNumBytes t = sizeof_header + length (taskPayload jobId dt t) + SIGNATURE_SIZE"
  by (simp add: totalNumBytes_def taskPayload_def length_encode length_branchSizes) (simp add: length_concat)

lemma header_overwrite:
  "header_setType ty (header_setSize n (header_zeroDejavu h)) =
   header_setType ty (header_setSize n \<lparr>rrh_size = [0, 0, 0], rrh_type = 0, rrh_dejavu = 0\<rparr>)"
  by (simp add: header_setType_def header_setSize_def header_zeroDejavu_def)

lemma buildPacket_layout:
  assumes buf: "length buf = taskBufferSize" and fits: "totalNumBytes t \<le> taskBufferSize"
    and dt: "dt = dogeTaskOf clean diff version ntime nbits prevHash t" "task_ok dt"
    and sign: "length (sign (taskPayload jobId dt t)) = SIGNATURE_SIZE"
  shows "\<exists>rest. buildPacket sign jobId clean diff version ntime nbits prevHash t buf =
    (taskPacket sign jobId dt t @ rest, totalNumBytes t) \<and> length (taskPacket sign jobId dt t @ rest) = taskBufferSize"
proof -
  define H where "H = encode_header (taskHeader (totalNumBytes t))"
  define D where "D = encode_QubicDogeMiningTask dt"
  define Z where "Z = concat (map (\<lambda>br. store_le 4 (of_nat (length br) :: u32)) (dmt_merkleBranches t))"
  define J where "J = take 8 (drop 8 buf)"
  define R where "R = drop 17 buf"
  let ?E = "dmt_extraNonce1 t" and ?C1 = "dmt_coinbase1 t" and ?C2 = "dmt_coinbase2 t" and ?M = "concat (dmt_merkleBranches t)"
  have len: "length H = 8" "length D = 65" "length Z = length (dmt_merkleBranches t) * 4" "length J = 8"
    using dt(2) buf by (simp_all add: H_def D_def Z_def J_def length_encode sizeof_defs length_branchSizes taskHeader_def
        header_ok_def header_setType_def header_setSize_def taskBufferSize_def)
  have b1: "memcpy_at buf 0 H = H @ drop 8 buf" using len by (simp add: memcpy_at_def)
  define W where "W = H @ J @ [DOGE]"
  have b2: "memcpy_at (H @ drop 8 buf) (sizeof_header + 8) [DOGE] = W @ R"
    using len buf by (simp add: memcpy_at_def sizeof_defs J_def R_def W_def taskBufferSize_def)
  have W: "length W = 17" by (simp add: W_def len)
  have b3: "memcpy_at (W @ R) 17 D = (W @ D) @ drop 65 R" using W len by (simp add: memcpy_at_def)
  have b4: "memcpy_at ((W @ D) @ R') 82 ?E = (W @ D @ ?E) @ drop (length ?E) R'" for R'
    using W len by (simp add: memcpy_at_def)
  have b5: "memcpy_at ((W @ D @ ?E) @ R') (82 + length ?E) ?C1 = (W @ D @ ?E @ ?C1) @ drop (length ?C1) R'" for R'
    using W len by (simp add: memcpy_at_def)
  have b6: "memcpy_at ((W @ D @ ?E @ ?C1) @ R') (82 + length ?E + length ?C1) ?C2 =
      (W @ D @ ?E @ ?C1 @ ?C2) @ drop (length ?C2) R'" for R'
    using W len by (simp add: memcpy_at_def)
  have b7: "memcpy_at ((W @ D @ ?E @ ?C1 @ ?C2) @ R') (82 + length ?E + length ?C1 + length ?C2) Z =
      (W @ D @ ?E @ ?C1 @ ?C2 @ Z) @ drop (length Z) R'" for R'
    using W len by (simp add: memcpy_at_def)
  define X where "X = D @ ?E @ ?C1 @ ?C2 @ Z"
  have o7: "82 + length ?E + length ?C1 + length ?C2 + length (dmt_merkleBranches t) * 4 = length (W @ X)"
    by (simp add: X_def W len)
  have pay: "taskPayload jobId dt t = store_le 8 jobId @ [DOGE] @ X @ ?M"
    by (simp add: taskPayload_def encode_CustomQubicMiningTask_def X_def D_def Z_def)
  have tot: "totalNumBytes t = 8 + length (taskPayload jobId dt t) + 64"
    using totalNumBytes_payload [OF dt(2)] by (simp add: sizeof_defs)
  have b9: "memcpy_at ((W @ X) @ ?M @ R') sizeof_header (store_le 8 jobId) = H @ taskPayload jobId dt t @ R'" for R'
    using memcpy_at_replace [of H 8 J "store_le 8 jobId" "[DOGE] @ X @ ?M @ R'"] len
    by (simp add: W_def pay sizeof_defs)
  have o8: "length (W @ X) + length ?M = length (H @ taskPayload jobId dt t)" by (simp add: W_def pay len)
  have sg: "field sizeof_header (length (H @ taskPayload jobId dt t) - sizeof_header) (H @ taskPayload jobId dt t @ R') =
      taskPayload jobId dt t" for R'
    using len by (simp add: field_def sizeof_defs)
  have offs: "sizeof_header + sizeof_CustomQubicMiningTask = 17" "17 + sizeof_QubicDogeMiningTask = 82"
    by (simp_all add: sizeof_defs)
  define Rf where "Rf = drop (length ?M) (drop (length Z) (drop (length ?C2) (drop (length ?C1) (drop (length ?E) (drop 65 R)))))"
  have run: "buildPacket sign jobId clean diff version ntime nbits prevHash t buf =
      (memcpy_at (H @ taskPayload jobId dt t @ Rf) (length (H @ taskPayload jobId dt t)) (sign (taskPayload jobId dt t)),
       length (H @ taskPayload jobId dt t) + SIGNATURE_SIZE)"
    unfolding buildPacket_def header_overwrite taskHeader_def [symmetric] dt(1) [symmetric] H_def [symmetric]
      D_def [symmetric] Z_def [symmetric]
    by (simp only: Let_def H_def [symmetric] b1 b2 offs b3 b4 b5 b6 b7 o7 X_def [symmetric] foldl_memcpy prod.case b9 o8 sg Rf_def)
  have "memcpy_at (H @ taskPayload jobId dt t @ Rf) (length (H @ taskPayload jobId dt t)) (sign (taskPayload jobId dt t)) =
      taskPacket sign jobId dt t @ drop 64 Rf"
    using sign by (simp add: memcpy_at_def taskPacket_def H_def sizeof_defs)
  moreover have "length (H @ taskPayload jobId dt t) + SIGNATURE_SIZE = totalNumBytes t"
    by (simp add: tot len sizeof_defs)
  moreover have "length (taskPacket sign jobId dt t @ drop 64 Rf) = taskBufferSize"
  proof -
    have "length Rf = taskBufferSize - length (H @ taskPayload jobId dt t)"
      using buf by (simp add: Rf_def R_def pay X_def len taskBufferSize_def)
    then show ?thesis
      unfolding taskPacket_def H_def [symmetric] using fits sign len by (simp add: tot sizeof_defs)
  qed
  ultimately show ?thesis using run by auto
qed

section \<open>What a distribution does\<close>

lemma length_swapWords [simp]: "length (swapWords xs) = length xs"
  by (induction xs rule: swapWords.induct) simp_all

text \<open>Swapping is its own inverse.\<close>

lemma swapWords_swapWords [simp]: "swapWords (swapWords xs) = xs"
  by (induction xs rule: swapWords.induct) simp_all

text \<open>The notification is well-formed: the header fields have their sizes and the packet fits.\<close>

definition notify_ok :: "NotifyParams \<Rightarrow> DifficultyTarget \<Rightarrow> bytes \<Rightarrow> bool" where
  "notify_ok p diff en1 \<longleftrightarrow>
     length (np_version p) div 2 = 4 \<and> length (np_prevHash p) div 2 = 32 \<and> length (np_nTime p) div 2 = 4 \<and>
     length (np_nBits p) div 2 = 4 \<and> totalNumBytes (dispatcherTaskOf p diff en1) \<le> taskBufferSize"

definition dogeTaskFor :: "bool \<Rightarrow> NotifyParams \<Rightarrow> DifficultyTarget \<Rightarrow> bytes \<Rightarrow> QubicDogeMiningTask" where
  "dogeTaskFor clean p diff en1 =
     dogeTaskOf clean diff (hexToBytes (np_version p) LittleEndian) (hexToBytes (np_nTime p) LittleEndian)
       (hexToBytes (np_nBits p) LittleEndian) (swapWords (hexToBytes (np_prevHash p) BigEndian))
       (dispatcherTaskOf p diff en1)"

lemma task_ok_dogeTaskFor:
  "notify_ok p diff en1 \<Longrightarrow> difficulty_inv diff \<Longrightarrow> task_ok (dogeTaskFor clean p diff en1)"
  by (simp add: task_ok_def dogeTaskFor_def dogeTaskOf_def notify_ok_def length_hexToBytes difficulty_inv_def)

lemma distributeTask_ok:
  assumes ok: "notify_ok p (d_currentPoolDifficulty s) en1" and inv: "difficulty_inv (d_currentPoolDifficulty s)"
    and buf: "length (d_buffer s) = taskBufferSize" and sign: "\<And>m. length (sign m) = SIGNATURE_SIZE"
    and clean: "clean = (np_cleanJobQueue p \<or> propagate)"
    and pkt: "pkt = taskPacket sign nowMs (dogeTaskFor clean p (d_currentPoolDifficulty s) en1)
      (dispatcherTaskOf p (d_currentPoolDifficulty s) en1)"
  shows "\<exists>buf'. length buf' = taskBufferSize \<and> distributeTask sign nowMs en1 propagate p s =
    (case sendToAll pkt (d_connections s) of
       None \<Rightarrow> None
     | Some (n, conns) \<Rightarrow> Some (s\<lparr>d_connections := conns, d_buffer := buf',
         d_activeTasks := hm_insert (if clean then hm_clear (d_activeTasks s) else d_activeTasks s) nowMs
           (dispatcherTaskOf p (d_currentPoolDifficulty s) en1),
         d_stats := (d_stats s)\<lparr>st_tasksDistributed := st_tasksDistributed (d_stats s) + 1\<rparr>\<rparr>))"
proof -
  let ?diff = "d_currentPoolDifficulty s"
  let ?t = "dispatcherTaskOf p ?diff en1"
  let ?dt = "dogeTaskFor clean p ?diff en1"
  have fits: "totalNumBytes ?t \<le> taskBufferSize" using ok by (simp add: notify_ok_def)
  have dtok: "task_ok ?dt" using ok inv by (rule task_ok_dogeTaskFor)
  have len: "length pkt = totalNumBytes ?t"
    unfolding pkt taskPacket_def using totalNumBytes_payload [OF dtok, of ?t nowMs] sign
    by (simp add: length_encode taskHeader_def header_ok_def header_setType_def header_setSize_def)
  obtain rest where b: "buildPacket sign nowMs clean ?diff (hexToBytes (np_version p) LittleEndian)
      (hexToBytes (np_nTime p) LittleEndian) (hexToBytes (np_nBits p) LittleEndian)
      (swapWords (hexToBytes (np_prevHash p) BigEndian)) ?t (d_buffer s) = (pkt @ rest, totalNumBytes ?t)"
    "length (pkt @ rest) = taskBufferSize"
    using buildPacket_layout [where sign = sign and jobId = nowMs, OF buf fits dogeTaskFor_def dtok sign]
    unfolding pkt by blast
  have sizes: "\<not> (length (hexToBytes (np_version p) LittleEndian) \<noteq> 4 \<or>
      length (swapWords (hexToBytes (np_prevHash p) BigEndian)) \<noteq> 32 \<or>
      length (hexToBytes (np_nTime p) LittleEndian) \<noteq> 4 \<or> length (hexToBytes (np_nBits p) LittleEndian) \<noteq> 4)"
    using ok by (simp add: notify_ok_def length_hexToBytes)
  have nfit: "\<not> totalNumBytes ?t > taskBufferSize" using fits by simp
  have tk: "take (totalNumBytes ?t) (pkt @ rest) = pkt" using len by simp
  show ?thesis
  proof (intro exI conjI)
    show "length (pkt @ rest) = taskBufferSize" by (rule b(2))
    show "distributeTask sign nowMs en1 propagate p s =
    (case sendToAll pkt (d_connections s) of
       None \<Rightarrow> None
     | Some (n, conns) \<Rightarrow> Some (s\<lparr>d_connections := conns, d_buffer := pkt @ rest,
         d_activeTasks := hm_insert (if clean then hm_clear (d_activeTasks s) else d_activeTasks s) nowMs
           (dispatcherTaskOf p (d_currentPoolDifficulty s) en1),
         d_stats := (d_stats s)\<lparr>st_tasksDistributed := st_tasksDistributed (d_stats s) + 1\<rparr>\<rparr>))"
      using sizes nfit b(1) tk unfolding distributeTask_def clean [symmetric]
      by (cases clean) (simp_all add: Let_def split: option.splits)
  qed
qed

text \<open>A connected peer whose sends succeed receives exactly the packet.\<close>

lemma sendToAll_result:
  "sendToAll msg cs = Some (n, cs') \<Longrightarrow> length cs' = length cs \<and> n \<le> length cs \<and>
   (\<forall>i < length cs. \<exists>ok. sendMessage msg (cs ! i) = Some (ok, cs' ! i))"
proof (induction cs arbitrary: n cs')
  case (Cons c cs)
  obtain ok c1 m cs1 where r: "sendMessage msg c = Some (ok, c1)" "sendToAll msg cs = Some (m, cs1)"
    "n = (if ok then Suc m else m)" "cs' = c1 # cs1"
    using Cons.prems by (auto split: option.splits prod.splits)
  from Cons.IH [OF r(2)] r show ?case by (auto simp: nth_Cons' split: if_splits)
qed simp

section \<open>Draining\<close>

text \<open>The notifications among queued messages, and the divisors set by them.\<close>

definition notifies :: "JsonMsg list \<Rightarrow> NotifyParams list" where
  "notifies ms = List.map_filter (\<lambda>m. if j_containsId m \<and> j_idNull m \<and> j_method m = ''mining.notify'' then j_notify m else None) ms"

definition divisors :: "JsonMsg list \<Rightarrow> u64 list" where
  "divisors ms = List.map_filter (\<lambda>m. if j_containsId m \<and> j_idNull m \<and> j_method m = ''mining.set_difficulty'' then j_setDifficulty m else None) ms"

definition shareResponses :: "JsonMsg list \<Rightarrow> JsonMsg list" where
  "shareResponses ms = filter (\<lambda>m. j_containsId m \<and> \<not> j_idNull m \<and> j_idUnsigned m) ms"

lemma drainQueue_result:
  "drainQueue base ms p clean s = Inr (p', clean', s') \<Longrightarrow>
   p' = last (p # notifies ms) \<and> clean' = (clean \<or> (\<exists>q \<in> set (notifies ms). np_cleanJobQueue q)) \<and>
   d_currentPoolDifficulty s' =
     (if divisors ms = [] then d_currentPoolDifficulty s
      else DifficultyTarget_fromFull (divideTarget (m_fullRep base) (last (divisors ms)))) \<and>
   d_activeTasks s' = d_activeTasks s \<and> d_connections s' = d_connections s \<and> d_buffer s' = d_buffer s"
proof (induction ms arbitrary: p clean s)
  case (Cons m ms)
  consider "\<not> j_containsId m" | d where "j_containsId m" "j_idNull m" "j_method m = ''mining.set_difficulty''" "j_setDifficulty m = Some d"
    | q where "j_containsId m" "j_idNull m" "j_method m = ''mining.notify''" "j_notify m = Some q"
    | "j_containsId m" "j_idNull m" "j_method m \<noteq> ''mining.set_difficulty''" "j_method m \<noteq> ''mining.notify''"
    | "j_containsId m" "\<not> j_idNull m"
    using Cons.prems by (auto split: if_splits option.splits)
  then show ?case
  proof cases
    case 1
    then show ?thesis using Cons by (simp add: notifies_def divisors_def List.map_filter_simps)
  next
    case 2
    then show ?thesis
      using Cons.IH [of p clean "setDifficulty base d s"] Cons.prems
      by (simp add: notifies_def divisors_def List.map_filter_simps setDifficulty_def)
  next
    case 3
    then show ?thesis
      using Cons.IH [of q "clean \<or> np_cleanJobQueue q" s] Cons.prems
      by (auto simp: notifies_def divisors_def List.map_filter_simps)
  next
    case 4
    then show ?thesis using Cons by (simp add: notifies_def divisors_def List.map_filter_simps)
  next
    case 5
    then show ?thesis
      using Cons.IH [of p clean s] Cons.IH [of p clean "s\<lparr>d_stats := checkShareResponse m (d_stats s)\<rparr>"] Cons.prems
      by (auto simp: notifies_def divisors_def List.map_filter_simps split: if_splits)
  qed
qed (simp add: notifies_def divisors_def List.map_filter_simps)

text \<open>The accessors that the loop uses on a message do not throw.\<close>

definition json_ok :: "JsonMsg \<Rightarrow> bool" where
  "json_ok m \<longleftrightarrow> (j_method m = ''mining.set_difficulty'' \<longrightarrow> j_setDifficulty m \<noteq> None) \<and>
     (j_method m = ''mining.notify'' \<longrightarrow> j_notify m \<noteq> None)"

lemma drainQueue_total: "list_all json_ok ms \<Longrightarrow> \<exists>p' clean' s'. drainQueue base ms p clean s = Inr (p', clean', s')"
  by (induction ms arbitrary: p clean s) (auto simp: json_ok_def)

section \<open>Properties\<close>

text \<open>
  For a well-formed notification the packet that goes to every connection is exactly the header with the
  total size, the job id, the task with the pool difficulty, the variable-size parts and the signature over
  the whole payload; the static buffer keeps its size, the task is stored under the job id (after all
  older tasks are dropped if the job is a clean one), and the task counter goes up by one.
\<close>

lemma distributed_task_packet:
  assumes "notify_ok p (d_currentPoolDifficulty s) en1" "difficulty_inv (d_currentPoolDifficulty s)"
    "length (d_buffer s) = taskBufferSize" "\<And>m. length (sign m) = SIGNATURE_SIZE"
  shows "\<exists>buf'. length buf' = taskBufferSize \<and> distributeTask sign nowMs en1 propagate p s =
    (case sendToAll (taskPacket sign nowMs
            (dogeTaskFor (np_cleanJobQueue p \<or> propagate) p (d_currentPoolDifficulty s) en1)
            (dispatcherTaskOf p (d_currentPoolDifficulty s) en1)) (d_connections s) of
       None \<Rightarrow> None
     | Some (n, conns) \<Rightarrow> Some (s\<lparr>d_connections := conns, d_buffer := buf',
         d_activeTasks := hm_insert (if np_cleanJobQueue p \<or> propagate then hm_clear (d_activeTasks s) else d_activeTasks s)
           nowMs (dispatcherTaskOf p (d_currentPoolDifficulty s) en1),
         d_stats := (d_stats s)\<lparr>st_tasksDistributed := st_tasksDistributed (d_stats s) + 1\<rparr>\<rparr>))"
  using assms(1-3) by (rule distributeTask_ok) (rule assms(4), rule refl, rule refl)

definition exampleNotify :: "string \<Rightarrow> bool \<Rightarrow> NotifyParams" where
  "exampleNotify job clean = \<lparr>np_taskId = job, np_prevHash = replicate 64 (CHR ''0''), np_coinbase1 = ''01'', np_coinbase2 = ''02'',
     np_merkleBranches = [''0a0b'', ''0c''], np_version = ''00000020'', np_nBits = ''1e0ffff0'', np_nTime = ''01020304'',
     np_cleanJobQueue = clean\<rparr>"

definition exampleDist :: DistState where
  "exampleDist = \<lparr>d_divisor = 1, d_currentPoolDifficulty = DifficultyTarget_fromFull (replicate 32 1),
     d_activeTasks = \<lparr>m_map = []\<rparr>, d_connections = [], d_stats = initialStats, d_buffer = replicate 4096 0\<rparr>"

definition exampleMsg :: "string \<Rightarrow> NotifyParams \<Rightarrow> JsonMsg" where
  "exampleMsg method p = \<lparr>j_containsId = True, j_idNull = True, j_idUnsigned = False, j_method = method, j_setDifficulty = Some 7,
     j_notify = Some p, j_containsError = False, j_errorNull = True, j_containsResult = False, j_resultTrue = False\<rparr>"

lemma distributed_task_packet_witness:
  "\<exists>t. distributeTask (\<lambda>_. replicate 64 0) 77 [1, 2] False (exampleNotify ''j'' True) exampleDist = Some t \<and>
     hm_get (d_activeTasks t) 77 = Some (dispatcherTaskOf (exampleNotify ''j'' True) (d_currentPoolDifficulty exampleDist) [1, 2])"
proof -
  have ok: "notify_ok (exampleNotify ''j'' True) (d_currentPoolDifficulty exampleDist) [1, 2]"
    by (simp add: notify_ok_def exampleNotify_def dispatcherTaskOf_def totalNumBytes_def sizeof_defs length_hexToBytes taskBufferSize_def)
  have inv: "difficulty_inv (d_currentPoolDifficulty exampleDist)"
    by (simp add: exampleDist_def difficulty_inv_fromFull)
  have buf: "length (d_buffer exampleDist) = taskBufferSize" by (simp add: exampleDist_def taskBufferSize_def)
  have conns: "d_connections exampleDist = []" by (simp add: exampleDist_def)
  from distributed_task_packet [OF ok inv buf, of "\<lambda>_. replicate 64 0" 77 False] show ?thesis
    by (auto simp: conns hm_get_def hm_insert_def SIGNATURE_SIZE_def update_conv')
qed

text \<open>
  C12: when a job notification arrives and further messages are queued, the pass distributes exactly one task: the
  last notification, marked as clean if any of the notifications it replaces was clean, at the difficulty of
  the last difficulty message; no accepted message is left in the queue.
\<close>

theorem latest_job_distributed:
  assumes "j_containsId msg" "j_idNull msg" "j_method msg = ''mining.notify''" "j_notify msg = Some p"
    "list_all json_ok queued"
  shows "\<exists>t. distPass sign nowMs base en1 msg queued s =
      map_option (\<lambda>t'. Inr ([], t')) (distributeTask sign nowMs en1 (\<exists>q \<in> set (p # notifies queued). np_cleanJobQueue q)
        (last (p # notifies queued)) t) \<and>
    d_currentPoolDifficulty t = (if divisors queued = [] then d_currentPoolDifficulty s
      else DifficultyTarget_fromFull (divideTarget (m_fullRep base) (last (divisors queued)))) \<and>
    d_activeTasks t = d_activeTasks s \<and> d_connections t = d_connections s \<and> d_buffer t = d_buffer s"
proof -
  obtain latest clean t where run: "drainQueue base queued p (np_cleanJobQueue p) s = Inr (latest, clean, t)"
    using drainQueue_total [OF assms(5)] by blast
  from drainQueue_result [OF run] assms(1-4) show ?thesis by (intro exI [of _ t]) (simp add: distPass_def run)
qed

theorem latest_job_distributed_witness:
  "\<exists>t. distPass (\<lambda>_. replicate 64 0) 77 (DifficultyTarget_fromFull (replicate 32 9)) [1] (exampleMsg ''mining.notify'' (exampleNotify ''a'' True))
       [exampleMsg ''mining.set_difficulty'' (exampleNotify ''x'' False), exampleMsg ''mining.notify'' (exampleNotify ''b'' False)] exampleDist =
     map_option (\<lambda>t'. Inr ([], t')) (distributeTask (\<lambda>_. replicate 64 0) 77 [1] True (exampleNotify ''b'' False) t) \<and>
   d_currentPoolDifficulty t = DifficultyTarget_fromFull (divideTarget (m_fullRep (DifficultyTarget_fromFull (replicate 32 9))) 7)"
proof -
  let ?q = "[exampleMsg ''mining.set_difficulty'' (exampleNotify ''x'' False), exampleMsg ''mining.notify'' (exampleNotify ''b'' False)]"
  have q: "list_all json_ok ?q" "notifies ?q = [exampleNotify ''b'' False]" "divisors ?q = [7]"
    by (simp_all add: json_ok_def exampleMsg_def notifies_def divisors_def List.map_filter_simps)
  have m: "j_containsId (exampleMsg ''mining.notify'' (exampleNotify ''a'' True))"
    "j_idNull (exampleMsg ''mining.notify'' (exampleNotify ''a'' True))"
    "j_method (exampleMsg ''mining.notify'' (exampleNotify ''a'' True)) = ''mining.notify''"
    "j_notify (exampleMsg ''mining.notify'' (exampleNotify ''a'' True)) = Some (exampleNotify ''a'' True)"
    by (simp_all add: exampleMsg_def)
  have c: "(\<exists>x \<in> set (exampleNotify ''a'' True # [exampleNotify ''b'' False]). np_cleanJobQueue x) = True"
    by (simp add: exampleNotify_def)
  have l: "last (exampleNotify ''a'' True # [exampleNotify ''b'' False]) = exampleNotify ''b'' False" by simp
  have d: "([7 :: u64] = []) = False" "last [7 :: u64] = 7" by simp_all
  from latest_job_distributed [OF m q(1), of "\<lambda>_. replicate 64 0" 77 "DifficultyTarget_fromFull (replicate 32 9)" "[1]" exampleDist,
      unfolded q(2,3) c l d if_False]
  show ?thesis by blast
qed

end
