(* ===== verification/Stratum_Recv.thy ===== *)
theory Stratum_Recv
  imports Hash_Util Connection Concurrency
begin

text \<open>
  The stratum receiving thread, \<open>dispatcher/src/threads/stratum_recv_thread.cpp\<close>: the
  subscription and authorisation, the reassembly of lines from the byte stream of the pool, and
  the reconnect loop.  The JSON library is an argument: \<open>parse\<close> gives the value of a line, or
  \<open>None\<close> when it throws, and \<open>view\<close> the results of the accessors that the code uses on it.
\<close>

definition newline :: byte where "newline = 10"

section \<open>Lines of the stream\<close>

text \<open>The inner loop of \<open>stratumReceiveLoop\<close> on \<open>networkBuffer\<close>.\<close>

function lineLoop :: "(bytes \<Rightarrow> 'j option) \<Rightarrow> bytes \<Rightarrow> 'j ConcurrentQueue \<Rightarrow> bytes \<times> 'j ConcurrentQueue" where
  "lineLoop parse networkBuffer queue =
     (if newline \<in> set networkBuffer
      then let line = takeWhile (\<lambda>c. c \<noteq> newline) networkBuffer;
               queue1 = (if line \<noteq> []
                         then (case parse line of Some j \<Rightarrow> q_push queue j | None \<Rightarrow> queue) else queue)
           in lineLoop parse (drop (length line + 1) networkBuffer) queue1
      else (networkBuffer, queue))"
  by pat_completeness auto
termination
  by (relation "measure (\<lambda>(parse, buf, queue). length buf)") (auto dest: length_pos_if_in_set)

declare lineLoop.simps [simp del]

definition receiveChunk :: "(bytes \<Rightarrow> 'j option) \<Rightarrow> bytes \<Rightarrow> bytes \<times> 'j ConcurrentQueue \<Rightarrow> bytes \<times> 'j ConcurrentQueue" where
  "receiveChunk parse d = (\<lambda>(networkBuffer, queue). lineLoop parse (networkBuffer @ d) queue)"

section \<open>Subscription and authorisation\<close>

text \<open>The results of the accessors on a response; \<open>None\<close> where the library throws.\<close>

record ResponseView =
  rv_idIs1 :: bool
  rv_idIs2 :: bool
  rv_idNull :: bool
  rv_errorNull :: bool
  rv_resultFalse :: bool
  rv_extraNonce1 :: "string option"
  rv_extraNonce2NumBytes :: "u32 option"

datatype stratumError = ParseException | AccessException

text \<open>The lines of a response; the last one may lack its newline.\<close>

function splitLines :: "bytes \<Rightarrow> bytes list" where
  "splitLines s =
     (if s = [] then []
      else takeWhile (\<lambda>c. c \<noteq> newline) s # splitLines (drop (length (takeWhile (\<lambda>c. c \<noteq> newline) s) + 1) s))"
  by pat_completeness auto
termination
  by (relation "measure length") auto

declare splitLines.simps [simp del]

fun authLines ::
  "(bytes \<Rightarrow> 'j option) \<Rightarrow> ('j \<Rightarrow> ResponseView) \<Rightarrow> bytes list \<Rightarrow> 'j ConcurrentQueue \<Rightarrow>
   stratumError + bool \<times> 'j ConcurrentQueue" where
  "authLines parse view [] queue = Inr (True, queue)"
| "authLines parse view (line # lines) queue =
     (if line = [] then authLines parse view lines queue
      else (case parse line of
              None \<Rightarrow> Inl ParseException
            | Some response \<Rightarrow>
                let v = view response in
                if rv_idIs2 v then
                  (if rv_resultFalse v \<or> \<not> rv_errorNull v then Inr (False, queue)
                   else authLines parse view lines queue)
                else if rv_idNull v then authLines parse view lines (q_push queue response)
                else authLines parse view lines queue))"

record 'j StratumState =
  ss_conn :: "Socket \<times> Net"
  ss_queue :: "'j ConcurrentQueue"
  ss_extraNonce1 :: bytes

text \<open>A message sent with its result ignored; \<open>None\<close> while the send blocks.\<close>

definition sendLine :: "bytes \<Rightarrow> 'j StratumState \<Rightarrow> 'j StratumState option" where
  "sendLine msg s = (case sendMessage msg (ss_conn s) of None \<Rightarrow> None | Some (ok, c) \<Rightarrow> Some (s\<lparr>ss_conn := c\<rparr>))"

definition receiveText :: "'j StratumState \<Rightarrow> bytes \<times> 'j StratumState" where
  "receiveText s = (case receiveString (ss_conn s) of (d, net) \<Rightarrow> (d, s\<lparr>ss_conn := (fst (ss_conn s), net)\<rparr>))"

definition initStratumProtocol ::
  "(bytes \<Rightarrow> 'j option) \<Rightarrow> ('j \<Rightarrow> ResponseView) \<Rightarrow> bytes \<Rightarrow> bytes \<Rightarrow> 'j StratumState \<Rightarrow>
   (stratumError + bool \<times> 'j StratumState) option" where
  "initStratumProtocol parse view subscribeMsg authMsg s =
     (case sendLine subscribeMsg s of
        None \<Rightarrow> None
      | Some t1 \<Rightarrow>
          (case receiveText t1 of (subscribeResponse, t2) \<Rightarrow>
             if subscribeResponse = [] then Some (Inr (False, t2))
             else (case parse subscribeResponse of
                None \<Rightarrow> Some (Inl ParseException)
              | Some response \<Rightarrow>
                  let v = view response in
                  if rv_idIs1 v \<and> rv_errorNull v then
                    (case rv_extraNonce1 v of
                       None \<Rightarrow> Some (Inl AccessException)
                     | Some en1 \<Rightarrow>
                         let t3 = t2\<lparr>ss_extraNonce1 := hexToBytes en1 BigEndian\<rparr> in
                         (case rv_extraNonce2NumBytes v of
                            None \<Rightarrow> Some (Inl AccessException)
                          | Some n \<Rightarrow>
                              if n \<noteq> 8 then Some (Inr (False, t3))
                              else (case sendLine authMsg t3 of
                                 None \<Rightarrow> None
                               | Some t4 \<Rightarrow>
                                   (case receiveText t4 of (responseString, t5) \<Rightarrow>
                                      (case authLines parse view (splitLines responseString) (ss_queue t5) of
                                         Inl e \<Rightarrow> Some (Inl e)
                                       | Inr (ok, q) \<Rightarrow> Some (Inr (ok, t5\<lparr>ss_queue := q\<rparr>)))))))
                  else Some (Inr (False, t2)))))"

section \<open>Reconnecting\<close>

definition stratumReconnectBaseDelaySec :: nat where "stratumReconnectBaseDelaySec = 2"
definition stratumReconnectMaxDelaySec :: nat where "stratumReconnectMaxDelaySec = 60"

text \<open>The reconnect loop on the results of the attempts: for each one whether the connection opened
  and whether the protocol start succeeded.  It returns the delays waited and whether it ended with a
  connection.\<close>

fun reconnectLoop :: "nat \<Rightarrow> (bool \<times> bool) list \<Rightarrow> nat list \<times> bool" where
  "reconnectLoop delaySec [] = ([], False)"
| "reconnectLoop delaySec ((opened, started) # rs) =
     (if opened \<and> started then ([delaySec], True)
      else (case reconnectLoop (min (delaySec * 2) stratumReconnectMaxDelaySec) rs of
              (ds, ok) \<Rightarrow> (delaySec # ds, ok)))"

section \<open>Properties of the line reassembly\<close>

text \<open>The complete lines of a text and what follows the last newline.\<close>

fun linesOf :: "bytes \<Rightarrow> bytes \<Rightarrow> bytes list \<times> bytes" where
  "linesOf acc [] = ([], acc)"
| "linesOf acc (c # cs) =
     (if c = newline then (case linesOf [] cs of (ls, rest) \<Rightarrow> (acc # ls, rest)) else linesOf (acc @ [c]) cs)"

definition pushLines :: "(bytes \<Rightarrow> 'j option) \<Rightarrow> bytes list \<Rightarrow> 'j ConcurrentQueue \<Rightarrow> 'j ConcurrentQueue" where
  "pushLines parse ls q = foldl q_push q (List.map_filter (\<lambda>l. if l = [] then None else parse l) ls)"

lemma linesOf_no_newline: "newline \<notin> set cs \<Longrightarrow> linesOf acc cs = ([], acc @ cs)"
  by (induction cs arbitrary: acc) auto

lemma linesOf_append:
  "linesOf acc (a @ b) =
   (case linesOf acc a of (ls, r) \<Rightarrow> (case linesOf r b of (ls', r') \<Rightarrow> (ls @ ls', r')))"
proof (induction a arbitrary: acc)
  case (Cons c a)
  show ?case
  proof (cases "c = newline")
    case True
    then show ?thesis using Cons [of "[]"] by (simp split: prod.split)
  next
    case False
    then show ?thesis using Cons [of "acc @ [c]"] by simp
  qed
qed simp

lemma linesOf_rest: "newline \<notin> set acc \<Longrightarrow> newline \<notin> set (snd (linesOf acc cs))"
proof (induction cs arbitrary: acc)
  case (Cons c cs)
  then show ?case using Cons.IH [of "[]"] Cons.IH [of "acc @ [c]"] by (simp add: case_prod_beta)
qed simp

lemma linesOf_acc: "newline \<notin> set acc \<Longrightarrow> linesOf [] (acc @ cs) = linesOf acc cs"
  by (simp add: linesOf_append linesOf_no_newline)

lemma lineLoop_lines:
  "lineLoop parse buf q = (snd (linesOf [] buf), pushLines parse (fst (linesOf [] buf)) q)"
proof (induction parse buf q rule: lineLoop.induct)
  case (1 parse buf q)
  show ?case
  proof (cases "newline \<in> set buf")
    case False
    then show ?thesis
      by (simp add: lineLoop.simps [of _ buf] linesOf_no_newline pushLines_def List.map_filter_def)
  next
    case True
    define line where "line = takeWhile (\<lambda>c. c \<noteq> newline) buf"
    define rest where "rest = drop (length line + 1) buf"
    obtain ys zs where split: "buf = ys @ newline # zs" "newline \<notin> set ys"
      using split_list_first [OF True] by blast
    have ys: "line = ys" unfolding line_def split(1) using split(2) by (subst takeWhile_append2) auto
    then have buf: "buf = line @ newline # rest" and nl: "newline \<notin> set line"
      using split by (simp_all add: rest_def)
    define q1 where "q1 = (if line \<noteq> [] then (case parse line of Some j \<Rightarrow> q_push q j | None \<Rightarrow> q) else q)"
    have "linesOf [] buf = (line # fst (linesOf [] rest), snd (linesOf [] rest))"
      unfolding buf using linesOf_acc [OF nl, of "newline # rest"] by (simp add: case_prod_beta)
    moreover have "lineLoop parse buf q = lineLoop parse rest q1"
      using True by (subst lineLoop.simps) (simp add: Let_def line_def rest_def q1_def)
    moreover have "lineLoop parse rest q1 = (snd (linesOf [] rest), pushLines parse (fst (linesOf [] rest)) q1)"
      using 1 True by (simp add: Let_def line_def rest_def q1_def)
    moreover have "pushLines parse (line # ls) q = pushLines parse ls q1" for ls
      by (auto simp: pushLines_def q1_def List.map_filter_simps split: option.splits)
    ultimately show ?thesis by simp
  qed
qed

lemma receiveChunks:
  "newline \<notin> set buf \<Longrightarrow>
   fold (receiveChunk parse) ds (buf, q) =
   (snd (linesOf buf (concat ds)), pushLines parse (fst (linesOf buf (concat ds))) q)"
proof (induction ds arbitrary: buf q)
  case Nil
  then show ?case by (simp add: pushLines_def List.map_filter_def)
next
  case (Cons d ds)
  obtain ls r where l: "linesOf buf d = (ls, r)" by fastforce
  have r: "newline \<notin> set r" using linesOf_rest [OF Cons.prems, of d] l by simp
  have "receiveChunk parse d (buf, q) = (r, pushLines parse ls q)"
    using linesOf_acc [OF Cons.prems, of d] l by (simp add: receiveChunk_def lineLoop_lines)
  then show ?case
    using Cons.IH [OF r] by (simp add: linesOf_append l pushLines_def List.map_filter_def case_prod_beta)
qed

section \<open>Properties of the protocol start\<close>

text \<open>The start succeeds only after a subscription reply with an 8-byte second extra nonce.\<close>

lemma initStratumProtocol_true:
  assumes "initStratumProtocol parse view sub auth s = Some (Inr (True, s'))"
  obtains response where "parse (fst (receiveText (the (sendLine sub s)))) = Some response"
    "rv_idIs1 (view response)" "rv_errorNull (view response)" "rv_extraNonce2NumBytes (view response) = Some 8"
    "\<exists>en1. rv_extraNonce1 (view response) = Some en1 \<and> ss_extraNonce1 s' = hexToBytes en1 BigEndian"
proof -
  obtain t1 where t1: "sendLine sub s = Some t1"
    using assms by (cases "sendLine sub s") (simp_all add: initStratumProtocol_def)
  obtain d t2 where t2: "receiveText t1 = (d, t2)" by fastforce
  have d: "d \<noteq> []" using assms t1 t2 by (auto simp: initStratumProtocol_def)
  obtain response where p: "parse d = Some response"
    using assms t1 t2 d by (cases "parse d") (simp_all add: initStratumProtocol_def)
  have en1: "ss_extraNonce1 t5 = ss_extraNonce1 t3" if "sendLine auth t3 = Some t4" "receiveText t4 = (e, t5)"
    for t3 t4 :: "'a StratumState" and e t5
    using that by (auto simp: sendLine_def receiveText_def split: option.splits prod.splits)
  show ?thesis
    by (rule that [of response])
      (use assms t1 t2 d p in \<open>auto simp: initStratumProtocol_def Let_def en1 split: if_splits option.splits sum.splits prod.splits\<close>)
qed

text \<open>A reply to the authorisation is not required: without any reply the start succeeds.\<close>

lemma initStratumProtocol_no_auth_reply:
  assumes "sendLine sub s = Some t1" "receiveText t1 = (d, t2)" "d \<noteq> []" "parse d = Some response"
    "rv_idIs1 (view response)" "rv_errorNull (view response)" "rv_extraNonce1 (view response) = Some en1"
    "rv_extraNonce2NumBytes (view response) = Some 8"
    "sendLine auth (t2\<lparr>ss_extraNonce1 := hexToBytes en1 BigEndian\<rparr>) = Some t4" "receiveText t4 = ([], t5)"
  shows "\<exists>s'. initStratumProtocol parse view sub auth s = Some (Inr (True, s'))"
  using assms by (simp add: initStratumProtocol_def splitLines.simps Let_def)

text \<open>The delays of the reconnect loop double from 2 up to 60 seconds.\<close>

lemma reconnectLoop_delays:
  "reconnectLoop (min (2 ^ Suc k) 60) rs = (ds, ok) \<Longrightarrow> i < length ds \<Longrightarrow> ds ! i = min (2 ^ Suc (k + i)) 60"
proof (induction rs arbitrary: k ds i ok)
  case (Cons r rs)
  obtain a b where r: "r = (a, b)" by fastforce
  have nxt: "min (min (2 ^ Suc k) 60 * 2) stratumReconnectMaxDelaySec = min (2 ^ Suc (Suc k)) 60"
    by (auto simp: stratumReconnectMaxDelaySec_def min_def)
  show ?case
  proof (cases "a \<and> b")
    case True
    then show ?thesis using Cons.prems by (auto simp: r)
  next
    case False
    obtain ds1 ok1 where d: "reconnectLoop (min (2 ^ Suc (Suc k)) 60) rs = (ds1, ok1)" by fastforce
    have ds: "ds = min (2 ^ Suc k) 60 # ds1"
      using Cons.prems(1) False unfolding r by (auto simp only: reconnectLoop.simps nxt d if_False prod.case prod.inject)
    show ?thesis
    proof (cases i)
      case 0
      then show ?thesis by (simp add: ds)
    next
      case (Suc j)
      then show ?thesis using Cons.IH [OF d, of j] Cons.prems(2) by (simp add: ds)
    qed
  qed
qed simp

lemma reconnectLoop_ok: "snd (reconnectLoop delaySec rs) \<longleftrightarrow> (\<exists>r \<in> set rs. fst r \<and> snd r)"
  by (induction delaySec rs rule: reconnectLoop.induct) (auto simp: case_prod_beta)

section \<open>Properties\<close>

text \<open>
  C29: however the byte stream of the pool is cut into reads, the receiving loop queues the parsed value of
  every complete non-empty line, in order, skips the lines that do not parse, and keeps exactly the
  bytes after the last newline.
\<close>

theorem stratum_line_reassembly:
  assumes "newline \<notin> set buf"
  shows "fold (receiveChunk parse) ds (buf, q) =
    (snd (linesOf [] (buf @ concat ds)), pushLines parse (fst (linesOf [] (buf @ concat ds))) q)"
  using receiveChunks [OF assms] linesOf_acc [OF assms] by simp

theorem stratum_line_reassembly_witness:
  "fold (receiveChunk (\<lambda>l. if l = [7] then None else Some l)) [[1], [2, 10, 7], [10, 10, 3], [10, 4]] ([9], \<lparr>m_queue = []\<rparr>) =
   ([4], \<lparr>m_queue = [[9, 1, 2], [3]]\<rparr>)"
  by (subst stratum_line_reassembly)
    (simp_all add: newline_def pushLines_def List.map_filter_simps q_push_def)

text \<open>
  C37: the start of the protocol succeeds without any reply to the authorisation: a subscription reply with an
  8-byte second extra nonce is enough, and then the dispatcher treats itself as authorised.
\<close>

theorem start_without_authorisation:
  assumes "sendLine sub s = Some t1" "receiveText t1 = (d, t2)" "d \<noteq> []" "parse d = Some response"
    "rv_idIs1 (view response)" "rv_errorNull (view response)" "rv_extraNonce1 (view response) = Some en1"
    "rv_extraNonce2NumBytes (view response) = Some 8"
    "sendLine auth (t2\<lparr>ss_extraNonce1 := hexToBytes en1 BigEndian\<rparr>) = Some t4" "receiveText t4 = ([], t5)"
  shows "\<exists>s'. initStratumProtocol parse view sub auth s = Some (Inr (True, s'))"
  using assms by (rule initStratumProtocol_no_auth_reply)

definition exampleView :: ResponseView where
  "exampleView = \<lparr>rv_idIs1 = True, rv_idIs2 = False, rv_idNull = False, rv_errorNull = True, rv_resultFalse = False,
     rv_extraNonce1 = Some ''0a'', rv_extraNonce2NumBytes = Some 8\<rparr>"

text \<open>The peer closes the connection after the subscription reply.\<close>

definition exampleStratum :: "recvEvent list \<Rightarrow> int list \<Rightarrow> bytes \<Rightarrow> bytes \<Rightarrow> bool StratumState" where
  "exampleStratum inp sends out en1 = \<lparr>ss_conn = (\<lparr>s_isConnected = True, s_rawSocket = 4\<rparr>,
       \<lparr>n_incoming = inp, n_sendResults = sends, n_outgoing = out\<rparr>),
     ss_queue = \<lparr>m_queue = []\<rparr>, ss_extraNonce1 = en1\<rparr>"

theorem start_without_authorisation_witness:
  "\<exists>s'. initStratumProtocol (\<lambda>_. Some True) (\<lambda>_. exampleView) [1] [2] (exampleStratum [Data [5, 6], Closed] [1, 1] [] []) =
     Some (Inr (True, s'))"
proof (rule start_without_authorisation)
  show "sendLine [1] (exampleStratum [Data [5, 6], Closed] [1, 1] [] []) = Some (exampleStratum [Data [5, 6], Closed] [1] [1] [])"
    by (simp add: exampleStratum_def sendLine_def sendMessage_def sendLoop.simps)
  show "receiveText (exampleStratum [Data [5, 6], Closed] [1] [1] []) = ([5, 6], exampleStratum [Closed] [1] [1] [])"
    by (simp add: exampleStratum_def receiveText_def receiveString_def receiveResponse_def sock_read_def)
  show "sendLine [2] ((exampleStratum [Closed] [1] [1] [])\<lparr>ss_extraNonce1 := hexToBytes ''0a'' BigEndian\<rparr>) =
      Some (exampleStratum [Closed] [] [1, 2] (hexToBytes ''0a'' BigEndian))"
    by (simp add: exampleStratum_def sendLine_def sendMessage_def sendLoop.simps)
  show "receiveText (exampleStratum [Closed] [] [1, 2] (hexToBytes ''0a'' BigEndian)) =
      ([], exampleStratum [Closed] [] [1, 2] (hexToBytes ''0a'' BigEndian))"
    by (simp add: exampleStratum_def receiveText_def receiveString_def receiveResponse_def sock_read_def)
qed (simp_all add: exampleView_def)

text \<open>
  The delays of the reconnect loop double from 2 up to 60 seconds: the delay before attempt \<open>i\<close>, counted from 0, is
  the smaller of \<open>2 ^ (i + 1)\<close> and 60 seconds, and the loop ends with a connection exactly if some attempt both
  connects and starts the protocol.
\<close>

lemma stratum_reconnect_backoff:
  "fst (reconnectLoop stratumReconnectBaseDelaySec rs) =
     map (\<lambda>i. min (2 ^ (i + 1)) stratumReconnectMaxDelaySec) [0..<length (fst (reconnectLoop stratumReconnectBaseDelaySec rs))] \<and>
   (snd (reconnectLoop stratumReconnectBaseDelaySec rs) \<longleftrightarrow> (\<exists>r \<in> set rs. fst r \<and> snd r))"
proof -
  obtain ds ok where r: "reconnectLoop (min (2 ^ Suc 0) 60) rs = (ds, ok)" by fastforce
  have b: "stratumReconnectBaseDelaySec = min (2 ^ Suc 0) 60" by (simp add: stratumReconnectBaseDelaySec_def)
  have "ds = map (\<lambda>i. min (2 ^ (i + 1)) 60) [0..<length ds]"
    by (rule nth_equalityI) (simp_all add: reconnectLoop_delays [OF r])
  then show ?thesis
    using reconnectLoop_ok [of "min (2 ^ Suc 0) 60" rs]
    unfolding b r stratumReconnectMaxDelaySec_def fst_conv snd_conv by (rule conjI)
qed

end
