(* ===== verification/Keccak.thy ===== *)
theory Keccak
  imports Prelude
begin

text \<open>
  The permutation of \<open>dispatcher/src/crypto/k12_and_key_utils.h\<close>: the macros that unroll twelve rounds
  of Keccak over the lanes \<open>Aba\<close> \<dots> \<open>Asu\<close> and \<open>Eba\<close> \<dots> \<open>Esu\<close>, and the equivalence with the permutation
  Keccak-p[1600, 12] of FIPS 202, whose step mappings are written over coordinates.

  A state is the list of its 25 lanes in the order \<open>ba, be, bi, bo, bu, ga, \<dots>, su\<close>, which is the order
  of \<open>copyFromState\<close> and \<open>copyToState\<close>.
\<close>

section \<open>The macros\<close>

definition ROL64 :: "u64 \<Rightarrow> nat \<Rightarrow> u64" where
  "ROL64 a offset = push_bit offset a XOR drop_bit (64 - offset) a"

definition KeccakF1600RoundConstants :: "u64 list" where
  "KeccakF1600RoundConstants =
    [0x000000008000808b, 0x800000000000008b, 0x8000000000008089, 0x8000000000008003,
     0x8000000000008002, 0x8000000000000080, 0x000000000000800a, 0x800000008000000a,
     0x8000000080008081, 0x8000000000008080, 0x0000000080000001]"

text \<open>One round: it turns the lanes of the first list into those of the second; the column parities of the
  input come in as \<open>C\<close> and those of the output go out.\<close>

definition thetaRhoPiChiIotaPrepareTheta :: "u64 \<Rightarrow> u64 list \<times> u64 list \<Rightarrow> u64 list \<times> u64 list" where
  "thetaRhoPiChiIotaPrepareTheta rc = (\<lambda>(A, C).
     (let Aba = A ! 0; Abe = A ! 1; Abi = A ! 2; Abo = A ! 3; Abu = A ! 4; Aga = A ! 5; Age = A ! 6; Agi = A ! 7;
          Ago = A ! 8; Agu = A ! 9; Aka = A ! 10; Ake = A ! 11; Aki = A ! 12; Ako = A ! 13; Aku = A ! 14;
          Ama = A ! 15; Ame = A ! 16; Ami = A ! 17; Amo = A ! 18; Amu = A ! 19; Asa = A ! 20; Ase = A ! 21;
          Asi = A ! 22; Aso = A ! 23; Asu = A ! 24; Ca = C ! 0; Ce = C ! 1; Ci = C ! 2; Co = C ! 3; Cu = C ! 4;
          Da = Cu XOR ROL64 Ce 1; De = Ca XOR ROL64 Ci 1; Di = Ce XOR ROL64 Co 1; Do = Ci XOR ROL64 Cu 1;
          Du = Co XOR ROL64 Ca 1; Aba = Aba XOR Da; Bba = Aba; Age = Age XOR De; Bbe = ROL64 Age 44;
          Aki = Aki XOR Di; Bbi = ROL64 Aki 43; Amo = Amo XOR Do; Bbo = ROL64 Amo 21; Asu = Asu XOR Du;
          Bbu = ROL64 Asu 14; Eba = Bba XOR ((NOT Bbe) AND Bbi); Eba = Eba XOR rc; Ca = Eba;
          Ebe = Bbe XOR ((NOT Bbi) AND Bbo); Ce = Ebe; Ebi = Bbi XOR ((NOT Bbo) AND Bbu); Ci = Ebi;
          Ebo = Bbo XOR ((NOT Bbu) AND Bba); Co = Ebo; Ebu = Bbu XOR ((NOT Bba) AND Bbe); Cu = Ebu;
          Abo = Abo XOR Do; Bga = ROL64 Abo 28; Agu = Agu XOR Du; Bge = ROL64 Agu 20; Aka = Aka XOR Da;
          Bgi = ROL64 Aka 3; Ame = Ame XOR De; Bgo = ROL64 Ame 45; Asi = Asi XOR Di; Bgu = ROL64 Asi 61;
          Ega = Bga XOR ((NOT Bge) AND Bgi); Ca = Ca XOR Ega; Ege = Bge XOR ((NOT Bgi) AND Bgo); Ce = Ce XOR Ege;
          Egi = Bgi XOR ((NOT Bgo) AND Bgu); Ci = Ci XOR Egi; Ego = Bgo XOR ((NOT Bgu) AND Bga); Co = Co XOR Ego;
          Egu = Bgu XOR ((NOT Bga) AND Bge); Cu = Cu XOR Egu; Abe = Abe XOR De; Bka = ROL64 Abe 1;
          Agi = Agi XOR Di; Bke = ROL64 Agi 6; Ako = Ako XOR Do; Bki = ROL64 Ako 25; Amu = Amu XOR Du;
          Bko = ROL64 Amu 8; Asa = Asa XOR Da; Bku = ROL64 Asa 18; Eka = Bka XOR ((NOT Bke) AND Bki);
          Ca = Ca XOR Eka; Eke = Bke XOR ((NOT Bki) AND Bko); Ce = Ce XOR Eke; Eki = Bki XOR ((NOT Bko) AND Bku);
          Ci = Ci XOR Eki; Eko = Bko XOR ((NOT Bku) AND Bka); Co = Co XOR Eko; Eku = Bku XOR ((NOT Bka) AND Bke);
          Cu = Cu XOR Eku; Abu = Abu XOR Du; Bma = ROL64 Abu 27; Aga = Aga XOR Da; Bme = ROL64 Aga 36;
          Ake = Ake XOR De; Bmi = ROL64 Ake 10; Ami = Ami XOR Di; Bmo = ROL64 Ami 15; Aso = Aso XOR Do;
          Bmu = ROL64 Aso 56; Ema = Bma XOR ((NOT Bme) AND Bmi); Ca = Ca XOR Ema;
          Eme = Bme XOR ((NOT Bmi) AND Bmo); Ce = Ce XOR Eme; Emi = Bmi XOR ((NOT Bmo) AND Bmu); Ci = Ci XOR Emi;
          Emo = Bmo XOR ((NOT Bmu) AND Bma); Co = Co XOR Emo; Emu = Bmu XOR ((NOT Bma) AND Bme); Cu = Cu XOR Emu;
          Abi = Abi XOR Di; Bsa = ROL64 Abi 62; Ago = Ago XOR Do; Bse = ROL64 Ago 55; Aku = Aku XOR Du;
          Bsi = ROL64 Aku 39; Ama = Ama XOR Da; Bso = ROL64 Ama 41; Ase = Ase XOR De; Bsu = ROL64 Ase 2;
          Esa = Bsa XOR ((NOT Bse) AND Bsi); Ca = Ca XOR Esa; Ese = Bse XOR ((NOT Bsi) AND Bso); Ce = Ce XOR Ese;
          Esi = Bsi XOR ((NOT Bso) AND Bsu); Ci = Ci XOR Esi; Eso = Bso XOR ((NOT Bsu) AND Bsa); Co = Co XOR Eso;
          Esu = Bsu XOR ((NOT Bsa) AND Bse); Cu = Cu XOR Esu
      in ([Eba, Ebe, Ebi, Ebo, Ebu,
           Ega, Ege, Egi, Ego, Egu,
           Eka, Eke, Eki, Eko, Eku,
           Ema, Eme, Emi, Emo, Emu,
           Esa, Ese, Esi, Eso, Esu],
          [Ca, Ce, Ci, Co, Cu])))"

text \<open>The last round does not prepare the parities.\<close>

definition rounds12_init :: "u64 list \<Rightarrow> u64 list \<times> u64 list" where
  "rounds12_init A =
     (let Aba = A ! 0; Abe = A ! 1; Abi = A ! 2; Abo = A ! 3; Abu = A ! 4; Aga = A ! 5; Age = A ! 6; Agi = A ! 7;
          Ago = A ! 8; Agu = A ! 9; Aka = A ! 10; Ake = A ! 11; Aki = A ! 12; Ako = A ! 13; Aku = A ! 14;
          Ama = A ! 15; Ame = A ! 16; Ami = A ! 17; Amo = A ! 18; Amu = A ! 19; Asa = A ! 20; Ase = A ! 21;
          Asi = A ! 22; Aso = A ! 23; Asu = A ! 24;
          Ca = Aba XOR Aga XOR Aka XOR Ama XOR Asa; Ce = Abe XOR Age XOR Ake XOR Ame XOR Ase;
          Ci = Abi XOR Agi XOR Aki XOR Ami XOR Asi; Co = Abo XOR Ago XOR Ako XOR Amo XOR Aso;
          Cu = Abu XOR Agu XOR Aku XOR Amu XOR Asu
      in (A, [Ca, Ce, Ci, Co, Cu]))"

definition rounds12_last :: "u64 list \<times> u64 list \<Rightarrow> u64 list" where
  "rounds12_last = (\<lambda>(E, C).
     (let Eba = E ! 0; Ebe = E ! 1; Ebi = E ! 2; Ebo = E ! 3; Ebu = E ! 4; Ega = E ! 5; Ege = E ! 6; Egi = E ! 7;
          Ego = E ! 8; Egu = E ! 9; Eka = E ! 10; Eke = E ! 11; Eki = E ! 12; Eko = E ! 13; Eku = E ! 14;
          Ema = E ! 15; Eme = E ! 16; Emi = E ! 17; Emo = E ! 18; Emu = E ! 19; Esa = E ! 20; Ese = E ! 21;
          Esi = E ! 22; Eso = E ! 23; Esu = E ! 24; Ca = C ! 0; Ce = C ! 1; Ci = C ! 2; Co = C ! 3; Cu = C ! 4;
          Da = Cu XOR ROL64 Ce 1; De = Ca XOR ROL64 Ci 1; Di = Ce XOR ROL64 Co 1; Do = Ci XOR ROL64 Cu 1;
          Du = Co XOR ROL64 Ca 1; Eba = Eba XOR Da; Bba = Eba; Ege = Ege XOR De; Bbe = ROL64 Ege 44;
          Eki = Eki XOR Di; Bbi = ROL64 Eki 43; Emo = Emo XOR Do; Bbo = ROL64 Emo 21; Esu = Esu XOR Du;
          Bbu = ROL64 Esu 14; Aba = Bba XOR ((NOT Bbe) AND Bbi); Aba = Aba XOR 0x8000000080008008;
          Abe = Bbe XOR ((NOT Bbi) AND Bbo); Abi = Bbi XOR ((NOT Bbo) AND Bbu); Abo = Bbo XOR ((NOT Bbu) AND Bba);
          Abu = Bbu XOR ((NOT Bba) AND Bbe); Ebo = Ebo XOR Do; Bga = ROL64 Ebo 28; Egu = Egu XOR Du;
          Bge = ROL64 Egu 20; Eka = Eka XOR Da; Bgi = ROL64 Eka 3; Eme = Eme XOR De; Bgo = ROL64 Eme 45;
          Esi = Esi XOR Di; Bgu = ROL64 Esi 61; Aga = Bga XOR ((NOT Bge) AND Bgi);
          Age = Bge XOR ((NOT Bgi) AND Bgo); Agi = Bgi XOR ((NOT Bgo) AND Bgu); Ago = Bgo XOR ((NOT Bgu) AND Bga);
          Agu = Bgu XOR ((NOT Bga) AND Bge); Ebe = Ebe XOR De; Bka = ROL64 Ebe 1; Egi = Egi XOR Di;
          Bke = ROL64 Egi 6; Eko = Eko XOR Do; Bki = ROL64 Eko 25; Emu = Emu XOR Du; Bko = ROL64 Emu 8;
          Esa = Esa XOR Da; Bku = ROL64 Esa 18; Aka = Bka XOR ((NOT Bke) AND Bki);
          Ake = Bke XOR ((NOT Bki) AND Bko); Aki = Bki XOR ((NOT Bko) AND Bku); Ako = Bko XOR ((NOT Bku) AND Bka);
          Aku = Bku XOR ((NOT Bka) AND Bke); Ebu = Ebu XOR Du; Bma = ROL64 Ebu 27; Ega = Ega XOR Da;
          Bme = ROL64 Ega 36; Eke = Eke XOR De; Bmi = ROL64 Eke 10; Emi = Emi XOR Di; Bmo = ROL64 Emi 15;
          Eso = Eso XOR Do; Bmu = ROL64 Eso 56; Ama = Bma XOR ((NOT Bme) AND Bmi);
          Ame = Bme XOR ((NOT Bmi) AND Bmo); Ami = Bmi XOR ((NOT Bmo) AND Bmu); Amo = Bmo XOR ((NOT Bmu) AND Bma);
          Amu = Bmu XOR ((NOT Bma) AND Bme); Ebi = Ebi XOR Di; Bsa = ROL64 Ebi 62; Ego = Ego XOR Do;
          Bse = ROL64 Ego 55; Eku = Eku XOR Du; Bsi = ROL64 Eku 39; Ema = Ema XOR Da; Bso = ROL64 Ema 41;
          Ese = Ese XOR De; Bsu = ROL64 Ese 2; Asa = Bsa XOR ((NOT Bse) AND Bsi);
          Ase = Bse XOR ((NOT Bsi) AND Bso); Asi = Bsi XOR ((NOT Bso) AND Bsu); Aso = Bso XOR ((NOT Bsu) AND Bsa);
          Asu = Bsu XOR ((NOT Bsa) AND Bse)
      in [Aba, Abe, Abi, Abo, Abu,
           Aga, Age, Agi, Ago, Agu,
           Aka, Ake, Aki, Ako, Aku,
           Ama, Ame, Ami, Amo, Amu,
           Asa, Ase, Asi, Aso, Asu]))"

definition rounds12 :: "u64 list \<Rightarrow> u64 list" where
  "rounds12 A = rounds12_last (fold thetaRhoPiChiIotaPrepareTheta KeccakF1600RoundConstants (rounds12_init A))"

definition copyFromState :: "u64 list \<Rightarrow> u64 list" where
  "copyFromState state = map (\<lambda>i. state ! i) [0..<25]"

definition copyToState :: "u64 list \<Rightarrow> u64 list \<Rightarrow> u64 list" where
  "copyToState A state = fold (\<lambda>i state. state[i := A ! i]) [0..<25] state"

section \<open>Keccak-p[1600, 12]\<close>

text \<open>The lane at coordinates \<open>x\<close> and \<open>y\<close>, and the state with given lanes.\<close>

definition lane :: "u64 list \<Rightarrow> nat \<Rightarrow> nat \<Rightarrow> u64" where
  "lane A x y = A ! (5 * (y mod 5) + x mod 5)"

definition lanes :: "(nat \<Rightarrow> nat \<Rightarrow> u64) \<Rightarrow> u64 list" where
  "lanes f = map (\<lambda>k. f (k mod 5) (k div 5)) [0..<25]"

definition parity :: "u64 list \<Rightarrow> nat \<Rightarrow> u64" where
  "parity A x = (((lane A x 0 XOR lane A x 1) XOR lane A x 2) XOR lane A x 3) XOR lane A x 4"

definition theta :: "u64 list \<Rightarrow> u64 list" where
  "theta A = lanes (\<lambda>x y. lane A x y XOR (parity A (x + 4) XOR word_rotl 1 (parity A (x + 1))))"

text \<open>The rotation offsets along the walk from (1, 0).\<close>

fun rhoWalk :: "nat \<Rightarrow> nat \<times> nat" where
  "rhoWalk 0 = (1, 0)"
| "rhoWalk (Suc t) = (case rhoWalk t of (x, y) \<Rightarrow> (y, (2 * x + 3 * y) mod 5))"

definition rhoOffset :: "nat \<Rightarrow> nat \<Rightarrow> nat" where
  "rhoOffset x y =
     (case find (\<lambda>t. rhoWalk t = (x, y)) [0..<24] of None \<Rightarrow> 0 | Some t \<Rightarrow> (t + 1) * (t + 2) div 2 mod 64)"

definition rho :: "u64 list \<Rightarrow> u64 list" where
  "rho A = lanes (\<lambda>x y. word_rotl (rhoOffset x y) (lane A x y))"

definition pi' :: "u64 list \<Rightarrow> u64 list" where
  "pi' A = lanes (\<lambda>x y. lane A (x + 3 * y) x)"

definition chi :: "u64 list \<Rightarrow> u64 list" where
  "chi A = lanes (\<lambda>x y. lane A x y XOR (NOT (lane A (x + 1) y) AND lane A (x + 2) y))"

definition iota :: "u64 \<Rightarrow> u64 list \<Rightarrow> u64 list" where
  "iota rc A = lanes (\<lambda>x y. if x = 0 \<and> y = 0 then lane A x y XOR rc else lane A x y)"

definition keccakRound :: "u64 \<Rightarrow> u64 list \<Rightarrow> u64 list" where
  "keccakRound rc A = iota rc (chi (pi' (rho (theta A))))"

text \<open>The round constants come from a linear feedback shift register over eight bits: bit \<open>2 ^ j - 1\<close> of the constant
  of round \<open>i\<close> is the output of the register after \<open>j + 7 * i\<close> steps.\<close>

definition lfsrStep :: "bool list \<Rightarrow> bool list" where
  "lfsrStep R = (let R0 = False # R; R' = (\<lambda>k R. R[k := (R ! k \<noteq> R ! 8)]) in take 8 (R' 6 (R' 5 (R' 4 (R' 0 R0)))))"

fun lfsrBits :: "nat \<Rightarrow> bool list \<Rightarrow> bool list" where
  "lfsrBits 0 R = []"
| "lfsrBits (Suc n) R = hd R # lfsrBits n (lfsrStep R)"

definition rcOf :: "bool list \<Rightarrow> u64" where
  "rcOf bs = fold (\<lambda>(j, b) w. if b then w OR push_bit (2 ^ j - 1) 1 else w) (zip [0..<7] bs) 0"

definition roundConstants24 :: "u64 list" where
  "roundConstants24 = map rcOf (chunks 7 (lfsrBits 168 [True, False, False, False, False, False, False, False]))"

text \<open>The permutation with \<open>nr\<close> rounds has the last \<open>nr\<close> of the 24 rounds.\<close>

definition keccakP :: "nat \<Rightarrow> u64 list \<Rightarrow> u64 list" where
  "keccakP nr A = fold keccakRound (drop (24 - nr) roundConstants24) A"

section \<open>The unrolled rounds are rounds of Keccak\<close>

lemma ROL64_rotl:
  assumes "0 < b" "b < 64"
  shows "ROL64 a b = word_rotl b a"
proof (rule bit_word_eqI)
  fix n
  assume n: "n < LENGTH(64)"
  show "bit (ROL64 a b) n \<longleftrightarrow> bit (word_rotl b a) n"
  proof (cases "b \<le> n")
    case True
    have "n + (64 - b) = (n - b) + 64" using True assms by simp
    then have "(n + (64 - b)) mod 64 = (n - b) mod 64" by (metis mod_add_self2)
    also have "\<dots> = n - b" using n by simp
    finally have "(n + (64 - b)) mod 64 = n - b" .
    moreover have "\<not> bit a (64 - b + n)" using True assms by (auto dest: bit_imp_le_length)
    ultimately show ?thesis
      using True n assms by (simp add: ROL64_def bit_simps)
  next
    case False
    then have "(n + (64 - b)) mod 64 = 64 - b + n" using assms by (simp add: add.commute)
    then show ?thesis
      using False n assms by (simp add: ROL64_def bit_simps)
  qed
qed

lemma length_lanes [simp]: "length (lanes f) = 25"
  by (simp add: lanes_def)

lemma lane_lanes: "lane (lanes f) x y = f (x mod 5) (y mod 5)"
proof -
  have "x mod 5 < 5" "y mod 5 < 5" by simp_all
  then have "5 * (y mod 5) + x mod 5 < 25" by linarith
  then show ?thesis unfolding lane_def lanes_def by (simp del: upt_Suc)
qed

lemma rhoOffsets:
  "rhoOffset 0 0 = 0" "rhoOffset 1 0 = 1" "rhoOffset 2 0 = 62" "rhoOffset 3 0 = 28" "rhoOffset 4 0 = 27"
  "rhoOffset 0 1 = 36" "rhoOffset 1 1 = 44" "rhoOffset 2 1 = 6" "rhoOffset 3 1 = 55" "rhoOffset 4 1 = 20"
  "rhoOffset 0 2 = 3" "rhoOffset 1 2 = 10" "rhoOffset 2 2 = 43" "rhoOffset 3 2 = 25" "rhoOffset 4 2 = 39"
  "rhoOffset 0 3 = 41" "rhoOffset 1 3 = 45" "rhoOffset 2 3 = 15" "rhoOffset 3 3 = 21" "rhoOffset 4 3 = 8"
  "rhoOffset 0 4 = 18" "rhoOffset 1 4 = 2" "rhoOffset 2 4 = 61" "rhoOffset 3 4 = 56" "rhoOffset 4 4 = 14"
  by code_simp+

lemma word_rotl_0: "word_rotl 0 (a :: u64) = a"
  by (rule bit_word_eqI) (simp add: bit_word_rotl_iff)

text \<open>Small numbers in decimal form.\<close>

lemmas decimal = One_nat_def [symmetric] Suc_1 Suc_numeral

lemma lanes_list:
  "lanes f = [f 0 0, f 1 0, f 2 0, f 3 0, f 4 0, f 0 1, f 1 1, f 2 1, f 3 1, f 4 1, f 0 2, f 1 2, f 2 2, f 3 2, f 4 2,
     f 0 3, f 1 3, f 2 3, f 3 3, f 4 3, f 0 4, f 1 4, f 2 4, f 3 4, f 4 4]"
  by (simp add: lanes_def upt_rec decimal del: One_nat_def)

definition parities :: "u64 list \<Rightarrow> u64 list" where
  "parities A = [parity A 0, parity A 1, parity A 2, parity A 3, parity A 4]"

lemma parity_mod: "parity A (x mod 5) = parity A x"
  by (simp add: parity_def lane_def)

lemma parity_5: "parity A 5 = parity A 0" "parity A 6 = parity A 1" "parity A 7 = parity A 2" "parity A 8 = parity A 3"
  "parity A 9 = parity A 4"
  using parity_mod [of A 5] parity_mod [of A 6] parity_mod [of A 7] parity_mod [of A 8] parity_mod [of A 9] by simp_all

lemma round_lanes: "fst (thetaRhoPiChiIotaPrepareTheta rc (A, parities A)) = keccakRound rc A"
  unfolding keccakRound_def iota_def chi_def pi'_def rho_def theta_def lane_lanes
  unfolding lanes_list thetaRhoPiChiIotaPrepareTheta_def Let_def prod.case fst_conv
  by (simp add: parities_def rhoOffsets lane_def ROL64_rotl word_rotl_0 parity_5 decimal del: One_nat_def)

lemma round_parities: "snd (thetaRhoPiChiIotaPrepareTheta rc (A, C)) = parities (fst (thetaRhoPiChiIotaPrepareTheta rc (A, C)))"
  unfolding thetaRhoPiChiIotaPrepareTheta_def Let_def prod.case fst_conv snd_conv parities_def parity_def lane_def
  by (simp add: xor.assoc)

lemma round_step: "thetaRhoPiChiIotaPrepareTheta rc (A, parities A) = (keccakRound rc A, parities (keccakRound rc A))"
  by (rule prod_eqI) (simp_all add: round_lanes round_parities)

lemma rounds12_init_parities: "rounds12_init A = (A, parities A)"
  by (simp add: rounds12_init_def parities_def parity_def lane_def Let_def xor.assoc decimal del: One_nat_def)

lemma last_round: "rounds12_last (A, parities A) = keccakRound 0x8000000080008008 A"
  unfolding keccakRound_def iota_def chi_def pi'_def rho_def theta_def lane_lanes
  unfolding lanes_list rounds12_last_def Let_def prod.case
  by (simp add: parities_def rhoOffsets lane_def ROL64_rotl word_rotl_0 parity_5 decimal del: One_nat_def)

lemma lfsr_bits:
  "drop 12 (chunks 7 (lfsrBits 168 [True, False, False, False, False, False, False, False])) =
    [[True, True, True, True, True, True, False],
     [True, True, True, True, False, False, True],
     [True, False, True, True, True, False, True],
     [True, True, False, False, True, False, True],
     [False, True, False, False, True, False, True],
     [False, False, False, True, False, False, True],
     [False, True, True, False, True, False, False],
     [False, True, True, False, False, True, True],
     [True, False, False, True, True, True, True],
     [False, False, False, True, True, False, True],
     [True, False, False, False, False, True, False],
     [False, False, True, False, True, True, True]]"
  by code_simp

lemma roundConstants_lfsr:
  "drop 12 roundConstants24 = KeccakF1600RoundConstants @ [0x8000000080008008]"
  unfolding roundConstants24_def drop_map lfsr_bits
  by (simp add: rcOf_def KeccakF1600RoundConstants_def upt_rec)

lemma fold_rounds:
  "fold thetaRhoPiChiIotaPrepareTheta rcs (A, parities A) =
   (fold keccakRound rcs A, parities (fold keccakRound rcs A))"
  by (induction rcs arbitrary: A) (simp_all add: round_step)

lemma rounds12_keccakP: "rounds12 A = keccakP 12 A"
  by (simp add: keccakP_def roundConstants_lfsr rounds12_def rounds12_init_parities fold_rounds last_round)

lemma length_keccakRound [simp]: "length (keccakRound rc A) = 25"
  by (simp add: keccakRound_def iota_def)

lemma length_rounds12 [simp]: "length (rounds12 A) = 25"
  by (simp add: rounds12_def rounds12_init_parities fold_rounds last_round)

end
