(* ===== verification/K12.thy ===== *)
theory K12
  imports Keccak
begin

text \<open>
  KangarooTwelve as in \<open>dispatcher/src/crypto/k12_and_key_utils.h\<close>: the byte sponge with its optimised
  absorption, the tree hashing, and the equivalence with the function KT128 of RFC 9861 for an empty
  customisation string.

  The state of a sponge is the array of its 200 bytes; the casts of the source to an array of lanes
  are \<open>lanesOf\<close> and \<open>bytesOf\<close>.  The index \<open>byteIOIndex\<close> stays below the rate of 168 bytes, so it is a
  natural number here, and so are the counters of the blocks.
\<close>

section \<open>The sponge\<close>

definition K12_rateInBytes :: nat where "K12_rateInBytes = 168"
definition K12_capacityInBytes :: nat where "K12_capacityInBytes = 32"
definition K12_chunkSize :: nat where "K12_chunkSize = 8192"
definition K12_suffixLeaf :: byte where "K12_suffixLeaf = 0x0B"

lemmas K12_consts = K12_rateInBytes_def K12_capacityInBytes_def K12_chunkSize_def K12_suffixLeaf_def

record KangarooTwelve_F =
  kf_state :: bytes
  kf_byteIOIndex :: nat

definition kf_zero :: KangarooTwelve_F where
  "kf_zero = \<lparr>kf_state = replicate 200 0, kf_byteIOIndex = 0\<rparr>"

definition lanesOf :: "bytes \<Rightarrow> u64 list" where
  "lanesOf state = map load_le (chunks 8 state)"

definition bytesOf :: "u64 list \<Rightarrow> bytes" where
  "bytesOf ls = concat (map (store_le 8) ls)"

definition KeccakP1600_Permute_12rounds :: "bytes \<Rightarrow> bytes" where
  "KeccakP1600_Permute_12rounds state =
     bytesOf (copyToState (rounds12 (copyFromState (lanesOf state))) (lanesOf state))"

text \<open>The assignment \<open>((unsigned long long *)state)[j] ^= w\<close>, and lane \<open>j\<close> of the data.\<close>

definition laneXor :: "nat \<Rightarrow> u64 \<Rightarrow> bytes \<Rightarrow> bytes" where
  "laneXor j w state = memcpy_at state (8 * j) (store_le 8 (load_le (take 8 (drop (8 * j) state)) XOR w))"

definition dataLane :: "bytes \<Rightarrow> nat \<Rightarrow> u64" where
  "dataLane data j = load_le (take 8 (drop (8 * j) data))"

text \<open>The loop over complete blocks, which keeps the lanes in variables.\<close>

function absorbFull :: "u64 list \<Rightarrow> bytes \<Rightarrow> u64 list \<times> bytes" where
  "absorbFull A data =
     (if K12_rateInBytes \<le> length data
      then absorbFull (rounds12 (fold (\<lambda>j A. A[j := A ! j XOR dataLane data j]) [0..<21] A)) (drop K12_rateInBytes data)
      else (A, data))"
  by pat_completeness auto
termination
  by (relation "measure (\<lambda>(A, data). length data)") (auto simp: K12_consts)

declare absorbFull.simps [simp del]

text \<open>The unrolled loops for a partial block at the start of the state, with \<open>k\<close> lanes per pass.\<close>

function laneLoop :: "nat \<Rightarrow> nat \<Rightarrow> bytes \<Rightarrow> nat \<times> bytes \<Rightarrow> nat \<times> bytes" where
  "laneLoop k n data (j, state) =
     (if 0 < k \<and> j + k \<le> n
      then laneLoop k n data (j + k, fold (\<lambda>m st. laneXor (j + m) (dataLane data (j + m)) st) [0..<k] state)
      else (j, state))"
  by pat_completeness auto
termination
  by (relation "measure (\<lambda>(k, n, data, j, state). n - j)") auto

declare laneLoop.simps [simp del]

definition xorAligned :: "nat \<Rightarrow> bytes \<Rightarrow> bytes \<Rightarrow> bytes" where
  "xorAligned partialBlock data state =
     (let n = partialBlock div 8;
          (j, st1) = laneLoop 2 n data (laneLoop 4 n data (laneLoop 8 n data (0, state)));
          st2 = (if j < n then laneXor j (dataLane data j) st1 else st1)
      in if partialBlock mod 8 \<noteq> 0
         then laneXor n (load_le (take (partialBlock mod 8) (drop (8 * n) data))) st2
         else st2)"

text \<open>The loop for a partial block that does not start at the first lane.\<close>

function xorOffset :: "nat \<Rightarrow> nat \<Rightarrow> nat \<Rightarrow> bytes \<Rightarrow> bytes \<Rightarrow> bytes" where
  "xorOffset sizeLeft lanePosition offsetInLane curData state =
     (if 0 < sizeLeft
      then let bytesInLane = (if 8 - offsetInLane > sizeLeft then sizeLeft else 8 - offsetInLane);
               st1 = (if bytesInLane \<noteq> 0
                      then laneXor lanePosition (push_bit (8 * offsetInLane) (load_le (take bytesInLane curData))) state
                      else state)
           in xorOffset (sizeLeft - bytesInLane) (lanePosition + 1) 0 (drop bytesInLane curData) st1
      else state)"
  by pat_completeness auto
termination
  by (relation "measure (\<lambda>(sizeLeft, p, off, d, s). 2 * sizeLeft + (if off = 0 then 0 else 1))") auto

declare xorOffset.simps [simp del]

lemma length_absorbFull: "length (snd (absorbFull A data)) \<le> length data"
proof (induction A data rule: absorbFull.induct)
  case (1 A data)
  then show ?case by (subst absorbFull.simps) (auto intro: le_trans)
qed

lemma length_absorbFull_less:
  "K12_rateInBytes \<le> length data \<Longrightarrow> length (snd (absorbFull A data)) < length data"
  by (subst absorbFull.simps) (auto simp: K12_consts intro: le_less_trans [OF length_absorbFull])

text \<open>The guard on the index only makes the function total: the index of a sponge is below the rate.\<close>

function KangarooTwelve_F_Absorb :: "KangarooTwelve_F \<Rightarrow> bytes \<Rightarrow> KangarooTwelve_F" where
  "KangarooTwelve_F_Absorb inst data =
     (if data = [] \<or> K12_rateInBytes \<le> kf_byteIOIndex inst then inst
      else if kf_byteIOIndex inst = 0 \<and> K12_rateInBytes \<le> length data
      then let r = absorbFull (copyFromState (lanesOf (kf_state inst))) data
           in KangarooTwelve_F_Absorb (inst\<lparr>kf_state := bytesOf (copyToState (fst r) (lanesOf (kf_state inst)))\<rparr>) (snd r)
      else
        let partialBlock = (if length data + kf_byteIOIndex inst > K12_rateInBytes
                            then K12_rateInBytes - kf_byteIOIndex inst else length data);
            st1 = (if kf_byteIOIndex inst = 0 then xorAligned partialBlock data (kf_state inst)
                   else xorOffset partialBlock (kf_byteIOIndex inst div 8) (kf_byteIOIndex inst mod 8) data (kf_state inst));
            idx1 = kf_byteIOIndex inst + partialBlock
        in KangarooTwelve_F_Absorb
             (if idx1 = K12_rateInBytes then inst\<lparr>kf_state := KeccakP1600_Permute_12rounds st1, kf_byteIOIndex := 0\<rparr>
              else inst\<lparr>kf_state := st1, kf_byteIOIndex := idx1\<rparr>)
             (drop partialBlock data))"
  by pat_completeness auto
termination
  by (relation "measure (\<lambda>(inst, data). length data)") (auto simp: length_absorbFull_less)

declare KangarooTwelve_F_Absorb.simps [simp del]

section \<open>Exclusive or of bytes\<close>

text \<open>The bytes \<open>d\<close> combined with those of the state from position \<open>off\<close> on.\<close>

definition xorAt :: "bytes \<Rightarrow> nat \<Rightarrow> bytes \<Rightarrow> bytes" where
  "xorAt st off d = map (\<lambda>i. if off \<le> i \<and> i < off + length d then st ! i XOR d ! (i - off) else st ! i) [0..<length st]"

lemma length_xorAt [simp]: "length (xorAt st off d) = length st"
  by (simp add: xorAt_def)

lemma nth_xorAt: "i < length st \<Longrightarrow>
    xorAt st off d ! i = (if off \<le> i \<and> i < off + length d then st ! i XOR d ! (i - off) else st ! i)"
  by (simp add: xorAt_def)

lemma xorAt_Nil [simp]: "xorAt st off [] = st"
  by (rule nth_equalityI) (auto simp: nth_xorAt)

lemma xorAt_append: "xorAt st off (d @ e) = xorAt (xorAt st off d) (off + length d) e"
  by (rule nth_equalityI) (auto simp: nth_xorAt nth_append)

lemma nth_store_xor:
  assumes "length a = 8" "o' + length d \<le> 8" "m < 8"
  shows "store_le 8 (load_le a XOR push_bit (8 * o') (load_le d) :: u64) ! m =
    a ! m XOR (if o' \<le> m \<and> m < o' + length d then d ! (m - o') else 0)"
proof (rule bit_word_eqI)
  fix k
  assume k: "k < LENGTH(8)"
  have div: "(8 * m + k) div 8 = m" "(8 * m + k) mod 8 = k" "8 * m + k < 64" using k assms(3) by simp_all
  have low: "8 * o' \<le> 8 * m + k \<longleftrightarrow> o' \<le> m" using k by auto
  have sub: "8 * m + k - 8 * o' = 8 * (m - o') + k" if "o' \<le> m" using that by simp
  have div2: "(8 * (m - o') + k) div 8 = m - o'" "(8 * (m - o') + k) mod 8 = k" using k by simp_all
  have "bit (load_le a XOR push_bit (8 * o') (load_le d) :: u64) (8 * m + k) \<longleftrightarrow>
      bit (a ! m) k \<noteq> (o' \<le> m \<and> m < o' + length d \<and> bit (d ! (m - o')) k)"
    using assms div by (auto simp: bit_xor_iff bit_push_bit_iff bit_load_le low sub div2)
  then show "bit (store_le 8 (load_le a XOR push_bit (8 * o') (load_le d) :: u64) ! m) k \<longleftrightarrow>
      bit (a ! m XOR (if o' \<le> m \<and> m < o' + length d then d ! (m - o') else 0)) k"
    using k assms(3) by (auto simp: nth_store_le bit_simps)
qed

lemma laneXor_xorAt:
  assumes "8 * j + 8 \<le> length st" "o' + length d \<le> 8"
  shows "laneXor j (push_bit (8 * o') (load_le d)) st = xorAt st (8 * j + o') d"
proof (rule nth_equalityI)
  show "length (laneXor j (push_bit (8 * o') (load_le d)) st) = length (xorAt st (8 * j + o') d)"
    using assms by (simp add: laneXor_def length_memcpy_at)
  fix i
  assume "i < length (laneXor j (push_bit (8 * o') (load_le d)) st)"
  then have i: "i < length st" using assms by (simp add: laneXor_def length_memcpy_at)
  show "laneXor j (push_bit (8 * o') (load_le d)) st ! i = xorAt st (8 * j + o') d ! i"
  proof (cases "8 * j \<le> i \<and> i < 8 * j + 8")
    case True
    then obtain m where m: "i = 8 * j + m" "m < 8" by (metis add_less_cancel_left le_Suc_ex)
    let ?a = "take 8 (drop (8 * j) st)"
    have "laneXor j (push_bit (8 * o') (load_le d)) st ! i =
        store_le 8 (load_le ?a XOR push_bit (8 * o') (load_le d) :: u64) ! m"
      using m assms(1) by (simp add: laneXor_def memcpy_at_def nth_append)
    also have "\<dots> = ?a ! m XOR (if o' \<le> m \<and> m < o' + length d then d ! (m - o') else 0)"
      using assms m by (intro nth_store_xor) simp_all
    also have "\<dots> = xorAt st (8 * j + o') d ! i"
      using m assms i by (auto simp: nth_xorAt)
    finally show ?thesis .
  next
    case False
    then show ?thesis
      using i assms by (auto simp: laneXor_def memcpy_at_def nth_append nth_xorAt)
  qed
qed

lemma laneXor_dataLane:
  assumes "8 * j + 8 \<le> length st" "8 * j + 8 \<le> length data"
  shows "laneXor j (dataLane data j) st = xorAt st (8 * j) (take 8 (drop (8 * j) data))"
  using laneXor_xorAt [of j st 0 "take 8 (drop (8 * j) data)"] assms by (simp add: dataLane_def)

lemma take_lanes: "8 * j + 8 \<le> length data \<Longrightarrow> take (8 * j) data @ take 8 (drop (8 * j) data) = take (8 * j + 8) data"
  by (simp add: take_add)

lemma length_laneXor [simp]: "8 * j + 8 \<le> length st \<Longrightarrow> length (laneXor j w st) = length st"
  by (simp add: laneXor_def length_memcpy_at)

text \<open>The loops of the aligned case combine the first lanes one after the other.\<close>

lemma fold_laneXor:
  assumes "8 * (j + k) \<le> length st" "8 * (j + k) \<le> length data"
  shows "fold (\<lambda>m st. laneXor (j + m) (dataLane data (j + m)) st) [0..<k] (xorAt st 0 (take (8 * j) data)) =
    xorAt st 0 (take (8 * (j + k)) data)"
  using assms
proof (induction k)
  case (Suc k)
  have "fold (\<lambda>m st. laneXor (j + m) (dataLane data (j + m)) st) [0..<Suc k] (xorAt st 0 (take (8 * j) data)) =
      laneXor (j + k) (dataLane data (j + k)) (xorAt st 0 (take (8 * (j + k)) data))"
    using Suc by simp
  also have "\<dots> = xorAt (xorAt st 0 (take (8 * (j + k)) data)) (8 * (j + k)) (take 8 (drop (8 * (j + k)) data))"
    using Suc.prems by (intro laneXor_dataLane) simp_all
  also have "\<dots> = xorAt st 0 (take (8 * (j + k)) data @ take 8 (drop (8 * (j + k)) data))"
    using Suc.prems by (simp add: xorAt_append)
  also have "take (8 * (j + k)) data @ take 8 (drop (8 * (j + k)) data) = take (8 * (j + Suc k)) data"
    using Suc.prems take_lanes [of "j + k" data] by (simp add: algebra_simps)
  finally show ?case .
qed simp

lemma laneLoop_xorAt:
  assumes "8 * n \<le> length st" "8 * n \<le> length data" "j \<le> n" "0 < k"
  shows "\<exists>j'. laneLoop k n data (j, xorAt st 0 (take (8 * j) data)) = (j', xorAt st 0 (take (8 * j') data)) \<and>
    j' \<le> n \<and> n < j' + k"
  using assms(3)
proof (induction "n - j" arbitrary: j rule: less_induct)
  case less
  show ?case
  proof (cases "j + k \<le> n")
    case True
    have "fold (\<lambda>m st. laneXor (j + m) (dataLane data (j + m)) st) [0..<k] (xorAt st 0 (take (8 * j) data)) =
        xorAt st 0 (take (8 * (j + k)) data)"
      using True assms by (intro fold_laneXor) simp_all
    then have "laneLoop k n data (j, xorAt st 0 (take (8 * j) data)) =
        laneLoop k n data (j + k, xorAt st 0 (take (8 * (j + k)) data))"
      using True assms(4) by (simp add: laneLoop.simps [of k n data j])
    moreover have "n - (j + k) < n - j" using True assms(4) by simp
    ultimately show ?thesis using less.hyps [of "j + k"] True by simp
  next
    case False
    then show ?thesis using less.prems by (simp add: laneLoop.simps [of k n data j])
  qed
qed

lemma xorAligned_xorAt:
  assumes "p \<le> length data" "p \<le> 168" "length st = 200"
  shows "xorAligned p data st = xorAt st 0 (take p data)"
proof -
  let ?n = "p div 8"
  have n: "8 * ?n \<le> length st" "8 * ?n \<le> length data" using assms by simp_all
  obtain j8 where j8: "laneLoop 8 ?n data (0, st) = (j8, xorAt st 0 (take (8 * j8) data))" "j8 \<le> ?n"
    using laneLoop_xorAt [OF n, of 0 8] by auto
  obtain j4 where j4: "laneLoop 4 ?n data (j8, xorAt st 0 (take (8 * j8) data)) = (j4, xorAt st 0 (take (8 * j4) data))" "j4 \<le> ?n"
    using laneLoop_xorAt [OF n j8(2), of 4] by auto
  obtain j2 where j2: "laneLoop 2 ?n data (j4, xorAt st 0 (take (8 * j4) data)) = (j2, xorAt st 0 (take (8 * j2) data))"
      "j2 \<le> ?n" "?n < j2 + 2"
    using laneLoop_xorAt [OF n j4(2), of 2] by auto
  define s2 where "s2 = (if j2 < ?n then laneXor j2 (dataLane data j2) (xorAt st 0 (take (8 * j2) data))
    else xorAt st 0 (take (8 * j2) data))"
  have s2: "s2 = xorAt st 0 (take (8 * ?n) data)"
  proof (cases "j2 < ?n")
    case True
    then have "?n = j2 + 1" using j2(3) by simp
    then show ?thesis
      using True fold_laneXor [of j2 1 st data] n by (simp add: s2_def)
  next
    case False
    then show ?thesis using j2 by (simp add: s2_def)
  qed
  have "xorAligned p data st = (if p mod 8 \<noteq> 0 then laneXor ?n (load_le (take (p mod 8) (drop (8 * ?n) data))) s2 else s2)"
    by (simp add: xorAligned_def Let_def j8 j4 j2 s2_def)
  moreover have "laneXor ?n (load_le (take (p mod 8) (drop (8 * ?n) data))) s2 = xorAt st 0 (take p data)"
  proof -
    have l: "length (take (p mod 8) (drop (8 * ?n) data)) = p mod 8" using assms(1) by (simp add: minus_div_mult_eq_mod [symmetric] mult.commute)
    have "laneXor ?n (load_le (take (p mod 8) (drop (8 * ?n) data))) s2 =
        xorAt s2 (8 * ?n) (take (p mod 8) (drop (8 * ?n) data))"
      using laneXor_xorAt [of ?n s2 0 "take (p mod 8) (drop (8 * ?n) data)"] assms l by (simp add: s2)
    also have "\<dots> = xorAt st 0 (take (8 * ?n) data @ take (p mod 8) (drop (8 * ?n) data))"
      using assms(1) n by (simp add: s2 xorAt_append)
    also have "take (8 * ?n) data @ take (p mod 8) (drop (8 * ?n) data) = take p data"
      by (simp add: take_add [symmetric])
    finally show ?thesis .
  qed
  moreover have "8 * ?n = p" if "p mod 8 = 0" using that by auto
  ultimately show ?thesis by (simp add: s2)
qed

lemma xorOffset_xorAt:
  assumes "n \<le> length data" "off < 8" "8 * p + off + n \<le> 168" "length st = 200"
  shows "xorOffset n p off data st = xorAt st (8 * p + off) (take n data)"
  using assms
proof (induction n p off data st rule: xorOffset.induct)
  case (1 n p off data st)
  show ?case
  proof (cases "0 < n")
    case True
    define b where "b = (if 8 - off > n then n else 8 - off)"
    have b: "b \<noteq> 0" "b \<le> n" "off + b \<le> 8" "b = n \<or> off + b = 8" using True 1(3) by (auto simp: b_def)
    define s1 where "s1 = xorAt st (8 * p + off) (take b data)"
    have l: "laneXor p (push_bit (8 * off) (load_le (take b data))) st = s1"
      unfolding s1_def using 1(2-5) b True by (intro laneXor_xorAt) simp_all
    have step: "xorOffset n p off data st = xorOffset (n - b) (p + 1) 0 (drop b data) s1"
      using True b(1) by (subst xorOffset.simps) (simp add: Let_def b_def [symmetric] l)
    show ?thesis
    proof (cases "b = n")
      case True
      then have "xorOffset (n - b) (p + 1) 0 (drop b data) s1 = s1" by (subst xorOffset.simps) simp
      then show ?thesis using True by (simp add: step s1_def)
    next
      case False
      then have off: "off + b = 8" using b by simp
      have "xorOffset (n - b) (p + 1) 0 (drop b data) s1 = xorAt s1 (8 * (p + 1) + 0) (take (n - b) (drop b data))"
        using 1(1) [OF \<open>0 < n\<close> b_def, of s1] 1(2-) off b l by (simp add: s1_def)
      also have "8 * (p + 1) + 0 = 8 * p + off + length (take b data)" using off b 1(2) by simp
      also have "xorAt s1 \<dots> (take (n - b) (drop b data)) = xorAt st (8 * p + off) (take b data @ take (n - b) (drop b data))"
        by (simp add: s1_def xorAt_append)
      also have "take b data @ take (n - b) (drop b data) = take n data"
        using b by (simp add: take_add [symmetric])
      finally show ?thesis by (simp add: step)
    qed
  next
    case False
    then show ?thesis by (subst xorOffset.simps) simp
  qed
qed

section \<open>The permutation on bytes\<close>

lemma length_lanesOf: "length st = 200 \<Longrightarrow> length (lanesOf st) = 25"
  by (simp add: lanesOf_def length_chunks)

lemma length_bytesOf [simp]: "length (bytesOf ls) = 8 * length ls"
  by (induction ls) (simp_all add: bytesOf_def)

lemma lanesOf_bytesOf: "lanesOf (bytesOf ls) = ls"
proof (induction ls)
  case (Cons w ls)
  have "bytesOf (w # ls) = store_le 8 w @ bytesOf ls" by (simp add: bytesOf_def)
  then show ?case using Cons by (simp add: lanesOf_def chunks_append_block load_store_le)
qed (simp add: lanesOf_def bytesOf_def)

lemma bytesOf_lanesOf_dvd:
  assumes "8 dvd length st"
  shows "bytesOf (lanesOf st) = st"
proof -
  have "map (\<lambda>c. store_le 8 (load_le c :: u64)) (chunks 8 st) = map (\<lambda>c. c) (chunks 8 st)"
    by (rule map_cong) (auto dest: length_chunks_elem intro: store_load_le)
  then have "bytesOf (lanesOf st) = concat (chunks 8 st)" by (simp add: bytesOf_def lanesOf_def comp_def)
  then show ?thesis using assms by (simp add: concat_chunks)
qed

lemma bytesOf_lanesOf: "length st = 200 \<Longrightarrow> bytesOf (lanesOf st) = st"
  by (rule bytesOf_lanesOf_dvd) simp

lemma copyFromState_id: "length A = 25 \<Longrightarrow> copyFromState A = A"
  unfolding copyFromState_def by (metis map_nth)

lemma fold_update:
  "n \<le> length st \<Longrightarrow> length A = length st \<Longrightarrow> fold (\<lambda>i st. st[i := A ! i]) [0..<n] st = take n A @ drop n st"
proof (induction n)
  case (Suc n)
  then show ?case
    by (simp add: list_update_append take_Suc_conv_app_nth Cons_nth_drop_Suc [symmetric])
qed simp

lemma copyToState_id: "length A = 25 \<Longrightarrow> length st = 25 \<Longrightarrow> copyToState A st = A"
  unfolding copyToState_def by (subst fold_update) simp_all

lemma Permute_keccakP:
  "length st = 200 \<Longrightarrow> KeccakP1600_Permute_12rounds st = bytesOf (keccakP 12 (lanesOf st))"
  by (simp add: KeccakP1600_Permute_12rounds_def copyFromState_id copyToState_id length_lanesOf rounds12_keccakP [symmetric])

lemma length_Permute [simp]: "length st = 200 \<Longrightarrow> length (KeccakP1600_Permute_12rounds st) = 200"
  by (simp add: Permute_keccakP rounds12_keccakP [symmetric])

text \<open>Combining the lanes of a block is combining its bytes.\<close>

lemma xor_lanes:
  assumes "length st = 200" "n \<le> 25" "8 * n \<le> length data"
  shows "fold (\<lambda>j A. A[j := A ! j XOR dataLane data j]) [0..<n] (lanesOf st) = lanesOf (xorAt st 0 (take (8 * n) data))"
  using assms(2,3)
proof (induction n)
  case (Suc n)
  let ?s = "xorAt st 0 (take (8 * n) data)"
  have s: "length ?s = 200" using assms by simp
  have "fold (\<lambda>j A. A[j := A ! j XOR dataLane data j]) [0..<Suc n] (lanesOf st) =
      (lanesOf ?s)[n := lanesOf ?s ! n XOR dataLane data n]"
    using Suc by simp
  also have "\<dots> = lanesOf (laneXor n (dataLane data n) ?s)"
  proof -
    define a where "a = take (8 * n) ?s"
    define b where "b = take 8 (drop (8 * n) ?s)"
    define c where "c = drop (8 * n + 8) ?s"
    have "?s = a @ b @ c" unfolding a_def b_def c_def by simp
    moreover have "length a = 8 * n" "length b = 8" using Suc.prems s by (simp_all add: a_def b_def)
    ultimately have abc: "?s = a @ b @ c" "length a = 8 * n" "length b = 8" by blast+
    have split: "lanesOf (a @ x @ c) = lanesOf a @ load_le x # lanesOf c" "length (lanesOf a) = n" if "length x = 8" for x
      using abc that chunks_append_block [of x 8 "[]"] by (simp_all add: lanesOf_def chunks_append length_chunks)
    have "laneXor n (dataLane data n) ?s = a @ store_le 8 (load_le b XOR dataLane data n) @ c"
      using Suc.prems s by (simp add: laneXor_def memcpy_at_def a_def b_def c_def)
    then show ?thesis
      using abc split [of b] split [of "store_le 8 (load_le b XOR dataLane data n)"]
      by (simp add: list_update_append nth_append load_store_le)
  qed
  also have "laneXor n (dataLane data n) ?s = xorAt st 0 (take (8 * Suc n) data)"
    using fold_laneXor [of n 1 st data] Suc.prems assms by simp
  finally show ?case .
qed simp

section \<open>Absorption byte by byte\<close>

definition xorByte :: "nat \<Rightarrow> byte \<Rightarrow> bytes \<Rightarrow> bytes" where
  "xorByte i b st = st[i := st ! i XOR b]"

definition absorbByte :: "byte \<Rightarrow> KangarooTwelve_F \<Rightarrow> KangarooTwelve_F" where
  "absorbByte b inst =
     (let st = xorByte (kf_byteIOIndex inst) b (kf_state inst)
      in if kf_byteIOIndex inst + 1 = K12_rateInBytes
         then \<lparr>kf_state = KeccakP1600_Permute_12rounds st, kf_byteIOIndex = 0\<rparr>
         else \<lparr>kf_state = st, kf_byteIOIndex = kf_byteIOIndex inst + 1\<rparr>)"

definition kf_ok :: "KangarooTwelve_F \<Rightarrow> bool" where
  "kf_ok inst \<longleftrightarrow> length (kf_state inst) = 200 \<and> kf_byteIOIndex inst < K12_rateInBytes"

lemma xorAt_single: "i < length st \<Longrightarrow> xorAt st i [b] = xorByte i b st"
  by (rule nth_equalityI) (auto simp: nth_xorAt xorByte_def nth_list_update)

lemma length_xorByte [simp]: "length (xorByte i b st) = length st"
  by (simp add: xorByte_def)

lemma kf_ok_zero: "kf_ok kf_zero"
  by (simp add: kf_ok_def kf_zero_def K12_consts)

lemma kf_ok_absorbByte: "kf_ok inst \<Longrightarrow> kf_ok (absorbByte b inst)"
  by (auto simp: kf_ok_def absorbByte_def Let_def K12_consts)

lemma kf_ok_fold: "kf_ok inst \<Longrightarrow> kf_ok (fold absorbByte data inst)"
  by (induction data arbitrary: inst) (simp_all add: kf_ok_absorbByte)

lemma fold_absorbByte_partial:
  assumes "kf_ok inst" "kf_byteIOIndex inst + length d < K12_rateInBytes"
  shows "fold absorbByte d inst =
    \<lparr>kf_state = xorAt (kf_state inst) (kf_byteIOIndex inst) d, kf_byteIOIndex = kf_byteIOIndex inst + length d\<rparr>"
  using assms
proof (induction d arbitrary: inst)
  case (Cons b d)
  let ?i = "kf_byteIOIndex inst"
  have "absorbByte b inst = \<lparr>kf_state = xorByte ?i b (kf_state inst), kf_byteIOIndex = ?i + 1\<rparr>"
    using Cons.prems(2) by (simp add: absorbByte_def Let_def)
  moreover have "xorAt (kf_state inst) ?i (b # d) = xorAt (xorByte ?i b (kf_state inst)) (?i + 1) d"
    using xorAt_append [of "kf_state inst" ?i "[b]" d] Cons.prems(1)
    by (simp add: xorAt_single kf_ok_def K12_consts)
  ultimately show ?case
    using Cons.IH [OF kf_ok_absorbByte [OF Cons.prems(1)], of b] Cons.prems(2) by simp
qed simp

lemma fold_absorbByte_block:
  assumes "kf_ok inst" "kf_byteIOIndex inst + length d = K12_rateInBytes"
  shows "fold absorbByte d inst =
    \<lparr>kf_state = KeccakP1600_Permute_12rounds (xorAt (kf_state inst) (kf_byteIOIndex inst) d), kf_byteIOIndex = 0\<rparr>"
proof -
  let ?i = "kf_byteIOIndex inst"
  have "d \<noteq> []" using assms by (auto simp: kf_ok_def)
  then obtain e b where d: "d = e @ [b]" by (metis append_butlast_last_id)
  have e: "?i + length e < K12_rateInBytes" "?i + length e + 1 = K12_rateInBytes" using assms(2) by (simp_all add: d)
  have "xorAt (kf_state inst) ?i d = xorByte (?i + length e) b (xorAt (kf_state inst) ?i e)"
    using e assms(1) by (simp add: d xorAt_append xorAt_single kf_ok_def K12_consts)
  then show ?thesis
    using fold_absorbByte_partial [OF assms(1) e(1)] e(2) by (simp add: d absorbByte_def Let_def)
qed

lemma absorbFull_fold:
  assumes "length st = 200"
  shows "\<exists>d rest. data = d @ rest \<and> length rest < K12_rateInBytes \<and>
    absorbFull (lanesOf st) data = (lanesOf (kf_state (fold absorbByte d \<lparr>kf_state = st, kf_byteIOIndex = 0\<rparr>)), rest) \<and>
    kf_byteIOIndex (fold absorbByte d \<lparr>kf_state = st, kf_byteIOIndex = 0\<rparr>) = 0"
  using assms
proof (induction "length data" arbitrary: st data rule: less_induct)
  case less
  show ?case
  proof (cases "K12_rateInBytes \<le> length data")
    case False
    then show ?thesis by (intro exI [of _ "[]"] exI [of _ data]) (simp add: absorbFull.simps)
  next
    case True
    let ?b = "take 168 data"
    let ?x = "xorAt st 0 ?b"
    define st1 where "st1 = KeccakP1600_Permute_12rounds ?x"
    have len: "length ?b = 168" "168 \<le> length data" using True by (simp_all add: K12_consts)
    have x: "length ?x = 200" using less.prems by simp
    have lanes: "rounds12 (fold (\<lambda>j A. A[j := A ! j XOR dataLane data j]) [0..<21] (lanesOf st)) = lanesOf st1"
      using xor_lanes [OF less.prems, of 21 data] len
      by (simp add: st1_def Permute_keccakP [OF x] lanesOf_bytesOf rounds12_keccakP)
    have step: "absorbFull (lanesOf st) data = absorbFull (lanesOf st1) (drop 168 data)"
      using True by (subst absorbFull.simps) (simp only: lanes, simp add: K12_rateInBytes_def)
    have st1: "length st1 = 200" using x by (simp add: st1_def)
    have "length (drop 168 data) < length data" using len by simp
    from less.hyps [OF this st1] obtain d rest where IH: "drop 168 data = d @ rest" "length rest < K12_rateInBytes"
      "absorbFull (lanesOf st1) (drop 168 data) = (lanesOf (kf_state (fold absorbByte d \<lparr>kf_state = st1, kf_byteIOIndex = 0\<rparr>)), rest)"
      "kf_byteIOIndex (fold absorbByte d \<lparr>kf_state = st1, kf_byteIOIndex = 0\<rparr>) = 0"
      by blast
    have "fold absorbByte ?b \<lparr>kf_state = st, kf_byteIOIndex = 0\<rparr> = \<lparr>kf_state = st1, kf_byteIOIndex = 0\<rparr>"
      using fold_absorbByte_block [of "\<lparr>kf_state = st, kf_byteIOIndex = 0\<rparr>" ?b] less.prems len
      by (simp add: kf_ok_def K12_rateInBytes_def st1_def)
    moreover have "data = (?b @ d) @ rest" using IH(1) append_take_drop_id [of 168 data] by simp
    ultimately show ?thesis
      using IH step by (intro exI [of _ "?b @ d"] exI [of _ rest]) simp
  qed
qed

text \<open>The optimised absorption is the absorption of the bytes one by one.\<close>

lemma Absorb_fold: "kf_ok inst \<Longrightarrow> KangarooTwelve_F_Absorb inst data = fold absorbByte data inst"
proof (induction "length data" arbitrary: inst data rule: less_induct)
  case less
  let ?i = "kf_byteIOIndex inst" and ?st = "kf_state inst"
  have ok: "length ?st = 200" "?i < 168" "\<not> K12_rateInBytes \<le> ?i" using less.prems by (simp_all add: kf_ok_def K12_rateInBytes_def)
  consider "data = []" | "data \<noteq> []" "?i = 0" "K12_rateInBytes \<le> length data"
    | "data \<noteq> []" "\<not> (?i = 0 \<and> K12_rateInBytes \<le> length data)" by fastforce
  then show ?case
  proof cases
    case 1
    then show ?thesis by (simp add: KangarooTwelve_F_Absorb.simps)
  next
    case 2
    obtain d rest where r: "data = d @ rest" "length rest < K12_rateInBytes"
      "absorbFull (lanesOf ?st) data = (lanesOf (kf_state (fold absorbByte d \<lparr>kf_state = ?st, kf_byteIOIndex = 0\<rparr>)), rest)"
      "kf_byteIOIndex (fold absorbByte d \<lparr>kf_state = ?st, kf_byteIOIndex = 0\<rparr>) = 0"
      using absorbFull_fold [OF ok(1), of data] by blast
    have inst: "\<lparr>kf_state = ?st, kf_byteIOIndex = 0\<rparr> = inst" using 2(2) by (cases inst) simp
    define t where "t = fold absorbByte d inst"
    have t: "kf_ok t" "length (kf_state t) = 200" using kf_ok_fold [OF less.prems, of d] by (simp_all add: t_def kf_ok_def)
    have upd: "inst\<lparr>kf_state := bytesOf (copyToState (lanesOf (kf_state t)) (lanesOf ?st))\<rparr> = t"
      using t ok 2(2) r(4) by (cases t, cases inst) (simp add: copyToState_id length_lanesOf bytesOf_lanesOf inst t_def)
    have "length rest < length data" using 2(3) r(2) by simp
    from less.hyps [OF this t(1)] show ?thesis
      using 2 ok r(1,3) upd by (subst KangarooTwelve_F_Absorb.simps) (simp add: Let_def copyFromState_id length_lanesOf inst t_def)
  next
    case 3
    define p where "p = (if length data + ?i > K12_rateInBytes then K12_rateInBytes - ?i else length data)"
    have p: "0 < p" "p \<le> length data" "?i + p \<le> 168" using 3 ok by (auto simp: p_def K12_rateInBytes_def)
    have x: "(if ?i = 0 then xorAligned p data ?st else xorOffset p (?i div 8) (?i mod 8) data ?st) = xorAt ?st ?i (take p data)"
      using p ok by (auto simp: xorAligned_xorAt xorOffset_xorAt)
    define t where "t = (if ?i + p = K12_rateInBytes
      then inst\<lparr>kf_state := KeccakP1600_Permute_12rounds (xorAt ?st ?i (take p data)), kf_byteIOIndex := 0\<rparr>
      else inst\<lparr>kf_state := xorAt ?st ?i (take p data), kf_byteIOIndex := ?i + p\<rparr>)"
    have t: "t = fold absorbByte (take p data) inst"
      using fold_absorbByte_partial [OF less.prems, of "take p data"] fold_absorbByte_block [OF less.prems, of "take p data"] p
      by (cases inst) (auto simp: t_def K12_rateInBytes_def)
    have "kf_ok t" unfolding t using less.prems by (rule kf_ok_fold)
    moreover have "length (drop p data) < length data" using p by simp
    ultimately have "KangarooTwelve_F_Absorb t (drop p data) = fold absorbByte (drop p data) t" using less.hyps by blast
    moreover have "KangarooTwelve_F_Absorb inst data = KangarooTwelve_F_Absorb t (drop p data)"
      using 3 ok by (subst KangarooTwelve_F_Absorb.simps) (simp only: Let_def p_def [symmetric] x t_def simp_thms if_False)
    ultimately show ?thesis unfolding t by (metis append_take_drop_id comp_apply fold_append)
  qed
qed

section \<open>Tree hashing\<close>

text \<open>The branch-free minimum of \<open>inputByteLen\<close> and the chunk size.\<close>

definition firstLen :: "u32 \<Rightarrow> u32" where
  "firstLen inputByteLen = inputByteLen XOR ((8192 XOR inputByteLen) AND - (if 8192 < inputByteLen then 1 else 0))"

definition nextLen :: "u32 \<Rightarrow> u32" where
  "nextLen inputByteLen = 8192 XOR ((inputByteLen XOR 8192) AND - (if inputByteLen < 8192 then 1 else 0))"

text \<open>The end of the first chunk in the final node.\<close>

definition markFinal :: "KangarooTwelve_F \<Rightarrow> KangarooTwelve_F" where
  "markFinal finalNode =
     (let st = xorByte (kf_byteIOIndex finalNode) 0x03 (kf_state finalNode);
          idx = kf_byteIOIndex finalNode + 1
      in if idx = K12_rateInBytes then finalNode\<lparr>kf_state := KeccakP1600_Permute_12rounds st, kf_byteIOIndex := 0\<rparr>
         else finalNode\<lparr>kf_state := st, kf_byteIOIndex := (idx + 7) div 8 * 8\<rparr>)"

text \<open>A complete leaf: its chaining value goes into the final node.\<close>

definition closeLeaf :: "KangarooTwelve_F \<Rightarrow> KangarooTwelve_F \<Rightarrow> KangarooTwelve_F \<times> KangarooTwelve_F" where
  "closeLeaf finalNode queueNode =
     (let st1 = xorByte (kf_byteIOIndex queueNode) K12_suffixLeaf (kf_state queueNode);
          st2 = xorByte (K12_rateInBytes - 1) 0x80 st1;
          st3 = KeccakP1600_Permute_12rounds st2
      in (KangarooTwelve_F_Absorb finalNode (take K12_capacityInBytes st3),
          queueNode\<lparr>kf_state := st3, kf_byteIOIndex := K12_capacityInBytes\<rparr>))"

lemma unat_nextLen: "unat (nextLen n) = min (unat n) 8192"
  by (auto simp: nextLen_def word_less_nat_alt min_def xor.left_commute)

lemma unat_firstLen: "unat (firstLen n) = min (unat n) 8192"
  by (auto simp: firstLen_def word_less_nat_alt min_def xor.commute [of 8192] xor.left_commute [of _ _ 8192] xor.assoc [symmetric])

lemma nextLen_less: "0 < n \<Longrightarrow> unat (n - nextLen n) < unat n"
  by (subst unat_sub) (auto simp: unat_nextLen word_le_nat_alt word_less_nat_alt)

text \<open>The loop over the chunks after the first one: final node, queue node, number of blocks and
  the length of the incomplete chunk.\<close>

type_synonym k12State = "KangarooTwelve_F \<times> KangarooTwelve_F \<times> nat \<times> nat"

function k12Loop :: "bytes \<Rightarrow> u32 \<Rightarrow> k12State \<Rightarrow> k12State" where
  "k12Loop input inputByteLen (finalNode, queueNode, blockNumber, queueAbsorbedLen) =
     (if inputByteLen > 0
      then let len = nextLen inputByteLen;
               queueNode1 = KangarooTwelve_F_Absorb kf_zero (take (unat len) input);
               input1 = drop (unat len) input;
               inputByteLen1 = inputByteLen - len
           in if unat len = K12_chunkSize
              then (case closeLeaf finalNode queueNode1 of (finalNode2, queueNode2) \<Rightarrow>
                      k12Loop input1 inputByteLen1 (finalNode2, queueNode2, blockNumber + 1, queueAbsorbedLen))
              else k12Loop input1 inputByteLen1 (finalNode, queueNode1, blockNumber, unat len)
      else (finalNode, queueNode, blockNumber, queueAbsorbedLen))"
  by pat_completeness auto
termination
  by (relation "measure (\<lambda>(input, n, s). unat n)") (auto simp: nextLen_less)

declare k12Loop.simps [simp del]

text \<open>The empty byte that encodes the empty customisation string is appended to the last chunk.\<close>

definition k12Finish :: "k12State \<Rightarrow> k12State" where
  "k12Finish = (\<lambda>(finalNode, queueNode, blockNumber, queueAbsorbedLen).
     if queueAbsorbedLen \<noteq> 0
     then let queueNode1 = (if kf_byteIOIndex queueNode + 1 = K12_rateInBytes
                then queueNode\<lparr>kf_state := KeccakP1600_Permute_12rounds (kf_state queueNode), kf_byteIOIndex := 0\<rparr>
                else queueNode\<lparr>kf_byteIOIndex := kf_byteIOIndex queueNode + 1\<rparr>)
          in if queueAbsorbedLen + 1 = K12_chunkSize
             then (case closeLeaf finalNode queueNode1 of (finalNode2, queueNode2) \<Rightarrow>
                     (finalNode2, queueNode2, blockNumber + 1, 0))
             else (finalNode, queueNode1, blockNumber, queueAbsorbedLen + 1)
     else (finalNode, \<lparr>kf_state = replicate 200 0, kf_byteIOIndex = 1\<rparr>, blockNumber, 1))"

function encLen :: "nat \<Rightarrow> nat \<Rightarrow> nat" where
  "encLen v n = (if v \<noteq> 0 \<and> n < 8 then encLen (v div 256) (n + 1) else n)"
  by pat_completeness auto
termination
  by (relation "measure (\<lambda>(v, n). v)") auto

declare encLen.simps [simp del]

definition encbuf :: "nat \<Rightarrow> bytes" where
  "encbuf blockNumber =
     (let n = encLen blockNumber 0
      in map (\<lambda>i. of_nat (blockNumber div 256 ^ (n - i))) [1..<n + 1] @ [of_nat n, 0xFF, 0xFF])"

text \<open>The last node: the number of leaves and the suffixes.\<close>

definition k12Final :: "k12State \<Rightarrow> bytes" where
  "k12Final = (\<lambda>(finalNode, queueNode, blockNumber, queueAbsorbedLen).
     let fin = (if blockNumber \<noteq> 0
          then let (f1, blockNumber1) = (if queueAbsorbedLen \<noteq> 0 then (fst (closeLeaf finalNode queueNode), blockNumber + 1)
                                         else (finalNode, blockNumber));
                   f2 = KangarooTwelve_F_Absorb f1 (encbuf (blockNumber1 - 1))
               in f2\<lparr>kf_state := xorByte (kf_byteIOIndex f2) 0x06 (kf_state f2)\<rparr>
          else finalNode)
     in KeccakP1600_Permute_12rounds (xorByte (K12_rateInBytes - 1) 0x80 (kf_state fin)))"

definition KangarooTwelve :: "bytes \<Rightarrow> u32 \<Rightarrow> nat \<Rightarrow> bytes" where
  "KangarooTwelve input inputByteLen outputByteLen =
     (let len = firstLen inputByteLen;
          finalNode = KangarooTwelve_F_Absorb kf_zero (take (unat len) input);
          input1 = drop (unat len) input;
          inputByteLen1 = inputByteLen - len
      in take outputByteLen (k12Final (
           if unat len = K12_chunkSize \<and> inputByteLen1 \<noteq> 0
           then k12Finish (k12Loop input1 inputByteLen1 (markFinal finalNode, kf_zero, 1, 0))
           else if unat len = K12_chunkSize
           then (markFinal finalNode, \<lparr>kf_state = replicate 200 0, kf_byteIOIndex = 1\<rparr>, 1, 1)
           else ((if kf_byteIOIndex finalNode + 1 = K12_rateInBytes
                  then finalNode\<lparr>kf_state := xorByte 0 0x07 (KeccakP1600_Permute_12rounds (kf_state finalNode)),
                                 kf_byteIOIndex := K12_rateInBytes\<rparr>
                  else finalNode\<lparr>kf_state := xorByte (kf_byteIOIndex finalNode + 1) 0x07 (kf_state finalNode),
                                 kf_byteIOIndex := kf_byteIOIndex finalNode + 1\<rparr>),
                 kf_zero, 0, 0))))"


end
