(* ===== verification/Kt128.thy ===== *)
theory Kt128
  imports K12
begin

text \<open>
  The functions TurboSHAKE128 and KT128 of RFC 9861, written over padded blocks, and the proof that the
  KangarooTwelve of \<open>dispatcher/src/crypto/k12_and_key_utils.h\<close> computes KT128 with the empty
  customisation string.
\<close>

section \<open>TurboSHAKE128 and KT128\<close>

text \<open>The functions of RFC 9861: padding to complete blocks, absorption, squeezing.\<close>

definition keccakBytes :: "bytes \<Rightarrow> bytes" where
  "keccakBytes st = bytesOf (keccakP 12 (lanesOf st))"

definition turboPad :: "bytes \<Rightarrow> byte \<Rightarrow> bytes" where
  "turboPad M D =
     (let inp = M @ [D]; p = inp @ replicate ((168 - length inp mod 168) mod 168) 0
      in butlast p @ [last p XOR 0x80])"

definition turboState :: "bytes \<Rightarrow> byte \<Rightarrow> bytes" where
  "turboState M D = foldl (\<lambda>st blk. keccakBytes (xorAt st 0 blk)) (replicate 200 0) (chunks 168 (turboPad M D))"

function squeeze :: "nat \<Rightarrow> bytes \<Rightarrow> bytes" where
  "squeeze L st = (if L \<le> 168 then take L st else take 168 st @ squeeze (L - 168) (keccakBytes st))"
  by pat_completeness auto
termination
  by (relation "measure fst") auto

declare squeeze.simps [simp del]

definition turboSHAKE128 :: "bytes \<Rightarrow> byte \<Rightarrow> nat \<Rightarrow> bytes" where
  "turboSHAKE128 M D L = squeeze L (turboState M D)"

fun beBytes :: "nat \<Rightarrow> bytes" where
  "beBytes v = (if v = 0 then [] else beBytes (v div 256) @ [of_nat v])"

declare beBytes.simps [simp del]

definition length_encode :: "nat \<Rightarrow> bytes" where
  "length_encode v = beBytes v @ [of_nat (length (beBytes v))]"

function splitChunks :: "bytes \<Rightarrow> bytes list" where
  "splitChunks xs = (if length xs \<le> 8192 then [xs] else take 8192 xs # splitChunks (drop 8192 xs))"
  by pat_completeness auto
termination
  by (relation "measure length") auto

declare splitChunks.simps [simp del]

definition KT128 :: "bytes \<Rightarrow> bytes \<Rightarrow> nat \<Rightarrow> bytes" where
  "KT128 M C L =
     (let S = M @ C @ length_encode (length C)
      in if length S \<le> 8192 then turboSHAKE128 S 0x07 L
         else let cs = splitChunks S
              in turboSHAKE128 (hd cs @ [0x03, 0, 0, 0, 0, 0, 0, 0] @
                   concat (map (\<lambda>s. turboSHAKE128 s 0x0B 32) (tl cs)) @
                   length_encode (length (tl cs)) @ [0xFF, 0xFF]) 0x06 L)"

section \<open>The sponge holds the state of TurboSHAKE128\<close>

abbreviation absorbBlock :: "bytes \<Rightarrow> bytes \<Rightarrow> bytes" where
  "absorbBlock st blk \<equiv> keccakBytes (xorAt st 0 blk)"

lemma length_keccakP: "length (keccakP 12 A) = 25"
  by (simp add: rounds12_keccakP [symmetric])

lemma length_keccakBytes [simp]: "length (keccakBytes st) = 200"
  by (simp add: keccakBytes_def length_keccakP)

lemma length_absorbBlocks: "length st = 200 \<Longrightarrow> length (foldl absorbBlock st bs) = 200"
  by (induction bs arbitrary: st) simp_all

lemma sponge_from:
  assumes "length st = 200"
  shows "fold absorbByte M \<lparr>kf_state = st, kf_byteIOIndex = 0\<rparr> =
    \<lparr>kf_state = xorAt (foldl absorbBlock st (chunks 168 M)) 0 (drop (168 * (length M div 168)) M),
     kf_byteIOIndex = length M mod 168\<rparr>"
  using assms
proof (induction "length M" arbitrary: M st rule: less_induct)
  case less
  have ok: "kf_ok \<lparr>kf_state = st, kf_byteIOIndex = 0\<rparr>" using less.prems by (simp add: kf_ok_def K12_consts)
  show ?case
  proof (cases "length M < 168")
    case True
    then show ?thesis using fold_absorbByte_partial [OF ok, of M] by (simp add: K12_consts)
  next
    case False
    let ?b = "take 168 M" and ?r = "drop 168 M"
    have "fold absorbByte ?b \<lparr>kf_state = st, kf_byteIOIndex = 0\<rparr> = \<lparr>kf_state = absorbBlock st ?b, kf_byteIOIndex = 0\<rparr>"
      using fold_absorbByte_block [OF ok, of ?b] False less.prems
      by (simp add: K12_consts Permute_keccakP keccakBytes_def)
    then have "fold absorbByte M \<lparr>kf_state = st, kf_byteIOIndex = 0\<rparr> =
        fold absorbByte ?r \<lparr>kf_state = absorbBlock st ?b, kf_byteIOIndex = 0\<rparr>"
      by (metis append_take_drop_id comp_apply fold_append)
    also have "\<dots> = \<lparr>kf_state = xorAt (foldl absorbBlock (absorbBlock st ?b) (chunks 168 ?r)) 0 (drop (168 * (length ?r div 168)) ?r),
        kf_byteIOIndex = length ?r mod 168\<rparr>"
      using False by (intro less.hyps) simp_all
    also have "foldl absorbBlock (absorbBlock st ?b) (chunks 168 ?r) = foldl absorbBlock st (chunks 168 M)"
      using False by (simp add: chunks.simps [of 168 M])
    also have "drop (168 * (length ?r div 168)) ?r = drop (168 * (length M div 168)) M"
    proof -
      have "length M div 168 = Suc (length ?r div 168)" using False by (simp add: le_div_geq)
      then show ?thesis by (simp add: add.commute)
    qed
    also have "length ?r mod 168 = length M mod 168" using False by (simp add: le_mod_geq)
    finally show ?thesis .
  qed
qed

definition sponge :: "bytes \<Rightarrow> KangarooTwelve_F" where
  "sponge M = fold absorbByte M kf_zero"

lemma sponge_ok: "kf_ok (sponge M)"
  by (simp add: sponge_def kf_ok_fold kf_ok_zero)

lemma sponge_simps [simp]:
  "sponge [] = kf_zero" "KangarooTwelve_F_Absorb (sponge M) d = sponge (M @ d)"
  "KangarooTwelve_F_Absorb kf_zero d = sponge d" "length (kf_state (sponge M)) = 200"
  by (simp_all add: sponge_def Absorb_fold kf_ok_fold kf_ok_zero) (use sponge_ok [of M] in \<open>simp add: sponge_def kf_ok_def\<close>)

lemma sponge_index: "kf_byteIOIndex (sponge M) = length M mod 168"
  using sponge_from [of "replicate 200 0" M] by (simp add: sponge_def kf_zero_def)

lemma xorAt_zeros: "xorAt st off (replicate n 0) = st"
  by (rule nth_equalityI) (auto simp: nth_xorAt)

lemma xorAt_butlast:
  assumes "p \<noteq> []" "off + length p \<le> length st"
  shows "xorAt st off (butlast p @ [last p XOR b]) = xorByte (off + length p - 1) b (xorAt st off p)"
proof -
  obtain q c where p: "p = q @ [c]" using assms(1) by (metis append_butlast_last_id)
  have "xorByte i (c XOR b) s = xorByte i b (xorByte i c s)" if "i < length s" for i s
    using that by (simp add: xorByte_def xor.assoc)
  then show ?thesis using assms(2) by (simp add: p xorAt_append xorAt_single)
qed

text \<open>The last block: the separation byte, zeros, and the final bit.\<close>

lemma turboState_sponge:
  "turboState M D = KeccakP1600_Permute_12rounds
     (xorByte (K12_rateInBytes - 1) 0x80 (xorByte (kf_byteIOIndex (sponge M)) D (kf_state (sponge M))))"
proof -
  let ?q = "length M div 168" and ?i = "length M mod 168"
  define F where "F = take (168 * ?q) M"
  define r where "r = drop (168 * ?q) M"
  define S where "S = foldl absorbBlock (replicate 200 0) (chunks 168 M)"
  have S: "length S = 200" unfolding S_def by (rule length_absorbBlocks) simp
  have "M = F @ r" by (simp add: F_def r_def)
  moreover have "length F = 168 * ?q" unfolding F_def length_take by (intro min.absorb2 times_div_less_eq_dividend)
  moreover have "length r = ?i" unfolding r_def length_drop by (rule minus_mult_div_eq_mod)
  ultimately have M: "M = F @ r" "length F = 168 * ?q" "length r = ?i" by blast+
  have chF: "chunks 168 M = chunks 168 F"
  proof -
    have "chunks 168 (F @ r) = chunks 168 F @ chunks 168 r" by (rule chunks_append) (simp_all add: M(2))
    moreover have "chunks 168 r = []" by (rule chunks_short) (simp add: M(3))
    ultimately show ?thesis using M(1) by simp
  qed
  have FM: "F @ r @ x = M @ x" for x by (metis M(1) append.assoc)
  have sp: "sponge M = \<lparr>kf_state = xorAt S 0 r, kf_byteIOIndex = ?i\<rparr>"
    using sponge_from [of "replicate 200 0" M] by (simp add: sponge_def kf_zero_def S_def r_def)
  define z where "z = (168 - (?i + 1) mod 168) mod 168"
  have z: "?i + 1 + z = 168"
  proof (cases "?i = 167")
    case False
    then have "?i + 1 < 168" using mod_less_divisor [of 168 "length M"] by linarith
    then show ?thesis by (simp add: z_def)
  qed (simp add: z_def)
  define p where "p = r @ [D] @ replicate z 0"
  have p: "length p = 168" using z M(3) by (simp add: p_def)
  have "(length M + 1) mod 168 = (?i + 1) mod 168" by (simp add: mod_simps)
  then have "turboPad M D = butlast (F @ p) @ [last (F @ p) XOR 0x80]"
    unfolding turboPad_def Let_def p_def FM by (simp add: z_def)
  also have "\<dots> = F @ (butlast p @ [last p XOR 0x80])" using p by (cases "p = []") (simp_all add: butlast_append)
  finally have "chunks 168 (turboPad M D) = chunks 168 F @ chunks 168 (butlast p @ [last p XOR 0x80])"
    using M(2) by (simp add: chunks_append)
  moreover have "length (butlast p @ [last p XOR 0x80]) = 168" using p by simp
  ultimately have ch: "chunks 168 (turboPad M D) = chunks 168 F @ [butlast p @ [last p XOR 0x80]]"
    using chunks_append_block [of "butlast p @ [last p XOR 0x80]" 168 "[]"] by simp
  have "turboState M D = keccakBytes (xorAt S 0 (butlast p @ [last p XOR 0x80]))"
    by (simp add: turboState_def ch S_def chF)
  also have "xorAt S 0 (butlast p @ [last p XOR 0x80]) = xorByte 167 0x80 (xorAt S 0 p)"
    using xorAt_butlast [of p 0 S "0x80"] p S by (cases "p = []") simp_all
  also have "xorAt S 0 p = xorByte ?i D (xorAt S 0 r)"
    using xorAt_append [of "xorAt S 0 r" ?i "[D]" "replicate z 0"] S M(3) z
    by (simp add: p_def xorAt_append [of S 0 r] xorAt_zeros xorAt_single)
  finally show ?thesis by (simp add: sp K12_consts Permute_keccakP keccakBytes_def S)
qed

section \<open>The steps of the tree hashing\<close>

lemma squeeze_short: "L \<le> 168 \<Longrightarrow> squeeze L st = take L st"
  by (subst squeeze.simps) simp

abbreviation chainingValue :: "bytes \<Rightarrow> bytes" where
  "chainingValue s \<equiv> turboSHAKE128 s 0x0B 32"

text \<open>Absorbing a zero byte only advances the index.\<close>

lemma xorByte_0: "xorByte i 0 st = st"
  by (simp add: xorByte_def)

lemma sponge_zero_byte:
  "sponge (M @ [0]) =
    (if kf_byteIOIndex (sponge M) + 1 = K12_rateInBytes
     then \<lparr>kf_state = KeccakP1600_Permute_12rounds (kf_state (sponge M)), kf_byteIOIndex = 0\<rparr>
     else \<lparr>kf_state = kf_state (sponge M), kf_byteIOIndex = kf_byteIOIndex (sponge M) + 1\<rparr>)"
proof -
  have "sponge (M @ [0]) = absorbByte 0 (sponge M)" by (simp add: sponge_def)
  then show ?thesis by (simp add: absorbByte_def xorByte_0)
qed

lemma sponge_single_zero: "sponge [0] = \<lparr>kf_state = replicate 200 0, kf_byteIOIndex = 1\<rparr>"
  using sponge_zero_byte [of "[]"] by (simp add: kf_zero_def K12_consts)

lemma closeLeaf_sponge: "fst (closeLeaf (sponge F) (sponge c)) = sponge (F @ chainingValue c)"
  by (simp add: closeLeaf_def Let_def turboSHAKE128_def squeeze_short turboState_sponge K12_consts)

lemma replicate_zeros: "replicate 7 (0 :: byte) = [0, 0, 0, 0, 0, 0, 0]"
  by (simp add: numeral_eq_Suc)

lemma markFinal_sponge:
  assumes "length M = 8192"
  shows "markFinal (sponge M) = sponge (M @ [3, 0, 0, 0, 0, 0, 0, 0])"
proof -
  let ?s = "sponge M"
  have i: "kf_byteIOIndex ?s = 128" using assms by (simp add: sponge_index)
  have "sponge (M @ [3, 0, 0, 0, 0, 0, 0, 0]) = fold absorbByte [3, 0, 0, 0, 0, 0, 0, 0] ?s" by (simp add: sponge_def)
  also have "\<dots> = \<lparr>kf_state = xorAt (kf_state ?s) 128 [3, 0, 0, 0, 0, 0, 0, 0], kf_byteIOIndex = 136\<rparr>"
    using fold_absorbByte_partial [OF sponge_ok, of M "[3, 0, 0, 0, 0, 0, 0, 0]"] i by (simp add: K12_consts)
  also have "xorAt (kf_state ?s) 128 [3, 0, 0, 0, 0, 0, 0, 0] = xorByte 128 3 (kf_state ?s)"
    using xorAt_append [of "kf_state ?s" 128 "[3]" "[0, 0, 0, 0, 0, 0, 0]"] xorAt_zeros [of _ _ 7]
    by (simp add: xorAt_single replicate_zeros)
  finally show ?thesis by (cases ?s) (use i in \<open>simp add: markFinal_def Let_def K12_consts\<close>)
qed

lemma k12Loop_sponge:
  assumes "length input < 2 ^ 32"
  shows "\<exists>q'. k12Loop input (of_nat (length input)) (sponge F, q, b, 0) =
    (sponge (F @ concat (map chainingValue (chunks 8192 input))), q', b + length input div 8192, length input mod 8192) \<and>
    (length input mod 8192 \<noteq> 0 \<longrightarrow> q' = sponge (drop (8192 * (length input div 8192)) input))"
  using assms
proof (induction "length input" arbitrary: input F q b rule: less_induct)
  case less
  let ?n = "of_nat (length input) :: u32"
  have n: "unat ?n = length input" using less.prems by (simp add: unat_of_nat)
  have nl: "unat (nextLen ?n) = min (length input) 8192" by (simp add: unat_nextLen n)
  consider "input = []" | "input \<noteq> []" "length input < 8192" | "8192 \<le> length input" by fastforce
  then show ?case
  proof cases
    case 1
    then show ?thesis by (simp add: k12Loop.simps)
  next
    case 2
    then have "?n > 0" using n by (simp add: word_less_nat_alt)
    moreover have l: "nextLen ?n = ?n" using nl n 2 by (simp add: word_unat_eq_iff)
    ultimately have "k12Loop input ?n (sponge F, q, b, 0) = (sponge F, sponge input, b, length input)"
      using 2 n by (subst k12Loop.simps) (simp add: Let_def l K12_consts k12Loop.simps [of _ 0])
    then show ?thesis using 2 by simp
  next
    case 3
    let ?c = "take 8192 input" and ?r = "drop 8192 input"
    have pos: "?n > 0" using n 3 by (auto simp: word_less_nat_alt)
    have l: "nextLen ?n = 8192" using nl n 3 by (simp add: word_unat_eq_iff min_def)
    have rest: "?n - 8192 = of_nat (length ?r)" using 3 by (simp add: of_nat_diff)
    have step: "k12Loop input ?n (sponge F, q, b, 0) =
        k12Loop ?r (of_nat (length ?r)) (sponge (F @ chainingValue ?c), snd (closeLeaf (sponge F) (sponge ?c)), b + 1, 0)"
      using pos by (subst k12Loop.simps)
        (simp add: Let_def l rest K12_consts case_prod_beta closeLeaf_sponge)
    have "length ?r < length input" "length ?r < 2 ^ 32" using 3 less.prems by simp_all
    from less.hyps [OF this, of "F @ chainingValue ?c" "snd (closeLeaf (sponge F) (sponge ?c))" "b + 1"]
    obtain q' where IH: "k12Loop ?r (of_nat (length ?r)) (sponge (F @ chainingValue ?c), snd (closeLeaf (sponge F) (sponge ?c)), b + 1, 0) =
        (sponge ((F @ chainingValue ?c) @ concat (map chainingValue (chunks 8192 ?r))), q', b + 1 + length ?r div 8192, length ?r mod 8192)"
      "length ?r mod 8192 \<noteq> 0 \<longrightarrow> q' = sponge (drop (8192 * (length ?r div 8192)) ?r)"
      by blast
    have d: "length input div 8192 = Suc (length ?r div 8192)" "length input mod 8192 = length ?r mod 8192"
      using 3 by (simp_all add: le_div_geq le_mod_geq)
    have ch: "chunks 8192 input = ?c # chunks 8192 ?r" using 3 by (simp add: chunks.simps [of 8192 input])
    show ?thesis
      unfolding step IH(1) d ch using IH(2) by (simp add: add.commute)
  qed
qed

text \<open>The last leaf and the final node.\<close>

lemma k12Finish_Final:
  assumes "length rest < 8192" "rest \<noteq> [] \<longrightarrow> q = sponge rest" "b \<noteq> 0"
  shows "k12Final (k12Finish (sponge F, q, b, length rest)) = turboState (F @ chainingValue (rest @ [0]) @ encbuf b) 0x06"
proof -
  have fin: "k12Final (sponge G, q, b, 0) = turboState (G @ encbuf (b - 1)) 0x06" if "b \<noteq> 0" for G q b
    using that by (simp add: k12Final_def Let_def turboState_sponge)
  have leaf: "k12Final (sponge G, sponge c, b, Suc k) = turboState (G @ chainingValue c @ encbuf b) 0x06" for G c k
    using assms(3) by (simp add: k12Final_def Let_def closeLeaf_sponge turboState_sponge)
  show ?thesis
  proof (cases "rest = []")
    case True
    then show ?thesis
      using leaf [of F "[0]" 0] by (simp add: k12Finish_def sponge_single_zero)
  next
    case False
    define q1 where "q1 = (if kf_byteIOIndex q + 1 = K12_rateInBytes
                then q\<lparr>kf_state := KeccakP1600_Permute_12rounds (kf_state q), kf_byteIOIndex := 0\<rparr>
                else q\<lparr>kf_byteIOIndex := kf_byteIOIndex q + 1\<rparr>)"
    have q1: "q1 = sponge (rest @ [0])"
      using assms(2) False sponge_zero_byte [of rest] by (cases "sponge rest") (auto simp: q1_def)
    have F: "k12Finish (sponge F, q, b, length rest) =
        (if length rest + 1 = K12_chunkSize
         then (case closeLeaf (sponge F) q1 of (finalNode2, queueNode2) \<Rightarrow> (finalNode2, queueNode2, b + 1, 0))
         else (sponge F, q1, b, length rest + 1))"
      using False by (simp add: k12Finish_def Let_def q1_def)
    show ?thesis
      using fin [of "b + 1" "F @ chainingValue (rest @ [0])"] leaf [of F "rest @ [0]" "length rest"]
      unfolding F q1 by (simp add: case_prod_beta closeLeaf_sponge)
  qed
qed

lemma length_beBytes: "v < 256 ^ (8 - n) \<Longrightarrow> n \<le> 8 \<Longrightarrow> encLen v n = n + length (beBytes v)"
proof (induction v n rule: encLen.induct)
  case (1 v n)
  show ?case
  proof (cases "v = 0")
    case True
    then show ?thesis by (simp add: encLen.simps [of 0] beBytes.simps [of 0])
  next
    case False
    then have n: "n < 8" using 1(2,3) by (cases "n = 8") auto
    then have "(256 :: nat) ^ (8 - n) = 256 * 256 ^ (8 - (n + 1))"
      by (metis Suc_diff_Suc Suc_eq_plus1 power_Suc)
    then have "v div 256 < 256 ^ (8 - (n + 1))" using 1(2) by (simp add: less_mult_imp_div_less mult.commute)
    with 1(1) False n have "encLen (v div 256) (n + 1) = n + 1 + length (beBytes (v div 256))" by simp
    then show ?thesis using False n by (simp add: encLen.simps [of v] beBytes.simps [of v])
  qed
qed

lemma beBytes_map: "beBytes v = map (\<lambda>i. of_nat (v div 256 ^ (length (beBytes v) - i))) [1..<length (beBytes v) + 1]"
proof (induction v rule: beBytes.induct)
  case (1 v)
  show ?case
  proof (cases "v = 0")
    case True
    then show ?thesis by (simp add: beBytes.simps [of 0])
  next
    case False
    let ?k = "length (beBytes (v div 256))"
    have b: "beBytes v = beBytes (v div 256) @ [of_nat v]" using False by (subst beBytes.simps) simp
    have "map (\<lambda>i. of_nat (v div 256 ^ (?k + 1 - i))) [1..<?k + 1] =
        map (\<lambda>i. (of_nat (v div 256 div 256 ^ (?k - i)) :: byte)) [1..<?k + 1]"
      by (rule map_cong) (auto simp: Suc_diff_le div_mult2_eq)
    also have "\<dots> = beBytes (v div 256)" using 1 False by metis
    finally show ?thesis by (simp add: b)
  qed
qed

lemma encbuf_length_encode: "b < 256 ^ 8 \<Longrightarrow> encbuf b = length_encode b @ [0xFF, 0xFF]"
  using length_beBytes [of b 0] beBytes_map [of b] by (simp add: encbuf_def length_encode_def Let_def)

lemma splitChunks_zero: "splitChunks (M @ [0]) = chunks 8192 M @ [drop (8192 * (length M div 8192)) M @ [0]]"
proof (induction "length M" arbitrary: M rule: less_induct)
  case less
  show ?case
  proof (cases "length M < 8192")
    case True
    then show ?thesis by (subst splitChunks.simps) simp
  next
    case False
    have "length M div 8192 = Suc (length (drop 8192 M) div 8192)" using False by (simp add: le_div_geq)
    moreover have "splitChunks (M @ [0]) = take 8192 M # splitChunks (drop 8192 M @ [0])"
      using False by (subst splitChunks.simps) simp
    ultimately show ?thesis
      using less.hyps [of "drop 8192 M"] False by (simp add: chunks.simps [of 8192 M] add.commute)
  qed
qed

lemma sponge_short_suffix:
  assumes "blockNumber = 0"
  shows "k12Final ((if kf_byteIOIndex (sponge M) + 1 = K12_rateInBytes
                  then (sponge M)\<lparr>kf_state := xorByte 0 0x07 (KeccakP1600_Permute_12rounds (kf_state (sponge M))),
                                 kf_byteIOIndex := K12_rateInBytes\<rparr>
                  else (sponge M)\<lparr>kf_state := xorByte (kf_byteIOIndex (sponge M) + 1) 0x07 (kf_state (sponge M)),
                                 kf_byteIOIndex := kf_byteIOIndex (sponge M) + 1\<rparr>),
                 q, blockNumber, n) = turboState (M @ [0]) 0x07"
  using assms by (auto simp: k12Final_def Let_def turboState_sponge sponge_zero_byte)

text \<open>The tree for the message after its first chunk: the loop, the last leaf and the final node.\<close>

lemma k12_tree:
  assumes "length rest < 2 ^ 32"
  shows "k12Final (k12Finish (k12Loop rest (of_nat (length rest)) (sponge F, kf_zero, 1, 0))) =
    turboState (F @ concat (map chainingValue (splitChunks (rest @ [0]))) @
      length_encode (length (splitChunks (rest @ [0]))) @ [0xFF, 0xFF]) 0x06"
proof -
  define m where "m = length rest div 8192"
  define r where "r = drop (8192 * m) rest"
  define G where "G = F @ concat (map chainingValue (chunks 8192 rest))"
  have r: "length r = length rest mod 8192" unfolding r_def m_def length_drop by (rule minus_mult_div_eq_mod)
  obtain q where q: "k12Loop rest (of_nat (length rest)) (sponge F, kf_zero, 1, 0) = (sponge G, q, 1 + m, length r)"
    "length r \<noteq> 0 \<longrightarrow> q = sponge r"
    using k12Loop_sponge [OF assms, of F kf_zero 1] unfolding r [symmetric] by (auto simp: G_def m_def r_def)
  have "1 + m < 256 ^ 8" using assms by (simp add: m_def)
  then have e: "encbuf (1 + m) = length_encode (1 + m) @ [0xFF, 0xFF]" by (rule encbuf_length_encode)
  have "k12Final (k12Finish (sponge G, q, 1 + m, length r)) = turboState (G @ chainingValue (r @ [0]) @ encbuf (1 + m)) 0x06"
    using q(2) r by (intro k12Finish_Final) (use mod_less_divisor [of 8192 "length rest"] in auto)
  moreover have "splitChunks (rest @ [0]) = chunks 8192 rest @ [r @ [0]]" by (simp add: splitChunks_zero r_def m_def)
  moreover have "length (chunks 8192 rest) = m" by (simp add: length_chunks m_def)
  ultimately show ?thesis unfolding q(1) using e by (simp add: G_def)
qed

lemma length_encode_0: "length_encode 0 = [0]"
  by (simp add: length_encode_def beBytes.simps)

lemma KT128_tree:
  assumes "8192 \<le> length M" "L \<le> 168"
  shows "KT128 M [] L = take L (turboState ((take 8192 M @ [3, 0, 0, 0, 0, 0, 0, 0]) @
    concat (map chainingValue (splitChunks (drop 8192 M @ [0]))) @
    length_encode (length (splitChunks (drop 8192 M @ [0]))) @ [0xFF, 0xFF]) 0x06)"
proof -
  have "splitChunks (M @ [0]) = take 8192 M # splitChunks (drop 8192 M @ [0])"
    using assms by (subst splitChunks.simps) simp
  then show ?thesis
    using assms by (simp add: KT128_def Let_def length_encode_0 turboSHAKE128_def [of _ 6] squeeze_short)
qed

lemma KangarooTwelve_standard:
  assumes "length M < 2 ^ 32" "L \<le> 168"
  shows "KangarooTwelve M (of_nat (length M)) L = KT128 M [] L"
proof -
  let ?n = "of_nat (length M) :: u32"
  have n: "unat ?n = length M" using assms(1) by (simp add: unat_of_nat)
  have fl: "unat (firstLen ?n) = min (length M) 8192" by (simp add: unat_firstLen n)
  show ?thesis
  proof (cases "length M < 8192")
    case True
    then show ?thesis
      using fl assms(2) sponge_short_suffix [OF refl, of M kf_zero 0] unfolding KangarooTwelve_def Let_def
      by (auto split: if_splits simp: K12_chunkSize_def KT128_def length_encode_0 turboSHAKE128_def squeeze_short)
  next
    case False
    let ?r = "drop 8192 M" and ?F = "take 8192 M @ [3, 0, 0, 0, 0, 0, 0, 0]"
    have l: "firstLen ?n = 8192" using fl n False by (simp add: word_unat_eq_iff min_def)
    have rest: "?n - 8192 = of_nat (length ?r)" using False by (simp add: of_nat_diff)
    have r: "length ?r < 2 ^ 32" using assms(1) by simp
    have m: "markFinal (sponge (take 8192 M)) = sponge ?F" using False by (intro markFinal_sponge) simp
    have z: "(of_nat (length ?r) :: u32) = 0 \<longleftrightarrow> length ?r = 0"
      using r by (simp add: unat_of_nat unat_eq_0 [symmetric] del: length_drop unat_eq_0)
    have empty: "k12Finish (k12Loop ?r 0 (sponge ?F, kf_zero, 1, 0)) =
        (sponge ?F, \<lparr>kf_state = replicate 200 0, kf_byteIOIndex = 1\<rparr>, 1, 1)" 
      by (simp add: k12Loop.simps k12Finish_def)
    have "KangarooTwelve M ?n L =
        take L (k12Final (k12Finish (k12Loop ?r (of_nat (length ?r)) (sponge ?F, kf_zero, 1, 0))))"
      using empty m unfolding KangarooTwelve_def Let_def l
      by (cases "length ?r = 0") (simp_all add: K12_chunkSize_def rest z del: length_drop)
    then show ?thesis
      using KT128_tree [of M L] k12_tree [OF r, of ?F] False assms(2) by (simp del: length_drop)
  qed
qed

lemma length_KT128: "L \<le> 168 \<Longrightarrow> length (KT128 M C L) = L"
  by (simp add: KT128_def Let_def turboSHAKE128_def squeeze_short turboState_sponge)

text \<open>
  C5: the KangarooTwelve of the dispatcher is the function KT128 of RFC 9861 with an empty customisation
  string: for every message whose length fits the 32-bit length argument, and every output of at most one
  block of the sponge, the optimised code returns the bytes of the standard.\<close>

theorem KangarooTwelve_KT128:
  assumes "length M < 2 ^ 32" "L \<le> 168"
  shows "KangarooTwelve M (of_nat (length M)) L = KT128 M [] L"
  using assms by (rule KangarooTwelve_standard)

theorem KangarooTwelve_KT128_witness:
  "KangarooTwelve [0x51, 0x75, 0x62, 0x69, 0x63] (of_nat (length [0x51, 0x75, 0x62, 0x69, 0x63 :: byte])) 32 =
   KT128 [0x51, 0x75, 0x62, 0x69, 0x63] [] 32"
  using KangarooTwelve_KT128 [of "[0x51, 0x75, 0x62, 0x69, 0x63]" 32] by simp

end
