(* ===== verification/Key_Utils.thy ===== *)
theory Key_Utils
  imports Kt128
begin

text \<open>
  The key derivation and the identities of \<open>dispatcher/src/crypto/key_utils.cpp\<close>: a seed of 55 letters
  gives the subseed and the private key, a public key is printed as an identity of 60 letters with a
  checksum and read back, and the root of a Merkle tree is computed from a leaf and its siblings.

  The three bytes of the checksum are written into an uninitialised \<open>unsigned int\<close>; its fourth byte is the
  argument \<open>junk\<close>.  The characters of an identity are bytes: the source only compares them with letters.
\<close>

section \<open>Seeds\<close>

definition getSubseedFromSeed :: "bytes \<Rightarrow> bytes option" where
  "getSubseedFromSeed seed =
     (if \<exists>c \<in> set (take 55 seed). c < 97 \<or> c > 122 then None
      else Some (KangarooTwelve (map (\<lambda>c. c - 97) (take 55 seed)) 55 32))"

definition getPrivateKeyFromSubSeed :: "bytes \<Rightarrow> bytes" where
  "getPrivateKeyFromSubSeed seed = KangarooTwelve seed 32 32"

section \<open>Identities\<close>

text \<open>The digits to the base 26, the least significant one first, as letters from \<open>base\<close> on.\<close>

fun digits26 :: "nat \<Rightarrow> 'a :: len word \<Rightarrow> 'a word \<Rightarrow> 16 word list" where
  "digits26 0 fragment base = []"
| "digits26 (Suc n) fragment base = ucast (fragment mod 26 + base) # digits26 n (fragment div 26) base"

definition identityBytesChecksum :: "byte \<Rightarrow> bytes \<Rightarrow> u32" where
  "identityBytesChecksum junk publicKey = load_le (KangarooTwelve publicKey 32 3 @ [junk]) AND 0x3FFFF"

definition getIdentityFromPublicKey :: "byte \<Rightarrow> bytes \<Rightarrow> bool \<Rightarrow> bytes" where
  "getIdentityFromPublicKey junk pubkey isLowerCase =
     (let identity = concat (map (\<lambda>i. digits26 14 (lanesOf pubkey ! i) (if isLowerCase then 97 else 65)) [0..<4]) @
            digits26 4 (identityBytesChecksum junk pubkey) (if isLowerCase then 97 else 65)
      in map ucast identity)"

definition getTxHashFromDigest :: "byte \<Rightarrow> bytes \<Rightarrow> bytes" where
  "getTxHashFromDigest junk digest = getIdentityFromPublicKey junk digest True"

text \<open>The loop over the 14 letters of a fragment, from the last one, and the loop over the fragments.\<close>

fun readFragment :: "bytes \<Rightarrow> nat \<Rightarrow> nat \<Rightarrow> u64 \<Rightarrow> u64 option" where
  "readFragment identity i 0 acc = Some acc"
| "readFragment identity i (Suc j) acc =
     (let c = identity ! (i * 14 + j)
      in if c < 65 \<or> c > 90 then None else readFragment identity i j (acc * 26 + ucast (c - 65)))"

definition publicKeyBuffer :: "bytes \<Rightarrow> bytes option" where
  "publicKeyBuffer identity = map_option bytesOf (those (map (\<lambda>i. readFragment identity i 14 0) [0..<4]))"

definition getPublicKeyFromIdentity :: "bytes \<Rightarrow> bytes \<Rightarrow> bytes" where
  "getPublicKeyFromIdentity identity publicKey =
     (case publicKeyBuffer identity of None \<Rightarrow> publicKey | Some buffer \<Rightarrow> buffer)"

fun checkLetters :: "bytes \<Rightarrow> nat \<Rightarrow> nat \<Rightarrow> u32 \<Rightarrow> bool" where
  "checkLetters identity i 0 checksum \<longleftrightarrow> True"
| "checkLetters identity i (Suc n) checksum \<longleftrightarrow>
     checksum mod 26 + 65 = ucast (identity ! (56 + i)) \<and> checkLetters identity (i + 1) n (checksum div 26)"

definition checkSumIdentity :: "byte \<Rightarrow> bytes \<Rightarrow> bool" where
  "checkSumIdentity junk identity =
     (case publicKeyBuffer identity of
        None \<Rightarrow> False
      | Some buffer \<Rightarrow> checkLetters identity 0 4 (identityBytesChecksum junk buffer))"

section \<open>Merkle paths\<close>

fun siblingLoop :: "nat \<Rightarrow> bytes \<Rightarrow> u32 \<Rightarrow> bytes list \<Rightarrow> bytes" where
  "siblingLoop hashByteLen digest digest_index [] = digest"
| "siblingLoop hashByteLen digest digest_index (sibling # siblings) =
     (let pair_digests = (if digest_index mod 2 = 1 then sibling @ digest else digest @ sibling)
      in siblingLoop hashByteLen (KangarooTwelve pair_digests (2 * of_nat hashByteLen) hashByteLen) (drop_bit 1 digest_index) siblings)"

definition getDigestFromSiblings :: "nat \<Rightarrow> nat \<Rightarrow> bytes \<Rightarrow> u32 \<Rightarrow> u32 \<Rightarrow> bytes list \<Rightarrow> bytes" where
  "getDigestFromSiblings hashByteLen depth input inputByteLen inputIndex siblings =
     siblingLoop hashByteLen (KangarooTwelve input inputByteLen hashByteLen) inputIndex (take depth siblings)"

section \<open>Identities can be read back\<close>

lemma length_KangarooTwelve:
  "length input < 2 ^ 32 \<Longrightarrow> L \<le> 168 \<Longrightarrow> length (KangarooTwelve input (of_nat (length input)) L) = L"
  by (simp add: KangarooTwelve_standard length_KT128)

lemma checksum_junk:
  assumes "length key = 32"
  shows "identityBytesChecksum junk key = identityBytesChecksum junk' key"
proof (rule bit_word_eqI)
  fix n
  have m: "(0x3FFFF :: u32) = mask 18" by (simp add: mask_eq_exp_minus_1)
  assume "n < LENGTH(32)"
  then show "bit (identityBytesChecksum junk key) n = bit (identityBytesChecksum junk' key) n"
    unfolding identityBytesChecksum_def m bit_and_iff bit_mask_iff bit_load_le
    using length_KangarooTwelve [of key 3] assms by (cases "n < 18") (auto simp: nth_append)
qed

text \<open>The upper-case letter of a digit.\<close>

definition letter :: "nat \<Rightarrow> byte" where
  "letter d = of_nat (d + 65)"

lemma letter_facts:
  assumes "d < 26"
  shows "\<not> letter d < 65" "\<not> letter d > 90" "ucast (letter d - 65) = (of_nat d :: u64)"
    "ucast (letter d) = (of_nat d + 65 :: u32)"
proof -
  have u: "unat (letter d) = d + 65" using assms by (simp add: letter_def unat_of_nat del: of_nat_add)
  show "\<not> letter d < 65" "\<not> letter d > 90" using assms u by (simp_all add: word_less_nat_alt)
  have "letter d - 65 = of_nat d" by (simp add: letter_def)
  moreover have "unat (of_nat d :: byte) = d" using assms by (simp add: unat_of_nat)
  ultimately show "ucast (letter d - 65) = (of_nat d :: u64)" using assms by (simp add: word_unat_eq_iff unat_of_nat)
  have "unat (of_nat d + 65 :: u32) = d + 65"
    using assms unat_of_nat [where ?'a = 32, of "d + 65"] by simp
  then show "ucast (letter d) = (of_nat d + 65 :: u32)" using u by (simp add: word_unat_eq_iff)
qed

lemma length_digits26 [simp]: "length (digits26 n w b) = n"
  by (induction n arbitrary: w) simp_all

lemma nth_digits26:
  fixes w :: "'a :: len word"
  assumes "k < n" "unat (26 :: 'a word) = 26"
  shows "digits26 n w b ! k = ucast (of_nat (unat w div 26 ^ k mod 26) + b)"
  using assms(1)
proof (induction n arbitrary: k w)
  case (Suc n)
  have m: "w mod 26 = of_nat (unat w mod 26)" and d: "unat (w div 26) = unat w div 26"
    using assms(2) unsigned_less [of "w mod 26", where ?'a = nat]
    by (simp_all add: word_unat_eq_iff unat_of_nat unat_div unat_mod)
  show ?case
  proof (cases k)
    case (Suc k')
    then show ?thesis using Suc.IH [of k' "w div 26"] Suc.prems by (simp add: d div_mult2_eq)
  qed (simp add: m)
qed simp

lemma unat_ucast_to_16: "unat (ucast (w :: 'a :: len word) :: 16 word) = unat w mod 65536"
  by (simp add: unsigned_ucast_eq take_bit_nat_def)

lemma digit_letter:
  assumes "d < 26"
  shows "ucast (ucast (of_nat d + 65 :: u64) :: 16 word) = letter d"
    "ucast (ucast (of_nat d + 65 :: u32) :: 16 word) = letter d"
proof -
  have "unat (of_nat d + 65 :: u64) = d + 65" "unat (of_nat d + 65 :: u32) = d + 65"
    using assms unat_of_nat [where ?'a = 64, of "d + 65"] unat_of_nat [where ?'a = 32, of "d + 65"] by simp_all
  moreover have "unat (letter d) = d + 65" using assms by (simp add: letter_def unat_of_nat del: of_nat_add)
  ultimately show "ucast (ucast (of_nat d + 65 :: u64) :: 16 word) = letter d"
    "ucast (ucast (of_nat d + 65 :: u32) :: 16 word) = letter d"
    using assms by (simp_all only: word_unat_eq_iff unat_ucast_to_byte unat_ucast_to_16) simp_all
qed

lemma nth_concat_blocks:
  "list_all (\<lambda>xs. length xs = n) xss \<Longrightarrow> i < length xss \<Longrightarrow> j < n \<Longrightarrow> concat xss ! (i * n + j) = xss ! i ! j"
proof (induction xss arbitrary: i)
  case (Cons xs xss)
  show ?case
  proof (cases i)
    case (Suc i')
    then show ?thesis using Cons by (simp add: nth_append add.assoc)
  qed (use Cons.prems in \<open>simp add: nth_append\<close>)
qed simp

lemma length_concat_blocks: "list_all (\<lambda>xs. length xs = n) xss \<Longrightarrow> length (concat xss) = length xss * n"
  by (induction xss) simp_all

abbreviation identityOf :: "byte \<Rightarrow> bytes \<Rightarrow> bytes" where
  "identityOf junk key \<equiv> getIdentityFromPublicKey junk key False"

definition keyBlocks :: "bytes \<Rightarrow> 16 word list list" where
  "keyBlocks key = map (\<lambda>i. digits26 14 (lanesOf key ! i) 65) [0..<4]"

lemma identityOf_blocks:
  "identityOf junk key = map ucast (concat (keyBlocks key) @ digits26 4 (identityBytesChecksum junk key) 65)"
  by (simp add: getIdentityFromPublicKey_def keyBlocks_def Let_def)

lemma keyBlocks_all: "list_all (\<lambda>xs. length xs = 14) (keyBlocks key)" "length (keyBlocks key) = 4"
  by (simp_all add: keyBlocks_def list_all_iff)

lemma identityOf_fragment:
  assumes "i < 4" "j < 14"
  shows "identityOf junk key ! (i * 14 + j) = letter (unat (lanesOf key ! i) div 26 ^ j mod 26)"
proof -
  have "concat (keyBlocks key) ! (i * 14 + j) = keyBlocks key ! i ! j"
    using assms by (intro nth_concat_blocks) (simp_all add: keyBlocks_all)
  moreover have "i * 14 + j < length (concat (keyBlocks key))"
    using assms length_concat_blocks [OF keyBlocks_all(1), of key] by (simp add: keyBlocks_all)
  moreover have "keyBlocks key ! i ! j = ucast (of_nat (unat (lanesOf key ! i) div 26 ^ j mod 26) + 65 :: u64)"
    using assms by (simp add: keyBlocks_def nth_digits26)
  ultimately show ?thesis
    by (simp only: identityOf_blocks nth_map length_append nth_append if_True trans_less_add1) (simp add: digit_letter)
qed

lemma identityOf_checksum:
  assumes "k < 4"
  shows "identityOf junk key ! (56 + k) = letter (unat (identityBytesChecksum junk key) div 26 ^ k mod 26)"
proof -
  have l: "length (concat (keyBlocks key)) = 56"
    using length_concat_blocks [OF keyBlocks_all(1), of key] by (simp add: keyBlocks_all)
  then have "identityOf junk key ! (56 + k) = ucast (digits26 4 (identityBytesChecksum junk key) 65 ! k)"
    using assms by (simp add: identityOf_blocks nth_append)
  then show ?thesis using assms by (simp add: nth_digits26 digit_letter)
qed

lemma readFragment_digits:
  assumes "\<And>j. j < n \<Longrightarrow> identity ! (i * 14 + j) = letter (v div 26 ^ j mod 26)"
  shows "readFragment identity i n acc = Some (acc * 26 ^ n + of_nat (v mod 26 ^ n))"
  using assms
proof (induction n arbitrary: acc)
  case (Suc n)
  have m: "v mod 26 ^ Suc n = 26 ^ n * (v div 26 ^ n mod 26) + v mod 26 ^ n"
    using mod_mult2_eq [of v "26 ^ n" 26] by (simp add: mult.commute)
  let ?d = "v div 26 ^ n mod 26"
  have "readFragment identity i (Suc n) acc = readFragment identity i n (acc * 26 + of_nat ?d)"
    using Suc.prems [of n] letter_facts [of ?d] by (simp add: Let_def)
  also have "\<dots> = Some ((acc * 26 + of_nat ?d) * 26 ^ n + of_nat (v mod 26 ^ n))"
    using Suc by simp
  also have "(acc * 26 + of_nat ?d) * 26 ^ n + of_nat (v mod 26 ^ n) = acc * 26 ^ Suc n + of_nat (v mod 26 ^ Suc n)"
    unfolding m of_nat_add of_nat_mult of_nat_power by (simp add: algebra_simps)
  finally show ?case .
qed simp

lemma checkLetters_digits:
  "(\<And>k. k < n \<Longrightarrow> identity ! (56 + i + k) = letter (unat c div 26 ^ k mod 26)) \<Longrightarrow> checkLetters identity i n c"
proof (induction n arbitrary: i c)
  case (Suc n)
  have "c mod 26 = of_nat (unat c mod 26)" 
    using unsigned_less [of "c mod 26", where ?'a = nat] by (simp add: word_unat_eq_iff unat_of_nat unat_mod)
  then have "c mod 26 + 65 = ucast (identity ! (56 + i))"
    using Suc.prems [of 0] letter_facts(4) [of "unat c mod 26"] by simp
  moreover have "checkLetters identity (i + 1) n (c div 26)"
    using Suc.prems [of "Suc k" for k] by (intro Suc.IH) (simp add: unat_div div_mult2_eq add.assoc)
  ultimately show ?case by simp
qed simp

lemma publicKeyBuffer_identityOf:
  assumes "length key = 32"
  shows "publicKeyBuffer (identityOf junk key) = Some key"
proof -
  have len: "length (lanesOf key) = 4" using assms by (simp add: lanesOf_def length_chunks)
  have "readFragment (identityOf junk key) i 14 0 = Some (lanesOf key ! i)" if "i < 4" for i
  proof -
    let ?v = "unat (lanesOf key ! i)"
    have "?v < 26 ^ 14" using unat_u64_less [of "lanesOf key ! i"] by simp
    then show ?thesis
      using readFragment_digits [of 14 "identityOf junk key" i ?v 0] that by (simp add: identityOf_fragment)
  qed
  then have "map (\<lambda>i. readFragment (identityOf junk key) i 14 0) [0..<4] = map (\<lambda>i. Some (lanesOf key ! i)) [0..<4]"
    by (intro map_cong) simp_all
  moreover have "map (\<lambda>i. lanesOf key ! i) [0..<4] = lanesOf key" using map_nth [of "lanesOf key"] len by simp
  moreover have "those (map Some xs) = Some xs" for xs :: "u64 list" by (induction xs) simp_all
  ultimately have "those (map (\<lambda>i. readFragment (identityOf junk key) i 14 0) [0..<4]) = Some (lanesOf key)"
    by (metis (no_types, lifting) map_map comp_def map_cong)
  then show ?thesis using assms by (simp add: publicKeyBuffer_def bytesOf_lanesOf_dvd)
qed

text \<open>
  C22: an identity can be read back.  For every public key of 32 bytes the 60 letters printed by
  getIdentityFromPublicKey are read back to the same key by getPublicKeyFromIdentity, and
  checkSumIdentity accepts them, whatever the uninitialised byte of the checksum holds.\<close>

theorem identity_roundtrip:
  assumes "length key = 32"
  shows "getPublicKeyFromIdentity (getIdentityFromPublicKey junk key False) publicKey = key \<and>
    checkSumIdentity junk' (getIdentityFromPublicKey junk key False)"
proof -
  have "checkLetters (identityOf junk key) 0 4 (identityBytesChecksum junk key)"
    by (rule checkLetters_digits) (use identityOf_checksum [of _ junk key] in simp)
  then show ?thesis
    using publicKeyBuffer_identityOf [OF assms, of junk] checksum_junk [OF assms, of junk' junk]
    by (simp add: getPublicKeyFromIdentity_def checkSumIdentity_def)
qed

theorem identity_roundtrip_witness:
  "getPublicKeyFromIdentity (getIdentityFromPublicKey 0xFF (replicate 32 7) False) (replicate 32 0) = replicate 32 7 \<and>
   checkSumIdentity 0 (getIdentityFromPublicKey 0xFF (replicate 32 7) False)"
  using identity_roundtrip [of "replicate 32 7" "0xFF" "replicate 32 0" 0] by simp

section \<open>Merkle paths lead to the root\<close>

text \<open>The Merkle tree over the inputs: node \<open>k\<close> of a level, counted from the leaves.\<close>

fun merkleNode :: "(nat \<Rightarrow> bytes) \<Rightarrow> nat \<Rightarrow> nat \<Rightarrow> bytes" where
  "merkleNode leaf 0 k = KT128 (leaf k) [] 32"
| "merkleNode leaf (Suc l) k = KT128 (merkleNode leaf l (2 * k) @ merkleNode leaf l (2 * k + 1)) [] 32"

definition siblingOf :: "nat \<Rightarrow> nat" where
  "siblingOf k = (if odd k then k - 1 else k + 1)"

definition siblingPath :: "(nat \<Rightarrow> bytes) \<Rightarrow> nat \<Rightarrow> nat \<Rightarrow> bytes list" where
  "siblingPath leaf depth k = map (\<lambda>l. merkleNode leaf l (siblingOf (k div 2 ^ l))) [0..<depth]"

lemma length_merkleNode [simp]: "length (merkleNode leaf l k) = 32"
  by (cases l) (simp_all add: length_KT128)

lemma siblingLoop_nodes:
  "\<lbrakk>\<And>m. m < n \<Longrightarrow> ss ! m = merkleNode leaf (l + m) (siblingOf (unat i div 2 ^ m)); length ss = n\<rbrakk>
    \<Longrightarrow> siblingLoop 32 (merkleNode leaf l (unat i)) i ss = merkleNode leaf (l + n) (unat i div 2 ^ n)"
proof (induction ss arbitrary: l i n)
  case (Cons s ss)
  obtain n' where n: "n = Suc n'" using Cons.prems(2) by (cases n) auto
  have u: "unat (drop_bit 1 i) = unat i div 2" "unat (i mod 2) = unat i mod 2"
    by (simp_all only: unat_drop_bit) (simp_all add: unat_mod)
  let ?d = "merkleNode leaf l (unat i)"
  let ?p = "if i mod 2 = 1 then s @ ?d else ?d @ s"
  have s: "s = merkleNode leaf l (siblingOf (unat i))" using Cons.prems(1) [of 0] n by simp
  have odd: "i mod 2 = 1 \<longleftrightarrow> odd (unat i)" using u(2) by (auto simp: word_unat_eq_iff odd_iff_mod_2_eq_one)
  have "?p = merkleNode leaf l (2 * (unat i div 2)) @ merkleNode leaf l (2 * (unat i div 2) + 1)"
    by (cases "odd (unat i)") (auto simp: s odd siblingOf_def elim!: oddE evenE)
  moreover have "length ?p = 64" by (simp add: s)
  moreover from this have "KangarooTwelve ?p 64 32 = KT128 ?p [] 32"
    using KangarooTwelve_standard [of ?p 32] by simp
  ultimately have h: "KangarooTwelve ?p 64 32 = merkleNode leaf (Suc l) (unat (drop_bit 1 i))"
    by (simp only: merkleNode.simps u)
  have nx: "ss ! m = merkleNode leaf (Suc l + m) (siblingOf (unat (drop_bit 1 i) div 2 ^ m))" if "m < n'" for m
    using Cons.prems(1) [of "Suc m"] that n u(1) by (simp add: div_mult2_eq)
  have "siblingLoop 32 (merkleNode leaf (Suc l) (unat (drop_bit 1 i))) (drop_bit 1 i) ss =
      merkleNode leaf (Suc l + n') (unat (drop_bit 1 i) div 2 ^ n')"
    using nx Cons.prems(2) n by (intro Cons.IH) simp_all
  then show ?case using h n u(1) by (simp add: Let_def div_mult2_eq)
qed simp

text \<open>
  The function getDigestFromSiblings computes the root of a Merkle tree: given an input, its index and the digests of
  the sibling nodes on the path, the result is the digest at the root of the tree over all inputs, with
  KT128 as its hash function.\<close>

lemma getDigestFromSiblings_root:
  assumes "unat inputIndex < 2 ^ depth" "length (leaf (unat inputIndex)) < 2 ^ 32"
  shows "getDigestFromSiblings 32 depth (leaf (unat inputIndex)) (of_nat (length (leaf (unat inputIndex)))) inputIndex
      (siblingPath leaf depth (unat inputIndex)) = merkleNode leaf depth 0"
  using siblingLoop_nodes [of depth "siblingPath leaf depth (unat inputIndex)" leaf 0 inputIndex] assms
  by (simp add: getDigestFromSiblings_def KangarooTwelve_standard siblingPath_def)

end
