(* ===== verification/Multiprecision.thy ===== *)
theory Multiprecision
  imports Prelude
begin

text \<open>
  The arithmetic on several 64-bit words in \<open>dispatcher/src/crypto/k12_and_key_utils.h\<close>: additions and
  subtractions with carry, the 128-bit product, the double-word shifts, and the comparison with the
  replacements of the carry intrinsics for aarch64.
\<close>

section \<open>Words with carry\<close>

text \<open>The intrinsics of x86-64: the carry or borrow out and the word.\<close>

definition addcarry_u64 :: "bool \<Rightarrow> u64 \<Rightarrow> u64 \<Rightarrow> bool \<times> u64" where
  "addcarry_u64 b_in src1 src2 = (2 ^ 64 \<le> unat src1 + unat src2 + of_bool b_in, src1 + src2 + of_bool b_in)"

definition subborrow_u64 :: "bool \<Rightarrow> u64 \<Rightarrow> u64 \<Rightarrow> bool \<times> u64" where
  "subborrow_u64 b_in src1 src2 = (unat src1 < unat src2 + of_bool b_in, src1 - src2 - of_bool b_in)"

text \<open>The replacements for aarch64.\<close>

definition addcarry_u64_aarch64 :: "bool \<Rightarrow> u64 \<Rightarrow> u64 \<Rightarrow> bool \<times> u64" where
  "addcarry_u64_aarch64 b_in src1 src2 =
     (0xFFFFFFFFFFFFFFFF - src1 < src2 + (if b_in then 1 else 0), src1 + (src2 + (if b_in then 1 else 0)))"

definition subborrow_u64_aarch64 :: "bool \<Rightarrow> u64 \<Rightarrow> u64 \<Rightarrow> bool \<times> u64" where
  "subborrow_u64_aarch64 b_in src1 src2 =
     (src1 < src2 + (if b_in then 1 else 0), src1 - (src2 + (if b_in then 1 else 0)))"

text \<open>The product of two words as low and high word.\<close>

definition umul128 :: "u64 \<Rightarrow> u64 \<Rightarrow> u64 \<times> u64" where
  "umul128 a b = (let v = (ucast a :: 128 word) * ucast b in (ucast v, ucast (drop_bit 64 v)))"

text \<open>The instructions \<open>shld\<close> and \<open>shrd\<close>.\<close>

definition shiftleft128 :: "u64 \<Rightarrow> u64 \<Rightarrow> nat \<Rightarrow> u64" where
  "shiftleft128 LowPart HighPart Shift = push_bit Shift HighPart OR drop_bit (64 - Shift) LowPart"

definition shiftright128 :: "u64 \<Rightarrow> u64 \<Rightarrow> nat \<Rightarrow> u64" where
  "shiftright128 LowPart HighPart Shift = drop_bit Shift LowPart OR push_bit (64 - Shift) HighPart"

section \<open>Their values\<close>

lemma unat_u64_le: "unat (w :: u64) \<le> 0xFFFFFFFFFFFFFFFF"
  using unat_u64_less [of w] by simp

lemma unat_of_bool: "unat (of_bool b :: 'a :: len word) = of_bool b"
  by (cases b) simp_all

lemma addcarry_u64_value:
  "addcarry_u64 c a b = (c', s) \<Longrightarrow> unat s + 2 ^ 64 * of_bool c' = unat a + unat b + of_bool c"
proof -
  assume r: "addcarry_u64 c a b = (c', s)"
  have s: "unat s = (unat a + unat b + of_bool c) mod 2 ^ 64"
    using r by (auto simp: addcarry_u64_def unat_word_ariths unat_of_bool mod_simps)
  have "unat a + unat b + of_bool c < 2 * 2 ^ 64"
    using unat_u64_le [of a] unat_u64_le [of b] by (cases c) simp_all
  then show ?thesis
    using r s by (cases "2 ^ 64 \<le> unat a + unat b + of_bool c") (auto simp: addcarry_u64_def mod_if le_mod_geq)
qed

lemma subborrow_u64_value:
  "subborrow_u64 c a b = (c', s) \<Longrightarrow> unat s + unat b + of_bool c = unat a + 2 ^ 64 * of_bool c'"
proof -
  assume r: "subborrow_u64 c a b = (c', s)"
  then have "s + b + of_bool c = a" by (auto simp: subborrow_u64_def)
  then have a: "unat a = (unat s + unat b + of_bool c) mod 2 ^ 64"
    by (auto simp: unat_word_ariths unat_of_bool mod_simps)
  have lt: "unat s + unat b + of_bool c < 2 * 2 ^ 64"
    using unat_u64_le [of s] unat_u64_le [of b] by (cases c) simp_all
  show ?thesis
  proof (cases "2 ^ 64 \<le> unat s + unat b + of_bool c")
    case True
    then have "unat s + unat b + of_bool c = unat a + 2 ^ 64" using a lt by (simp add: le_mod_geq)
    moreover from this have "c'" using r unat_u64_le [of s] by (auto simp: subborrow_u64_def)
    ultimately show ?thesis by simp
  next
    case False
    then have "unat s + unat b + of_bool c = unat a" using a by simp
    then show ?thesis using r by (auto simp: subborrow_u64_def)
  qed
qed

lemma umul128_value: "umul128 a b = (l, h) \<Longrightarrow> unat l + 2 ^ 64 * unat h = unat a * unat b"
proof -
  assume r: "umul128 a b = (l, h)"
  let ?v = "(ucast a :: 128 word) * ucast b"
  have "unat a * unat b < 2 ^ 64 * 2 ^ 64" 
    using unat_u64_less [of a] unat_u64_less [of b] by (intro mult_strict_mono) simp_all
  then have v: "unat ?v = unat a * unat b" by (simp add: unat_word_ariths unsigned_ucast_eq take_bit_nat_def mod_mult_eq)
  have "unat l = unat ?v mod 2 ^ 64" using r by (auto simp: umul128_def Let_def unsigned_ucast_eq take_bit_nat_def)
  moreover have "unat h = unat ?v div 2 ^ 64 mod 2 ^ 64"
    using r by (auto simp: umul128_def Let_def unsigned_ucast_eq take_bit_nat_def unat_drop_bit)
  moreover have "unat ?v div 2 ^ 64 < 2 ^ 64" unfolding v using \<open>unat a * unat b < 2 ^ 64 * 2 ^ 64\<close> by (simp add: less_mult_imp_div_less)
  ultimately show ?thesis unfolding v by simp
qed

lemma bit_odd: "bit (w :: u64) n \<longleftrightarrow> odd (unat w div 2 ^ n)"
  by (simp add: bit_iff_odd [of "unat w", symmetric] bit_unsigned_iff)

lemma bit_double_word:
  "bit (unat (lo :: u64) + 2 ^ 64 * unat (hi :: u64)) n \<longleftrightarrow> (if n < 64 then bit lo n else bit hi (n - 64))"
proof (cases "n < 64")
  case True
  have "(2 :: nat) ^ 64 = 2 ^ n * 2 ^ (64 - n)" using True by (simp add: power_add [symmetric])
  then have "(unat lo + 2 ^ 64 * unat hi) div 2 ^ n = unat lo div 2 ^ n + 2 ^ (64 - n) * unat hi"
    by (simp only: mult.assoc div_mult_self2 [of "2 ^ n"]) simp
  moreover have "even ((2 :: nat) ^ (64 - n) * unat hi)" using True by simp
  ultimately show ?thesis using True by (simp add: bit_iff_odd [where ?'a = nat] bit_odd)
next
  case False
  then have "(2 :: nat) ^ n = 2 ^ 64 * 2 ^ (n - 64)"
    by (metis le_add_diff_inverse not_less power_add)
  then have "(unat lo + 2 ^ 64 * unat hi) div 2 ^ n = unat hi div 2 ^ (n - 64)"
    using unat_u64_less [of lo] by (simp add: div_mult2_eq)
  then show ?thesis using False by (simp add: bit_iff_odd [where ?'a = nat] bit_odd)
qed

lemma shiftright128_value:
  assumes "0 < s" "s < 64"
  shows "shiftright128 lo hi s = of_nat ((unat lo + 2 ^ 64 * unat hi) div 2 ^ s)"
proof (rule bit_word_eqI)
  fix n
  assume "n < LENGTH(64)"
  then show "bit (shiftright128 lo hi s) n = bit (of_nat ((unat lo + 2 ^ 64 * unat hi) div 2 ^ s) :: u64) n"
    using assms bit_double_word [of lo hi "s + n"]
    by (auto simp: shiftright128_def bit_or_iff bit_drop_bit_eq bit_push_bit_iff bit_of_nat_iff possible_bit_word
          drop_bit_eq_div [symmetric] add.commute not_le dest: bit_imp_le_length)
qed

lemma shiftleft128_value:
  assumes "0 < s" "s < 64"
  shows "shiftleft128 lo hi s = of_nat ((unat lo + 2 ^ 64 * unat hi) div 2 ^ (64 - s))"
  using shiftright128_value [of "64 - s" lo hi] assms
  by (simp add: shiftleft128_def shiftright128_def or.commute)

section \<open>The replacements for aarch64\<close>

lemma aarch64_agree:
  assumes "\<not> (b_in \<and> src2 = 0xFFFFFFFFFFFFFFFF)"
  shows "addcarry_u64_aarch64 b_in src1 src2 = addcarry_u64 b_in src1 src2"
    "subborrow_u64_aarch64 b_in src1 src2 = subborrow_u64 b_in src1 src2"
proof -
  have u: "unat (src2 + (if b_in then 1 else 0)) = unat src2 + of_bool b_in"
    using assms unat_u64_less [of src2] by (auto simp: unat_word_ariths word_unat_eq_iff)
  have m: "unat (0xFFFFFFFFFFFFFFFF - src1) = 0xFFFFFFFFFFFFFFFF - unat src1"
    using unat_u64_le [of src1] by (subst unat_sub) (simp_all add: word_le_nat_alt)
  show "addcarry_u64_aarch64 b_in src1 src2 = addcarry_u64 b_in src1 src2"
    using unat_u64_le [of src1] unfolding addcarry_u64_aarch64_def addcarry_u64_def word_less_nat_alt u m by auto
  show "subborrow_u64_aarch64 b_in src1 src2 = subborrow_u64 b_in src1 src2"
    unfolding subborrow_u64_aarch64_def subborrow_u64_def word_less_nat_alt u by (auto simp: diff_diff_eq)
qed

section \<open>Carries on aarch64\<close>

text \<open>
  C27: the replacements of the carry intrinsics for aarch64 agree with the instructions exactly if there is no
  carry in or the second operand is not the largest word; otherwise they lose the carry or borrow.\<close>

theorem aarch64_carry_lost:
  "(addcarry_u64_aarch64 b_in src1 src2 = addcarry_u64 b_in src1 src2 \<longleftrightarrow> \<not> (b_in \<and> src2 = 0xFFFFFFFFFFFFFFFF)) \<and>
   (subborrow_u64_aarch64 b_in src1 src2 = subborrow_u64 b_in src1 src2 \<longleftrightarrow> \<not> (b_in \<and> src2 = 0xFFFFFFFFFFFFFFFF))"
proof (cases "b_in \<and> src2 = 0xFFFFFFFFFFFFFFFF")
  case True
  then show ?thesis
    using unat_u64_less [of src1] by (simp add: addcarry_u64_aarch64_def addcarry_u64_def subborrow_u64_aarch64_def subborrow_u64_def word_less_nat_alt)
qed (use aarch64_agree in blast)

end
