(* ===== verification/Fp1271.thy ===== *)
theory Fp1271
  imports Multiprecision "HOL-Library.Numeral_Type"
begin

text \<open>
  Arithmetic modulo the prime 2^127 - 1 as in \<open>dispatcher/src/crypto/k12_and_key_utils.h\<close>, on field elements
  of two 64-bit words.  The abstract side is the ring \<open>gfp\<close> of the residues; \<open>fpv\<close> maps the words to it.
  Every operation maps words of at most 127 bits to words of at most 127 bits (\<open>felm_ok\<close>) and is a
  homomorphism for \<open>fpv\<close>, which is the interface \<open>ring_image\<close>; zero has the two representations 0 and 2^127 - 1 until mod1271 is applied.
\<close>

section \<open>Field elements\<close>

type_synonym felm_t = "u64 \<times> u64"

definition add128 :: "felm_t \<Rightarrow> felm_t \<Rightarrow> felm_t" where
  "add128 a b =
     (let (c0, s0) = addcarry_u64 False (fst a) (fst b); (c1, s1) = addcarry_u64 c0 (snd a) (snd b) in (s0, s1))"

definition sub128 :: "felm_t \<Rightarrow> felm_t \<Rightarrow> felm_t" where
  "sub128 a b =
     (let (c0, s0) = subborrow_u64 False (fst a) (fst b); (c1, s1) = subborrow_u64 c0 (snd a) (snd b) in (s0, s1))"

definition mod1271 :: "felm_t \<Rightarrow> felm_t" where
  "mod1271 a =
     (let a1 = sub128 a (0xFFFFFFFFFFFFFFFF, 0x7FFFFFFFFFFFFFFF);
          mask = 0 - drop_bit 63 (snd a1)
      in add128 a1 (mask, 0x7FFFFFFFFFFFFFFF AND mask))"

definition fpadd1271 :: "felm_t \<Rightarrow> felm_t \<Rightarrow> felm_t" where
  "fpadd1271 a b =
     (let c = add128 a b in add128 (fst c, snd c AND 0x7FFFFFFFFFFFFFFF) (drop_bit 63 (snd c), 0))"

definition fpsub1271 :: "felm_t \<Rightarrow> felm_t \<Rightarrow> felm_t" where
  "fpsub1271 a b =
     (let c = sub128 a b in sub128 (fst c, snd c AND 0x7FFFFFFFFFFFFFFF) (drop_bit 63 (snd c), 0))"

definition fpneg1271 :: "felm_t \<Rightarrow> felm_t" where
  "fpneg1271 a = (NOT (fst a), 0x7FFFFFFFFFFFFFFF - snd a)"

text \<open>The reduction that ends the multiplication and the squaring, from the words of the partial products.\<close>

definition fpreduce :: "u64 \<Rightarrow> felm_t \<Rightarrow> felm_t \<Rightarrow> felm_t" where
  "fpreduce tt1 tt2 tt3 =
     (let tt3a = (fst tt3, shiftleft128 (fst tt3) (snd tt3) 1);
          tt3b = add128 (shiftright128 (fst tt2) (snd tt2) 63, drop_bit 63 (snd tt2)) (push_bit 1 (fst tt3a), snd tt3a);
          tt1a = add128 (tt1, fst tt2 AND 0x7FFFFFFFFFFFFFFF) tt3b
      in add128 (fst tt1a, snd tt1a AND 0x7FFFFFFFFFFFFFFF) (drop_bit 63 (snd tt1a), 0))"

definition fpmul1271 :: "felm_t \<Rightarrow> felm_t \<Rightarrow> felm_t" where
  "fpmul1271 a b =
     (let (tt1, h) = umul128 (fst a) (fst b);
          tt2 = umul128 (fst a) (snd b);
          tt2a = add128 tt2 (h, 0);
          tt3 = umul128 (snd a) (fst b);
          tt2b = add128 tt2a tt3;
          tt3a = umul128 (snd a) (snd b)
      in fpreduce tt1 tt2b tt3a)"

definition fpsqr1271 :: "felm_t \<Rightarrow> felm_t" where
  "fpsqr1271 a =
     (let (tt1, h) = umul128 (fst a) (fst a);
          tt2 = umul128 (fst a) (snd a);
          tt3 = add128 tt2 (h, 0);
          tt2a = add128 tt2 tt3;
          tt3a = umul128 (snd a) (snd a)
      in fpreduce tt1 tt2a tt3a)"

definition fpexp1251 :: "felm_t \<Rightarrow> felm_t" where
  "fpexp1251 a =
     (let t2 = fpsqr1271 a;
          t2 = fpmul1271 a t2;
          t3 = fpsqr1271 t2;
          t3 = fpsqr1271 t3;
          t3 = fpmul1271 t2 t3;
          t4 = fpsqr1271 t3;
          t4 = fpsqr1271 t4;
          t4 = fpsqr1271 t4;
          t4 = fpsqr1271 t4;
          t4 = fpmul1271 t3 t4;
          t5 = fpsqr1271 t4;
          t5 = (fpsqr1271 ^^ 7) t5;
          t5 = fpmul1271 t4 t5;
          t2 = fpsqr1271 t5;
          t2 = (fpsqr1271 ^^ 15) t2;
          t2 = fpmul1271 t5 t2;
          t1 = fpsqr1271 t2;
          t1 = (fpsqr1271 ^^ 31) t1;
          t1 = fpmul1271 t2 t1;
          t1 = (fpsqr1271 ^^ 32) t1;
          t1 = fpmul1271 t1 t2;
          t1 = (fpsqr1271 ^^ 16) t1;
          t1 = fpmul1271 t5 t1;
          t1 = (fpsqr1271 ^^ 8) t1;
          t1 = fpmul1271 t4 t1;
          t1 = (fpsqr1271 ^^ 4) t1;
          t1 = fpmul1271 t3 t1;
          t1 = fpsqr1271 t1
      in fpmul1271 a t1)"

text \<open>Division by two of one component: an odd element becomes even by adding 2^127 - 1.\<close>

definition fpdiv1271 :: "felm_t \<Rightarrow> felm_t" where
  "fpdiv1271 a =
     (let mask = 0 - (1 AND fst a);
          temp = add128 a (mask, drop_bit 1 mask)
      in (shiftright128 (fst temp) (snd temp) 1, drop_bit 1 (snd temp)))"

section \<open>The residues modulo 2^127 - 1\<close>

typedef gfp = "{0 ..< 2 ^ 127 - 1 :: int}"
  by (rule exI [of _ 0]) simp

instantiation gfp :: "{zero, one, plus, times, uminus, minus}"
begin

definition zero_gfp :: gfp where "0 = Abs_gfp 0"
definition one_gfp :: gfp where "1 = Abs_gfp 1"
definition plus_gfp :: "gfp \<Rightarrow> gfp \<Rightarrow> gfp" where "x + y = Abs_gfp ((Rep_gfp x + Rep_gfp y) mod (2 ^ 127 - 1))"
definition times_gfp :: "gfp \<Rightarrow> gfp \<Rightarrow> gfp" where "x * y = Abs_gfp ((Rep_gfp x * Rep_gfp y) mod (2 ^ 127 - 1))"
definition uminus_gfp :: "gfp \<Rightarrow> gfp" where "- x = Abs_gfp ((- Rep_gfp x) mod (2 ^ 127 - 1))"
definition minus_gfp :: "gfp \<Rightarrow> gfp \<Rightarrow> gfp" where "x - y = Abs_gfp ((Rep_gfp x - Rep_gfp y) mod (2 ^ 127 - 1))"

instance ..

end

interpretation gfp: mod_type "2 ^ 127 - 1" Rep_gfp Abs_gfp
  by (rule mod_type.intro) (rule type_definition_gfp, simp, rule zero_gfp_def, rule one_gfp_def, rule plus_gfp_def,
    rule times_gfp_def, rule minus_gfp_def, rule uminus_gfp_def)

instance gfp :: comm_ring_1
  by (rule gfp.comm_ring_1)

interpretation gfp: mod_ring "2 ^ 127 - 1" Rep_gfp Abs_gfp ..

lemma of_nat_p_eq_0: "(of_nat (2 ^ 127 - 1) :: gfp) = 0"
  by (simp add: gfp.of_nat_eq zero_gfp_def)

lemma two_127: "(2 :: gfp) ^ 127 = 1"
proof -
  have "(2 :: gfp) ^ 127 = of_nat (2 ^ 127 - 1 + 1)" by simp
  also have "\<dots> = 1" unfolding of_nat_add of_nat_p_eq_0 by simp
  finally show ?thesis .
qed

lemma of_nat_gfp_eq_iff: "(of_nat m :: gfp) = of_nat n \<longleftrightarrow> m mod (2 ^ 127 - 1) = n mod (2 ^ 127 - 1)"
proof -
  have "(of_nat m :: gfp) = of_nat n \<longleftrightarrow> int m mod (2 ^ 127 - 1) = int n mod (2 ^ 127 - 1)"
    by (metis gfp.Rep_Abs_mod gfp.of_nat_eq)
  also have "\<dots> \<longleftrightarrow> int (m mod (2 ^ 127 - 1)) = int (n mod (2 ^ 127 - 1))"
    by (simp add: zmod_int)
  finally show ?thesis by simp
qed

section \<open>Values of double words\<close>

definition fval :: "felm_t \<Rightarrow> nat" where
  "fval a = unat (fst a) + 2 ^ 64 * unat (snd a)"

definition felm_ok :: "felm_t \<Rightarrow> bool" where
  "felm_ok a \<longleftrightarrow> fval a < 2 ^ 127"

definition fpv :: "felm_t \<Rightarrow> gfp" where
  "fpv a = of_nat (fval a)"

lemma fval_pair [simp]: "fval (a, b) = unat a + 2 ^ 64 * unat b"
  by (simp add: fval_def)

lemma fval_less: "fval a < 2 ^ 128"
  using unat_u64_le [of "fst a"] unat_u64_le [of "snd a"] by (simp add: fval_def)

lemma fval_inject: "fval a = fval b \<longleftrightarrow> a = b"
proof
  assume e: "fval a = fval b"
  have m: "fval c mod 2 ^ 64 = unat (fst c)" "fval c div 2 ^ 64 = unat (snd c)" for c
    using unat_u64_less [of "fst c"] by (simp_all add: fval_def)
  have "unat (fst a) = unat (fst b)" "unat (snd a) = unat (snd b)"
    unfolding m [symmetric] by (simp_all only: e)
  then show "a = b" by (simp add: prod_eq_iff word_unat_eq_iff)
qed simp

lemma fval_add128: "fval (add128 a b) = (fval a + fval b) mod 2 ^ 128"
proof -
  obtain c0 s0 where 0: "addcarry_u64 False (fst a) (fst b) = (c0, s0)" by fastforce
  obtain c1 s1 where 1: "addcarry_u64 c0 (snd a) (snd b) = (c1, s1)" by fastforce
  have "fval (s0, s1) + 2 ^ 128 * of_bool c1 = fval a + fval b"
    using addcarry_u64_value [OF 0] addcarry_u64_value [OF 1] by (simp add: fval_def)
  moreover have "add128 a b = (s0, s1)" by (simp add: add128_def 0 1)
  ultimately show ?thesis using fval_less [of "(s0, s1)"] by (metis mod_less mod_mult_self2)
qed

lemma fval_sub128: "fval (sub128 a b) = (if fval b \<le> fval a then fval a - fval b else fval a + 2 ^ 128 - fval b)"
proof -
  obtain c0 s0 where 0: "subborrow_u64 False (fst a) (fst b) = (c0, s0)" by fastforce
  obtain c1 s1 where 1: "subborrow_u64 c0 (snd a) (snd b) = (c1, s1)" by fastforce
  have "fval (s0, s1) + fval b = fval a + 2 ^ 128 * of_bool c1"
    using subborrow_u64_value [OF 0] subborrow_u64_value [OF 1] by (simp add: fval_def)
  moreover have "sub128 a b = (s0, s1)" by (simp add: sub128_def 0 1)
  ultimately show ?thesis using fval_less [of "(s0, s1)"] fval_less [of b] fval_less [of a] by (cases c1) auto
qed

text \<open>The upper word without its first bit, and this bit.\<close>

lemma unat_and_low63: "unat (w AND 0x7FFFFFFFFFFFFFFF :: u64) = unat w mod 2 ^ 63"
proof -
  have "w AND 0x7FFFFFFFFFFFFFFF = take_bit 63 w" by (simp only: take_bit_eq_mask mask_eq_exp_minus_1) simp
  then show ?thesis by (simp only: unsigned_take_bit_eq take_bit_nat_def)
qed

lemma fval_div_127: "fval c div 2 ^ 127 = unat (snd c) div 2 ^ 63"
proof -
  have "fval c div 2 ^ 127 = fval c div 2 ^ 64 div 2 ^ 63" by (simp add: div_mult2_eq [symmetric])
  also have "fval c div 2 ^ 64 = unat (snd c)" using unat_u64_less [of "fst c"] by (simp add: fval_def)
  finally show ?thesis .
qed

lemma fval_low127: "fval (fst c, snd c AND 0x7FFFFFFFFFFFFFFF) = fval c mod 2 ^ 127"
proof -
  have "fval c = 2 ^ 127 * (unat (snd c) div 2 ^ 63) + (unat (fst c) + 2 ^ 64 * (unat (snd c) mod 2 ^ 63))"
    using arg_cong [OF mult_div_mod_eq [of "2 ^ 63" "unat (snd c)"], of "\<lambda>x. 2 ^ 64 * x"]
    unfolding fval_def distrib_left by (simp only: mult.assoc [symmetric]) simp
  moreover have "unat (fst c) + 2 ^ 64 * (unat (snd c) mod 2 ^ 63) < 2 ^ 127"
    using unat_u64_le [of "fst c"] mod_less_divisor [of "2 ^ 63" "unat (snd c)"] by simp
  ultimately show ?thesis by (simp add: unat_and_low63)
qed

text \<open>Adding the bits above the first 127 to the others keeps the residue.\<close>

definition fold127 :: "felm_t \<Rightarrow> felm_t" where
  "fold127 c = add128 (fst c, snd c AND 0x7FFFFFFFFFFFFFFF) (drop_bit 63 (snd c), 0)"

lemma fval_fold127: "fval (fold127 c) = fval c mod 2 ^ 127 + fval c div 2 ^ 127"
proof -
  have "fval c div 2 ^ 127 \<le> 1" using fval_less [of c] by (simp add: less_mult_imp_div_less less_Suc_eq_le [symmetric])
  then have "fval c mod 2 ^ 127 + fval c div 2 ^ 127 < 2 ^ 128"
    using mod_less_divisor [of "2 ^ 127" "fval c"] by simp
  moreover have "fval (drop_bit 63 (snd c), 0) = fval c div 2 ^ 127" unfolding fval_div_127 by (simp add: unat_drop_bit)
  ultimately show ?thesis unfolding fold127_def fval_add128 fval_low127 by simp
qed

lemma of_nat_fold: "(of_nat (n mod 2 ^ 127 + n div 2 ^ 127) :: gfp) = of_nat n"
proof -
  have "(of_nat n :: gfp) = of_nat (2 ^ 127 * (n div 2 ^ 127) + n mod 2 ^ 127)" by simp
  also have "\<dots> = of_nat (n mod 2 ^ 127 + n div 2 ^ 127)" 
    unfolding of_nat_add of_nat_mult of_nat_power of_nat_numeral two_127 by simp
  finally show ?thesis by simp
qed

lemma fold127_facts:
  assumes "fval c + 2 \<le> 2 ^ 128"
  shows "felm_ok (fold127 c)" "fpv (fold127 c) = of_nat (fval c)"
proof -
  show "fpv (fold127 c) = of_nat (fval c)" by (simp only: fpv_def fval_fold127 of_nat_fold)
  show "felm_ok (fold127 c)"
  proof (cases "fval c < 2 ^ 127")
    case False
    then have "fval c div 2 ^ 127 = 1" "fval c mod 2 ^ 127 = fval c - 2 ^ 127"
      using assms by (simp_all add: div_nat_eqI mod_nat_eqI)
    then show ?thesis using assms False by (simp only: felm_ok_def fval_fold127) simp
  qed (simp add: felm_ok_def fval_fold127)
qed

section \<open>The operations compute modulo 2^127 - 1\<close>

lemma fpadd1271_facts:
  assumes "felm_ok a" "felm_ok b"
  shows "felm_ok (fpadd1271 a b)" "fpv (fpadd1271 a b) = fpv a + fpv b"
proof -
  have f: "fpadd1271 a b = fold127 (add128 a b)" by (simp add: fpadd1271_def fold127_def Let_def)
  have v: "fval (add128 a b) = fval a + fval b" using assms by (simp add: fval_add128 felm_ok_def)
  then have "fval (add128 a b) + 2 \<le> 2 ^ 128" using assms by (simp add: felm_ok_def)
  then show "felm_ok (fpadd1271 a b)" "fpv (fpadd1271 a b) = fpv a + fpv b"
    using fold127_facts [of "add128 a b"] v by (simp_all add: f fpv_def)
qed

lemma fval_fpsub1271:
  assumes "felm_ok a" "felm_ok b"
  shows "fval (fpsub1271 a b) = (if fval b \<le> fval a then fval a - fval b else fval a + (2 ^ 127 - 1) - fval b)"
proof -
  let ?c = "sub128 a b"
  have lo: "fval (drop_bit 63 (snd ?c), 0) = fval ?c div 2 ^ 127" unfolding fval_div_127 by (simp add: unat_drop_bit)
  have r: "fval (fpsub1271 a b) =
      (if fval ?c div 2 ^ 127 \<le> fval ?c mod 2 ^ 127 then fval ?c mod 2 ^ 127 - fval ?c div 2 ^ 127
       else fval ?c mod 2 ^ 127 + 2 ^ 128 - fval ?c div 2 ^ 127)"
    unfolding fpsub1271_def Let_def fval_sub128 [of "(fst (sub128 a b), snd (sub128 a b) AND 0x7FFFFFFFFFFFFFFF)"] lo fval_low127 ..
  show ?thesis
  proof (cases "fval b \<le> fval a")
    case True
    then have "fval ?c < 2 ^ 127" using assms by (simp add: fval_sub128 felm_ok_def)
    then show ?thesis using r True by (simp add: fval_sub128)
  next
    case False
    then have "fval ?c = fval a + 2 ^ 128 - fval b" by (simp add: fval_sub128)
    moreover from this have "fval ?c div 2 ^ 127 = 1" "fval ?c mod 2 ^ 127 = fval a + 2 ^ 127 - fval b"
      using assms False by (auto simp: felm_ok_def intro!: div_nat_eqI mod_nat_eqI)
    ultimately have "fval (fpsub1271 a b) = fval a + 2 ^ 127 - fval b - 1" using r False assms by (auto simp: felm_ok_def)
    then show ?thesis using False by simp
  qed
qed

lemma fpsub1271_facts:
  assumes "felm_ok a" "felm_ok b"
  shows "felm_ok (fpsub1271 a b)" "fpv (fpsub1271 a b) = fpv a - fpv b"
proof -
  show "felm_ok (fpsub1271 a b)" using assms by (auto simp: felm_ok_def fval_fpsub1271)
  show "fpv (fpsub1271 a b) = fpv a - fpv b"
  proof (cases "fval b \<le> fval a")
    case False
    have le: "fval b \<le> fval a + (2 ^ 127 - 1)" using assms by (simp add: felm_ok_def)
    have "fpv (fpsub1271 a b) = of_nat (fval a + (2 ^ 127 - 1) - fval b)"
      using False assms by (simp add: fpv_def fval_fpsub1271)
    also have "\<dots> = of_nat (fval a) + of_nat (2 ^ 127 - 1) - of_nat (fval b)" unfolding of_nat_diff [OF le] of_nat_add ..
    finally show ?thesis unfolding of_nat_p_eq_0 by (simp add: fpv_def)
  qed (use assms in \<open>simp add: fpv_def fval_fpsub1271 of_nat_diff\<close>)
qed

lemma minus_one_u64: "(- 1 :: u64) = 0xFFFFFFFFFFFFFFFF"
  by simp

lemma fval_fpneg1271: "felm_ok a \<Longrightarrow> fval (fpneg1271 a) = 2 ^ 127 - 1 - fval a"
proof -
  assume a: "felm_ok a"
  then have h: "unat (snd a) \<le> 0x7FFFFFFFFFFFFFFF" by (simp add: felm_ok_def fval_def)
  have "NOT (fst a) = 0xFFFFFFFFFFFFFFFF - fst a" unfolding not_eq_complement minus_one_u64 [symmetric] by simp
  then have "unat (NOT (fst a)) = 0xFFFFFFFFFFFFFFFF - unat (fst a)"
    using unat_sub [of "fst a" "0xFFFFFFFFFFFFFFFF"] unat_u64_le [of "fst a"] by (simp add: word_le_nat_alt)
  moreover have "unat (0x7FFFFFFFFFFFFFFF - snd a) = 0x7FFFFFFFFFFFFFFF - unat (snd a)"
    using h by (subst unat_sub) (simp_all add: word_le_nat_alt)
  ultimately show ?thesis using h unat_u64_le [of "fst a"] by (simp add: fpneg1271_def fval_def)
qed

lemma fpneg1271_facts:
  assumes "felm_ok a"
  shows "felm_ok (fpneg1271 a)" "fpv (fpneg1271 a) = - fpv a"
proof -
  show "felm_ok (fpneg1271 a)" using assms by (simp add: felm_ok_def fval_fpneg1271)
  have "fval a \<le> 2 ^ 127 - 1" using assms by (simp add: felm_ok_def)
  then have "(of_nat (2 ^ 127 - 1 - fval a) :: gfp) = of_nat (2 ^ 127 - 1) - of_nat (fval a)" by (rule of_nat_diff)
  then show "fpv (fpneg1271 a) = - fpv a" using assms unfolding of_nat_p_eq_0 by (simp add: fpv_def fval_fpneg1271)
qed

lemma fval_mod1271: "felm_ok a \<Longrightarrow> fval (mod1271 a) = fval a mod (2 ^ 127 - 1)"
proof -
  assume a: "felm_ok a"
  let ?a = "sub128 a (0xFFFFFFFFFFFFFFFF, 0x7FFFFFFFFFFFFFFF)"
  have p: "fval (0xFFFFFFFFFFFFFFFF, 0x7FFFFFFFFFFFFFFF) = 2 ^ 127 - 1" by simp
  have top: "unat (drop_bit 63 (snd ?a)) = fval ?a div 2 ^ 127" by (simp only: fval_div_127 unat_drop_bit)
  show ?thesis
  proof (cases "fval a = 2 ^ 127 - 1")
    case True
    then have "fval ?a = 0" unfolding fval_sub128 p by simp
    moreover from this have "drop_bit 63 (snd ?a) = 0" using top by (simp add: word_unat_eq_iff)
    ultimately show ?thesis using True by (simp add: mod1271_def Let_def fval_add128)
  next
    case False
    then have v: "fval ?a = fval a + 2 ^ 127 + 1" using a unfolding fval_sub128 p by (simp add: felm_ok_def)
    then have "fval ?a div 2 ^ 127 = 1" using a False by (auto simp: felm_ok_def intro!: div_nat_eqI)
    then have "drop_bit 63 (snd ?a) = 1" using top by (simp add: word_unat_eq_iff)
    then have "fval (mod1271 a) = (fval ?a + (2 ^ 127 - 1)) mod 2 ^ 128"
      by (simp only: mod1271_def Let_def fval_add128 diff_0 minus_one_u64) simp
    then show ?thesis using v a False by (simp add: felm_ok_def)
  qed
qed

lemma mod1271_facts:
  assumes "felm_ok a"
  shows "felm_ok (mod1271 a)" "fpv (mod1271 a) = fpv a" "fval (mod1271 a) < 2 ^ 127 - 1"
  using assms by (simp_all add: felm_ok_def fpv_def fval_mod1271 of_nat_gfp_eq_iff)

section \<open>Multiplication\<close>

lemma fval_shiftright:
  assumes "0 < s" "s < 64"
  shows "fval (shiftright128 (fst t) (snd t) s, drop_bit s (snd t)) = fval t div 2 ^ s"
proof -
  have "fval t div 2 ^ s div 2 ^ 64 = fval t div 2 ^ 64 div 2 ^ s" by (simp add: div_mult2_eq [symmetric] mult.commute)
  also have "fval t div 2 ^ 64 = unat (snd t)" using unat_u64_less [of "fst t"] by (simp add: fval_def)
  finally have "unat (drop_bit s (snd t)) = fval t div 2 ^ s div 2 ^ 64" by (simp only: unat_drop_bit)
  moreover have "unat (shiftright128 (fst t) (snd t) s) = fval t div 2 ^ s mod 2 ^ 64"
    using assms by (simp add: shiftright128_value unat_of_nat fval_def)
  ultimately show ?thesis by simp
qed

lemma div_mod_63: "2 ^ 63 * k * (n div 2 ^ 63) + k * (n mod 2 ^ 63) = k * (n :: nat)"
  by (metis distrib_left mult.assoc mult.left_commute mult_div_mod_eq)

lemma fval_double:
  assumes "fval t < 2 ^ 127"
  shows "fval (push_bit 1 (fst t), shiftleft128 (fst t) (snd t) 1) = 2 * fval t"
proof -
  have "fval t div 2 ^ 63 < 2 ^ 64" using assms by (simp add: less_mult_imp_div_less)
  then have h: "unat (shiftleft128 (fst t) (snd t) 1) = fval t div 2 ^ 63"
    by (simp add: shiftleft128_value unat_of_nat fval_def)
  have "unat (push_bit 1 (fst t)) = 2 * unat (fst t) mod 2 ^ 64"
    by (simp add: push_bit_eq_mult unat_word_ariths mult.commute)
  also have "\<dots> = 2 * (unat (fst t) mod 2 ^ 63)" using mult_mod_right [of 2 "unat (fst t)" "2 ^ 63"] by simp
  also have "unat (fst t) mod 2 ^ 63 = fval t mod 2 ^ 63"
    by (simp add: fval_def mod_add_right_eq [symmetric] mod_mult_left_eq [symmetric])
  finally have "fval (push_bit 1 (fst t), shiftleft128 (fst t) (snd t) 1) = 2 ^ 63 * 2 * (fval t div 2 ^ 63) + 2 * (fval t mod 2 ^ 63)"
    using h by simp
  then show ?thesis by (simp only: div_mod_63)
qed

lemma fpreduce_facts:
  assumes "fval tt2 + 2 * 2 ^ 64 \<le> 2 ^ 128" "fval tt3 \<le> (2 ^ 63 - 1) * (2 ^ 63 - 1)"
  shows "felm_ok (fpreduce tt1 tt2 tt3)"
    "fpv (fpreduce tt1 tt2 tt3) = of_nat (unat tt1 + 2 ^ 64 * fval tt2 + 2 ^ 128 * fval tt3)"
proof -
  define q where "q = fval tt2 div 2 ^ 63"
  define r where "r = fval tt2 mod 2 ^ 63"
  have q: "q + 4 \<le> 2 ^ 65" using assms(1) by (simp add: q_def less_mult_imp_div_less less_Suc_eq_le [symmetric])
  have r: "r < 2 ^ 63" by (simp add: r_def)
  let ?b = "add128 (shiftright128 (fst tt2) (snd tt2) 63, drop_bit 63 (snd tt2))
      (push_bit 1 (fst tt3), shiftleft128 (fst tt3) (snd tt3) 1)"
  have b: "fval ?b = q + 2 * fval tt3"
    using assms(2) q fval_double [of tt3] fval_shiftright [of 63 tt2] by (simp add: fval_add128 q_def)
  let ?c = "add128 (tt1, fst tt2 AND 0x7FFFFFFFFFFFFFFF) ?b"
  have "unat (fst tt2 AND 0x7FFFFFFFFFFFFFFF) = r"
    by (simp add: unat_and_low63 r_def fval_def mod_add_right_eq [symmetric] mod_mult_left_eq [symmetric])
  then have c: "fval ?c = unat tt1 + 2 ^ 64 * r + (q + 2 * fval tt3)" and ok: "fval ?c + 2 \<le> 2 ^ 128"
    using b q r assms(2) unat_u64_le [of tt1] by (simp_all add: fval_add128)
  have f: "fpreduce tt1 tt2 tt3 = fold127 ?c" by (simp add: fpreduce_def fold127_def Let_def)
  show "felm_ok (fpreduce tt1 tt2 tt3)" using fold127_facts(1) [OF ok] f by simp
  have "unat tt1 + 2 ^ 64 * fval tt2 + 2 ^ 128 * fval tt3 = unat tt1 + 2 ^ 64 * r + 2 ^ 127 * (q + 2 * fval tt3)"
    using div_mod_63 [of "2 ^ 64" "fval tt2", symmetric] by (simp add: q_def r_def)
  also have "(of_nat \<dots> :: gfp) = of_nat (fval ?c)"
    unfolding c of_nat_add of_nat_mult of_nat_power of_nat_numeral two_127 by simp
  finally show "fpv (fpreduce tt1 tt2 tt3) = of_nat (unat tt1 + 2 ^ 64 * fval tt2 + 2 ^ 128 * fval tt3)"
    using fold127_facts(2) [OF ok] f by simp
qed

lemma fval_umul128 [simp]: "fval (umul128 x y) = unat x * unat y"
  using umul128_value [of x y "fst (umul128 x y)" "snd (umul128 x y)"] by (simp add: fval_def)

lemma felm_ok_snd: "felm_ok a \<Longrightarrow> unat (snd a) \<le> 2 ^ 63 - 1"
  by (simp add: felm_ok_def fval_def)

lemma middle_bound:
  assumes "felm_ok a" "felm_ok b"
  shows "unat (fst a) * unat (snd b) + unat (snd a) * unat (fst b) + unat (snd (umul128 (fst a) (fst b))) + 2 * 2 ^ 64 \<le> 2 ^ 128"
proof -
  have "fval (umul128 (fst a) (fst b)) \<le> (2 ^ 64 - 1) * (2 ^ 64 - 1)"
    using unat_u64_le [of "fst a"] unat_u64_le [of "fst b"] unfolding fval_umul128 by (intro mult_le_mono) simp_all
  then have "unat (snd (umul128 (fst a) (fst b))) \<le> 2 ^ 64 - 2" by (simp add: fval_def)
  moreover have "unat (fst a) * unat (snd b) \<le> (2 ^ 64 - 1) * (2 ^ 63 - 1)" "unat (snd a) * unat (fst b) \<le> (2 ^ 63 - 1) * (2 ^ 64 - 1)"
    using unat_u64_le [of "fst a"] unat_u64_le [of "fst b"] felm_ok_snd assms by (intro mult_le_mono; simp)+
  ultimately show ?thesis by simp
qed

lemma upper_bound: "felm_ok a \<Longrightarrow> felm_ok b \<Longrightarrow> fval (umul128 (snd a) (snd b)) \<le> (2 ^ 63 - 1) * (2 ^ 63 - 1)"
  unfolding fval_umul128 by (intro mult_le_mono felm_ok_snd)

lemma product_words:
  "unat (fst (umul128 (fst a) (fst b))) + 2 ^ 64 * (unat (fst a) * unat (snd b) + unat (snd a) * unat (fst b) + unat (snd (umul128 (fst a) (fst b)))) +
     2 ^ 128 * (unat (snd a) * unat (snd b)) = fval a * fval b"
proof -
  have "fval a * fval b = unat (fst a) * unat (fst b) + 2 ^ 64 * (unat (fst a) * unat (snd b) + unat (snd a) * unat (fst b)) +
      2 ^ 128 * (unat (snd a) * unat (snd b))"
    unfolding fval_def by (simp add: algebra_simps)
  moreover have "unat (fst a) * unat (fst b) = unat (fst (umul128 (fst a) (fst b))) + 2 ^ 64 * unat (snd (umul128 (fst a) (fst b)))"
    using fval_umul128 [of "fst a" "fst b"] by (simp only: fval_def)
  ultimately show ?thesis by (simp add: algebra_simps)
qed

lemma fpmul1271_facts:
  assumes "felm_ok a" "felm_ok b"
  shows "felm_ok (fpmul1271 a b)" "fpv (fpmul1271 a b) = fpv a * fpv b"
proof -
  let ?h = "snd (umul128 (fst a) (fst b))"
  let ?t = "add128 (add128 (umul128 (fst a) (snd b)) (?h, 0)) (umul128 (snd a) (fst b))"
  have t: "fval ?t = unat (fst a) * unat (snd b) + unat (snd a) * unat (fst b) + unat ?h" and le: "fval ?t + 2 * 2 ^ 64 \<le> 2 ^ 128"
    using middle_bound [OF assms] by (simp_all add: fval_add128)
  have m: "fpmul1271 a b = fpreduce (fst (umul128 (fst a) (fst b))) ?t (umul128 (snd a) (snd b))"
    by (simp add: fpmul1271_def Let_def case_prod_beta)
  show "felm_ok (fpmul1271 a b)" unfolding m by (rule fpreduce_facts(1) [OF le upper_bound [OF assms]])
  show "fpv (fpmul1271 a b) = fpv a * fpv b"
    unfolding m fpreduce_facts(2) [OF le upper_bound [OF assms]] t fval_umul128 product_words by (simp add: fpv_def)
qed

text \<open>The squaring adds the middle product twice; it is the multiplication of an element by itself.\<close>

lemma fpsqr1271_mul:
  assumes "felm_ok a"
  shows "fpsqr1271 a = fpmul1271 a a"
proof -
  let ?h = "snd (umul128 (fst a) (fst a))" and ?t = "umul128 (fst a) (snd a)"
  have "fval (add128 ?t (add128 ?t (?h, 0))) = fval (add128 (add128 ?t (?h, 0)) (umul128 (snd a) (fst a)))"
    using middle_bound [OF assms assms] by (simp add: fval_add128 mult.commute add.commute)
  then have "add128 ?t (add128 ?t (?h, 0)) = add128 (add128 ?t (?h, 0)) (umul128 (snd a) (fst a))"
    by (rule fval_inject [THEN iffD1])
  then show ?thesis by (simp add: fpsqr1271_def fpmul1271_def Let_def case_prod_beta)
qed

lemma fpsqr1271_facts:
  assumes "felm_ok a"
  shows "felm_ok (fpsqr1271 a)" "fpv (fpsqr1271 a) = fpv a ^ 2"
  using fpmul1271_facts [OF assms assms] by (simp_all add: fpsqr1271_mul [OF assms] power2_eq_square)

section \<open>The interface of the arithmetic\<close>

lemmas fp_facts = fpadd1271_facts fpsub1271_facts fpneg1271_facts fpmul1271_facts fpsqr1271_facts

text \<open>Representations \<open>ok\<close> of the elements of a commutative ring, with the operations of the source.\<close>

locale ring_image =
  fixes ok :: "'r \<Rightarrow> bool" and val :: "'r \<Rightarrow> 'a :: comm_ring_1"
    and add sub mul :: "'r \<Rightarrow> 'r \<Rightarrow> 'r" and sqr neg :: "'r \<Rightarrow> 'r"
  assumes ok_add: "ok a \<Longrightarrow> ok b \<Longrightarrow> ok (add a b)" and val_add: "ok a \<Longrightarrow> ok b \<Longrightarrow> val (add a b) = val a + val b"
    and ok_sub: "ok a \<Longrightarrow> ok b \<Longrightarrow> ok (sub a b)" and val_sub: "ok a \<Longrightarrow> ok b \<Longrightarrow> val (sub a b) = val a - val b"
    and ok_mul: "ok a \<Longrightarrow> ok b \<Longrightarrow> ok (mul a b)" and val_mul: "ok a \<Longrightarrow> ok b \<Longrightarrow> val (mul a b) = val a * val b"
    and ok_sqr: "ok a \<Longrightarrow> ok (sqr a)" and val_sqr: "ok a \<Longrightarrow> val (sqr a) = val a ^ 2"
    and ok_neg: "ok a \<Longrightarrow> ok (neg a)" and val_neg: "ok a \<Longrightarrow> val (neg a) = - val a"
begin

lemmas image_simps = ok_add val_add ok_sub val_sub ok_mul val_mul ok_sqr val_sqr ok_neg val_neg

text \<open>A chain of squarings and the product of powers, as exponentiations use them.\<close>

lemma iter_sqr: "ok a \<Longrightarrow> ok ((sqr ^^ n) a) \<and> val ((sqr ^^ n) a) = val a ^ (2 ^ n)"
  by (induction n) (simp_all add: image_simps power_mult [symmetric] mult.commute)

text \<open>The Karatsuba form of the mixed product.\<close>

lemma karatsuba:
  assumes "ok a0" "ok a1" "ok b0" "ok b1"
  shows "val (sub (sub (mul (add a0 a1) (add b0 b1)) (mul a0 b0)) (mul a1 b1)) = val a0 * val b1 + val a1 * val b0"
  using assms by (simp add: image_simps algebra_simps)

lemma square_halves:
  assumes "ok a0" "ok a1"
  shows "val (mul (add a0 a1) (sub a0 a1)) = val a0 ^ 2 - val a1 ^ 2"
    "val (add (mul a0 a1) (mul a0 a1)) = 2 * (val a0 * val a1)"
  using assms by (simp_all add: image_simps power2_eq_square algebra_simps)

end

interpretation fp: ring_image felm_ok fpv fpadd1271 fpsub1271 fpmul1271 fpsqr1271 fpneg1271
  by unfold_locales (simp_all add: fp_facts)

section \<open>Powers and halves\<close>

lemma fpexp1251_facts:
  assumes "felm_ok a"
  shows "felm_ok (fpexp1251 a) \<and> fpv (fpexp1251 a) = fpv a ^ (2 ^ 125 - 1)"
proof -
  note it = fp.iter_sqr [THEN conjunct1] fp.iter_sqr [THEN conjunct2]
  show ?thesis
    unfolding fpexp1251_def Let_def
    by (simp add: assms fp_facts it power_mult [symmetric] power_add [symmetric] power_Suc [symmetric] del: power_Suc)
qed

lemma fpdiv1271_facts:
  assumes "felm_ok a"
  shows "felm_ok (fpdiv1271 a)" "2 * fpv (fpdiv1271 a) = fpv a"
proof -
  let ?m = "0 - (1 AND fst a) :: u64"
  have par: "odd (unat (fst a)) \<longleftrightarrow> odd (fval a)" by (simp add: fval_def)
  have one: "1 AND fst a = of_bool (odd (unat (fst a)))" by (simp add: one_and_eq odd_iff_mod_2_eq_one word_unat_eq_iff unat_of_bool unat_mod)
  have m: "fval (?m, drop_bit 1 ?m) = (if odd (fval a) then 2 ^ 127 - 1 else 0)"
    unfolding one par by (simp only: diff_0 minus_one_u64 of_bool_def split: if_splits) simp
  let ?t = "add128 a (?m, drop_bit 1 ?m)"
  have t: "fval ?t = fval a + (if odd (fval a) then 2 ^ 127 - 1 else 0)"
    using assms unfolding fval_add128 m by (simp add: felm_ok_def)
  have d: "fval (fpdiv1271 a) = fval ?t div 2"
    using fval_shiftright [of 1 ?t] by (simp add: fpdiv1271_def Let_def)
  have "fval ?t < 2 * 2 ^ 127" using assms unfolding felm_ok_def t by auto
  then show "felm_ok (fpdiv1271 a)" unfolding felm_ok_def d by simp
  have "2 * fval (fpdiv1271 a) = fval ?t" unfolding d t by simp
  then have "2 * fpv (fpdiv1271 a) = of_nat (fval ?t)" unfolding fpv_def by (metis of_nat_mult of_nat_numeral)
  also have "\<dots> = of_nat (fval a) + of_nat (if odd (fval a) then 2 ^ 127 - 1 else 0)" unfolding t of_nat_add ..
  also have "(of_nat (if odd (fval a) then 2 ^ 127 - 1 else 0) :: gfp) = 0" using of_nat_p_eq_0 by (cases "odd (fval a)") simp_all
  finally show "2 * fpv (fpdiv1271 a) = fpv a" by (simp add: fpv_def)
qed

lemma fpv_int: "fpv a = of_int z \<longleftrightarrow> int (fval a) mod (2 ^ 127 - 1) = z mod (2 ^ 127 - 1)"
  by (metis fpv_def gfp.Rep_Abs_mod gfp.of_int_eq of_int_of_nat_eq)

lemma fpv_of_int: "fpv a = of_int (int (fval a))"
  by (simp add: fpv_def)

text \<open>
  C21: the arithmetic on two words is the arithmetic modulo the prime 2^127 - 1: on arguments of at most 127
  bits, addition, subtraction, multiplication and squaring return at most 127 bits, and their value is that of
  the integer operation modulo 2^127 - 1.\<close>

theorem fp1271_arithmetic:
  assumes "felm_ok a" "felm_ok b"
  shows "felm_ok (fpadd1271 a b) \<and> felm_ok (fpsub1271 a b) \<and> felm_ok (fpmul1271 a b) \<and> felm_ok (fpsqr1271 a) \<and>
    int (fval (fpadd1271 a b)) mod (2 ^ 127 - 1) = (int (fval a) + int (fval b)) mod (2 ^ 127 - 1) \<and>
    int (fval (fpsub1271 a b)) mod (2 ^ 127 - 1) = (int (fval a) - int (fval b)) mod (2 ^ 127 - 1) \<and>
    int (fval (fpmul1271 a b)) mod (2 ^ 127 - 1) = (int (fval a) * int (fval b)) mod (2 ^ 127 - 1) \<and>
    int (fval (fpsqr1271 a)) mod (2 ^ 127 - 1) = int (fval a) ^ 2 mod (2 ^ 127 - 1)"
  unfolding fpv_int [symmetric] of_int_add of_int_diff of_int_mult of_int_power fpv_of_int [symmetric]
  using assms by (simp add: fp.image_simps)

theorem fp1271_arithmetic_witness:
  "int (fval (fpmul1271 (0xFFFFFFFFFFFFFFFF, 0x7FFFFFFFFFFFFFFE) (0, 2))) mod (2 ^ 127 - 1) =
   (int (fval (0xFFFFFFFFFFFFFFFF, 0x7FFFFFFFFFFFFFFE)) * int (fval (0, 2))) mod (2 ^ 127 - 1)"
proof -
  have "felm_ok (0xFFFFFFFFFFFFFFFF, 0x7FFFFFFFFFFFFFFE)" "felm_ok (0, 2)" by (simp_all add: felm_ok_def)
  from fp1271_arithmetic [OF this] show ?thesis by blast
qed

end
