(* ===== verification/Fp2_1271.thy ===== *)
theory Fp2_1271
  imports Fp1271
begin

text \<open>
  The quadratic extension of \<open>dispatcher/src/crypto/k12_and_key_utils.h\<close>: pairs of field elements with
  i^2 = -1.  The abstract side is the ring \<open>gfp2\<close>; \<open>fp2v\<close> maps pairs of words to it, and the operations
  are an instance of the interface \<open>ring_image\<close>, like those of the base field.
\<close>

section \<open>Operations\<close>

type_synonym f2elm_t = "felm_t \<times> felm_t"

definition fp2div1271 :: "f2elm_t \<Rightarrow> f2elm_t" where
  "fp2div1271 a = (fpdiv1271 (fst a), fpdiv1271 (snd a))"

definition fp2neg1271 :: "f2elm_t \<Rightarrow> f2elm_t" where
  "fp2neg1271 a = (fpneg1271 (fst a), fpneg1271 (snd a))"

definition fp2sqr1271 :: "f2elm_t \<Rightarrow> f2elm_t" where
  "fp2sqr1271 a =
     (let t1 = fpadd1271 (fst a) (snd a);
          t2 = fpsub1271 (fst a) (snd a);
          t3 = fpmul1271 (fst a) (snd a)
      in (fpmul1271 t1 t2, fpadd1271 t3 t3))"

definition fp2mul1271 :: "f2elm_t \<Rightarrow> f2elm_t \<Rightarrow> f2elm_t" where
  "fp2mul1271 a b =
     (let t1 = fpmul1271 (fst a) (fst b);
          t2 = fpmul1271 (snd a) (snd b);
          t3 = fpadd1271 (fst a) (snd a);
          t4 = fpadd1271 (fst b) (snd b);
          c0 = fpsub1271 t1 t2;
          t3 = fpmul1271 t3 t4;
          t3 = fpsub1271 t3 t1
      in (c0, fpsub1271 t3 t2))"

definition fp2add1271 :: "f2elm_t \<Rightarrow> f2elm_t \<Rightarrow> f2elm_t" where
  "fp2add1271 a b = (fpadd1271 (fst a) (fst b), fpadd1271 (snd a) (snd b))"

definition fp2sub1271 :: "f2elm_t \<Rightarrow> f2elm_t \<Rightarrow> f2elm_t" where
  "fp2sub1271 a b = (fpsub1271 (fst a) (fst b), fpsub1271 (snd a) (snd b))"

text \<open>The source overwrites its first argument with the doubled element; both results are returned.\<close>

definition fp2addsub1271 :: "f2elm_t \<Rightarrow> f2elm_t \<Rightarrow> f2elm_t \<times> f2elm_t" where
  "fp2addsub1271 a b = (let a1 = fp2add1271 a a in (a1, fp2sub1271 a1 b))"

section \<open>The ring\<close>

datatype gfp2 = GFp2 (re: gfp) (im: gfp)

instantiation gfp2 :: comm_ring_1
begin

definition zero_gfp2 :: gfp2 where "0 = GFp2 0 0"
definition one_gfp2 :: gfp2 where "1 = GFp2 1 0"
definition plus_gfp2 :: "gfp2 \<Rightarrow> gfp2 \<Rightarrow> gfp2" where "x + y = GFp2 (re x + re y) (im x + im y)"
definition uminus_gfp2 :: "gfp2 \<Rightarrow> gfp2" where "- x = GFp2 (- re x) (- im x)"
definition minus_gfp2 :: "gfp2 \<Rightarrow> gfp2 \<Rightarrow> gfp2" where "x - y = GFp2 (re x - re y) (im x - im y)"
definition times_gfp2 :: "gfp2 \<Rightarrow> gfp2 \<Rightarrow> gfp2" where
  "x * y = GFp2 (re x * re y - im x * im y) (re x * im y + im x * re y)"

instance
  by standard (auto simp: zero_gfp2_def one_gfp2_def plus_gfp2_def uminus_gfp2_def minus_gfp2_def times_gfp2_def
    algebra_simps)

end

lemmas gfp2_defs = zero_gfp2_def one_gfp2_def plus_gfp2_def uminus_gfp2_def minus_gfp2_def times_gfp2_def

section \<open>The operations are those of the ring\<close>

definition f2elm_ok :: "f2elm_t \<Rightarrow> bool" where
  "f2elm_ok a \<longleftrightarrow> felm_ok (fst a) \<and> felm_ok (snd a)"

definition fp2v :: "f2elm_t \<Rightarrow> gfp2" where
  "fp2v a = GFp2 (fpv (fst a)) (fpv (snd a))"

lemmas fp2_defs = f2elm_ok_def fp2v_def gfp2_defs

lemma fp2mul1271_facts:
  assumes "f2elm_ok a" "f2elm_ok b"
  shows "f2elm_ok (fp2mul1271 a b)" "fp2v (fp2mul1271 a b) = fp2v a * fp2v b"
  using assms fp.karatsuba [of "fst a" "snd a" "fst b" "snd b"]
  by (simp_all add: fp2_defs fp2mul1271_def Let_def fp.image_simps)

lemma fp2sqr1271_facts:
  assumes "f2elm_ok a"
  shows "f2elm_ok (fp2sqr1271 a)" "fp2v (fp2sqr1271 a) = fp2v a ^ 2"
  using assms fp.square_halves [of "fst a" "snd a"]
  by (simp_all add: fp2_defs fp2sqr1271_def Let_def fp.image_simps power2_eq_square mult.commute)

lemma fp2_linear_facts:
  assumes "f2elm_ok a" "f2elm_ok b"
  shows "f2elm_ok (fp2add1271 a b)" "fp2v (fp2add1271 a b) = fp2v a + fp2v b"
    "f2elm_ok (fp2sub1271 a b)" "fp2v (fp2sub1271 a b) = fp2v a - fp2v b"
    "f2elm_ok (fp2neg1271 a)" "fp2v (fp2neg1271 a) = - fp2v a"
  using assms by (simp_all add: fp2_defs fp2add1271_def fp2sub1271_def fp2neg1271_def fp.image_simps)

interpretation fp2: ring_image f2elm_ok fp2v fp2add1271 fp2sub1271 fp2mul1271 fp2sqr1271 fp2neg1271
  by unfold_locales (simp_all add: fp2mul1271_facts fp2sqr1271_facts fp2_linear_facts)

lemma fp2div1271_facts:
  assumes "f2elm_ok a"
  shows "f2elm_ok (fp2div1271 a)" "2 * fp2v (fp2div1271 a) = fp2v a"
proof -
  show "f2elm_ok (fp2div1271 a)" using assms by (simp add: f2elm_ok_def fp2div1271_def fpdiv1271_facts)
  have h: "fpv (fpdiv1271 x) + fpv (fpdiv1271 x) = fpv x" if "felm_ok x" for x
    using fpdiv1271_facts(2) [OF that] by (simp only: mult_2)
  show "2 * fp2v (fp2div1271 a) = fp2v a"
    using assms unfolding mult_2 by (simp add: f2elm_ok_def fp2v_def plus_gfp2_def fp2div1271_def h)
qed

end
