(* ===== verification/FourQ.thy ===== *)
theory FourQ
  imports Fp2_1271
begin

text \<open>
  Points of the curve FourQ in \<open>dispatcher/src/crypto/k12_and_key_utils.h\<close>: the representations, the
  conversions between them, doubling, addition and mixed addition, negation, validation and normalisation.
  The formulas are related to the addition law of the twisted Edwards curve -x^2 + y^2 = 1 + d x^2 y^2.
  An assignment to a field of a point is an update of its record, in the order of the source.
\<close>

section \<open>Points\<close>

record point_affine =
  pa_x :: f2elm_t
  pa_y :: f2elm_t

record point_extproj =
  pe_x :: f2elm_t
  pe_y :: f2elm_t
  pe_z :: f2elm_t
  pe_ta :: f2elm_t
  pe_tb :: f2elm_t

record point_extproj_precomp =
  pp_xy :: f2elm_t
  pp_yx :: f2elm_t
  pp_z2 :: f2elm_t
  pp_t2 :: f2elm_t

record point_precomp =
  pq_xy :: f2elm_t
  pq_yx :: f2elm_t
  pq_t2 :: f2elm_t

definition PARAMETER_d :: f2elm_t where
  "PARAMETER_d = ((0x0000000000000142, 0x00000000000000E4), (0xB3821488F1FC0C8D, 0x5E472F846657E0FC))"

definition f2elm_one :: f2elm_t where
  "f2elm_one = ((1, 0), (0, 0))"

definition eccnorm :: "point_extproj \<Rightarrow> point_affine" where
  "eccnorm P =
     (let t10 = fpsqr1271 (fst (pe_z P));
          t11 = fpsqr1271 (snd (pe_z P));
          t10 = fpadd1271 t10 t11;
          t11 = fpexp1251 t10;
          t11 = fpsqr1271 t11;
          t11 = fpsqr1271 t11;
          t10 = fpmul1271 t10 t11;
          z1 = fpneg1271 (snd (pe_z P));
          z0 = fpmul1271 (fst (pe_z P)) t10;
          z1 = fpmul1271 z1 t10;
          x = fp2mul1271 (pe_x P) (z0, z1);
          y = fp2mul1271 (pe_y P) (z0, z1)
      in \<lparr>pa_x = (mod1271 (fst x), mod1271 (snd x)), pa_y = (mod1271 (fst y), mod1271 (snd y))\<rparr>)"

definition R1_to_R2 :: "point_extproj \<Rightarrow> point_extproj_precomp" where
  "R1_to_R2 P =
     (let t2 = fp2add1271 (pe_ta P) (pe_ta P);
          xy = fp2add1271 (pe_x P) (pe_y P);
          yx = fp2sub1271 (pe_y P) (pe_x P);
          t2 = fp2mul1271 t2 (pe_tb P);
          z2 = fp2add1271 (pe_z P) (pe_z P);
          t2 = fp2mul1271 t2 PARAMETER_d
      in \<lparr>pp_xy = xy, pp_yx = yx, pp_z2 = z2, pp_t2 = t2\<rparr>)"

definition R1_to_R3 :: "point_extproj \<Rightarrow> point_extproj_precomp" where
  "R1_to_R3 P =
     \<lparr>pp_xy = fp2add1271 (pe_x P) (pe_y P), pp_yx = fp2sub1271 (pe_y P) (pe_x P),
      pp_z2 = pe_z P, pp_t2 = fp2mul1271 (pe_ta P) (pe_tb P)\<rparr>"

definition R2_to_R4 :: "point_extproj_precomp \<Rightarrow> point_extproj \<Rightarrow> point_extproj" where
  "R2_to_R4 P Q =
     Q\<lparr>pe_x := fp2sub1271 (pp_xy P) (pp_yx P), pe_y := fp2add1271 (pp_xy P) (pp_yx P), pe_z := pp_z2 P\<rparr>"

definition eccdouble :: "point_extproj \<Rightarrow> point_extproj" where
  "eccdouble P =
     (let t1 = fp2sqr1271 (pe_x P);
          t2 = fp2sqr1271 (pe_y P);
          P = P\<lparr>pe_x := fp2add1271 (pe_x P) (pe_y P)\<rparr>;
          P = P\<lparr>pe_tb := fp2add1271 t1 t2\<rparr>;
          t1 = fp2sub1271 t2 t1;
          P = P\<lparr>pe_ta := fp2sqr1271 (pe_x P)\<rparr>;
          t2 = fp2sqr1271 (pe_z P);
          P = P\<lparr>pe_ta := fp2sub1271 (pe_ta P) (pe_tb P)\<rparr>;
          t2 = snd (fp2addsub1271 t2 t1);
          P = P\<lparr>pe_y := fp2mul1271 t1 (pe_tb P)\<rparr>;
          P = P\<lparr>pe_x := fp2mul1271 t2 (pe_ta P)\<rparr>
      in P\<lparr>pe_z := fp2mul1271 t1 t2\<rparr>)"

definition eccadd_core :: "point_extproj_precomp \<Rightarrow> point_extproj_precomp \<Rightarrow> point_extproj" where
  "eccadd_core P Q =
     (let z = fp2mul1271 (pp_t2 P) (pp_t2 Q);
          t1 = fp2mul1271 (pp_z2 P) (pp_z2 Q);
          x = fp2mul1271 (pp_xy P) (pp_xy Q);
          y = fp2mul1271 (pp_yx P) (pp_yx Q);
          t2 = fp2sub1271 t1 z;
          t1 = fp2add1271 t1 z;
          tb = fp2sub1271 x y;
          ta = fp2add1271 x y;
          x = fp2mul1271 tb t2;
          z = fp2mul1271 t1 t2;
          y = fp2mul1271 ta t1
      in \<lparr>pe_x = x, pe_y = y, pe_z = z, pe_ta = ta, pe_tb = tb\<rparr>)"

definition eccadd :: "point_extproj_precomp \<Rightarrow> point_extproj \<Rightarrow> point_extproj" where
  "eccadd Q P = eccadd_core Q (R1_to_R3 P)"

definition point_setup :: "point_affine \<Rightarrow> point_extproj" where
  "point_setup P = \<lparr>pe_x = pa_x P, pe_y = pa_y P, pe_z = f2elm_one, pe_ta = pa_x P, pe_tb = pa_y P\<rparr>"

definition zeroTest :: "felm_t \<Rightarrow> bool" where
  "zeroTest t \<longleftrightarrow> fst t OR snd t = 0 \<or> (fst t + 1) OR (snd t + 1) = 0"

definition ecc_point_validate :: "point_extproj \<Rightarrow> bool" where
  "ecc_point_validate P =
     (let t1 = fp2sqr1271 (pe_y P);
          t2 = fp2sqr1271 (pe_x P);
          t3 = fp2sub1271 t1 t2;
          t1 = fp2mul1271 t1 t2;
          t2 = fp2mul1271 t1 PARAMETER_d;
          t1 = f2elm_one;
          t2 = fp2add1271 t2 t1;
          t1 = fp2sub1271 t3 t2
      in zeroTest (fst t1) \<and> zeroTest (snd t1))"

definition eccmadd :: "point_precomp \<Rightarrow> point_extproj \<Rightarrow> point_extproj" where
  "eccmadd Q P =
     (let P = P\<lparr>pe_ta := fp2mul1271 (pe_ta P) (pe_tb P)\<rparr>;
          t1 = fp2add1271 (pe_z P) (pe_z P);
          P = P\<lparr>pe_ta := fp2mul1271 (pe_ta P) (pq_t2 Q)\<rparr>;
          P = P\<lparr>pe_z := fp2add1271 (pe_x P) (pe_y P)\<rparr>;
          P = P\<lparr>pe_tb := fp2sub1271 (pe_y P) (pe_x P)\<rparr>;
          t2 = fp2sub1271 t1 (pe_ta P);
          t1 = fp2add1271 t1 (pe_ta P);
          P = P\<lparr>pe_ta := fp2mul1271 (pq_xy Q) (pe_z P)\<rparr>;
          P = P\<lparr>pe_x := fp2mul1271 (pq_yx Q) (pe_tb P)\<rparr>;
          P = P\<lparr>pe_z := fp2mul1271 t1 t2\<rparr>;
          P = P\<lparr>pe_tb := fp2sub1271 (pe_ta P) (pe_x P)\<rparr>;
          P = P\<lparr>pe_ta := fp2add1271 (pe_ta P) (pe_x P)\<rparr>;
          P = P\<lparr>pe_x := fp2mul1271 (pe_tb P) t2\<rparr>
      in P\<lparr>pe_y := fp2mul1271 (pe_ta P) t1\<rparr>)"

definition eccneg_extproj_precomp :: "point_extproj_precomp \<Rightarrow> point_extproj_precomp" where
  "eccneg_extproj_precomp P = \<lparr>pp_xy = pp_yx P, pp_yx = pp_xy P, pp_z2 = pp_z2 P, pp_t2 = fp2neg1271 (pp_t2 P)\<rparr>"

definition eccneg_precomp :: "point_precomp \<Rightarrow> point_precomp" where
  "eccneg_precomp P = \<lparr>pq_xy = pq_yx P, pq_yx = pq_xy P, pq_t2 = fp2neg1271 (pq_t2 P)\<rparr>"

section \<open>What a representation stands for\<close>

abbreviation curve_d :: gfp2 where
  "curve_d \<equiv> fp2v PARAMETER_d"

definition on_curve :: "gfp2 \<Rightarrow> gfp2 \<Rightarrow> bool" where
  "on_curve x y \<longleftrightarrow> - (x ^ 2) + y ^ 2 = 1 + curve_d * x ^ 2 * y ^ 2"

definition extproj_ok :: "point_extproj \<Rightarrow> bool" where
  "extproj_ok P \<longleftrightarrow> f2elm_ok (pe_x P) \<and> f2elm_ok (pe_y P) \<and> f2elm_ok (pe_z P) \<and> f2elm_ok (pe_ta P) \<and> f2elm_ok (pe_tb P)"

definition precomp_ok :: "point_extproj_precomp \<Rightarrow> bool" where
  "precomp_ok P \<longleftrightarrow> f2elm_ok (pp_xy P) \<and> f2elm_ok (pp_yx P) \<and> f2elm_ok (pp_z2 P) \<and> f2elm_ok (pp_t2 P)"

text \<open>The extended coordinates \<open>P\<close> stand for the affine point \<open>(x, y)\<close>: X = xZ, Y = yZ, Ta Tb = xyZ.\<close>

definition represents :: "point_extproj \<Rightarrow> gfp2 \<Rightarrow> gfp2 \<Rightarrow> bool" where
  "represents P x y \<longleftrightarrow> fp2v (pe_x P) = x * fp2v (pe_z P) \<and> fp2v (pe_y P) = y * fp2v (pe_z P) \<and>
     fp2v (pe_ta P) * fp2v (pe_tb P) = x * y * fp2v (pe_z P)"

text \<open>\<open>R\<close> is the sum of two affine points by the addition law of the curve, with common denominator
  \<open>Z = w (1 - D) (1 + D)\<close> for D = d x1 x2 y1 y2.\<close>

definition edwards_sum :: "point_extproj \<Rightarrow> gfp2 \<Rightarrow> gfp2 \<Rightarrow> gfp2 \<Rightarrow> gfp2 \<Rightarrow> gfp2 \<Rightarrow> bool" where
  "edwards_sum R w x1 y1 x2 y2 \<longleftrightarrow>
     (let D = curve_d * x1 * x2 * y1 * y2
      in fp2v (pe_x R) = w * (1 - D) * (x1 * y2 + y1 * x2) \<and>
         fp2v (pe_y R) = w * (1 + D) * (y1 * y2 + x1 * x2) \<and>
         fp2v (pe_z R) = w * (1 - D) * (1 + D) \<and>
         fp2v (pe_ta R) * fp2v (pe_tb R) = w * (x1 * y2 + y1 * x2) * (y1 * y2 + x1 * x2))"

lemma d_ok: "f2elm_ok PARAMETER_d" "f2elm_ok f2elm_one"
  by (simp_all add: f2elm_ok_def felm_ok_def PARAMETER_d_def f2elm_one_def)

lemma fp2v_one: "fp2v f2elm_one = 1"
  by (simp add: fp2v_def f2elm_one_def fpv_def one_gfp2_def)

lemmas ok_defs = extproj_ok_def precomp_ok_def

lemma R1_to_R2_facts:
  assumes "extproj_ok P"
  shows "precomp_ok (R1_to_R2 P)" "fp2v (pp_xy (R1_to_R2 P)) = fp2v (pe_x P) + fp2v (pe_y P)"
    "fp2v (pp_yx (R1_to_R2 P)) = fp2v (pe_y P) - fp2v (pe_x P)" "fp2v (pp_z2 (R1_to_R2 P)) = 2 * fp2v (pe_z P)"
    "fp2v (pp_t2 (R1_to_R2 P)) = 2 * curve_d * (fp2v (pe_ta P) * fp2v (pe_tb P))"
  using assms by (simp_all add: ok_defs R1_to_R2_def Let_def fp2.image_simps d_ok mult_2 algebra_simps)

lemma R1_to_R3_facts:
  assumes "extproj_ok P"
  shows "precomp_ok (R1_to_R3 P)" "fp2v (pp_xy (R1_to_R3 P)) = fp2v (pe_x P) + fp2v (pe_y P)"
    "fp2v (pp_yx (R1_to_R3 P)) = fp2v (pe_y P) - fp2v (pe_x P)" "fp2v (pp_z2 (R1_to_R3 P)) = fp2v (pe_z P)"
    "fp2v (pp_t2 (R1_to_R3 P)) = fp2v (pe_ta P) * fp2v (pe_tb P)"
  using assms by (simp_all add: ok_defs R1_to_R3_def fp2.image_simps)

lemma eccadd_core_facts:
  assumes "precomp_ok P" "precomp_ok Q"
  shows "extproj_ok (eccadd_core P Q)"
    "fp2v (pe_ta (eccadd_core P Q)) = fp2v (pp_xy P) * fp2v (pp_xy Q) + fp2v (pp_yx P) * fp2v (pp_yx Q)"
    "fp2v (pe_tb (eccadd_core P Q)) = fp2v (pp_xy P) * fp2v (pp_xy Q) - fp2v (pp_yx P) * fp2v (pp_yx Q)"
    "fp2v (pe_x (eccadd_core P Q)) = fp2v (pe_tb (eccadd_core P Q)) * (fp2v (pp_z2 P) * fp2v (pp_z2 Q) - fp2v (pp_t2 P) * fp2v (pp_t2 Q))"
    "fp2v (pe_y (eccadd_core P Q)) = fp2v (pe_ta (eccadd_core P Q)) * (fp2v (pp_z2 P) * fp2v (pp_z2 Q) + fp2v (pp_t2 P) * fp2v (pp_t2 Q))"
    "fp2v (pe_z (eccadd_core P Q)) = (fp2v (pp_z2 P) * fp2v (pp_z2 Q) + fp2v (pp_t2 P) * fp2v (pp_t2 Q)) *
       (fp2v (pp_z2 P) * fp2v (pp_z2 Q) - fp2v (pp_t2 P) * fp2v (pp_t2 Q))"
  using assms by (simp_all add: ok_defs eccadd_core_def Let_def fp2.image_simps)

lemma sum_sum: "(a + b) * (c + e) + (b - a) * (e - c) = 2 * (b * e + a * c :: 'a :: comm_ring_1)"
  by (simp add: algebra_simps)

lemma sum_diff: "(a + b) * (c + e) - (b - a) * (e - c) = 2 * (a * e + b * c :: 'a :: comm_ring_1)"
  by (simp add: algebra_simps)

section \<open>The addition law\<close>

lemma extproj_ok_eccadd: "extproj_ok P \<Longrightarrow> precomp_ok Q \<Longrightarrow> extproj_ok (eccadd Q P)"
  by (simp add: eccadd_def eccadd_core_facts R1_to_R3_facts)

text \<open>The precomputed coordinates (X + Y, Y - X, 2Z, 2dT) of the affine point \<open>(x, y)\<close> with Z = \<open>w\<close>.\<close>

definition precomputes_proj :: "point_extproj_precomp \<Rightarrow> gfp2 \<Rightarrow> gfp2 \<Rightarrow> gfp2 \<Rightarrow> bool" where
  "precomputes_proj R w x y \<longleftrightarrow> precomp_ok R \<and> fp2v (pp_xy R) = (x + y) * w \<and> fp2v (pp_yx R) = (y - x) * w \<and>
     fp2v (pp_z2 R) = 2 * w \<and> fp2v (pp_t2 R) = 2 * curve_d * x * y * w"

lemma R1_to_R2_precomputes:
  assumes "extproj_ok Q" "represents Q x y"
  shows "precomputes_proj (R1_to_R2 Q) (fp2v (pe_z Q)) x y"
  using assms(2) unfolding precomputes_proj_def R1_to_R2_facts [OF assms(1)] represents_def
  by (simp add: R1_to_R2_facts(1) [OF assms(1)] algebra_simps)

lemma eccneg_precomputes_proj: "precomputes_proj R w x y \<Longrightarrow> precomputes_proj (eccneg_extproj_precomp R) w (- x) y"
  by (simp add: precomputes_proj_def eccneg_extproj_precomp_def precomp_ok_def fp2.image_simps add.commute)

lemma eccadd_precomputes:
  assumes "extproj_ok P" "represents P x1 y1" "precomputes_proj R W x2 y2"
  shows "edwards_sum (eccadd R P) (4 * fp2v (pe_z P) ^ 2 * W ^ 2) x1 y1 x2 y2"
proof -
  let ?R = "eccadd R P"
  define D where "D = curve_d * x1 * x2 * y1 * y2"
  define Z where "Z = fp2v (pe_z P)"
  note pre = assms(3) [unfolded precomputes_proj_def]
  have "precomp_ok R" using pre by blast
  note core = eccadd_core_facts [OF this R1_to_R3_facts(1) [OF assms(1)], folded eccadd_def]
  note rep = assms(2) [unfolded represents_def, folded Z_def]
  have "fp2v (pp_xy R) * fp2v (pp_xy (R1_to_R3 P)) = Z * W * ((x2 + y2) * (x1 + y1))"
      "fp2v (pp_yx R) * fp2v (pp_yx (R1_to_R3 P)) = Z * W * ((y2 - x2) * (y1 - x1))"
    unfolding R1_to_R3_facts [OF assms(1)] conjunct1 [OF rep] conjunct1 [OF conjunct2 [OF rep]]
      conjunct1 [OF conjunct2 [OF pre]] conjunct1 [OF conjunct2 [OF conjunct2 [OF pre]]] by (simp_all add: algebra_simps)
  then have ta: "fp2v (pe_ta ?R) = 2 * Z * W * (y1 * y2 + x1 * x2)" and tb: "fp2v (pe_tb ?R) = 2 * Z * W * (x1 * y2 + y1 * x2)"
    unfolding core(2,3) by (simp_all add: algebra_simps)
  have zt: "fp2v (pp_z2 R) * fp2v (pp_z2 (R1_to_R3 P)) = 2 * Z * W"
      "fp2v (pp_t2 R) * fp2v (pp_t2 (R1_to_R3 P)) = 2 * Z * W * D"
    using rep pre unfolding R1_to_R3_facts [OF assms(1)] D_def
    by (simp_all add: Z_def mult.assoc mult.left_commute mult.commute)
  show ?thesis
    unfolding edwards_sum_def Let_def D_def [symmetric] Z_def [symmetric] core(4,5,6) zt ta tb
    by (simp add: power2_eq_square algebra_simps)
qed

lemma eccadd_edwards:
  assumes "extproj_ok P" "extproj_ok Q" "represents P x1 y1" "represents Q x2 y2"
  shows "edwards_sum (eccadd (R1_to_R2 Q) P) (4 * fp2v (pe_z P) ^ 2 * fp2v (pe_z Q) ^ 2) x1 y1 x2 y2"
  by (rule eccadd_precomputes [OF assms(1,3) R1_to_R2_precomputes [OF assms(2,4)]])

lemma eccdouble_facts:
  assumes "extproj_ok P"
  shows "extproj_ok (eccdouble P)"
    "fp2v (pe_ta (eccdouble P)) = 2 * fp2v (pe_x P) * fp2v (pe_y P)"
    "fp2v (pe_tb (eccdouble P)) = fp2v (pe_x P) ^ 2 + fp2v (pe_y P) ^ 2"
    "fp2v (pe_x (eccdouble P)) = (2 * fp2v (pe_z P) ^ 2 - (fp2v (pe_y P) ^ 2 - fp2v (pe_x P) ^ 2)) * (2 * fp2v (pe_x P) * fp2v (pe_y P))"
    "fp2v (pe_y (eccdouble P)) = (fp2v (pe_y P) ^ 2 - fp2v (pe_x P) ^ 2) * (fp2v (pe_x P) ^ 2 + fp2v (pe_y P) ^ 2)"
    "fp2v (pe_z (eccdouble P)) = (fp2v (pe_y P) ^ 2 - fp2v (pe_x P) ^ 2) * (2 * fp2v (pe_z P) ^ 2 - (fp2v (pe_y P) ^ 2 - fp2v (pe_x P) ^ 2))"
proof -
  have sq: "(x + y) ^ 2 - (x ^ 2 + y ^ 2) = 2 * x * y" for x y :: gfp2 by (simp add: power2_eq_square algebra_simps)
  show "extproj_ok (eccdouble P)"
    "fp2v (pe_ta (eccdouble P)) = 2 * fp2v (pe_x P) * fp2v (pe_y P)"
    "fp2v (pe_tb (eccdouble P)) = fp2v (pe_x P) ^ 2 + fp2v (pe_y P) ^ 2"
    "fp2v (pe_x (eccdouble P)) = (2 * fp2v (pe_z P) ^ 2 - (fp2v (pe_y P) ^ 2 - fp2v (pe_x P) ^ 2)) * (2 * fp2v (pe_x P) * fp2v (pe_y P))"
    "fp2v (pe_y (eccdouble P)) = (fp2v (pe_y P) ^ 2 - fp2v (pe_x P) ^ 2) * (fp2v (pe_x P) ^ 2 + fp2v (pe_y P) ^ 2)"
    "fp2v (pe_z (eccdouble P)) = (fp2v (pe_y P) ^ 2 - fp2v (pe_x P) ^ 2) * (2 * fp2v (pe_z P) ^ 2 - (fp2v (pe_y P) ^ 2 - fp2v (pe_x P) ^ 2))"
    using assms by (simp_all add: ok_defs eccdouble_def fp2addsub1271_def Let_def fp2.image_simps sq mult_2 [symmetric])
qed

lemma eccdouble_edwards:
  assumes "extproj_ok P" "represents P x y" "on_curve x y"
  shows "edwards_sum (eccdouble P) (fp2v (pe_z P) ^ 4) x y x y"
proof -
  define D where "D = curve_d * x * x * y * y"
  define Z where "Z = fp2v (pe_z P)"
  note rep = assms(2) [unfolded represents_def, folded Z_def]
  have c: "y ^ 2 - x ^ 2 = 1 + D" using assms(3) by (simp add: on_curve_def D_def power2_eq_square algebra_simps)
  have d: "fp2v (pe_y P) ^ 2 - fp2v (pe_x P) ^ 2 = Z ^ 2 * (1 + D)"
    using rep unfolding c [symmetric] by (simp add: power2_eq_square algebra_simps)
  then have e: "2 * Z ^ 2 - (fp2v (pe_y P) ^ 2 - fp2v (pe_x P) ^ 2) = Z ^ 2 * (1 - D)" by (simp add: algebra_simps)
  have Z4: "Z ^ 4 = Z ^ 2 * Z ^ 2" by (simp add: power_add [symmetric])
  have s: "fp2v (pe_x P) ^ 2 + fp2v (pe_y P) ^ 2 = Z ^ 2 * (y * y + x * x)" "2 * fp2v (pe_x P) * fp2v (pe_y P) = Z ^ 2 * (x * y + y * x)"
    using rep by (simp_all add: power2_eq_square algebra_simps)
  show ?thesis
    unfolding edwards_sum_def Let_def D_def [symmetric] Z_def [symmetric]
    unfolding eccdouble_facts [OF assms(1)] Z_def [symmetric] e
    unfolding d s Z4 by (simp add: mult.assoc mult.left_commute mult.commute)
qed

text \<open>The precomputed affine point (x + y, y - x, 2dxy).\<close>

definition precomputes :: "point_precomp \<Rightarrow> gfp2 \<Rightarrow> gfp2 \<Rightarrow> bool" where
  "precomputes Q x y \<longleftrightarrow> f2elm_ok (pq_xy Q) \<and> f2elm_ok (pq_yx Q) \<and> f2elm_ok (pq_t2 Q) \<and>
     fp2v (pq_xy Q) = x + y \<and> fp2v (pq_yx Q) = y - x \<and> fp2v (pq_t2 Q) = 2 * curve_d * x * y"

lemma eccneg_precomp_precomputes: "precomputes Q x y \<Longrightarrow> precomputes (eccneg_precomp Q) (- x) y"
  by (simp add: precomputes_def eccneg_precomp_def fp2.image_simps)

lemma eccmadd_facts:
  assumes "extproj_ok P" "precomputes Q x2 y2"
  shows "extproj_ok (eccmadd Q P)"
    "fp2v (pe_ta (eccmadd Q P)) = (x2 + y2) * (fp2v (pe_x P) + fp2v (pe_y P)) + (y2 - x2) * (fp2v (pe_y P) - fp2v (pe_x P))"
    "fp2v (pe_tb (eccmadd Q P)) = (x2 + y2) * (fp2v (pe_x P) + fp2v (pe_y P)) - (y2 - x2) * (fp2v (pe_y P) - fp2v (pe_x P))"
    "fp2v (pe_x (eccmadd Q P)) = fp2v (pe_tb (eccmadd Q P)) * (2 * fp2v (pe_z P) - fp2v (pe_ta P) * fp2v (pe_tb P) * (2 * curve_d * x2 * y2))"
    "fp2v (pe_y (eccmadd Q P)) = fp2v (pe_ta (eccmadd Q P)) * (2 * fp2v (pe_z P) + fp2v (pe_ta P) * fp2v (pe_tb P) * (2 * curve_d * x2 * y2))"
    "fp2v (pe_z (eccmadd Q P)) = (2 * fp2v (pe_z P) + fp2v (pe_ta P) * fp2v (pe_tb P) * (2 * curve_d * x2 * y2)) *
       (2 * fp2v (pe_z P) - fp2v (pe_ta P) * fp2v (pe_tb P) * (2 * curve_d * x2 * y2))"
  using assms by (simp_all add: ok_defs precomputes_def eccmadd_def Let_def fp2.image_simps mult_2 [symmetric])

lemma eccmadd_edwards:
  assumes "extproj_ok P" "represents P x1 y1" "precomputes Q x2 y2"
  shows "edwards_sum (eccmadd Q P) (4 * fp2v (pe_z P) ^ 2) x1 y1 x2 y2"
proof -
  define D where "D = curve_d * x1 * x2 * y1 * y2"
  define Z where "Z = fp2v (pe_z P)"
  note rep = assms(2) [unfolded represents_def, folded Z_def]
  note madd = eccmadd_facts [OF assms(1,3)]
  have ta: "fp2v (pe_ta (eccmadd Q P)) = 2 * Z * (y1 * y2 + x1 * x2)"
    and tb: "fp2v (pe_tb (eccmadd Q P)) = 2 * Z * (x1 * y2 + y1 * x2)"
    using rep unfolding madd(2,3) sum_sum sum_diff by (simp_all add: algebra_simps)
  have t: "fp2v (pe_ta P) * fp2v (pe_tb P) * (2 * curve_d * x2 * y2) = 2 * Z * D"
    using rep by (simp add: D_def mult.assoc mult.left_commute mult.commute)
  show ?thesis
    unfolding edwards_sum_def Let_def D_def [symmetric] Z_def [symmetric]
    unfolding madd(4,5,6) t ta tb Z_def [symmetric] by (simp add: power2_eq_square algebra_simps)
qed

section \<open>Validation\<close>

lemma zeroTest_iff: "felm_ok t \<Longrightarrow> zeroTest t \<longleftrightarrow> fval t = 0"
proof -
  assume "felm_ok t"
  then have "unat (snd t) < 2 ^ 63" by (simp add: felm_ok_def fval_def)
  then have "unat (snd t + 1) \<noteq> 0" by (simp add: unat_word_ariths)
  then have "snd t + 1 \<noteq> 0" by (metis unat_0)
  then have "zeroTest t \<longleftrightarrow> fst t = 0 \<and> snd t = 0" by (simp add: zeroTest_def or_eq_0_iff)
  then show ?thesis by (simp add: fval_def unat_eq_0)
qed

text \<open>The difference that ecc_point_validate tests.\<close>

definition curveDifference :: "point_extproj \<Rightarrow> f2elm_t" where
  "curveDifference P =
     fp2sub1271 (fp2sub1271 (fp2sqr1271 (pe_y P)) (fp2sqr1271 (pe_x P)))
       (fp2add1271 (fp2mul1271 (fp2mul1271 (fp2sqr1271 (pe_y P)) (fp2sqr1271 (pe_x P))) PARAMETER_d) f2elm_one)"

lemma ecc_point_validate_difference:
  "ecc_point_validate P \<longleftrightarrow> zeroTest (fst (curveDifference P)) \<and> zeroTest (snd (curveDifference P))"
  by (simp add: ecc_point_validate_def curveDifference_def Let_def)

lemma curveDifference_facts:
  assumes "extproj_ok P"
  shows "f2elm_ok (curveDifference P)"
    "fp2v (curveDifference P) = 0 \<longleftrightarrow> on_curve (fp2v (pe_x P)) (fp2v (pe_y P))"
  using assms by (simp_all add: ok_defs curveDifference_def fp2.image_simps d_ok fp2v_one on_curve_def algebra_simps)

lemma fpv_eq_0_iff: "felm_ok t \<Longrightarrow> fpv t = 0 \<longleftrightarrow> fval t = 0 \<or> fval t = 2 ^ 127 - 1"
proof -
  assume t: "felm_ok t"
  have "fpv t = 0 \<longleftrightarrow> fval t mod (2 ^ 127 - 1) = 0" using of_nat_gfp_eq_iff [of "fval t" 0] by (simp add: fpv_def)
  also have "\<dots> \<longleftrightarrow> fval t = 0 \<or> fval t = 2 ^ 127 - 1"
  proof (cases "fval t < 2 ^ 127 - 1")
    case False
    then have "fval t = 2 ^ 127 - 1" using t by (simp add: felm_ok_def)
    then show ?thesis by simp
  qed auto
  finally show ?thesis .
qed

section \<open>Normalisation\<close>

lemma conjugate_product: "GFp2 a b * GFp2 (a * n) (- b * n) = GFp2 ((a ^ 2 + b ^ 2) * n) 0"
  by (simp add: times_gfp2_def power2_eq_square algebra_simps)

abbreviation norm :: "f2elm_t \<Rightarrow> gfp" where
  "norm z \<equiv> fpv (fst z) ^ 2 + fpv (snd z) ^ 2"

definition f2elm_reduced :: "f2elm_t \<Rightarrow> bool" where
  "f2elm_reduced a \<longleftrightarrow> fval (fst a) < 2 ^ 127 - 1 \<and> fval (snd a) < 2 ^ 127 - 1"

lemma eccnorm_facts:
  assumes "extproj_ok P"
  shows "fp2v (pa_x (eccnorm P)) * fp2v (pe_z P) = fp2v (pe_x P) * GFp2 (norm (pe_z P) ^ (2 ^ 127 - 2)) 0"
    "fp2v (pa_y (eccnorm P)) * fp2v (pe_z P) = fp2v (pe_y P) * GFp2 (norm (pe_z P) ^ (2 ^ 127 - 2)) 0"
    "f2elm_reduced (pa_x (eccnorm P)) \<and> f2elm_reduced (pa_y (eccnorm P))"
proof -
  let ?z = "pe_z P" and ?n = "norm (pe_z P)"
  define t where "t = fpadd1271 (fpsqr1271 (fst ?z)) (fpsqr1271 (snd ?z))"
  define u where "u = fpmul1271 t (fpsqr1271 (fpsqr1271 (fpexp1251 t)))"
  define i where "i = (fpmul1271 (fst ?z) u, fpmul1271 (fpneg1271 (snd ?z)) u)"
  have z: "felm_ok (fst ?z)" "felm_ok (snd ?z)" using assms by (simp_all add: ok_defs f2elm_ok_def)
  have t: "felm_ok t" "fpv t = ?n" using z by (simp_all add: t_def fp.image_simps)
  have u: "felm_ok u" "fpv u = ?n ^ (2 ^ 127 - 3)"
    using fpexp1251_facts [OF t(1)] t
    by (simp_all add: u_def fp.image_simps power_mult [symmetric] power_Suc [symmetric] del: power_Suc)
  have i: "f2elm_ok i" using z u by (simp add: i_def f2elm_ok_def fp.image_simps)
  have "fp2v ?z * fp2v i = GFp2 (?n * ?n ^ (2 ^ 127 - 3)) 0"
    using z u conjugate_product [of "fpv (fst ?z)" "fpv (snd ?z)"] by (simp add: fp2v_def i_def fp.image_simps)
  then have inv: "fp2v i * fp2v ?z = GFp2 (?n ^ (2 ^ 127 - 2)) 0"
    by (simp add: power_Suc [symmetric] mult.commute del: power_Suc)
  have m: "fp2v (mod1271 (fst w), mod1271 (snd w)) = fp2v w" "f2elm_reduced (mod1271 (fst w), mod1271 (snd w))" if "f2elm_ok w" for w
    using that mod1271_facts by (simp_all add: fp2v_def f2elm_ok_def f2elm_reduced_def)
  have xy: "f2elm_ok (pe_x P)" "f2elm_ok (pe_y P)" using assms by (simp_all add: ok_defs)
  have e: "eccnorm P = (let x = fp2mul1271 (pe_x P) i; y = fp2mul1271 (pe_y P) i
      in \<lparr>pa_x = (mod1271 (fst x), mod1271 (snd x)), pa_y = (mod1271 (fst y), mod1271 (snd y))\<rparr>)"
    by (simp add: eccnorm_def Let_def i_def u_def t_def)
  show "fp2v (pa_x (eccnorm P)) * fp2v ?z = fp2v (pe_x P) * GFp2 (?n ^ (2 ^ 127 - 2)) 0"
    "fp2v (pa_y (eccnorm P)) * fp2v ?z = fp2v (pe_y P) * GFp2 (?n ^ (2 ^ 127 - 2)) 0"
    "f2elm_reduced (pa_x (eccnorm P)) \<and> f2elm_reduced (pa_y (eccnorm P))"
    using xy i m by (simp_all add: e Let_def fp2.image_simps mult.assoc inv)
qed

text \<open>The neutral element (0, 1).\<close>

definition neutral :: point_affine where
  "neutral = \<lparr>pa_x = ((0, 0), (0, 0)), pa_y = f2elm_one\<rparr>"

lemma neutral_facts:
  "extproj_ok (point_setup neutral)" "represents (point_setup neutral) 0 1" "on_curve 0 1" "fp2v (pe_z (point_setup neutral)) = 1"
  by (simp_all add: extproj_ok_def represents_def on_curve_def point_setup_def neutral_def d_ok fp2v_one)
     (simp_all add: fp2v_def f2elm_ok_def felm_ok_def fpv_def zero_gfp2_def)

text \<open>
  C25: ecc_point_validate decides the curve equation up to one representation.  It accepts a point exactly if the
  point satisfies -x^2 + y^2 = 1 + d x^2 y^2 and neither component of the difference of the two sides comes out as
  2^127 - 1, the second representation of zero, which the test of the source does not recognise.\<close>

theorem ecc_point_validate_iff:
  assumes "extproj_ok P"
  shows "ecc_point_validate P \<longleftrightarrow> on_curve (fp2v (pe_x P)) (fp2v (pe_y P)) \<and>
    fval (fst (curveDifference P)) \<noteq> 2 ^ 127 - 1 \<and> fval (snd (curveDifference P)) \<noteq> 2 ^ 127 - 1"
proof -
  let ?d = "curveDifference P"
  have ok: "felm_ok (fst ?d)" "felm_ok (snd ?d)" using curveDifference_facts(1) [OF assms] by (simp_all add: f2elm_ok_def)
  have "on_curve (fp2v (pe_x P)) (fp2v (pe_y P)) \<longleftrightarrow> fpv (fst ?d) = 0 \<and> fpv (snd ?d) = 0"
    using curveDifference_facts(2) [OF assms] by (simp add: fp2v_def zero_gfp2_def)
  then show ?thesis
    unfolding ecc_point_validate_difference zeroTest_iff [OF ok(1)] zeroTest_iff [OF ok(2)] fpv_eq_0_iff [OF ok(1)] fpv_eq_0_iff [OF ok(2)]
    by auto
qed

theorem ecc_point_validate_iff_witness:
  "ecc_point_validate (point_setup neutral) \<longleftrightarrow> on_curve 0 1 \<and>
    fval (fst (curveDifference (point_setup neutral))) \<noteq> 2 ^ 127 - 1 \<and> fval (snd (curveDifference (point_setup neutral))) \<noteq> 2 ^ 127 - 1"
  using ecc_point_validate_iff [OF neutral_facts(1)] neutral_facts(2,4) by (simp add: represents_def)

end
