(* ===== verification/Montgomery.thy ===== *)
theory Montgomery
  imports Multiprecision
begin

text \<open>
  The 256-bit product and the Montgomery multiplication modulo the order of the curve in
  \<open>dispatcher/src/crypto/k12_and_key_utils.h\<close>.  A number of 256 bits is the tuple of its four words, the
  least significant one first.  The operands of \<open>+\<close> and \<open>-\<close> are evaluated from left to right, which the
  source relies on.
\<close>

section \<open>Numbers of four words\<close>

type_synonym u256 = "u64 \<times> u64 \<times> u64 \<times> u64"

definition curve_order :: u256 where
  "curve_order = (0x2FB2540EC7768CE7, 0xDFBD004DFE0F7999, 0xF05397829CBC14E5, 0x0029CBC14E5E0A72)"

definition MONTGOMERY_SMALL_R_PRIME :: u256 where
  "MONTGOMERY_SMALL_R_PRIME = (0xE12FE5F079BC3929, 0xD75E78B8D1FCDCF3, 0xBCE409ED76B5DB21, 0xF32702FDAFC1C074)"

definition Montgomery_Rprime :: u256 where
  "Montgomery_Rprime = (0xC81DB8795FF3D621, 0x173EA5AAEA6B387D, 0x3D01B7C72136F61C, 0x0006A5F16AC8F9D3)"

definition ONE :: u256 where
  "ONE = (1, 0, 0, 0)"

text \<open>A product with an addend: \<open>u = _addcarry_u64(0, _umul128(a, b, &uv), u, &c) + uv\<close> gives c and the new u.\<close>

definition mulAdd :: "u64 \<Rightarrow> u64 \<Rightarrow> u64 \<Rightarrow> u64 \<times> u64" where
  "mulAdd a b u = (let (lo, uv) = umul128 a b; (k, c) = addcarry_u64 False lo u in (c, of_bool k + uv))"

text \<open>The same with a carry that comes from adding \<open>v\<close> to a word of the result:
  \<open>u = _addcarry_u64(_addcarry_u64(0, c, v, &c), _umul128(a, b, &uv), u, &v) + uv\<close> gives c, v and u.\<close>

definition mulAddCarry :: "u64 \<Rightarrow> u64 \<Rightarrow> u64 \<Rightarrow> u64 \<Rightarrow> u64 \<Rightarrow> u64 \<times> u64 \<times> u64" where
  "mulAddCarry a b u c v =
     (let (k0, c') = addcarry_u64 False c v; (lo, uv) = umul128 a b; (k, v') = addcarry_u64 k0 lo u
      in (c', v', of_bool k + uv))"

text \<open>The first row of the product and the following ones, which add the product of one word to the words
  of the result from its position on.\<close>

definition firstRow :: "u64 \<Rightarrow> u256 \<Rightarrow> u64 \<times> u256" where
  "firstRow a = (\<lambda>(b0, b1, b2, b3).
     let (c0, u) = umul128 a b0;
         (c1, u) = mulAdd a b1 u;
         (c2, u) = mulAdd a b2 u;
         (c3, c4) = mulAdd a b3 u
     in (c0, c1, c2, c3, c4))"

definition nextRow :: "u64 \<Rightarrow> u256 \<Rightarrow> u256 \<Rightarrow> u64 \<times> u256" where
  "nextRow a = (\<lambda>(b0, b1, b2, b3) (c0, c1, c2, c3).
     let (lo, uv) = umul128 a b0;
         (k, c0) = addcarry_u64 False c0 lo;
         u = of_bool k + uv;
         (v, u) = mulAdd a b1 u;
         (c1, v, u) = mulAddCarry a b2 u c1 v;
         (c2, v, w) = mulAddCarry a b3 u c2 v;
         (k, c3) = addcarry_u64 False c3 v
     in (c0, c1, c2, c3, w + of_bool k))"

definition multiply :: "u256 \<Rightarrow> u256 \<Rightarrow> u256 \<times> u256" where
  "multiply = (\<lambda>(a0, a1, a2, a3) b.
     let (c0, c) = firstRow a0 b;
         (c1, c) = nextRow a1 b c;
         (c2, c) = nextRow a2 b c;
         (c3, c) = nextRow a3 b c
     in ((c0, c1, c2, c3), c))"

text \<open>The low half of the product with the Montgomery constant.\<close>

definition multiplyRprime :: "u256 \<Rightarrow> u256" where
  "multiplyRprime = (\<lambda>(P0, P1, P2, P3).
     let (R0, R1, R2, R3) = MONTGOMERY_SMALL_R_PRIME;
         (Q0, u) = umul128 P0 R0;
         (Q1, u) = mulAdd P0 R1 u;
         (Q2, u) = mulAdd P0 R2 u;
         Q3 = snd (addcarry_u64 False (P0 * R3) u);
         (lo, uv) = umul128 P1 R0;
         (k, Q1) = addcarry_u64 False Q1 lo;
         u = of_bool k + uv;
         (v, u) = mulAdd P1 R1 u;
         (k, Q2) = addcarry_u64 False Q2 v;
         v = snd (addcarry_u64 k (P1 * R2) u);
         Q3 = snd (addcarry_u64 False Q3 v);
         (lo, uv) = umul128 P2 R0;
         (k, Q2) = addcarry_u64 False Q2 lo;
         u = of_bool k + uv;
         v = snd (addcarry_u64 False (P2 * R1) u);
         Q3 = snd (addcarry_u64 False Q3 v);
         Q3 = snd (addcarry_u64 False Q3 (P3 * R0))
     in (Q0, Q1, Q2, Q3))"

definition addCarry256 :: "bool \<Rightarrow> u256 \<Rightarrow> u256 \<Rightarrow> bool \<times> u256" where
  "addCarry256 k = (\<lambda>(a0, a1, a2, a3) (b0, b1, b2, b3).
     let (k, c0) = addcarry_u64 k a0 b0;
         (k, c1) = addcarry_u64 k a1 b1;
         (k, c2) = addcarry_u64 k a2 b2;
         (k, c3) = addcarry_u64 k a3 b3
     in (k, c0, c1, c2, c3))"

definition subBorrow256 :: "u256 \<Rightarrow> u256 \<Rightarrow> bool \<times> u256" where
  "subBorrow256 = (\<lambda>(a0, a1, a2, a3) (b0, b1, b2, b3).
     let (k, c0) = subborrow_u64 False a0 b0;
         (k, c1) = subborrow_u64 k a1 b1;
         (k, c2) = subborrow_u64 k a2 b2;
         (k, c3) = subborrow_u64 k a3 b3
     in (k, c0, c1, c2, c3))"

definition Montgomery_multiply_mod_order :: "u256 \<Rightarrow> u256 \<Rightarrow> u256" where
  "Montgomery_multiply_mod_order ma mb =
     (let P = (if mb = (1, 0, 0, 0) then (ma, (0, 0, 0, 0)) else multiply ma mb);
          Q = multiplyRprime (fst P);
          temp = multiply Q curve_order;
          (k, tempLow) = addCarry256 False (fst P) (fst temp);
          (carry, tempHigh) = addCarry256 k (snd P) (snd temp);
          (borrow, mc) = subBorrow256 tempHigh curve_order
      in if carry \<noteq> borrow then snd (addCarry256 False mc curve_order) else mc)"

section \<open>Values\<close>

definition val256 :: "u256 \<Rightarrow> nat" where
  "val256 = (\<lambda>(a0, a1, a2, a3). unat a0 + 2 ^ 64 * unat a1 + 2 ^ 128 * unat a2 + 2 ^ 192 * unat a3)"

lemma val256_simp [simp]: "val256 (a0, a1, a2, a3) = unat a0 + 2 ^ 64 * unat a1 + 2 ^ 128 * unat a2 + 2 ^ 192 * unat a3"
  by (simp add: val256_def)

lemma val256_less: "val256 a < 2 ^ 256"
proof -
  obtain a0 a1 a2 a3 where "a = (a0, a1, a2, a3)" by (cases a)
  then show ?thesis
    using unat_u64_le [of a0] unat_u64_le [of a1] unat_u64_le [of a2] unat_u64_le [of a3] by simp
qed

lemma unat_carry_add:
  assumes "unat uv \<le> 2 ^ 64 - 2"
  shows "unat (of_bool k + uv :: u64) = of_bool k + unat uv"
  using assms by (cases k) (simp_all add: unat_word_ariths)

lemma umul128_high: "umul128 a b = (lo, hi) \<Longrightarrow> unat hi \<le> 2 ^ 64 - 2"
proof -
  assume r: "umul128 a b = (lo, hi)"
  have "unat a * unat b \<le> (2 ^ 64 - 1) * (2 ^ 64 - 1)"
    using unat_u64_le [of a] unat_u64_le [of b] by (intro mult_le_mono) simp_all
  then show ?thesis using umul128_value [OF r] by simp
qed

lemma mulAdd_value: "mulAdd a b u = (c, u') \<Longrightarrow> unat c + 2 ^ 64 * unat u' = unat a * unat b + unat u"
proof -
  assume r: "mulAdd a b u = (c, u')"
  obtain lo uv where m: "umul128 a b = (lo, uv)" by fastforce
  obtain k c' where k: "addcarry_u64 False lo u = (k, c')" by fastforce
  have "c' = c" "u' = of_bool k + uv" using r by (simp_all add: mulAdd_def m k)
  then show ?thesis
    using umul128_value [OF m] addcarry_u64_value [OF k] unat_carry_add [OF umul128_high [OF m], of k] by simp
qed

lemma mulAddCarry_value:
  "mulAddCarry a b u c v = (c', v', u') \<Longrightarrow>
    unat c' + 2 ^ 64 * (unat v' + 2 ^ 64 * unat u') = unat c + unat v + 2 ^ 64 * (unat a * unat b + unat u)"
proof -
  assume r: "mulAddCarry a b u c v = (c', v', u')"
  obtain k0 d where 0: "addcarry_u64 False c v = (k0, d)" by fastforce
  obtain lo uv where m: "umul128 a b = (lo, uv)" by fastforce
  obtain k w where k: "addcarry_u64 k0 lo u = (k, w)" by fastforce
  have "d = c'" "w = v'" "u' = of_bool k + uv" using r by (simp_all add: mulAddCarry_def 0 m k)
  then show ?thesis
    using umul128_value [OF m] addcarry_u64_value [OF k] addcarry_u64_value [OF 0] unat_carry_add [OF umul128_high [OF m], of k]
    by simp
qed

lemma firstRow_value: "firstRow a b = (c0, c) \<Longrightarrow> unat c0 + 2 ^ 64 * val256 c = unat a * val256 b"
proof -
  assume r: "firstRow a b = (c0, c)"
  obtain b0 b1 b2 b3 where b: "b = (b0, b1, b2, b3)" by (cases b)
  obtain d0 u0 where 0: "umul128 a b0 = (d0, u0)" by fastforce
  obtain d1 u1 where 1: "mulAdd a b1 u0 = (d1, u1)" by fastforce
  obtain d2 u2 where 2: "mulAdd a b2 u1 = (d2, u2)" by fastforce
  obtain d3 u3 where 3: "mulAdd a b3 u2 = (d3, u3)" by fastforce
  have "c0 = d0" "c = (d1, d2, d3, u3)" using r by (simp_all add: firstRow_def b 0 1 2 3)
  then show ?thesis
    using umul128_value [OF 0] mulAdd_value [OF 1] mulAdd_value [OF 2] mulAdd_value [OF 3] by (simp add: b algebra_simps)
qed

lemma row_bound: "val256 c + unat (a :: u64) * val256 b < 2 ^ 320"
proof -
  have "val256 b \<le> 2 ^ 256 - 1" "val256 c \<le> 2 ^ 256 - 1" using val256_less [of b] val256_less [of c] by simp_all
  then have "unat a * val256 b \<le> (2 ^ 64 - 1) * (2 ^ 256 - 1)" using unat_u64_le [of a] by (intro mult_le_mono) simp_all
  then show ?thesis using val256_less [of c] by simp
qed

lemma nextRow_value: "nextRow a b c = (d, e) \<Longrightarrow> unat d + 2 ^ 64 * val256 e = val256 c + unat a * val256 b"
proof -
  assume r: "nextRow a b c = (d, e)"
  obtain b0 b1 b2 b3 where b: "b = (b0, b1, b2, b3)" by (cases b)
  obtain c0 c1 c2 c3 where c: "c = (c0, c1, c2, c3)" by (cases c)
  obtain lo uv where m: "umul128 a b0 = (lo, uv)" by fastforce
  obtain k0 d0 where 0: "addcarry_u64 False c0 lo = (k0, d0)" by fastforce
  obtain v1 u1 where 1: "mulAdd a b1 (of_bool k0 + uv) = (v1, u1)" by fastforce
  obtain d1 v2 u2 where 2: "mulAddCarry a b2 u1 c1 v1 = (d1, v2, u2)" by (cases "mulAddCarry a b2 u1 c1 v1")
  obtain d2 v3 w where 3: "mulAddCarry a b3 u2 c2 v2 = (d2, v3, w)" by (cases "mulAddCarry a b3 u2 c2 v2")
  obtain k3 d3 where 4: "addcarry_u64 False c3 v3 = (k3, d3)" by fastforce
  have e: "d = d0" "e = (d1, d2, d3, w + of_bool k3)" using r by (simp_all add: nextRow_def b c m 0 1 2 3 4)
  note vals = umul128_value [OF m] addcarry_u64_value [OF 0] mulAdd_value [OF 1] mulAddCarry_value [OF 2]
    mulAddCarry_value [OF 3] addcarry_u64_value [OF 4] unat_carry_add [OF umul128_high [OF m], of k0]
  have total: "unat d0 + 2 ^ 64 * unat d1 + 2 ^ 128 * unat d2 + 2 ^ 192 * unat d3 + 2 ^ 256 * (unat w + of_bool k3) =
      val256 c + unat a * val256 b"
    using vals by (simp add: b c algebra_simps)
  then have "2 ^ 256 * (unat w + of_bool k3) < 2 ^ 320" using row_bound [of c a b] by linarith
  then have "unat w + of_bool k3 < 2 ^ 64" by simp
  then have "unat (w + of_bool k3) = unat w + of_bool k3" by (cases k3) (simp_all add: unat_word_ariths)
  then show ?thesis using total by (simp add: e)
qed

lemma multiply_value: "val256 (fst (multiply a b)) + 2 ^ 256 * val256 (snd (multiply a b)) = val256 a * val256 b"
proof -
  obtain a0 a1 a2 a3 where a: "a = (a0, a1, a2, a3)" by (cases a)
  obtain c0 r0 where 0: "firstRow a0 b = (c0, r0)" by (meson surj_pair)
  obtain c1 r1 where 1: "nextRow a1 b r0 = (c1, r1)" by (meson surj_pair)
  obtain c2 r2 where 2: "nextRow a2 b r1 = (c2, r2)" by (meson surj_pair)
  obtain c3 r3 where 3: "nextRow a3 b r2 = (c3, r3)" by (meson surj_pair)
  have "multiply a b = ((c0, c1, c2, c3), r3)" by (simp add: multiply_def a 0 1 2 3)
  then show ?thesis
    using firstRow_value [OF 0] nextRow_value [OF 1] nextRow_value [OF 2] nextRow_value [OF 3] by (simp add: a algebra_simps)
qed

lemma addCarry256_value: "addCarry256 k a b = (k', c) \<Longrightarrow> val256 c + 2 ^ 256 * of_bool k' = val256 a + val256 b + of_bool k"
proof -
  assume r: "addCarry256 k a b = (k', c)"
  obtain a0 a1 a2 a3 where a: "a = (a0, a1, a2, a3)" by (cases a)
  obtain b0 b1 b2 b3 where b: "b = (b0, b1, b2, b3)" by (cases b)
  obtain k0 c0 where 0: "addcarry_u64 k a0 b0 = (k0, c0)" by fastforce
  obtain k1 c1 where 1: "addcarry_u64 k0 a1 b1 = (k1, c1)" by fastforce
  obtain k2 c2 where 2: "addcarry_u64 k1 a2 b2 = (k2, c2)" by fastforce
  obtain k3 c3 where 3: "addcarry_u64 k2 a3 b3 = (k3, c3)" by fastforce
  have "k' = k3" "c = (c0, c1, c2, c3)" using r by (simp_all add: addCarry256_def a b 0 1 2 3)
  then show ?thesis
    using addcarry_u64_value [OF 0] addcarry_u64_value [OF 1] addcarry_u64_value [OF 2] addcarry_u64_value [OF 3] by (simp add: a b)
qed

lemma subBorrow256_value: "subBorrow256 a b = (k', c) \<Longrightarrow> val256 c + val256 b = val256 a + 2 ^ 256 * of_bool k'"
proof -
  assume r: "subBorrow256 a b = (k', c)"
  obtain a0 a1 a2 a3 where a: "a = (a0, a1, a2, a3)" by (cases a)
  obtain b0 b1 b2 b3 where b: "b = (b0, b1, b2, b3)" by (cases b)
  obtain k0 c0 where 0: "subborrow_u64 False a0 b0 = (k0, c0)" by fastforce
  obtain k1 c1 where 1: "subborrow_u64 k0 a1 b1 = (k1, c1)" by fastforce
  obtain k2 c2 where 2: "subborrow_u64 k1 a2 b2 = (k2, c2)" by fastforce
  obtain k3 c3 where 3: "subborrow_u64 k2 a3 b3 = (k3, c3)" by fastforce
  have "k' = k3" "c = (c0, c1, c2, c3)" using r by (simp_all add: subBorrow256_def a b 0 1 2 3)
  then show ?thesis
    using subborrow_u64_value [OF 0] subborrow_u64_value [OF 1] subborrow_u64_value [OF 2] subborrow_u64_value [OF 3] by (simp add: a b)
qed

lemma snd_addcarry: "snd (addcarry_u64 k a b) = a + b + of_bool k"
  by (simp add: addcarry_u64_def)

lemma val256_mod:
  assumes "unat q3 = n mod 2 ^ 64" "unat q0 + 2 ^ 64 * unat q1 + 2 ^ 128 * unat q2 + 2 ^ 192 * n + 2 ^ 256 * h = t"
  shows "val256 (q0, q1, q2, q3) = t mod 2 ^ 256"
proof -
  have "n = 2 ^ 64 * (n div 2 ^ 64) + unat q3" using assms(1) by simp
  then have "t = val256 (q0, q1, q2, q3) + 2 ^ 256 * (n div 2 ^ 64 + h)" using assms(2) by (simp add: algebra_simps)
  then show ?thesis using val256_less [of "(q0, q1, q2, q3)"] by (simp only: mod_mult_self2 mod_less)
qed

lemma multiplyRprime_value: "val256 (multiplyRprime P) = val256 P * val256 MONTGOMERY_SMALL_R_PRIME mod 2 ^ 256"
proof -
  obtain P0 P1 P2 P3 where P: "P = (P0, P1, P2, P3)" by (cases P)
  obtain R0 R1 R2 R3 where R: "MONTGOMERY_SMALL_R_PRIME = (R0, R1, R2, R3)" by (cases MONTGOMERY_SMALL_R_PRIME)
  obtain q0 u0 where 0: "umul128 P0 R0 = (q0, u0)" by fastforce
  obtain q1 u1 where 1: "mulAdd P0 R1 u0 = (q1, u1)" by fastforce
  obtain q2 u2 where 2: "mulAdd P0 R2 u1 = (q2, u2)" by fastforce
  obtain l1 h1 where 3: "umul128 P1 R0 = (l1, h1)" by fastforce
  obtain k1 Q1 where 4: "addcarry_u64 False q1 l1 = (k1, Q1)" by fastforce
  obtain v1 u4 where 5: "mulAdd P1 R1 (of_bool k1 + h1) = (v1, u4)" by fastforce
  obtain k2 q2b where 6: "addcarry_u64 False q2 v1 = (k2, q2b)" by fastforce
  obtain l2 h2 where 7: "umul128 P2 R0 = (l2, h2)" by fastforce
  obtain k3 Q2 where 8: "addcarry_u64 False q2b l2 = (k3, Q2)" by fastforce
  define Q3 where "Q3 = P0 * R3 + u2 + (P1 * R2 + u4 + of_bool k2) + (P2 * R1 + (of_bool k3 + h2)) + P3 * R0"
  define N where "N = unat P0 * unat R3 + unat u2 + (unat P1 * unat R2 + unat u4 + of_bool k2) +
    (unat P2 * unat R1 + (of_bool k3 + unat h2)) + unat P3 * unat R0"
  have "unat Q3 = N mod 2 ^ 64"
    by (simp add: Q3_def N_def unat_word_ariths unat_of_bool mod_simps)
  moreover have "unat q0 + 2 ^ 64 * unat Q1 + 2 ^ 128 * unat Q2 + 2 ^ 192 * N +
      2 ^ 256 * (unat P1 * unat R3 + unat P2 * unat R2 + unat P3 * unat R1 +
        2 ^ 64 * (unat P2 * unat R3 + unat P3 * unat R2) + 2 ^ 128 * (unat P3 * unat R3)) = val256 P * val256 MONTGOMERY_SMALL_R_PRIME"
    using umul128_value [OF 0] mulAdd_value [OF 1] mulAdd_value [OF 2] umul128_value [OF 3] addcarry_u64_value [OF 4]
      mulAdd_value [OF 5] addcarry_u64_value [OF 6] umul128_value [OF 7] addcarry_u64_value [OF 8]
      unat_carry_add [OF umul128_high [OF 3], of k1]
    by (simp add: P R N_def algebra_simps)
  ultimately have "val256 (q0, Q1, Q2, Q3) = val256 P * val256 MONTGOMERY_SMALL_R_PRIME mod 2 ^ 256" by (rule val256_mod)
  moreover have "multiplyRprime P = (q0, Q1, Q2, Q3)"
    by (simp add: multiplyRprime_def P R 0 1 2 3 4 5 6 7 8 snd_addcarry Q3_def)
  ultimately show ?thesis by simp
qed

section \<open>Montgomery multiplication\<close>

lemma Rprime_inverse: "(val256 MONTGOMERY_SMALL_R_PRIME * val256 curve_order + 1) mod 2 ^ 256 = 0"
  by (simp add: MONTGOMERY_SMALL_R_PRIME_def curve_order_def)

lemma order_bounds: "0 < val256 curve_order" "2 * val256 curve_order < 2 ^ 256"
  by (simp_all add: curve_order_def)

lemma reduction_multiple:
  assumes "Q = (M mod 2 ^ 256) * val256 MONTGOMERY_SMALL_R_PRIME mod 2 ^ 256"
  shows "(M + Q * val256 curve_order) mod 2 ^ 256 = 0"
proof -
  let ?R = "val256 MONTGOMERY_SMALL_R_PRIME" and ?r = "val256 curve_order"
  have "(M + Q * ?r) mod 2 ^ 256 = (M + M * ?R * ?r) mod 2 ^ 256"
    unfolding assms by (metis (no_types) mod_add_right_eq mod_mult_left_eq)
  also have "\<dots> = M * (?R * ?r + 1) mod 2 ^ 256" by (simp add: algebra_simps)
  also have "\<dots> = 0" using Rprime_inverse by (metis mod_mult_right_eq mult_zero_right mod_0)
  finally show ?thesis .
qed

lemma Montgomery_value:
  assumes "val256 ma * val256 mb < val256 curve_order * 2 ^ 256"
  shows "val256 (Montgomery_multiply_mod_order ma mb) < val256 curve_order \<and>
    val256 (Montgomery_multiply_mod_order ma mb) * 2 ^ 256 mod val256 curve_order = val256 ma * val256 mb mod val256 curve_order"
proof -
  let ?r = "val256 curve_order"
  define M where "M = val256 ma * val256 mb"
  define P where "P = (if mb = (1, 0, 0, 0) then (ma, (0, 0, 0, 0)) else multiply ma mb)"
  define Q where "Q = multiplyRprime (fst P)"
  define temp where "temp = multiply Q curve_order"
  obtain k lo where lo: "addCarry256 False (fst P) (fst temp) = (k, lo)" by (meson surj_pair)
  obtain carry hi where hi: "addCarry256 k (snd P) (snd temp) = (carry, hi)" by (meson surj_pair)
  obtain borrow mc where mc: "subBorrow256 hi curve_order = (borrow, mc)" by (meson surj_pair)
  obtain k' res where res: "addCarry256 False mc curve_order = (k', res)" by (meson surj_pair)
  have P: "val256 (fst P) + 2 ^ 256 * val256 (snd P) = M" using multiply_value [of ma mb] by (simp add: P_def M_def)
  have "M mod 2 ^ 256 = val256 (fst P)" unfolding P [symmetric] using val256_less [of "fst P"] by simp
  then have Q: "val256 Q = (M mod 2 ^ 256) * val256 MONTGOMERY_SMALL_R_PRIME mod 2 ^ 256" by (simp add: Q_def multiplyRprime_value)
  have T: "val256 (fst temp) + 2 ^ 256 * val256 (snd temp) = val256 Q * ?r" unfolding temp_def by (rule multiply_value)
  have sum: "val256 lo + 2 ^ 256 * (val256 hi + 2 ^ 256 * of_bool carry) = M + val256 Q * ?r"
    using addCarry256_value [OF lo] addCarry256_value [OF hi] P T by (simp add: algebra_simps)
  then have "val256 lo mod 2 ^ 256 = 0" using reduction_multiple [OF Q] by (metis mod_mult_self2)
  then have t: "2 ^ 256 * (val256 hi + 2 ^ 256 * of_bool carry) = M + val256 Q * ?r" using sum val256_less [of lo] by simp
  have "val256 Q * ?r < 2 ^ 256 * ?r" using val256_less [of Q] order_bounds by (intro mult_strict_right_mono) simp_all
  with assms have "M + val256 Q * ?r < ?r * 2 ^ 256 + 2 ^ 256 * ?r" unfolding M_def by (rule add_strict_mono)
  also have "\<dots> = 2 ^ 256 * (2 * ?r)" by simp
  finally have "2 ^ 256 * (val256 hi + 2 ^ 256 * of_bool carry) < 2 ^ 256 * (2 * ?r)" unfolding t .
  then have "val256 hi + 2 ^ 256 * of_bool carry < 2 * ?r" by (simp only: mult_less_cancel1)
  then have c: "\<not> carry" "val256 hi < 2 * ?r" using order_bounds by (cases carry; simp)+
  have m: "Montgomery_multiply_mod_order ma mb = (if borrow then res else mc)"
    using c(1) by (simp add: Montgomery_multiply_mod_order_def Let_def P_def [symmetric] Q_def [symmetric] temp_def [symmetric] lo hi mc res)
  have v: "val256 (if borrow then res else mc) = (if val256 hi < ?r then val256 hi else val256 hi - ?r)"
    using subBorrow256_value [OF mc] addCarry256_value [OF res] val256_less [of mc] val256_less [of res] val256_less [of hi]
    by (cases borrow; cases k') auto
  then have "val256 (if borrow then res else mc) mod ?r = val256 hi mod ?r" by (auto simp: le_mod_geq not_less)
  then have "val256 (if borrow then res else mc) * 2 ^ 256 mod ?r = val256 hi * 2 ^ 256 mod ?r" by (metis mod_mult_left_eq)
  also have "\<dots> = (M + val256 Q * ?r) mod ?r" using t c(1) by (simp add: mult.commute)
  finally show ?thesis using v c(2) unfolding m M_def by auto
qed

text \<open>
  C20: Montgomery_multiply_mod_order is the Montgomery product modulo the order of the curve: when the
  product of the arguments is below order * 2^256, as for every 256-bit number times a residue, the result is
  a residue below the order, and times 2^256 it is congruent to the product.\<close>

theorem Montgomery_multiply_correct:
  assumes "val256 ma * val256 mb < val256 curve_order * 2 ^ 256"
  shows "val256 (Montgomery_multiply_mod_order ma mb) < val256 curve_order \<and>
    val256 (Montgomery_multiply_mod_order ma mb) * 2 ^ 256 mod val256 curve_order = val256 ma * val256 mb mod val256 curve_order"
  using assms by (rule Montgomery_value)

theorem Montgomery_multiply_correct_witness:
  "val256 (Montgomery_multiply_mod_order (5, 0, 0, 1) Montgomery_Rprime) < val256 curve_order \<and>
   val256 (Montgomery_multiply_mod_order (5, 0, 0, 1) Montgomery_Rprime) * 2 ^ 256 mod val256 curve_order =
   val256 (5, 0, 0, 1) * val256 Montgomery_Rprime mod val256 curve_order"
  by (rule Montgomery_multiply_correct) (simp add: Montgomery_Rprime_def curve_order_def)

section \<open>Reduction of a scalar\<close>

text \<open>The scalar multiplications first reduce a scalar by two Montgomery products.\<close>

definition reduceScalar :: "u256 \<Rightarrow> u256" where
  "reduceScalar k = Montgomery_multiply_mod_order (Montgomery_multiply_mod_order k Montgomery_Rprime) ONE"

lemma two_256_inverse: "\<exists>w. 2 ^ 256 * w mod val256 curve_order = 1"
proof
  let ?w = "(val256 MONTGOMERY_SMALL_R_PRIME * val256 curve_order + 1) div 2 ^ 256"
  have "2 ^ 256 * ?w = val256 MONTGOMERY_SMALL_R_PRIME * val256 curve_order + 1"
    by (metis Rprime_inverse add.right_neutral mult_div_mod_eq)
  then show "2 ^ 256 * ?w mod val256 curve_order = 1" by (simp only: mod_mult_self3) (simp add: curve_order_def)
qed

lemma cancel_two_256:
  assumes "x * 2 ^ 256 mod val256 curve_order = y * 2 ^ 256 mod val256 curve_order"
  shows "x mod val256 curve_order = y mod val256 curve_order"
proof -
  obtain w where w: "2 ^ 256 * w mod val256 curve_order = 1" using two_256_inverse by blast
  have "z * 2 ^ 256 * w mod val256 curve_order = z mod val256 curve_order" for z
    using w by (metis mod_mult_right_eq mult.assoc mult.right_neutral)
  then show ?thesis using assms by (metis mod_mult_left_eq)
qed

lemma Rprime_square: "val256 Montgomery_Rprime = 2 ^ 512 mod val256 curve_order"
  by (simp add: Montgomery_Rprime_def curve_order_def)

text \<open>Into the Montgomery form, products there, and back.\<close>

lemma Montgomery_residue:
  assumes "val256 b < val256 curve_order"
  shows "val256 (Montgomery_multiply_mod_order a b) < val256 curve_order"
    "val256 (Montgomery_multiply_mod_order a b) * 2 ^ 256 mod val256 curve_order = val256 a * val256 b mod val256 curve_order"
proof -
  have "val256 a * val256 b < 2 ^ 256 * val256 curve_order"
    using val256_less [of a] assms order_bounds by (intro mult_strict_mono) simp_all
  then have "val256 a * val256 b < val256 curve_order * 2 ^ 256" by (simp only: mult.commute)
  from Montgomery_value [OF this] show "val256 (Montgomery_multiply_mod_order a b) < val256 curve_order"
    "val256 (Montgomery_multiply_mod_order a b) * 2 ^ 256 mod val256 curve_order = val256 a * val256 b mod val256 curve_order"
    by blast+
qed

lemma residue_consts: "val256 ONE = 1" "val256 ONE < val256 curve_order" "val256 Montgomery_Rprime < val256 curve_order"
  by (simp_all add: ONE_def curve_order_def Montgomery_Rprime_def)

lemma to_Montgomery: "val256 (Montgomery_multiply_mod_order a Montgomery_Rprime) = val256 a * 2 ^ 256 mod val256 curve_order"
proof -
  let ?r = "val256 curve_order"
  have "val256 a * val256 Montgomery_Rprime mod ?r = (val256 a * 2 ^ 256) * 2 ^ 256 mod ?r"
    unfolding Rprime_square by (simp add: mod_mult_right_eq mult.assoc)
  then show ?thesis
    using Montgomery_residue [OF residue_consts(3), of a] cancel_two_256 by (metis mod_less)
qed

lemma from_Montgomery:
  assumes "val256 a mod val256 curve_order = n * 2 ^ 256 mod val256 curve_order"
  shows "val256 (Montgomery_multiply_mod_order a ONE) = n mod val256 curve_order"
  using Montgomery_residue [OF residue_consts(2), of a] cancel_two_256 assms residue_consts(1) by (metis mod_less mult.right_neutral)

lemma Montgomery_product:
  assumes "val256 a = m * 2 ^ 256 mod val256 curve_order" "val256 b = n * 2 ^ 256 mod val256 curve_order"
  shows "val256 (Montgomery_multiply_mod_order a b) = (m * n) * 2 ^ 256 mod val256 curve_order"
proof -
  let ?r = "val256 curve_order"
  have "val256 b < ?r" using assms(2) order_bounds by simp
  note res = Montgomery_residue [OF this, of a]
  have "val256 a * val256 b mod ?r = (m * 2 ^ 256) * (n * 2 ^ 256) mod ?r" unfolding assms by (simp only: mod_mult_eq)
  also have "\<dots> = (m * n * 2 ^ 256) * 2 ^ 256 mod ?r" by (simp only: mult.assoc mult.left_commute)
  finally have "val256 (Montgomery_multiply_mod_order a b) mod ?r = (m * n) * 2 ^ 256 mod ?r" using res(2) cancel_two_256 by metis
  then show ?thesis using res(1) by simp
qed

lemma reduceScalar_value: "val256 (reduceScalar k) = val256 k mod val256 curve_order"
  unfolding reduceScalar_def by (rule from_Montgomery) (simp add: to_Montgomery)

end
