(* ===== verification/FourQ_Fixed.thy ===== *)
theory FourQ_Fixed
  imports FourQ Montgomery FourQ_Table
begin

text \<open>
  The multiplication of the generator by a scalar in \<open>dispatcher/src/crypto/k12_and_key_utils.h\<close>: reduction and
  recoding of the scalar into 250 signed digits, the table lookups and additions, and the encoding of a point.
\<close>

section \<open>Recoding\<close>

definition makeOdd :: "u256 \<Rightarrow> u256" where
  "makeOdd scalar = (if fst scalar AND 1 = 0 then snd (addCarry256 False scalar curve_order) else scalar)"

definition shr256 :: "u256 \<Rightarrow> u256" where
  "shr256 = (\<lambda>(s0, s1, s2, s3). (shiftright128 s0 s1 1, shiftright128 s1 s2 1, shiftright128 s2 s3 1, drop_bit 1 s3))"

text \<open>The sign row: 0 for a positive and the largest number for a negative digit.\<close>

fun recodeSigns :: "nat \<Rightarrow> u256 \<Rightarrow> u32 list \<times> u256" where
  "recodeSigns 0 scalar = ([], scalar)"
| "recodeSigns (Suc n) scalar =
     (let digit = ucast ((fst scalar AND 1) - 1); (digits, rest) = recodeSigns n (shr256 scalar)
      in (digit # digits, rest))"

definition addTemp :: "u64 \<Rightarrow> u256 \<Rightarrow> u256" where
  "addTemp temp = (\<lambda>(s0, s1, s2, s3).
     let s0 = s0 + temp;
         carry = (if s0 \<noteq> 0 then 0 else temp AND 1);
         s1 = s1 + carry;
         carry = (if s1 \<noteq> 0 then 0 else carry AND 1);
         s2 = s2 + carry;
         s3 = s3 + (if s2 \<noteq> 0 then 0 else carry AND 1)
     in (s0, s1, s2, s3))"

text \<open>The digits from index \<open>i\<close> on, under the signs of the first fifty.\<close>

fun recodeDigits :: "u32 list \<Rightarrow> nat \<Rightarrow> nat \<Rightarrow> u256 \<Rightarrow> u32 list" where
  "recodeDigits signs i 0 scalar = []"
| "recodeDigits signs i (Suc n) scalar =
     (let digit = ucast (fst scalar AND 1);
          temp = ucast ((0 - signs ! (i - (i div 50) * 50)) AND digit)
      in digit # recodeDigits signs (i + 1) n (addTemp temp (shr256 scalar)))"

definition recode :: "u256 \<Rightarrow> u32 list" where
  "recode k =
     (let (signs, scalar) = recodeSigns 49 (shr256 (makeOdd (reduceScalar k)));
          signs = signs @ [0]
      in signs @ recodeDigits signs 50 200 scalar)"

section \<open>Multiplication of the generator\<close>

definition tableElement :: "nat \<Rightarrow> f2elm_t" where
  "tableElement j =
     ((FIXED_BASE_TABLE ! j, FIXED_BASE_TABLE ! (j + 1)), (FIXED_BASE_TABLE ! (j + 2), FIXED_BASE_TABLE ! (j + 3)))"

definition table_lookup_fixed_base :: "u32 \<Rightarrow> u32 \<Rightarrow> point_precomp" where
  "table_lookup_fixed_base digit sign =
     (let xy = tableElement (12 * unat digit); yx = tableElement (12 * unat digit + 4); t2 = tableElement (12 * unat digit + 8)
      in if sign \<noteq> 0
         then \<lparr>pq_xy = yx, pq_yx = xy,
               pq_t2 = ((NOT (fst (fst t2)), 0x7FFFFFFFFFFFFFFF - snd (fst t2)), (NOT (fst (snd t2)), 0x7FFFFFFFFFFFFFFF - snd (snd t2)))\<rparr>
         else \<lparr>pq_xy = xy, pq_yx = yx, pq_t2 = t2\<rparr>)"

text \<open>The index of column \<open>t\<close> in block \<open>e\<close> of the table.\<close>

definition tableIndex :: "u32 list \<Rightarrow> nat \<Rightarrow> nat \<Rightarrow> u32" where
  "tableIndex digits e t =
     of_nat (16 * e) + push_bit 1 (push_bit 1 (push_bit 1 (digits ! (200 + 10 * e + t)) + digits ! (150 + 10 * e + t)) +
       digits ! (100 + 10 * e + t)) + digits ! (50 + 10 * e + t)"

definition fixedStep :: "u32 list \<Rightarrow> nat \<Rightarrow> nat \<Rightarrow> point_extproj \<Rightarrow> point_extproj" where
  "fixedStep digits t e R = eccmadd (table_lookup_fixed_base (tableIndex digits e t) (digits ! (10 * e + t))) R"

definition fixedStart :: "u32 list \<Rightarrow> point_extproj" where
  "fixedStart digits =
     (let S = table_lookup_fixed_base (tableIndex digits 4 9) 0;
          x = fp2div1271 (fp2sub1271 (pq_xy S) (pq_yx S));
          y = fp2div1271 (fp2add1271 (pq_xy S) (pq_yx S))
      in \<lparr>pe_x = x, pe_y = y, pe_z = f2elm_one, pe_ta = x, pe_tb = y\<rparr>)"

definition ecc_mul_fixed :: "u256 \<Rightarrow> point_affine" where
  "ecc_mul_fixed k =
     (let digits = recode k;
          R = fold (fixedStep digits 9) [3, 2, 1, 0] (fixedStart digits);
          R = fold (\<lambda>t R. fold (fixedStep digits t) [4, 3, 2, 1, 0] (eccdouble R)) [8, 7, 6, 5, 4, 3, 2, 1, 0] R
      in eccnorm R)"

section \<open>Encoding\<close>

definition f2elmBytes :: "f2elm_t \<Rightarrow> bytes" where
  "f2elmBytes a = store_le 8 (fst (fst a)) @ store_le 8 (snd (fst a)) @ store_le 8 (fst (snd a)) @ store_le 8 (snd (snd a))"

definition encode :: "point_affine \<Rightarrow> bytes" where
  "encode P =
     (let temp1 = push_bit 1 (snd (snd (pa_x P)) AND 0x4000000000000000);
          temp2 = push_bit 1 (snd (fst (pa_x P)) AND 0x4000000000000000);
          (y0, y1) = pa_y P
      in f2elmBytes (y0, (fst y1, snd y1 OR (if fst (fst (pa_x P)) = 0 \<and> snd (fst (pa_x P)) = 0 then temp1 else temp2))))"

section \<open>Words of the scalar\<close>

lemma unat_and_1: "unat (w AND 1 :: u64) = unat w mod 2"
  by (simp add: and_one_eq unat_mod)

lemma halves:
  obtains q r :: nat where "n = 2 * q + r" "r < 2" "n mod 2 = r" "n div 2 = q"
  by (rule that [of "n div 2" "n mod 2"]) simp_all

lemma unat_shiftright_1: "unat (shiftright128 lo hi 1) = unat lo div 2 + 2 ^ 63 * (unat hi mod 2)"
proof -
  obtain q r where h: "unat hi = 2 * q + r" "r < 2" "unat hi mod 2 = r" "unat hi div 2 = q" by (rule halves)
  have "(unat lo + 2 ^ 64 * unat hi) div 2 = unat lo div 2 + 2 ^ 63 * r + 2 ^ 64 * q"
    unfolding h(1) by simp
  moreover have "unat lo div 2 + 2 ^ 63 * r < 2 ^ 64" using unat_u64_le [of lo] h(2) by simp
  ultimately have "(unat lo + 2 ^ 64 * unat hi) div 2 mod 2 ^ 64 = unat lo div 2 + 2 ^ 63 * r"
    by (metis mod_less mod_mult_self2)
  then show ?thesis unfolding h(3) by (simp add: shiftright128_value unat_of_nat)
qed

lemma val256_shr256: "val256 (shr256 s) = val256 s div 2"
proof -
  obtain s0 s1 s2 s3 where s: "s = (s0, s1, s2, s3)" by (cases s)
  obtain q1 r1 where 1: "unat s1 = 2 * q1 + r1" "r1 < 2" "unat s1 mod 2 = r1" "unat s1 div 2 = q1" by (rule halves)
  obtain q2 r2 where 2: "unat s2 = 2 * q2 + r2" "r2 < 2" "unat s2 mod 2 = r2" "unat s2 div 2 = q2" by (rule halves)
  obtain q3 r3 where 3: "unat s3 = 2 * q3 + r3" "r3 < 2" "unat s3 mod 2 = r3" "unat s3 div 2 = q3" by (rule halves)
  have "val256 s div 2 = unat s0 div 2 + 2 ^ 63 * unat s1 + 2 ^ 127 * unat s2 + 2 ^ 191 * unat s3"
    by (simp add: s)
  also have "\<dots> = val256 (shr256 s)"
    using unat_shiftright_1 [of s0 s1] unat_shiftright_1 [of s1 s2] unat_shiftright_1 [of s2 s3]
    unfolding 1 2 3 by (simp add: s shr256_def drop_bit_Suc unat_div 3(4) 1(2) 2(2) 3(2))
  finally show ?thesis by simp
qed

lemma val256_mod_2: "unat (fst s AND 1) = val256 s mod 2"
proof -
  obtain s0 s1 s2 s3 where s: "s = (s0, s1, s2, s3)" by (cases s)
  have "val256 s = unat s0 + 2 * (2 ^ 63 * unat s1 + 2 ^ 127 * unat s2 + 2 ^ 191 * unat s3)" by (simp add: s)
  then have "val256 s mod 2 = unat s0 mod 2" by (metis mod_mult_self2)
  then show ?thesis by (simp add: s unat_and_1)
qed

lemma val256_addTemp:
  assumes "temp = 0 \<or> temp = 1" "val256 s + unat temp < 2 ^ 256"
  shows "val256 (addTemp temp s) = val256 s + unat temp"
proof -
  obtain s0 s1 s2 s3 where s: "s = (s0, s1, s2, s3)" by (cases s)
  have inc: "unat (x + 1) = (if x + 1 = 0 then 0 else unat x + 1) \<and> (x + 1 = 0 \<longrightarrow> unat x = 2 ^ 64 - 1)" for x :: u64
    using unat_u64_less [of x] by (auto simp: unat_word_ariths word_unat_eq_iff mod_if)
  show ?thesis
  proof (cases "temp = 0")
    case False
    then show ?thesis
      using assms inc [of s0] inc [of s1] inc [of s2] inc [of s3] by (auto simp: s addTemp_def Let_def)
  qed (simp add: s addTemp_def)
qed

lemma makeOdd_value:
  assumes "val256 s < val256 curve_order"
  shows "odd (val256 (makeOdd s))" "val256 (makeOdd s) mod val256 curve_order = val256 s"
    "val256 (makeOdd s) < 2 ^ 247"
proof -
  obtain k c where a: "addCarry256 False s curve_order = (k, c)" by (meson surj_pair)
  have r: "val256 curve_order < 2 ^ 246" "odd (val256 curve_order)" by (simp_all add: curve_order_def)
  have c: "val256 c = val256 s + val256 curve_order"
    using addCarry256_value [OF a] val256_less [of c] assms r by (cases k) simp_all
  have m: "makeOdd s = (if even (val256 s) then c else s)"
    using val256_mod_2 [of s] by (simp add: makeOdd_def a even_iff_mod_2_eq_zero unat_eq_0 [symmetric] del: unat_eq_0)
  show "odd (val256 (makeOdd s))" "val256 (makeOdd s) mod val256 curve_order = val256 s" "val256 (makeOdd s) < 2 ^ 247"
    using assms r c by (auto simp: m)
qed

section \<open>The digits represent the scalar\<close>

definition sgn_of :: "u32 \<Rightarrow> int" where
  "sgn_of s = (if s = 0 then 1 else - 1)"

text \<open>The value of the sign row, and of the other digits under the signs of their columns.\<close>

definition signValue :: "u32 list \<Rightarrow> int" where
  "signValue signs = (\<Sum>i<length signs. sgn_of (signs ! i) * 2 ^ i)"

definition digitValue :: "u32 list \<Rightarrow> nat \<Rightarrow> u32 list \<Rightarrow> int" where
  "digitValue signs i ds = (\<Sum>j<length ds. sgn_of (signs ! ((i + j) mod 50)) * int (unat (ds ! j)) * 2 ^ j)"

definition digitsValue :: "u32 list \<Rightarrow> int" where
  "digitsValue ds = signValue (take 50 ds) + 2 ^ 50 * digitValue (take 50 ds) 50 (drop 50 ds)"

lemma signValue_Cons: "signValue (d # ds) = sgn_of d + 2 * signValue ds"
  by (simp add: signValue_def sum.lessThan_Suc_shift sum_distrib_left mult.left_commute del: sum.lessThan_Suc)

lemma signValue_append: "signValue (xs @ [d]) = signValue xs + sgn_of d * 2 ^ length xs"
  by (simp add: signValue_def nth_append)

lemma digitValue_Cons:
  "digitValue signs i (d # ds) = sgn_of (signs ! (i mod 50)) * int (unat d) + 2 * digitValue signs (i + 1) ds"
  by (simp add: digitValue_def sum.lessThan_Suc_shift sum_distrib_left mult.left_commute mult.assoc del: sum.lessThan_Suc)

lemma sign_digit: "ucast ((fst s AND 1) - 1) = (if even (val256 s) then - 1 else 0 :: u32)"
proof (cases "even (val256 s)")
  case True
  then have "unat (fst s AND 1) = 0" unfolding val256_mod_2 by simp
  then have "fst s AND 1 = 0" by (simp only: unat_eq_0)
  moreover have "ucast (- 1 :: u64) = (- 1 :: u32)" by (rule bit_word_eqI) (simp add: bit_ucast_iff)
  ultimately show ?thesis using True by simp
next
  case False
  then have "unat (fst s AND 1) = unat (1 :: u64)" unfolding val256_mod_2 by (simp add: odd_iff_mod_2_eq_one)
  then have "fst s AND 1 = 1" by (simp only: word_unat_eq_iff)
  then show ?thesis using False by simp
qed

lemma recodeSigns_value:
  "recodeSigns n s = (ds, rest) \<Longrightarrow> length ds = n \<and> val256 rest = val256 s div 2 ^ n \<and> set ds \<subseteq> {0, - 1} \<and>
    signValue ds = 2 * int (val256 s mod 2 ^ n) - (2 ^ n - 1)"
proof (induction n arbitrary: s ds rest)
  case 0
  then show ?case by (simp add: signValue_def)
next
  case (Suc n)
  obtain es r where es: "recodeSigns n (shr256 s) = (es, r)" by (meson surj_pair)
  define d :: u32 where "d = ucast ((fst s AND 1) - 1)"
  have ds: "ds = d # es" "rest = r" using Suc.prems by (simp_all add: es d_def Let_def)
  have d: "sgn_of d = 2 * int (val256 s mod 2) - 1" "d \<in> {0, - 1}"
    unfolding d_def sign_digit by (auto simp: sgn_of_def even_iff_mod_2_eq_zero odd_iff_mod_2_eq_one)
  note IH = Suc.IH [OF es, unfolded val256_shr256]
  have m: "val256 s mod 2 ^ Suc n = 2 * (val256 s div 2 mod 2 ^ n) + val256 s mod 2"
    using mod_mult2_eq [of "val256 s" 2 "2 ^ n"] by simp
  have "signValue ds = 2 * int (val256 s mod 2 ^ Suc n) - (2 ^ Suc n - 1)"
    unfolding ds signValue_Cons m using IH d(1) by simp
  then show ?case using IH ds d(2) by (simp add: div_mult2_eq)
qed

lemma length_recodeDigits [simp]: "length (recodeDigits signs i n s) = n"
  by (induction n arbitrary: i s) (simp_all add: Let_def)

lemma unat_digit: "unat (ucast (fst s AND 1) :: u32) = val256 s mod 2"
proof -
  have "unat (fst s AND 1) < 2" unfolding val256_mod_2 by simp
  then show ?thesis by (simp add: unsigned_ucast_eq take_bit_nat_def val256_mod_2)
qed

lemma recodeDigits_value:
  assumes "set signs \<subseteq> {0, - 1}" "length signs = 50" "signs ! ((i + n) mod 50) = 0" "val256 s \<le> 2 ^ n"
  shows "digitValue signs i (recodeDigits signs i (Suc n) s) = int (val256 s)"
  using assms(3,4)
proof (induction n arbitrary: i s)
  case 0
  have "val256 s mod 2 = val256 s" using 0(2) by (cases "val256 s") auto
  then show ?case using 0(1) unat_digit [of s] by (simp add: digitValue_def sgn_of_def Let_def)
next
  case (Suc n)
  define d :: u32 where "d = ucast (fst s AND 1)"
  define g where "g = signs ! (i mod 50)"
  define temp :: u64 where "temp = ucast ((0 - g) AND d)"
  have d: "unat d = val256 s mod 2" unfolding d_def by (rule unat_digit)
  have "g \<in> set signs" using assms(2) by (simp add: g_def)
  then have "g \<in> {0, - 1}" using assms(1) by blast
  moreover have "d = 0 \<or> d = 1" using d by (metis mod2_eq_if unat_0 unat_1 word_unat_eq_iff One_nat_def)
  ultimately have t: "temp = 0 \<or> temp = 1" "unat temp = (if g = 0 then 0 else unat d)" by (auto simp: temp_def)
  let ?s = "addTemp temp (shr256 s)"
  have "val256 (shr256 s) + unat temp < 2 ^ 256"
    using t(1) val256_less [of s] by (auto simp: val256_shr256)
  then have v: "val256 ?s = val256 s div 2 + unat temp" using val256_addTemp [OF t(1)] by (simp add: val256_shr256)
  have "unat temp \<le> val256 s mod 2" using t(2) d by simp
  moreover obtain q r where h: "val256 s = 2 * q + r" "r < 2" "val256 s mod 2 = r" "val256 s div 2 = q" by (rule halves)
  ultimately have le: "val256 ?s \<le> 2 ^ n" using Suc.prems(2) unfolding v by (cases "r = 0") auto
  have "signs ! ((i + 1 + n) mod 50) = 0" using Suc.prems(1) by simp
  from Suc.IH [OF this le] have IH: "digitValue signs (i + 1) (recodeDigits signs (i + 1) (Suc n) ?s) = int (val256 ?s)" .
  have rec: "recodeDigits signs i (Suc (Suc n)) s = d # recodeDigits signs (i + 1) (Suc n) ?s"
    by (simp only: recodeDigits.simps(2) [of signs i "Suc n"] Let_def d_def [symmetric] minus_div_mult_eq_mod g_def [symmetric] temp_def [symmetric])
  have "digitValue signs i (recodeDigits signs i (Suc (Suc n)) s) = sgn_of g * int (unat d) + 2 * int (val256 ?s)"
    unfolding rec digitValue_Cons IH g_def ..
  then show ?case using v t(2) d h by (auto simp: sgn_of_def simp del: recodeDigits.simps)
qed

text \<open>
  The recoding of a scalar is correct.  ecc_mul_fixed turns every 256-bit scalar into 250 digits: fifty signs
  and two hundred bits, the bit in column i of a row under the sign of column i; the number they represent is
  odd and congruent to the scalar modulo the order of the curve.\<close>

lemma recode_represents_scalar:
  "length (recode k) = 250 \<and> odd (digitsValue (recode k)) \<and>
   digitsValue (recode k) mod int (val256 curve_order) = int (val256 k) mod int (val256 curve_order)"
proof -
  let ?r = "val256 curve_order"
  let ?m = "makeOdd (reduceScalar k)"
  have "val256 (reduceScalar k) < ?r" unfolding reduceScalar_value using order_bounds by simp
  note odd = makeOdd_value [OF this]
  obtain ds rest where ds: "recodeSigns 49 (shr256 ?m) = (ds, rest)" by (meson surj_pair)
  note s = recodeSigns_value [OF ds, unfolded val256_shr256]
  define signs where "signs = ds @ [0]"
  have sg: "set signs \<subseteq> {0, - 1}" "length signs = 50" "signs ! ((50 + 199) mod 50) = 0"
    using s by (simp_all add: signs_def nth_append)
  have rest: "val256 rest = val256 ?m div 2 ^ 50" using s by (simp add: div_mult2_eq [symmetric])
  then have "val256 rest \<le> 2 ^ 199" using odd(3) by (simp add: div_le_mono less_imp_le_nat [THEN div_le_mono, of _ _ "2 ^ 50", THEN le_trans])
  from recodeDigits_value [OF sg this]
  have dv: "digitValue signs 50 (recodeDigits signs 50 200 rest) = int (val256 rest)" by simp
  have r: "recode k = signs @ recodeDigits signs 50 200 rest" by (simp add: recode_def ds signs_def Let_def)
  have m: "val256 ?m mod 2 ^ 50 = 2 * (val256 ?m div 2 mod 2 ^ 49) + 1"
    using mod_mult2_eq [of "val256 ?m" 2 "2 ^ 49"] odd(1) by (simp add: odd_iff_mod_2_eq_one)
  have "signValue signs = int (val256 ?m mod 2 ^ 50)"
    using s unfolding m signs_def signValue_append by (simp add: sgn_of_def)
  then have "digitsValue (recode k) = int (val256 ?m mod 2 ^ 50) + 2 ^ 50 * int (val256 ?m div 2 ^ 50)"
    using sg(2) dv rest by (simp add: digitsValue_def r)
  also have "\<dots> = int (val256 ?m mod 2 ^ 50 + 2 ^ 50 * (val256 ?m div 2 ^ 50))"
    by (simp only: of_nat_add of_nat_mult of_nat_power of_nat_numeral)
  finally have v: "digitsValue (recode k) = int (val256 ?m)" by (simp only: mod_mult_div_eq)
  have "int (val256 ?m) mod int ?r = int (val256 k) mod int ?r"
    using odd(2) unfolding reduceScalar_value by (metis zmod_int)
  then show ?thesis using odd(1) sg(2) unfolding v by (simp add: r)
qed

end
