(* ===== verification/SchnorrQ.thy ===== *)
theory SchnorrQ
  imports FourQ_Fixed Key_Utils
begin

text \<open>
  SchnorrQ signatures as in \<open>dispatcher/src/crypto/k12_and_key_utils.h\<close>, the derivation of the public key of
  \<open>key_utils.cpp\<close> and the signing of task packets of \<open>dispatcher_signing.cpp\<close>.  Casts of a byte array to
  an array of words are \<open>words256\<close>, which reads the first 32 bytes.
\<close>

section \<open>Signing\<close>

definition words256 :: "bytes \<Rightarrow> u256" where
  "words256 bs = (load_le (take 8 bs), load_le (take 8 (drop 8 bs)), load_le (take 8 (drop 16 bs)), load_le (take 8 (drop 24 bs)))"

definition bytes256 :: "u256 \<Rightarrow> bytes" where
  "bytes256 = (\<lambda>(a0, a1, a2, a3). store_le 8 a0 @ store_le 8 a1 @ store_le 8 a2 @ store_le 8 a3)"

definition signWithNonceK :: "bytes \<Rightarrow> bytes \<Rightarrow> bytes \<Rightarrow> bytes" where
  "signWithNonceK k publicKey messageDigest =
     (let r = KangarooTwelve (take 32 (drop 32 k) @ messageDigest) 64 64;
          R = ecc_mul_fixed (words256 r);
          signature = encode R;
          h = KangarooTwelve (signature @ publicKey @ messageDigest) 96 64;
          r1 = Montgomery_multiply_mod_order (words256 r) Montgomery_Rprime;
          r1 = Montgomery_multiply_mod_order r1 ONE;
          h1 = Montgomery_multiply_mod_order (words256 h) Montgomery_Rprime;
          h1 = Montgomery_multiply_mod_order h1 ONE;
          s = Montgomery_multiply_mod_order (words256 k) Montgomery_Rprime;
          h1 = Montgomery_multiply_mod_order h1 Montgomery_Rprime;
          s = Montgomery_multiply_mod_order s h1;
          s = Montgomery_multiply_mod_order s ONE;
          (borrow, s) = subBorrow256 r1 s;
          s = (if borrow then snd (addCarry256 False s curve_order) else s)
      in signature @ bytes256 s)"

definition sign :: "bytes \<Rightarrow> bytes \<Rightarrow> bytes \<Rightarrow> bytes" where
  "sign subseed publicKey messageDigest = signWithNonceK (KangarooTwelve subseed 32 64) publicKey messageDigest"

definition getPublicKeyFromPrivateKey :: "bytes \<Rightarrow> bytes" where
  "getPublicKeyFromPrivateKey privateKey = encode (ecc_mul_fixed (words256 privateKey))"

section \<open>The signing context of the dispatcher\<close>

record DispatcherSigningContext =
  sc_subseed :: bytes
  sc_publicKey :: bytes

definition initSigningContext :: "bytes \<Rightarrow> DispatcherSigningContext option" where
  "initSigningContext seed =
     (if length seed \<noteq> 55 then None
      else case getSubseedFromSeed seed of
             None \<Rightarrow> None
           | Some subseed \<Rightarrow>
               Some \<lparr>sc_subseed = subseed,
                     sc_publicKey = getPublicKeyFromPrivateKey (getPrivateKeyFromSubSeed subseed)\<rparr>)"

definition signTaskPacket :: "DispatcherSigningContext \<Rightarrow> bytes \<Rightarrow> u32 \<Rightarrow> bytes" where
  "signTaskPacket ctx data dataSize =
     sign (sc_subseed ctx) (sc_publicKey ctx) (KangarooTwelve data dataSize 32)"

text \<open>The functions that derive the keys and sign in one step.\<close>

definition getPublicKeyFromSeed :: "bytes \<Rightarrow> bytes" where
  "getPublicKeyFromSeed seed =
     (let subseed = (case getSubseedFromSeed seed of None \<Rightarrow> replicate 32 0 | Some s \<Rightarrow> s)
      in getPublicKeyFromPrivateKey (getPrivateKeyFromSubSeed subseed))"

definition signData :: "bytes \<Rightarrow> bytes \<Rightarrow> u32 \<Rightarrow> bytes" where
  "signData seed data dataLength =
     (let subseed = (case getSubseedFromSeed seed of None \<Rightarrow> replicate 32 0 | Some s \<Rightarrow> s);
          sourcePublicKey = getPublicKeyFromPrivateKey (getPrivateKeyFromSubSeed subseed);
          digest = KangarooTwelve data dataLength 32
      in sign subseed sourcePublicKey digest)"

section \<open>Scalars as byte strings\<close>

lemma length_bytes256 [simp]: "length (bytes256 s) = 32"
  by (cases s) (simp add: bytes256_def)

lemma length_encode_point [simp]: "length (encode P) = 32"
  by (simp add: encode_def f2elmBytes_def Let_def case_prod_beta)

lemma le_nat_store_u64: "le_nat (store_le 8 (w :: u64)) = unat w"
  using unat_u64_less [of w] by (simp add: store_le_def le_nat_nat_le)

lemma le_nat_bytes256: "le_nat (bytes256 s) = val256 s"
  by (cases s) (simp add: bytes256_def le_simps le_nat_store_u64)

lemma val256_words256:
  assumes "32 \<le> length bs"
  shows "val256 (words256 bs) = le_nat (take 32 bs)"
proof -
  have u: "unat (load_le (take 8 (drop n bs)) :: u64) = le_nat (take 8 (drop n bs))" if "n + 8 \<le> length bs" for n
    using that by (simp add: unat_load_le)
  have "take (8 + (8 + (8 + 8))) bs = take 8 bs @ take 8 (drop 8 bs) @ take 8 (drop 16 bs) @ take 8 (drop 24 bs)"
    by (simp only: take_add drop_drop) simp
  then show ?thesis
    using assms u [of 0] u [of 8] u [of 16] u [of 24] by (simp add: words256_def le_simps min_def)
qed

section \<open>The signature equation\<close>

text \<open>The second half of a signature: r - k h modulo the order.\<close>

definition signatureScalar :: "u256 \<Rightarrow> u256 \<Rightarrow> u256 \<Rightarrow> u256" where
  "signatureScalar k r h =
     (let s = Montgomery_multiply_mod_order
                (Montgomery_multiply_mod_order (Montgomery_multiply_mod_order k Montgomery_Rprime)
                   (Montgomery_multiply_mod_order (reduceScalar h) Montgomery_Rprime)) ONE;
          (borrow, s) = subBorrow256 (reduceScalar r) s
      in if borrow then snd (addCarry256 False s curve_order) else s)"

lemma signatureScalar_value:
  "val256 (signatureScalar k r h) < val256 curve_order \<and>
   (val256 (signatureScalar k r h) + val256 k * val256 h) mod val256 curve_order = val256 r mod val256 curve_order"
proof -
  let ?o = "val256 curve_order"
  define s where "s = Montgomery_multiply_mod_order
      (Montgomery_multiply_mod_order (Montgomery_multiply_mod_order k Montgomery_Rprime)
         (Montgomery_multiply_mod_order (reduceScalar h) Montgomery_Rprime)) ONE"
  have "val256 (Montgomery_multiply_mod_order (Montgomery_multiply_mod_order k Montgomery_Rprime)
      (Montgomery_multiply_mod_order (reduceScalar h) Montgomery_Rprime)) = (val256 k * val256 (reduceScalar h)) * 2 ^ 256 mod ?o"
    by (rule Montgomery_product [OF to_Montgomery to_Montgomery])
  then have "val256 s = val256 k * val256 (reduceScalar h) mod ?o"
    unfolding s_def by (intro from_Montgomery) simp
  then have s: "val256 s = val256 k * val256 h mod ?o" unfolding reduceScalar_value by (simp only: mod_mult_right_eq)
  obtain b d where d: "subBorrow256 (reduceScalar r) s = (b, d)" by (meson surj_pair)
  obtain c e where e: "addCarry256 False d curve_order = (c, e)" by (meson surj_pair)
  define t where "t = (if b then e else d)"
  have t: "signatureScalar k r h = t" by (simp add: signatureScalar_def s_def [symmetric] d e t_def)
  have lt: "val256 s < ?o" "val256 (reduceScalar r) < ?o" using order_bounds by (simp_all add: s reduceScalar_value)
  have v: "val256 t < ?o \<and> (val256 t + val256 s = val256 (reduceScalar r) \<or> val256 t + val256 s = val256 (reduceScalar r) + ?o)"
    using subBorrow256_value [OF d] addCarry256_value [OF e] lt val256_less [of d] val256_less [of e] order_bounds
    by (cases b; cases c) (auto simp: t_def)
  have "(val256 t + val256 k * val256 h) mod ?o = (val256 t + val256 s) mod ?o" unfolding s by (simp only: mod_add_right_eq)
  also have "\<dots> = val256 (reduceScalar r) mod ?o" using v by (metis mod_add_self2)
  finally show ?thesis using v unfolding t reduceScalar_value by simp
qed

lemma signWithNonceK_parts:
  "signWithNonceK k publicKey messageDigest =
     (let r = KangarooTwelve (take 32 (drop 32 k) @ messageDigest) 64 64;
          signature = encode (ecc_mul_fixed (words256 r));
          h = KangarooTwelve (signature @ publicKey @ messageDigest) 96 64
      in signature @ bytes256 (signatureScalar (words256 k) (words256 r) (words256 h)))"
  by (simp add: signWithNonceK_def signatureScalar_def reduceScalar_def Let_def case_prod_beta)

abbreviation scalarOf :: "bytes \<Rightarrow> nat" where
  "scalarOf bs \<equiv> le_nat (take 32 bs)"

text \<open>With the secret k, the nonce r and the challenge h of the scheme, a signature is the encoded point rG
  followed by a scalar s below the order with s + k h congruent to r.\<close>

definition schnorr_equation :: "bytes \<Rightarrow> bytes \<Rightarrow> bytes \<Rightarrow> bytes \<Rightarrow> bool" where
  "schnorr_equation subseed publicKey messageDigest signature \<longleftrightarrow>
     (let k = KT128 subseed [] 64;
          r = KT128 (drop 32 k @ messageDigest) [] 64;
          h = KT128 (take 32 signature @ publicKey @ messageDigest) [] 64
      in length signature = 64 \<and> take 32 signature = encode (ecc_mul_fixed (words256 r)) \<and>
         le_nat (drop 32 signature) < val256 curve_order \<and>
         (le_nat (drop 32 signature) + scalarOf k * scalarOf h) mod val256 curve_order = scalarOf r mod val256 curve_order)"

lemma sign_schnorr:
  assumes "length subseed = 32" "length publicKey = 32" "length messageDigest = 32"
  shows "schnorr_equation subseed publicKey messageDigest (sign subseed publicKey messageDigest)"
proof -
  define k where "k = KT128 subseed [] 64"
  define r where "r = KT128 (drop 32 k @ messageDigest) [] 64"
  let ?R = "encode (ecc_mul_fixed (words256 r))"
  define h where "h = KT128 (?R @ publicKey @ messageDigest) [] 64"
  have len: "length k = 64" "length r = 64" "length h = 64" by (simp_all add: k_def r_def h_def length_KT128)
  have "KangarooTwelve subseed 32 64 = k" using KangarooTwelve_standard [of subseed 64] assms(1) by (simp add: k_def)
  moreover have "KangarooTwelve (take 32 (drop 32 k) @ messageDigest) 64 64 = r"
    using KangarooTwelve_standard [of "drop 32 k @ messageDigest" 64] assms(3) len by (simp add: r_def)
  moreover have "KangarooTwelve (?R @ publicKey @ messageDigest) 96 64 = h"
    using KangarooTwelve_standard [of "?R @ publicKey @ messageDigest" 64] assms(2,3) by (simp add: h_def)
  ultimately have s: "sign subseed publicKey messageDigest = ?R @ bytes256 (signatureScalar (words256 k) (words256 r) (words256 h))"
    by (simp add: sign_def signWithNonceK_parts Let_def)
  show ?thesis
    unfolding schnorr_equation_def Let_def k_def [symmetric] r_def [symmetric] s
    using signatureScalar_value [of "words256 k" "words256 r" "words256 h"] len
    by (simp add: h_def [symmetric] le_nat_bytes256 val256_words256)
qed

lemma length_sign [simp]: "length (sign subseed publicKey messageDigest) = 64"
  by (simp add: sign_def signWithNonceK_parts Let_def)

end
