(* ===== verification/FourQ_Endo.thy ===== *)
theory FourQ_Endo
  imports FourQ
begin

text \<open>
  The endomorphisms phi and psi of the curve in \<open>dispatcher/src/crypto/k12_and_key_utils.h\<close>: the maps tau to and
  from an isogenous curve and the two maps on that curve.  An assignment to a field of the point is an update of
  its record, in the order of the source.
\<close>

section \<open>The maps\<close>

definition ctau1 :: f2elm_t where "ctau1 = ((0x74DCD57CEBCE74C3, 0x1964DE2C3AFAD20C), (0x12, 0x0C))"
definition ctaudual1 :: f2elm_t where "ctaudual1 = ((0x9ECAA6D9DECDF034, 0x4AA740EB23058652), (0x11, 0x7FFFFFFFFFFFFFF4))"
definition cphi0 :: f2elm_t where "cphi0 = ((0xFFFFFFFFFFFFFFF7, 0x05), (0x4F65536CEF66F81A, 0x2553A0759182C329))"
definition cphi1 :: f2elm_t where "cphi1 = ((0x07, 0x05), (0x334D90E9E28296F9, 0x62C8CAA0C50C62CF))"
definition cphi2 :: f2elm_t where "cphi2 = ((0x15, 0x0F), (0x2C2CB7154F1DF391, 0x78DF262B6C9B5C98))"
definition cphi3 :: f2elm_t where "cphi3 = ((0x03, 0x02), (0x92440457A7962EA4, 0x5084C6491D76342A))"
definition cphi4 :: f2elm_t where "cphi4 = ((0x03, 0x03), (0xA1098C923AEC6855, 0x12440457A7962EA4))"
definition cphi5 :: f2elm_t where "cphi5 = ((0x0F, 0x0A), (0x669B21D3C5052DF3, 0x459195418A18C59E))"
definition cphi6 :: f2elm_t where "cphi6 = ((0x18, 0x12), (0xCD3643A78A0A5BE7, 0x0B232A8314318B3C))"
definition cphi7 :: f2elm_t where "cphi7 = ((0x23, 0x18), (0x66C183035F48781A, 0x3963BC1C99E2EA1A))"
definition cphi8 :: f2elm_t where "cphi8 = ((0xF0, 0xAA), (0x44E251582B5D0EF0, 0x1F529F860316CBE5))"
definition cphi9 :: f2elm_t where "cphi9 = ((0xBEF, 0x870), (0x14D3E48976E2505, 0xFD52E9CFE00375B))"
definition cpsi1 :: f2elm_t where "cpsi1 = ((0xEDF07F4767E346EF, 0x2AF99E9A83D54A02), (0x13A, 0xDE))"
definition cpsi2 :: f2elm_t where "cpsi2 = ((0x143, 0xE4), (0x4C7DEB770E03F372, 0x21B8D07B99A81F03))"
definition cpsi3 :: f2elm_t where "cpsi3 = ((0x09, 0x06), (0x3A6E6ABE75E73A61, 0x4CB26F161D7D6906))"
definition cpsi4 :: f2elm_t where "cpsi4 = ((0xFFFFFFFFFFFFFFF6, 0x7FFFFFFFFFFFFFF9), (0xC59195418A18C59E, 0x334D90E9E28296F9))"

definition ecc_tau :: "point_extproj \<Rightarrow> point_extproj" where
  "ecc_tau P =
     (let t0 = fp2sqr1271 (pe_x P);
          t1 = fp2sqr1271 (pe_y P);
          P = P\<lparr>pe_x := fp2mul1271 (pe_x P) (pe_y P)\<rparr>;
          P = P\<lparr>pe_y := fp2sqr1271 (pe_z P)\<rparr>;
          P = P\<lparr>pe_z := fp2add1271 t0 t1\<rparr>;
          t0 = fp2sub1271 t1 t0;
          P = P\<lparr>pe_y := fp2add1271 (pe_y P) (pe_y P)\<rparr>;
          P = P\<lparr>pe_x := fp2mul1271 (pe_x P) t0\<rparr>;
          P = P\<lparr>pe_y := fp2sub1271 (pe_y P) t0\<rparr>;
          P = P\<lparr>pe_x := fp2mul1271 (pe_x P) ctau1\<rparr>;
          P = P\<lparr>pe_y := fp2mul1271 (pe_y P) (pe_z P)\<rparr>
      in P\<lparr>pe_z := fp2mul1271 (pe_z P) t0\<rparr>)"

definition ecc_tau_dual :: "point_extproj \<Rightarrow> point_extproj" where
  "ecc_tau_dual P =
     (let t0 = fp2sqr1271 (pe_x P);
          P = P\<lparr>pe_ta := fp2sqr1271 (pe_z P)\<rparr>;
          t1 = fp2sqr1271 (pe_y P);
          P = P\<lparr>pe_z := fp2add1271 (pe_ta P) (pe_ta P)\<rparr>;
          P = P\<lparr>pe_ta := fp2sub1271 t1 t0\<rparr>;
          t0 = fp2add1271 t0 t1;
          P = P\<lparr>pe_x := fp2mul1271 (pe_x P) (pe_y P)\<rparr>;
          P = P\<lparr>pe_z := fp2sub1271 (pe_z P) (pe_ta P)\<rparr>;
          P = P\<lparr>pe_tb := fp2mul1271 (pe_x P) ctaudual1\<rparr>;
          P = P\<lparr>pe_y := fp2mul1271 (pe_z P) (pe_ta P)\<rparr>;
          P = P\<lparr>pe_x := fp2mul1271 (pe_tb P) t0\<rparr>
      in P\<lparr>pe_z := fp2mul1271 (pe_z P) t0\<rparr>)"

definition ecc_delphidel :: "point_extproj \<Rightarrow> point_extproj" where
  "ecc_delphidel P =
     (let t4 = fp2sqr1271 (pe_z P);
          t3 = fp2mul1271 (pe_y P) (pe_z P);
          t0 = fp2mul1271 t4 cphi4;
          t2 = fp2sqr1271 (pe_y P);
          t0 = fp2add1271 t0 t2;
          t1 = fp2mul1271 t3 cphi3;
          t5 = fp2sub1271 t0 t1;
          t0 = fp2add1271 t0 t1;
          t0 = fp2mul1271 t0 (pe_z P);
          t1 = fp2mul1271 t3 cphi1;
          t0 = fp2mul1271 t0 t5;
          t5 = fp2mul1271 t4 cphi2;
          t5 = fp2add1271 t2 t5;
          t6 = fp2sub1271 t1 t5;
          t1 = fp2add1271 t1 t5;
          t6 = fp2mul1271 t6 t1;
          t6 = fp2mul1271 t6 cphi0;
          P = P\<lparr>pe_x := fp2mul1271 (pe_x P) t6\<rparr>;
          t6 = fp2sqr1271 t2;
          t2 = fp2sqr1271 t3;
          t3 = fp2sqr1271 t4;
          t1 = fp2mul1271 t2 cphi8;
          t5 = fp2mul1271 t3 cphi9;
          t1 = fp2add1271 t1 t6;
          t2 = fp2mul1271 t2 cphi6;
          t3 = fp2mul1271 t3 cphi7;
          t1 = fp2add1271 t1 t5;
          t2 = fp2add1271 t2 t3;
          t1 = fp2mul1271 t1 (pe_y P);
          P = P\<lparr>pe_y := fp2add1271 t6 t2\<rparr>;
          P = P\<lparr>pe_x := fp2mul1271 (pe_x P) t1\<rparr>;
          P = P\<lparr>pe_y := fp2mul1271 (pe_y P) cphi5\<rparr>;
          P = P\<lparr>pe_x := (fst (pe_x P), fpneg1271 (snd (pe_x P)))\<rparr>;
          P = P\<lparr>pe_y := fp2mul1271 (pe_y P) (pe_z P)\<rparr>;
          P = P\<lparr>pe_z := fp2mul1271 t0 t1\<rparr>;
          P = P\<lparr>pe_y := fp2mul1271 (pe_y P) t0\<rparr>;
          P = P\<lparr>pe_z := (fst (pe_z P), fpneg1271 (snd (pe_z P)))\<rparr>
      in P\<lparr>pe_y := (fst (pe_y P), fpneg1271 (snd (pe_y P)))\<rparr>)"

definition ecc_delpsidel :: "point_extproj \<Rightarrow> point_extproj" where
  "ecc_delpsidel P =
     (let P = P\<lparr>pe_x := (fst (pe_x P), fpneg1271 (snd (pe_x P)))\<rparr>;
          P = P\<lparr>pe_z := (fst (pe_z P), fpneg1271 (snd (pe_z P)))\<rparr>;
          P = P\<lparr>pe_y := (fst (pe_y P), fpneg1271 (snd (pe_y P)))\<rparr>;
          t2 = fp2sqr1271 (pe_z P);
          t0 = fp2sqr1271 (pe_x P);
          P = P\<lparr>pe_x := fp2mul1271 (pe_x P) t2\<rparr>;
          P = P\<lparr>pe_z := fp2mul1271 t2 cpsi2\<rparr>;
          t1 = fp2mul1271 t2 cpsi3;
          t2 = fp2mul1271 t2 cpsi4;
          P = P\<lparr>pe_z := fp2add1271 t0 (pe_z P)\<rparr>;
          t2 = fp2add1271 t0 t2;
          t1 = fp2add1271 t0 t1;
          t2 = fp2neg1271 t2;
          P = P\<lparr>pe_z := fp2mul1271 (pe_z P) (pe_y P)\<rparr>;
          P = P\<lparr>pe_x := fp2mul1271 (pe_x P) t2\<rparr>;
          P = P\<lparr>pe_y := fp2mul1271 t1 (pe_z P)\<rparr>;
          P = P\<lparr>pe_x := fp2mul1271 (pe_x P) cpsi1\<rparr>
      in P\<lparr>pe_z := fp2mul1271 (pe_z P) t2\<rparr>)"

definition ecc_psi :: "point_extproj \<Rightarrow> point_extproj" where
  "ecc_psi P = ecc_tau_dual (ecc_delpsidel (ecc_tau P))"

definition ecc_phi :: "point_extproj \<Rightarrow> point_extproj" where
  "ecc_phi P = ecc_tau_dual (ecc_delphidel (ecc_tau P))"

end
