(* ===== verification/FourQ_Scalar.thy ===== *)
theory FourQ_Scalar
  imports Montgomery
begin

text \<open>
  The scalars of the double multiplication in \<open>dispatcher/src/crypto/k12_and_key_utils.h\<close>: the decomposition of a
  number of 256 bits into four words along the endomorphisms of the curve, and the recoding of a word in
  signed digits.  The products with the rows of the basis are computed modulo 2^64; the theorems say that
  nothing is lost by it.
\<close>

section \<open>Decomposition\<close>

definition ell1 :: u256 where "ell1 = (0x259686E09D1A7D4F, 0xF75682ACE6A6BD66, 0xFC5BB5C5EA2BE5DF, 0x07)"
definition ell2 :: u256 where "ell2 = (0xD1BA1D84DD627AFB, 0x2BD235580F468D8D, 0x8FD4B04CAA6C0F8A, 0x03)"
definition ell3 :: u256 where "ell3 = (0x9B291A33678C203C, 0xC42BD6C965DCA902, 0xD038BF8D0BFFBAF6, 0x00)"
definition ell4 :: u256 where "ell4 = (0x12E5666B77E7FDC0, 0x81CBDC3714983D82, 0x1B073877A22D8410, 0x03)"

text \<open>The rows B11 to B14, ..., B41 to B44 of the basis and the offsets.\<close>

definition basis1 :: u256 where "basis1 = (0xF6F900D81F5F5E6A, 0x1363E862C22A2DA0, 0xF8BD9FCE1337FCF1, 0x084F739986B9E651)"
definition basis2 :: u256 where "basis2 = (0xE2B6A4157B033D2C, 0x0000000000000001, 0xFFFFFFFFFFFFFFFF, 0xDA243A43722E9830)"
definition basis3 :: u256 where "basis3 = (0xE85452E2DCE0FCFE, 0xFD3BDEE51C7725AF, 0x2E4D21C98927C49F, 0xF56190BB3FD13269)"
definition basis4 :: u256 where "basis4 = (0xEC91CBF56EF737C1, 0xCEDD20D23C1F00CE, 0x068A49F02AA8A9B5, 0x18D5087896DE0AEA)"
definition offsets :: u256 where "offsets = (0x72482C5251A4559C, 0x59F95B0ADD276F6C, 0x7DD2D17C4625FA78, 0x6BC57DEF56CE8877)"

text \<open>The product of two words added to the words \<open>x\<close> and \<open>y\<close>, as in
  \<open>low = _umul128(a, b, &high); d = _addcarry_u64(_addcarry_u64(0, x, low, &u), y, high, &v)\<close>: gives u, d and v.\<close>

definition mulAcc :: "u64 \<Rightarrow> u64 \<Rightarrow> u64 \<Rightarrow> u64 \<Rightarrow> u64 \<times> bool \<times> u64" where
  "mulAcc x y a b =
     (let (low, high) = umul128 a b; (c, u) = addcarry_u64 False x low; (d, v) = addcarry_u64 c y high in (u, d, v))"

definition mul_truncate :: "u256 \<Rightarrow> u256 \<Rightarrow> u64" where
  "mul_truncate = (\<lambda>(s0, s1, s2, s3) (C0, C1, C2, C3).
     let (low00, high00) = umul128 s0 C0;
         (t0, d, t1) = mulAcc high00 0 s1 C0;
         (t0, t2, t3) = mulAcc t0 t1 s0 C1;
         (t4, d, t5) = mulAcc t3 (of_bool t2) s2 C0;
         (t7, t6, t8) = mulAcc t4 t5 s0 C2;
         (t0, t9, t10) = mulAcc t7 t8 s1 C1;
         (t11, d, t12) = mulAcc t10 (of_bool t6 + of_bool t9) s0 C3;
         (t13, d, t14) = mulAcc t11 t12 s3 C0;
         (t15, d, t16) = mulAcc t13 t14 s1 C2;
         (low21, high21) = umul128 s2 C1;
         (c, t0) = addcarry_u64 False t15 low21
     in of_bool c + t16 + high21 + s1 * C3 + s2 * C2 + s3 * C1)"

definition addRow :: "u64 \<Rightarrow> u256 \<Rightarrow> u256 \<Rightarrow> u256" where
  "addRow a = (\<lambda>(b0, b1, b2, b3) (s0, s1, s2, s3). (a * b0 + s0, a * b1 + s1, a * b2 + s2, a * b3 + s3))"

definition decompose :: "u256 \<Rightarrow> u256" where
  "decompose k =
     (let a1 = mul_truncate k ell1;
          a2 = mul_truncate k ell2;
          a3 = mul_truncate k ell3;
          a4 = mul_truncate k ell4;
          (s0, s1, s2, s3) = addRow a1 basis1 (addRow a2 basis2 (addRow a3 basis3 (addRow a4 basis4 offsets)));
          s0 = s0 + fst k
      in if s0 AND 1 = 0
         then (case basis4 of (b0, b1, b2, b3) \<Rightarrow> (s0 - b0, s1 - b1, s2 - b2, s3 - b3))
         else (s0, s1, s2, s3))"

section \<open>Signed digits\<close>

text \<open>The digits are written into an array of 65 signed characters.  A write outside of it is \<open>None\<close>.\<close>

definition putDigit :: "nat \<Rightarrow> int \<Rightarrow> 8 word list \<Rightarrow> 8 word list option" where
  "putDigit index digit digits = (if index < length digits then Some (digits[index := of_int digit]) else None)"

text \<open>The zeros that follow a digit.\<close>

fun putZeros :: "nat \<Rightarrow> nat \<Rightarrow> 8 word list \<Rightarrow> (nat \<times> 8 word list) option" where
  "putZeros 0 index digits = Some (index, digits)"
| "putZeros (Suc n) index digits =
     (case putDigit (index + 1) 0 digits of None \<Rightarrow> None | Some digits' \<Rightarrow> putZeros n (index + 1) digits')"

text \<open>One pass of the loop on the scalar, the index and the array.\<close>

definition wNAF_step :: "nat \<Rightarrow> u64 \<Rightarrow> nat \<Rightarrow> 8 word list \<Rightarrow> (u64 \<times> nat \<times> 8 word list) option" where
  "wNAF_step w scalar index digits =
     (let val1 = 2 ^ (w - 1) - 1 :: int;
          val2 = 2 ^ w :: int;
          mask = of_int val2 - 1 :: u64
      in if scalar AND 1 = 0
         then map_option (\<lambda>ds. (drop_bit 1 scalar, index + 1, ds)) (putDigit index 0 digits)
         else
           let digit = uint (scalar AND mask);
               scalar = drop_bit w scalar;
               digit = (if digit > val1 then digit - val2 else digit);
               scalar = (if digit < 0 then scalar + 1 else scalar)
           in case putDigit index digit digits of
                None \<Rightarrow> None
              | Some ds \<Rightarrow>
                  if scalar \<noteq> 0
                  then map_option (\<lambda>(i, ds). (scalar, i + 1, ds)) (putZeros (w - 1) index ds)
                  else Some (scalar, index + 1, ds))"

lemma putZeros_index: "putZeros n index digits = Some (i, ds) \<Longrightarrow> i = index + n \<and> length ds = length digits"
  by (induction n arbitrary: index digits) (fastforce simp: putDigit_def split: option.splits if_splits)+

lemma wNAF_step_index:
  "wNAF_step w scalar index digits = Some (s, i, ds) \<Longrightarrow> index < length digits \<and> index < i \<and> length ds = length digits"
  by (auto simp: wNAF_step_def Let_def putDigit_def dest: putZeros_index split: option.splits if_splits)

function wNAF_loop :: "nat \<Rightarrow> u64 \<Rightarrow> nat \<Rightarrow> 8 word list \<Rightarrow> (nat \<times> 8 word list) option" where
  "wNAF_loop w scalar index digits =
     (if scalar = 0 then Some (index, digits)
      else case wNAF_step w scalar index digits of
             None \<Rightarrow> None
           | Some (s, i, ds) \<Rightarrow> wNAF_loop w s i ds)"
  by pat_completeness auto
termination
  by (relation "measure (\<lambda>(w, scalar, index, digits). length digits - index)") (auto dest: wNAF_step_index)

declare wNAF_loop.simps [simp del]

text \<open>The rest of the array is cleared by \<open>memset\<close>, whose length is 65 less the index.\<close>

definition wNAF_recode :: "u64 \<Rightarrow> nat \<Rightarrow> 8 word list \<Rightarrow> 8 word list option" where
  "wNAF_recode scalar w digits =
     (case wNAF_loop w scalar 0 digits of
        None \<Rightarrow> None
      | Some (index, ds) \<Rightarrow> if index \<le> 65 then Some (take index ds @ replicate (65 - index) 0) else None)"

section \<open>The truncated product\<close>

lemma umul128_eq: "umul128 a b = (l, h) \<Longrightarrow> unat a * unat b = unat l + 2 ^ 64 * unat h"
  using umul128_value by simp

lemma mulAcc_value:
  "mulAcc x y a b = (u, d, v) \<Longrightarrow> unat u + 2 ^ 64 * unat v + 2 ^ 64 * (2 ^ 64 * of_bool d) = unat x + 2 ^ 64 * unat y + unat a * unat b"
  by (auto simp: mulAcc_def Let_def split: prod.splits dest!: umul128_eq addcarry_u64_value)

lemma product_256:
  "val256 (s0, s1, s2, s3) * val256 (c0, c1, c2, c3) =
     unat s0 * unat c0 + 2 ^ 64 * (unat s1 * unat c0 + unat s0 * unat c1 +
     2 ^ 64 * (unat s2 * unat c0 + unat s0 * unat c2 + unat s1 * unat c1 +
     2 ^ 64 * (unat s0 * unat c3 + unat s3 * unat c0 + unat s1 * unat c2 + unat s2 * unat c1 +
     2 ^ 64 * (unat s1 * unat c3 + unat s2 * unat c2 + unat s3 * unat c1 +
     2 ^ 64 * (unat s2 * unat c3 + unat s3 * unat c2 + 2 ^ 64 * (unat s3 * unat c3))))))"
  by (simp add: algebra_simps)

text \<open>The chain of the partial sums, in an arbitrary base.\<close>

lemma carry_chain:
  fixes M :: int
  assumes "p00 = l00 + M * h00" "t0 + M * t1 + M * (M * d1) = h00 + M * y0 + p10" "u1 + M * t3 + M * (M * t2) = t0 + M * t1 + p01"
    "t4 + M * t5 + M * (M * d3) = t3 + M * t2 + p20" "t7 + M * t8 + M * (M * t6) = t4 + M * t5 + p02"
    "u2 + M * t10 + M * (M * t9) = t7 + M * t8 + p11" "t11 + M * t12 + M * (M * d6) = t10 + M * (t6 + t9) + p03"
    "t13 + M * t14 + M * (M * d7) = t11 + M * t12 + p30" "t15 + M * t16 + M * (M * d8) = t13 + M * t14 + p12"
    "p21 = l21 + M * h21" "u3 + M * k = t15 + l21" "d1 = 0" "d3 = 0" "y0 = 0"
  shows "p00 + M * (p10 + p01 + M * (p20 + p02 + p11 + M * (p03 + p30 + p12 + p21 + M * (q + M * r)))) =
    l00 + M * (u1 + M * (u2 + M * (u3 + M * (k + t16 + h21 + q + M * (d6 + d7 + d8 + r)))))"
proof -
  have eqs: "p10 = t0 + M * t1 - h00" "p01 = u1 + M * t3 + M * (M * t2) - t0 - M * t1" "p20 = t4 + M * t5 - t3 - M * t2"
    "p02 = t7 + M * t8 + M * (M * t6) - t4 - M * t5" "p11 = u2 + M * t10 + M * (M * t9) - t7 - M * t8"
    "p03 = t11 + M * t12 + M * (M * d6) - t10 - M * (t6 + t9)" "p30 = t13 + M * t14 + M * (M * d7) - t11 - M * t12"
    "p12 = t15 + M * t16 + M * (M * d8) - t13 - M * t14" "u3 = t15 + l21 - M * k"
    using assms by simp_all
  show ?thesis unfolding assms(1,10) eqs by (simp add: algebra_simps)
qed

lemma product_u64_le: "unat (a :: u64) * unat (b :: u64) \<le> (2 ^ 64 - 1) * (2 ^ 64 - 1)"
  using unat_u64_le [of a] unat_u64_le [of b] by (intro mult_le_mono) simp_all

lemma word_at: "x = l + B * (w + M * q) \<Longrightarrow> l < B \<Longrightarrow> x div B mod M = w mod (M :: nat)"
  by simp

lemmas int_simps = of_nat_add of_nat_mult of_nat_power of_nat_numeral of_nat_of_bool

text \<open>The word of the product at 2^256: the carries below it are kept, those above it have no influence.\<close>

lemma mul_truncate_value: "unat (mul_truncate s c) = (val256 s * val256 c) div 2 ^ 256 mod 2 ^ 64"
proof -
  obtain s0 s1 s2 s3 c0 c1 c2 c3 where s: "s = (s0, s1, s2, s3)" and c: "c = (c0, c1, c2, c3)" by (cases s, cases c)
  obtain low00 high00 where m00: "umul128 s0 c0 = (low00, high00)" by (meson surj_pair)
  obtain t0 d1 t1 where 1: "mulAcc high00 0 s1 c0 = (t0, d1, t1)" by (rule prod_cases3)
  obtain u1 t2 t3 where 2: "mulAcc t0 t1 s0 c1 = (u1, t2, t3)" by (rule prod_cases3)
  obtain t4 d3 t5 where 3: "mulAcc t3 (of_bool t2) s2 c0 = (t4, d3, t5)" by (rule prod_cases3)
  obtain t7 t6 t8 where 4: "mulAcc t4 t5 s0 c2 = (t7, t6, t8)" by (rule prod_cases3)
  obtain u2 t9 t10 where 5: "mulAcc t7 t8 s1 c1 = (u2, t9, t10)" by (rule prod_cases3)
  obtain t11 d6 t12 where 6: "mulAcc t10 (of_bool t6 + of_bool t9) s0 c3 = (t11, d6, t12)" by (rule prod_cases3)
  obtain t13 d7 t14 where 7: "mulAcc t11 t12 s3 c0 = (t13, d7, t14)" by (rule prod_cases3)
  obtain t15 d8 t16 where 8: "mulAcc t13 t14 s1 c2 = (t15, d8, t16)" by (rule prod_cases3)
  obtain low21 high21 where m21: "umul128 s2 c1 = (low21, high21)" by (meson surj_pair)
  obtain k u3 where a: "addcarry_u64 False t15 low21 = (k, u3)" by (meson surj_pair)
  note v = umul128_eq [OF m00] mulAcc_value [OF 1] mulAcc_value [OF 2] mulAcc_value [OF 3] mulAcc_value [OF 4]
    mulAcc_value [OF 5] mulAcc_value [OF 6] mulAcc_value [OF 7] mulAcc_value [OF 8] umul128_eq [OF m21] addcarry_u64_value [OF a]
  have two: "unat (of_bool t6 + of_bool t9 :: u64) = of_bool t6 + of_bool t9" by (cases t6; cases t9) simp_all
  have d1: "d1 = False" using v(2) unat_u64_le [of high00] product_u64_le [of s1 c0] by (cases d1) simp_all
  have d3: "d3 = False"
    using v(1-4) d1 product_u64_le [of s0 c0] product_u64_le [of s1 c0] product_u64_le [of s0 c1] product_u64_le [of s2 c0]
    by (cases d3; cases t2) (simp_all add: unat_of_bool)
  let ?w = "of_bool k + unat t16 + unat high21 + (unat s1 * unat c3 + unat s2 * unat c2 + unat s3 * unat c1)"
  have r: "unat (mul_truncate s c) = ?w mod 2 ^ 64"
    by (simp add: s c mul_truncate_def m00 1 2 3 4 5 6 7 8 m21 a unat_word_ariths unat_of_bool mod_simps add.assoc)
  note vi = v [unfolded two unat_of_bool unat_0 of_bool_eq(1) add_0_right, THEN arg_cong [where f = int], unfolded int_simps of_nat_0]
  let ?low = "unat low00 + 2 ^ 64 * (unat u1 + 2 ^ 64 * (unat u2 + 2 ^ 64 * unat u3))"
  have "int (val256 s * val256 c) = int (unat low00 + 2 ^ 64 * (unat u1 + 2 ^ 64 * (unat u2 + 2 ^ 64 * (unat u3 + 2 ^ 64 * (?w +
      2 ^ 64 * (of_bool d6 + of_bool d7 + of_bool d8 + (unat s2 * unat c3 + unat s3 * unat c2 + 2 ^ 64 * (unat s3 * unat c3))))))))"
    unfolding s c product_256 unfolding int_simps
    by (rule carry_chain [OF vi]) (simp_all add: d1 d3)
  then have "val256 s * val256 c = ?low + 2 ^ 256 * (?w + 2 ^ 64 * (of_bool d6 + of_bool d7 + of_bool d8 +
      (unat s2 * unat c3 + unat s3 * unat c2 + 2 ^ 64 * (unat s3 * unat c3))))"
    unfolding of_nat_eq_iff by simp
  moreover have "?low < 2 ^ 256" using val256_less [of "(low00, u1, u2, u3)"] by simp
  ultimately show ?thesis unfolding r by (rule word_at [symmetric])
qed

section \<open>The decomposition represents the scalar\<close>

text \<open>The eigenvalues of the endomorphisms phi and psi on the subgroup of prime order, and the rows of the basis
  as signed numbers: each is a relation between 1, phi, psi and phi psi modulo the order.\<close>

definition lambda_phi :: int where
  "lambda_phi = 0x6d9069dc876c883c18f03c13d737624874f0b5e4daa9bcdf0e63ce8997864"

definition lambda_psi :: int where
  "lambda_psi = 0x18c475353519268c4c2510ab53b51ecb3688ca09ef0e885dc7f2b7cdfd2a88"

type_synonym vec4 = "int \<times> int \<times> int \<times> int"

definition eigen :: "vec4 \<Rightarrow> int" where
  "eigen = (\<lambda>(v0, v1, v2, v3). v0 + v1 * lambda_phi + v2 * lambda_psi + v3 * (lambda_phi * lambda_psi))"

definition svec :: "u256 \<Rightarrow> vec4" where
  "svec = (\<lambda>(a0, a1, a2, a3). (sint a0, sint a1, sint a2, sint a3))"

definition uvec :: "u256 \<Rightarrow> vec4" where
  "uvec = (\<lambda>(a0, a1, a2, a3). (uint a0, uint a1, uint a2, uint a3))"

definition wordvec :: "vec4 \<Rightarrow> u256" where
  "wordvec = (\<lambda>(v0, v1, v2, v3). (of_int v0, of_int v1, of_int v2, of_int v3))"

definition rowTimes :: "int \<Rightarrow> vec4 \<Rightarrow> vec4 \<Rightarrow> vec4" where
  "rowTimes a = (\<lambda>(b0, b1, b2, b3) (v0, v1, v2, v3). (a * b0 + v0, a * b1 + v1, a * b2 + v2, a * b3 + v3))"

lemmas basis_defs = basis1_def basis2_def basis3_def basis4_def offsets_def ell1_def ell2_def ell3_def ell4_def

lemma svec_basis:
  "svec basis1 = (- 650487742939046294, 1397215820276968864, - 523086274270593807, 598824378691085905)"
  "svec basis2 = (- 2110318963211420372, 1, - 1, - 2727991412926801872)"
  "svec basis3 = (- 1705647224544756482, - 199320682881407569, 3336360048424633503, - 765171327772315031)"
  "svec basis4 = (- 1400113754146392127, - 3540637644719456050, 471270406870313397, 1789345740969872106)"
  "uvec offsets = (8234880650715616668, 6483313240794689388, 9066539331533273720, 7765751599377320055)"
  by (simp_all add: svec_def uvec_def basis_defs)

lemma order_literal: "int (val256 curve_order) = 73846995687063900142583536357581573884798075859800097461294096333596429543"
  by (simp add: curve_order_def)

lemma basis_in_lattice:
  "eigen (svec basis1) = 4293323042631020919828932679862702064713667430547469612241864498972498051723670541701339422 * int (val256 curve_order)"
  "eigen (svec basis2) = - 19558569774361361911816935515106360991082365904171058828734593994917896859807986982749401672 * int (val256 curve_order)"
  "eigen (svec basis3) = - 5485961844549660036079535077690478430827515521538059802125432498486450376154866595995363778 * int (val256 curve_order)"
  "eigen (svec basis4) = 12828868653830555362064830952587700854747407163689097690961993468305017288912660472013853751 * int (val256 curve_order)"
  "eigen (uvec offsets) = 55677226030496718726716410437284967953434468628862919355372685542520098592750014181733209524 * int (val256 curve_order)"
  unfolding svec_basis eigen_def lambda_phi_def lambda_psi_def prod.case order_literal by (simp_all only: arith_simps mult_1_left)

lemma eigen_rowTimes: "eigen (rowTimes a b v) = a * eigen b + eigen v"
  by (cases b; cases v) (simp add: eigen_def rowTimes_def algebra_simps)

lemma addRow_wordvec: "addRow (of_int a) b (wordvec v) = wordvec (rowTimes a (svec b) v)"
  by (cases b; cases v) (simp add: addRow_def wordvec_def rowTimes_def svec_def)

text \<open>The quotients by 2^256 that approximate the coordinates of the scalar in the basis.\<close>

definition quotient256 :: "u256 \<Rightarrow> u256 \<Rightarrow> int" where
  "quotient256 k l = int (val256 k) * int (val256 l) div 2 ^ 256"

lemma mul_truncate_quotient: "mul_truncate k l = of_int (quotient256 k l)"
proof -
  have "uint (mul_truncate k l) = quotient256 k l mod 2 ^ 64"
    unfolding quotient256_def uint_nat mul_truncate_value by (simp only: zmod_int zdiv_int of_nat_mult of_nat_power of_nat_numeral)
  then show ?thesis by (simp add: word_uint_eq_iff uint_word_of_int)
qed

definition decomposed :: "u256 \<Rightarrow> vec4" where
  "decomposed k = rowTimes (int (val256 k)) (1, 0, 0, 0) (rowTimes (quotient256 k ell1) (svec basis1) (rowTimes (quotient256 k ell2) (svec basis2)
     (rowTimes (quotient256 k ell3) (svec basis3) (rowTimes (quotient256 k ell4) (svec basis4) (uvec offsets)))))"

definition in_words :: "vec4 \<Rightarrow> bool" where
  "in_words = (\<lambda>(v0, v1, v2, v3). 0 \<le> v0 \<and> v0 < 2 ^ 64 \<and> 0 \<le> v1 \<and> v1 < 2 ^ 64 \<and> 0 \<le> v2 \<and> v2 < 2 ^ 64 \<and> 0 \<le> v3 \<and> v3 < 2 ^ 64)"

text \<open>Both candidates fit into words, whatever the scalar.\<close>

lemma power_literals: "(2 :: int) ^ 256 = 115792089237316195423570985008687907853269984665640564039457584007913129639936" "(2 :: int) ^ 64 = 18446744073709551616"
  by simp_all

lemma decomposition_bounds:
  fixes K :: int
  assumes "0 \<le> K" "K < 2 ^ 256"
    "2 ^ 256 * a1 \<le> K * 50127518246259276682880317011538934615153226543083896339791" "K * 50127518246259276682880317011538934615153226543083896339791 < 2 ^ 256 * a1 + 2 ^ 256"
    "2 ^ 256 * a2 \<le> K * 22358026531042503310338016640572204942053343837521088510715" "K * 22358026531042503310338016640572204942053343837521088510715 < 2 ^ 256 * a2 + 2 ^ 256"
    "2 ^ 256 * a3 \<le> K * 5105580562119000402467322500999592531749084507000101675068" "K * 5105580562119000402467322500999592531749084507000101675068 < 2 ^ 256 * a3 + 2 ^ 256"
    "2 ^ 256 * a4 \<le> K * 19494034873545274265741574254707851381713530791194721254848" "K * 19494034873545274265741574254707851381713530791194721254848 < 2 ^ 256 * a4 + 2 ^ 256"
  shows "0 \<le> K + (a1 * (- 650487742939046294) + (a2 * (- 2110318963211420372) + (a3 * (- 1705647224544756482) + (a4 * (- 1400113754146392127) + (8234880650715616668)))))" "K + (a1 * (- 650487742939046294) + (a2 * (- 2110318963211420372) + (a3 * (- 1705647224544756482) + (a4 * (- 1400113754146392127) + (8234880650715616668))))) < 2 ^ 64"
    "0 \<le> 1400113754146392127 + (K + (a1 * (- 650487742939046294) + (a2 * (- 2110318963211420372) + (a3 * (- 1705647224544756482) + (a4 * (- 1400113754146392127) + (8234880650715616668))))))" "1400113754146392127 + (K + (a1 * (- 650487742939046294) + (a2 * (- 2110318963211420372) + (a3 * (- 1705647224544756482) + (a4 * (- 1400113754146392127) + (8234880650715616668)))))) < 2 ^ 64"
    "0 \<le> (a1 * 1397215820276968864 + (a2 * 1 + (a3 * (- 199320682881407569) + (a4 * (- 3540637644719456050) + (6483313240794689388)))))" "(a1 * 1397215820276968864 + (a2 * 1 + (a3 * (- 199320682881407569) + (a4 * (- 3540637644719456050) + (6483313240794689388))))) < 2 ^ 64"
    "0 \<le> 3540637644719456050 + ((a1 * 1397215820276968864 + (a2 * 1 + (a3 * (- 199320682881407569) + (a4 * (- 3540637644719456050) + (6483313240794689388))))))" "3540637644719456050 + ((a1 * 1397215820276968864 + (a2 * 1 + (a3 * (- 199320682881407569) + (a4 * (- 3540637644719456050) + (6483313240794689388)))))) < 2 ^ 64"
    "0 \<le> (a1 * (- 523086274270593807) + (a2 * (- 1) + (a3 * 3336360048424633503 + (a4 * 471270406870313397 + (9066539331533273720)))))" "(a1 * (- 523086274270593807) + (a2 * (- 1) + (a3 * 3336360048424633503 + (a4 * 471270406870313397 + (9066539331533273720))))) < 2 ^ 64"
    "0 \<le> (- 471270406870313397) + ((a1 * (- 523086274270593807) + (a2 * (- 1) + (a3 * 3336360048424633503 + (a4 * 471270406870313397 + (9066539331533273720))))))" "(- 471270406870313397) + ((a1 * (- 523086274270593807) + (a2 * (- 1) + (a3 * 3336360048424633503 + (a4 * 471270406870313397 + (9066539331533273720)))))) < 2 ^ 64"
    "0 \<le> (a1 * 598824378691085905 + (a2 * (- 2727991412926801872) + (a3 * (- 765171327772315031) + (a4 * 1789345740969872106 + (7765751599377320055)))))" "(a1 * 598824378691085905 + (a2 * (- 2727991412926801872) + (a3 * (- 765171327772315031) + (a4 * 1789345740969872106 + (7765751599377320055))))) < 2 ^ 64"
    "0 \<le> (- 1789345740969872106) + ((a1 * 598824378691085905 + (a2 * (- 2727991412926801872) + (a3 * (- 765171327772315031) + (a4 * 1789345740969872106 + (7765751599377320055))))))" "(- 1789345740969872106) + ((a1 * 598824378691085905 + (a2 * (- 2727991412926801872) + (a3 * (- 765171327772315031) + (a4 * 1789345740969872106 + (7765751599377320055)))))) < 2 ^ 64"
  by (insert assms, unfold power_literals) linarith+

lemma val256_ell:
  "int (val256 ell1) = 50127518246259276682880317011538934615153226543083896339791"
  "int (val256 ell2) = 22358026531042503310338016640572204942053343837521088510715"
  "int (val256 ell3) = 5105580562119000402467322500999592531749084507000101675068"
  "int (val256 ell4) = 19494034873545274265741574254707851381713530791194721254848"
  by (simp_all add: basis_defs)

lemma div_bounds: "0 < (m :: int) \<Longrightarrow> m * (x div m) \<le> x" "0 < (m :: int) \<Longrightarrow> x < m * (x div m) + m"
  by (simp_all add: minus_mod_eq_mult_div [symmetric] pos_mod_bound)

lemma decomposed_in_words: "in_words (decomposed k)" "in_words (rowTimes (- 1) (svec basis4) (decomposed k))"
proof -
  have "int (val256 k) < int (2 ^ 256)" using val256_less [of k] by (simp only: of_nat_less_iff)
  then have K: "0 \<le> int (val256 k)" "int (val256 k) < 2 ^ 256" by (simp_all only: of_nat_0_le_iff of_nat_power of_nat_numeral)
  have p: "0 < (2 ^ 256 :: int)" by simp
  note q = div_bounds [OF p, of "int (val256 k) * int (val256 l)" for l, folded quotient256_def]
  note b = decomposition_bounds [OF K q [of ell1, unfolded val256_ell] q [of ell2, unfolded val256_ell]
    q [of ell3, unfolded val256_ell] q [of ell4, unfolded val256_ell], unfolded mult_1_right]
  show "in_words (decomposed k)" "in_words (rowTimes (- 1) (svec basis4) (decomposed k))"
    unfolding decomposed_def svec_basis rowTimes_def in_words_def prod.case mult_1_right mult_zero_right add_0 mult_minus1 minus_minus
    by (intro conjI b)+
qed

lemma uvec_wordvec: "in_words v \<Longrightarrow> uvec (wordvec v) = v"
  by (cases v) (simp add: in_words_def uvec_def wordvec_def uint_word_of_int)

lemma wordvec_uvec: "wordvec (uvec k) = k"
  by (cases k) (simp add: wordvec_def uvec_def)

lemma and_1_of_int: "(of_int z :: u64) AND 1 = 0 \<longleftrightarrow> even z"
proof -
  have "(of_int z :: u64) AND 1 = 0 \<longleftrightarrow> even (uint (of_int z :: u64))"
    by (simp add: and_one_eq word_uint_eq_iff uint_mod even_iff_mod_2_eq_zero)
  also have "uint (of_int z :: u64) = z mod 2 ^ 64" by (simp add: uint_word_of_int)
  also have "even (z mod 2 ^ 64) \<longleftrightarrow> even z" by (rule dvd_mod_iff) simp
  finally show ?thesis .
qed

lemma unat_fst_k: "unat (fst k) = val256 k mod 2 ^ 64"
proof -
  obtain k0 k1 k2 k3 where k: "k = (k0, k1, k2, k3)" by (rule prod_cases4)
  have "val256 k = unat k0 + 2 ^ 64 * (unat k1 + 2 ^ 64 * unat k2 + 2 ^ 128 * unat k3)" by (simp add: k)
  then have "val256 k mod 2 ^ 64 = unat k0 mod 2 ^ 64" by (metis mod_mult_self2)
  then show ?thesis using unat_u64_less [of k0] by (simp add: k)
qed

lemma decompose_candidates:
  "decompose k = (if even (fst (decomposed k)) then wordvec (rowTimes (- 1) (svec basis4) (decomposed k)) else wordvec (decomposed k))"
proof -
  obtain v0 v1 v2 v3 where v: "rowTimes (quotient256 k ell1) (svec basis1) (rowTimes (quotient256 k ell2) (svec basis2)
     (rowTimes (quotient256 k ell3) (svec basis3) (rowTimes (quotient256 k ell4) (svec basis4) (uvec offsets)))) = (v0, v1, v2, v3)"
    by (rule prod_cases4)
  have w: "addRow (mul_truncate k ell1) basis1 (addRow (mul_truncate k ell2) basis2 (addRow (mul_truncate k ell3) basis3
     (addRow (mul_truncate k ell4) basis4 offsets))) = (of_int v0, of_int v1, of_int v2, of_int v3)"
    unfolding mul_truncate_quotient addRow_wordvec [of _ _ "uvec offsets", unfolded wordvec_uvec] addRow_wordvec v by (simp add: wordvec_def)
  have k: "fst k = of_int (int (val256 k))" using unat_fst_k [of k] by (simp add: word_unat_eq_iff unat_of_nat del: val256_simp)
  have e: "(of_int v0 + fst k) AND 1 = 0 \<longleftrightarrow> even (v0 + int (val256 k))"
    unfolding k of_int_add [symmetric] by (rule and_1_of_int)
  obtain b0 b1 b2 b3 where b: "basis4 = (b0, b1, b2, b3)" by (rule prod_cases4)
  show ?thesis
    unfolding decompose_def Let_def w decomposed_def v prod.case e
    unfolding b by (simp add: rowTimes_def wordvec_def svec_def k add.commute)
qed

lemma decompose_value:
  "eigen (uvec (decompose k)) mod int (val256 curve_order) = int (val256 k) mod int (val256 curve_order) \<and>
   odd (uint (fst (decompose k)))"
proof -
  have e: "eigen (1, 0, 0, 0) = 1" by (simp add: eigen_def)
  have o: "odd (fst (svec basis4))" unfolding svec_basis by simp
  have c: "eigen (decomposed k) mod int (val256 curve_order) = int (val256 k) mod int (val256 curve_order)"
    unfolding decomposed_def eigen_rowTimes basis_in_lattice e
    by (simp only: mult.assoc [symmetric] distrib_right [symmetric] mult_1_right mod_mult_self1)
  have d: "eigen (rowTimes (- 1) (svec basis4) (decomposed k)) mod int (val256 curve_order) = int (val256 k) mod int (val256 curve_order)"
    unfolding eigen_rowTimes basis_in_lattice c [symmetric] by (simp only: mult.assoc [symmetric] mod_mult_self3)
  have f: "fst (rowTimes (- 1) b v) = fst v - fst b" for b v by (cases b; cases v) (simp add: rowTimes_def)
  have u: "uint (fst w) = fst (uvec w)" for w by (cases w) (simp add: uvec_def)
  show ?thesis
    using c d o by (cases "even (fst (decomposed k))") (simp_all add: decompose_candidates u uvec_wordvec [OF decomposed_in_words(1)]
      uvec_wordvec [OF decomposed_in_words(2)] f del: val256_simp)
qed

text \<open>
  C16: the decomposition of a scalar of 256 bits is exact.  The four words that decompose computes modulo 2^64 are
  coordinates a1 to a4 with k = a1 + a2 phi + a3 psi + a4 phi psi modulo the order of the curve, for the eigenvalues of
  the two endomorphisms, and a1 is odd: no coordinate ever leaves the range of a word.\<close>

theorem decompose_correct:
  "eigen (uvec (decompose k)) mod int (val256 curve_order) = int (val256 k) mod int (val256 curve_order) \<and>
   odd (uint (fst (decompose k)))"
  by (rule decompose_value)

section \<open>The signed digits represent the word\<close>

text \<open>The value of a list of digits, least significant first, and the digits a window of \<open>w\<close> bits allows.\<close>

fun naf :: "8 word list \<Rightarrow> int" where
  "naf [] = 0"
| "naf (d # ds) = sint d + 2 * naf ds"

definition naf_ok :: "nat \<Rightarrow> 8 word list \<Rightarrow> bool" where
  "naf_ok w = list_all (\<lambda>d. sint d = 0 \<or> odd (sint d) \<and> \<bar>sint d\<bar> < 2 ^ (w - 1))"

lemma naf_append: "naf (xs @ ys) = naf xs + 2 ^ length xs * naf ys"
  by (induction xs) (simp_all add: algebra_simps)

lemma naf_zeros [simp]: "naf (replicate n 0) = 0"
  by (induction n) simp_all

lemma naf_ok_append [simp]: "naf_ok w (xs @ ys) \<longleftrightarrow> naf_ok w xs \<and> naf_ok w ys"
  by (simp add: naf_ok_def)

lemma naf_ok_Cons [simp]: "naf_ok w (d # ds) \<longleftrightarrow> (sint d = 0 \<or> odd (sint d) \<and> \<bar>sint d\<bar> < 2 ^ (w - 1)) \<and> naf_ok w ds"
  by (simp add: naf_ok_def)

lemma naf_ok_Nil [simp]: "naf_ok w []"
  by (simp add: naf_ok_def)

lemma naf_ok_zeros [simp]: "naf_ok w (replicate n 0)"
  by (simp add: naf_ok_def list_all_length)

lemma putZeros_writes:
  "index + n < length ds \<Longrightarrow> \<exists>ds'. putZeros n index ds = Some (index + n, ds') \<and> length ds' = length ds \<and>
     take (index + n + 1) ds' = take (index + 1) ds @ replicate n 0"
proof (induction n arbitrary: index ds)
  case (Suc n)
  then obtain ds' where "putZeros n (index + 1) (ds[index + 1 := 0]) = Some (index + 1 + n, ds')" "length ds' = length ds"
    "take (index + 1 + n + 1) ds' = take (index + 1 + 1) (ds[index + 1 := 0]) @ replicate n 0"
    using Suc.IH [of "index + 1" "ds[index + 1 := 0]"] by auto
  moreover have "take (index + 1 + 1) (ds[index + 1 := 0]) = take (index + 1) ds @ [0]"
    using Suc.prems by (simp add: take_Suc_conv_app_nth)
  ultimately show ?case using Suc.prems by (simp add: putDigit_def)
qed simp

text \<open>The remaining scalar at an index: what is left fits into the remaining positions.\<close>

definition naf_inv :: "u64 \<Rightarrow> nat \<Rightarrow> bool" where
  "naf_inv scalar index \<longleftrightarrow> scalar = 0 \<and> index \<le> 65 \<or> index \<le> 64 \<and> uint scalar \<le> 2 ^ (64 - index)"

lemma uint_and_mask: "uint (scalar AND (of_int (2 ^ w) - 1) :: u64) = uint scalar mod 2 ^ w"
proof -
  have "scalar AND (of_int (2 ^ w) - 1) = take_bit w scalar" by (simp add: take_bit_eq_mask mask_eq_exp_minus_1)
  then have "uint (scalar AND (of_int (2 ^ w) - 1)) = take_bit w (uint scalar)" by (simp only: unsigned_take_bit_eq)
  then show ?thesis by (simp only: take_bit_eq_mod)
qed

lemma uint_drop_bit_u64: "uint (drop_bit w scalar :: u64) = uint scalar div 2 ^ w"
  using uint_bounded [of scalar] by (subst unsigned_drop_bit_eq) (simp add: drop_bit_eq_div take_bit_eq_mod)

lemma odd_window:
  fixes s :: int
  assumes "odd s" "2 \<le> w" "d = (if s mod 2 ^ w > 2 ^ (w - 1) - 1 then s mod 2 ^ w - 2 ^ w else s mod 2 ^ w)"
    "q = (if d < 0 then s div 2 ^ w + 1 else s div 2 ^ w)"
  shows "s = d + 2 ^ w * q" "odd d" "\<bar>d\<bar> < 2 ^ (w - 1)"
proof -
  obtain v where "w = 2 + v" using le_Suc_ex [OF assms(2)] by blast
  then have w: "w = Suc (Suc v)" by simp
  define r where "r = s mod 2 ^ w"
  have r: "0 \<le> r" "r < 2 ^ w" "s = r + 2 ^ w * (s div 2 ^ w)" by (simp_all add: r_def)
  have o: "odd r" unfolding r_def using assms(1) by (simp add: w even_mod_2_iff dvd_mod_iff)
  have "r \<noteq> 2 ^ (w - 1)" using o by (auto simp: w)
  then show "s = d + 2 ^ w * q" "odd d" "\<bar>d\<bar> < 2 ^ (w - 1)"
    using r o assms(3,4) unfolding r_def [symmetric] by (auto simp: w algebra_simps)
qed

lemma remaining_bound:
  fixes s :: int
  assumes "odd s" "2 \<le> w" "0 < s" "index \<le> 64" "s \<le> 2 ^ (64 - index)" "s = d + 2 ^ w * q" "\<bar>d\<bar> < 2 ^ (w - 1)" "q \<noteq> 0"
  shows "index + w \<le> 64" "q \<le> 2 ^ (64 - (index + w))"
proof -
  have q: "1 \<le> q"
  proof (rule ccontr)
    assume "\<not> 1 \<le> q"
    then have "2 ^ w * q \<le> 2 ^ w * (- 1)" using \<open>q \<noteq> 0\<close> by (intro mult_left_mono) simp_all
    moreover have "(2 :: int) ^ (w - 1) < 2 ^ w" using assms(2) by (intro power_strict_increasing) simp_all
    ultimately show False using assms(3,6,7) by linarith
  qed
  have h: "(2 :: int) ^ w = 2 * 2 ^ (w - 1)" using assms(2) by (cases w) simp_all
  have "2 ^ w * 1 \<le> 2 ^ w * q" using q by (intro mult_left_mono) simp_all
  then have "2 ^ (w - 1) < s" using assms(6,7) h by linarith
  then have "(2 :: int) ^ (w - 1) < 2 ^ (64 - index)" using assms(5) by linarith
  then have "w - 1 < 64 - index" by (rule power_less_imp_less_exp [rotated]) simp
  then show i: "index + w \<le> 64" by linarith
  then have e: "(2 :: int) ^ (64 - index) = 2 ^ w * 2 ^ (64 - (index + w))" by (simp add: power_add [symmetric])
  show "q \<le> 2 ^ (64 - (index + w))"
  proof (rule ccontr)
    assume "\<not> q \<le> 2 ^ (64 - (index + w))"
    then have "2 ^ w * (2 ^ (64 - (index + w)) + 1) \<le> 2 ^ w * q" by (intro mult_left_mono) simp_all
    then have "2 ^ w * 2 ^ (64 - (index + w)) + 2 ^ w \<le> 2 ^ w * q" by (simp only: distrib_left mult_1_right)
    then show False using assms(5,6,7) e h by linarith
  qed
qed

lemma naf_digit: "2 \<le> w \<Longrightarrow> w \<le> 8 \<Longrightarrow> \<bar>d\<bar> < 2 ^ (w - 1) \<Longrightarrow> sint (of_int d :: 8 word) = d"
proof -
  assume w: "2 \<le> w" "w \<le> 8" and d: "\<bar>d\<bar> < 2 ^ (w - 1)"
  have "(2 :: int) ^ (w - 1) \<le> 2 ^ 7" using w by (intro power_increasing) simp_all
  then have "- 128 \<le> d" "d < 128" using d by simp_all
  then show ?thesis by (simp add: sint_sbintrunc' signed_take_bit_int_eq_self)
qed

text \<open>One pass appends digits whose value with the remaining scalar is that of the scalar before.\<close>

lemma wNAF_step_even:
  assumes "scalar AND 1 = 0" "scalar \<noteq> 0" "naf_inv scalar index" "length ds = 65"
  shows "\<exists>s' ds'. wNAF_step w scalar index ds = Some (s', index + 1, ds') \<and> length ds' = 65 \<and> naf_inv s' (index + 1) \<and>
    take (index + 1) ds' = take index ds @ [0] \<and> uint scalar = 2 * uint s'"
proof -
  have i: "index \<le> 64" "uint scalar \<le> 2 ^ (64 - index)" using assms(2,3) by (auto simp: naf_inv_def)
  have e: "even (uint scalar)" using and_1_of_int [of "uint scalar"] assms(1) by simp
  have d: "uint (drop_bit 1 scalar) = uint scalar div 2" using uint_drop_bit_u64 [of 1 scalar] by simp
  have "0 < uint scalar" using assms(2) by (simp add: word_neq_0_conv word_less_def)
  then have "index \<noteq> 64" using e i by auto
  then have l: "index < 64" using i by simp
  then have p: "(2 :: int) ^ (64 - index) = 2 * 2 ^ (64 - (index + 1))" by (simp add: Suc_diff_Suc flip: power_Suc)
  have "2 * (uint scalar div 2) = uint scalar" using e by simp
  then have "uint scalar div 2 \<le> 2 ^ (64 - (index + 1))" using i(2) unfolding p by linarith
  then have "naf_inv (drop_bit 1 scalar) (index + 1)" using l unfolding naf_inv_def d by simp
  then show ?thesis
    using assms(1,4) l d e by (simp add: wNAF_step_def putDigit_def take_Suc_conv_app_nth)
qed

lemma wNAF_step_odd:
  assumes "scalar AND 1 \<noteq> 0" "naf_inv scalar index" "length ds = 65" "2 \<le> w" "w \<le> 8"
  shows "\<exists>s' n ds' d. wNAF_step w scalar index ds = Some (s', index + 1 + n, ds') \<and> length ds' = 65 \<and> naf_inv s' (index + 1 + n) \<and>
    take (index + 1 + n) ds' = take index ds @ of_int d # replicate n 0 \<and> odd d \<and> \<bar>d\<bar> < 2 ^ (w - 1) \<and>
    uint scalar = d + 2 ^ (n + 1) * uint s'"
proof -
  define s where "s = uint scalar"
  define d where "d = (if s mod 2 ^ w > 2 ^ (w - 1) - 1 then s mod 2 ^ w - 2 ^ w else s mod 2 ^ w)"
  define q where "q = (if d < 0 then s div 2 ^ w + 1 else s div 2 ^ w)"
  define s' where "s' = (if d < 0 then drop_bit w scalar + 1 else drop_bit w scalar)"
  have o: "odd s" using and_1_of_int [of s] assms(1) by (simp add: s_def)
  then have "scalar \<noteq> 0" by (auto simp: s_def)
  then have i: "index \<le> 64" "s \<le> 2 ^ (64 - index)" using assms(2) by (auto simp: naf_inv_def s_def)
  have s0: "0 < s" using o by (simp add: s_def order_less_le) auto
  note win = odd_window [OF o assms(4) d_def q_def]
  have "s div 2 ^ w \<le> s div 2 ^ 2" using assms(4) s0 by (intro zdiv_mono2 power_increasing) simp_all
  then have "s div 2 ^ w + 1 < 2 ^ 64" using uint_bounded [of scalar] by (simp add: s_def)
  moreover have "0 \<le> s div 2 ^ w" using s0 by (simp add: pos_imp_zdiv_nonneg_iff)
  ultimately have q: "uint s' = q" by (simp add: s'_def q_def uint_word_ariths uint_drop_bit_u64 s_def)
  have put: "putDigit index d ds = Some (ds[index := of_int d])" using i assms(3) by (simp add: putDigit_def)
  have step: "wNAF_step w scalar index ds = (if s' \<noteq> 0
      then map_option (\<lambda>(i, ds). (s', i + 1, ds)) (putZeros (w - 1) index (ds[index := of_int d])) else Some (s', index + 1, ds[index := of_int d]))"
    unfolding wNAF_step_def Let_def uint_and_mask s_def [symmetric] unfolding d_def [symmetric] unfolding s'_def [symmetric] put
    using assms(1) by simp
  have t: "take (index + 1) (ds[index := of_int d]) = take index ds @ [of_int d]"
    using i assms(3) by (simp add: take_Suc_conv_app_nth)
  show ?thesis
  proof (cases "s' = 0")
    case True
    then have "s = d" using win(1) q by simp
    then show ?thesis using True step t win i assms(3) by (intro exI [of _ s'] exI [of _ 0]) (auto simp: naf_inv_def s_def)
  next
    case False
    then have "q \<noteq> 0" using q by (metis uint_0_iff)
    note b = remaining_bound [OF o assms(4) s0 i win(1,3) this]
    have "index + (w - 1) < length (ds[index := of_int d])" using b(1) assms(3,4) by simp
    from putZeros_writes [OF this] obtain ds' where ds': "putZeros (w - 1) index (ds[index := of_int d]) = Some (index + (w - 1), ds')" "length ds' = 65"
      "take (index + (w - 1) + 1) ds' = take (index + 1) (ds[index := of_int d]) @ replicate (w - 1) 0"
      unfolding length_list_update assms(3) by blast
    have "index + 1 + (w - 1) = index + w" using assms(4) by simp
    moreover have "naf_inv s' (index + w)" using b q by (simp add: naf_inv_def)
    ultimately show ?thesis using ds' step False t win assms(4) q
      by (intro exI [of _ s'] exI [of _ "w - 1"] exI [of _ ds'] exI [of _ d]) (auto simp: s_def)
  qed
qed

lemma wNAF_loop_value:
  assumes "naf_inv scalar index" "length ds = 65" "2 \<le> w" "w \<le> 8" "naf_ok w (take index ds)"
  shows "\<exists>i ds'. wNAF_loop w scalar index ds = Some (i, ds') \<and> i \<le> 65 \<and> length ds' = 65 \<and> naf_ok w (take i ds') \<and>
    naf (take i ds') = naf (take index ds) + 2 ^ index * uint scalar"
  using assms
proof (induction w scalar index ds rule: wNAF_loop.induct)
  case (1 w scalar index ds)
  show ?case
  proof (cases "scalar = 0")
    case True
    then show ?thesis using 1 by (subst wNAF_loop.simps) (auto simp: naf_inv_def)
  next
    case False
    then have i: "index \<le> 64" using 1 by (auto simp: naf_inv_def)
    have "\<exists>s' j ds'. wNAF_step w scalar index ds = Some (s', j, ds') \<and> length ds' = 65 \<and> naf_inv s' j \<and> naf_ok w (take j ds') \<and>
      naf (take j ds') + 2 ^ j * uint s' = naf (take index ds) + 2 ^ index * uint scalar"
    proof (cases "scalar AND 1 = 0")
      case True
      then show ?thesis
        using wNAF_step_even [OF True False, of index ds w] 1(2-) i by (auto simp: naf_append)
    next
      case odd: False
      then obtain s' n ds' d where st: "wNAF_step w scalar index ds = Some (s', index + 1 + n, ds')" "length ds' = 65"
        "naf_inv s' (index + 1 + n)" "take (index + 1 + n) ds' = take index ds @ of_int d # replicate n 0"
        "odd d" "\<bar>d\<bar> < 2 ^ (w - 1)" "uint scalar = d + 2 ^ (n + 1) * uint s'"
        using wNAF_step_odd [of scalar index ds w] 1 by blast
      have "sint (of_int d :: 8 word) = d" using 1 st by (intro naf_digit) simp_all
      then show ?thesis using st 1(6) i 1(3)
        by (intro exI [of _ s'] exI [of _ "index + 1 + n"] exI [of _ ds'])
          (simp add: naf_append power_add algebra_simps)
    qed
    then obtain s' j ds' where st: "wNAF_step w scalar index ds = Some (s', j, ds')" "length ds' = 65" "naf_inv s' j"
      "naf_ok w (take j ds')" "naf (take j ds') + 2 ^ j * uint s' = naf (take index ds) + 2 ^ index * uint scalar" by blast
    have "wNAF_loop w scalar index ds = wNAF_loop w s' j ds'" using False st(1) by (subst wNAF_loop.simps) simp
    then show ?thesis using "1.IH" [OF False st(1) refl refl st(3,2) 1(4,5) st(4)] st(5) by simp
  qed
qed

lemma wNAF_recode_value:
  assumes "2 \<le> w" "w \<le> 8" "length digits = 65"
  shows "\<exists>ds. wNAF_recode scalar w digits = Some ds \<and> length ds = 65 \<and> naf_ok w ds \<and> naf ds = uint scalar"
proof -
  have "naf_inv scalar 0" using uint_bounded [of scalar] by (simp add: naf_inv_def)
  from wNAF_loop_value [OF this assms(3,1,2)] obtain i ds where "wNAF_loop w scalar 0 digits = Some (i, ds)" "i \<le> 65"
    "length ds = 65" "naf_ok w (take i ds)" "naf (take i ds) = uint scalar" by auto
  then show ?thesis by (simp add: wNAF_recode_def naf_append)
qed

text \<open>
  C17: the window recoding of a word is total, in bounds and exact.  For the widths from 2 to 8 (the double multiplication uses
  4 and 8) and an array of 65 digits, wNAF_recode ends, never writes outside of the array and fills it with digits
  that are 0 or odd and smaller than 2^(w-1) in absolute value, and the sum of the digits times the powers of two is
  the word.\<close>

theorem wNAF_recode_represents:
  assumes "2 \<le> w" "w \<le> 8" "length digits = 65"
  shows "\<exists>ds. wNAF_recode scalar w digits = Some ds \<and> length ds = 65 \<and> naf_ok w ds \<and> naf ds = uint scalar"
  using assms by (rule wNAF_recode_value)

theorem wNAF_recode_represents_witness:
  "\<exists>ds. wNAF_recode 0xFFFFFFFFFFFFFFFF 8 (replicate 65 0) = Some ds \<and> length ds = 65 \<and> naf_ok 8 ds \<and> naf ds = 0xFFFFFFFFFFFFFFFF"
  using wNAF_recode_represents [of 8 "replicate 65 0" "0xFFFFFFFFFFFFFFFF"] by simp

end
