(* ===== verification/FourQ_Mul.thy ===== *)
theory FourQ_Mul
  imports FourQ_Endo FourQ_Scalar FourQ_Double_Table
begin

text \<open>
  The double multiplication k G + l Q in \<open>dispatcher/src/crypto/k12_and_key_utils.h\<close>: the table of odd multiples of a
  point, the four scalars of each factor, their signed digits and the interleaved loop.  The outer option
  of a result is \<open>None\<close> when the code writes outside of an array; the inner one is the returned truth value.
\<close>

section \<open>Tables\<close>

definition ecc_precomp_double :: "point_extproj \<Rightarrow> point_extproj_precomp list" where
  "ecc_precomp_double P =
     (let T0 = R1_to_R2 P;
          P = eccdouble P;
          PP = R1_to_R3 P;
          Q = eccadd_core T0 PP;
          T1 = R1_to_R2 Q;
          Q = eccadd_core T1 PP;
          T2 = R1_to_R2 Q;
          Q = eccadd_core T2 PP;
          T3 = R1_to_R2 Q
      in [T0, T1, T2, T3])"

definition doubleElement :: "nat \<Rightarrow> f2elm_t" where
  "doubleElement j =
     ((DOUBLE_SCALAR_TABLE ! j, DOUBLE_SCALAR_TABLE ! (j + 1)), (DOUBLE_SCALAR_TABLE ! (j + 2), DOUBLE_SCALAR_TABLE ! (j + 3)))"

definition doublePoint :: "nat \<Rightarrow> point_precomp" where
  "doublePoint i = \<lparr>pq_xy = doubleElement (12 * i), pq_yx = doubleElement (12 * i + 4), pq_t2 = doubleElement (12 * i + 8)\<rparr>"

section \<open>The loop\<close>

text \<open>What one digit adds: the digits are signed characters, and an odd digit d selects the entry d div 2.\<close>

definition addDigit :: "point_extproj_precomp list \<Rightarrow> 8 word \<Rightarrow> point_extproj \<Rightarrow> point_extproj" where
  "addDigit Q_table digit T =
     (if sint digit < 0 then eccadd (eccneg_extproj_precomp (Q_table ! nat (- sint digit div 2))) T
      else if sint digit > 0 then eccadd (Q_table ! nat (sint digit div 2)) T
      else T)"

definition maddDigit :: "nat \<Rightarrow> 8 word \<Rightarrow> point_extproj \<Rightarrow> point_extproj" where
  "maddDigit base digit T =
     (if sint digit < 0 then eccmadd (eccneg_precomp (doublePoint (base + nat (- sint digit div 2)))) T
      else if sint digit > 0 then eccmadd (doublePoint (base + nat (sint digit div 2))) T
      else T)"

record DoubleDigits =
  dd_l :: "(point_extproj_precomp list \<times> 8 word list) list"
  dd_k :: "(nat \<times> 8 word list) list"

definition doubleStep :: "DoubleDigits \<Rightarrow> nat \<Rightarrow> point_extproj \<Rightarrow> point_extproj" where
  "doubleStep D i T =
     fold (\<lambda>(base, digits). maddDigit base (digits ! i)) (dd_k D)
       (fold (\<lambda>(table, digits). addDigit table (digits ! i)) (dd_l D) (eccdouble T))"

text \<open>The neutral point; Ta and Tb are not set in the source, and the doubling that comes first overwrites them.\<close>

definition doubleStart :: point_extproj where
  "doubleStart = \<lparr>pe_x = ((0, 0), (0, 0)), pe_y = f2elm_one, pe_z = f2elm_one, pe_ta = ((0, 0), (0, 0)), pe_tb = ((0, 0), (0, 0))\<rparr>"

definition doubleLoop :: "DoubleDigits \<Rightarrow> point_extproj" where
  "doubleLoop D = fold (doubleStep D) (rev [0..<65]) doubleStart"

text \<open>The recoding of the four scalars of a factor.\<close>

fun recodeAll :: "nat \<Rightarrow> u64 list \<Rightarrow> 8 word list list option" where
  "recodeAll w [] = Some []"
| "recodeAll w (s # ss) =
     (case wNAF_recode s w (replicate 65 0) of
        None \<Rightarrow> None
      | Some ds \<Rightarrow> map_option ((#) ds) (recodeAll w ss))"

definition scalarList :: "u256 \<Rightarrow> u64 list" where
  "scalarList = (\<lambda>(s0, s1, s2, s3). [s0, s1, s2, s3])"

definition ecc_mul_double :: "u256 \<Rightarrow> u256 \<Rightarrow> point_affine \<Rightarrow> point_affine option option" where
  "ecc_mul_double k l Q =
     (let Q1 = point_setup Q
      in if \<not> ecc_point_validate Q1 then Some None
         else
           let Q2 = ecc_phi Q1;
               Q3 = ecc_psi Q1;
               Q4 = ecc_psi Q2;
               k_scalars = decompose k;
               l_scalars = decompose l
           in case recodeAll 8 (scalarList k_scalars) of
                None \<Rightarrow> None
              | Some digits_k \<Rightarrow>
                  (case recodeAll 4 (scalarList l_scalars) of
                     None \<Rightarrow> None
                   | Some digits_l \<Rightarrow>
                       let D = \<lparr>dd_l = zip (map ecc_precomp_double [Q1, Q2, Q3, Q4]) digits_l,
                                dd_k = zip [0, 64, 2 * 64, 3 * 64] digits_k\<rparr>
                       in Some (Some (eccnorm (doubleLoop D)))))"

lemma eccdouble_ignores_T: "eccdouble (P\<lparr>pe_ta := a, pe_tb := b\<rparr>) = eccdouble P"
  by (simp add: eccdouble_def Let_def)

end
