(* ===== verification/Schnorr_Verify.thy ===== *)
theory Schnorr_Verify
  imports FourQ_Mul SchnorrQ
begin

text \<open>
  The verification of SchnorrQ signatures in \<open>dispatcher/src/crypto/k12_and_key_utils.h\<close>: the decoding of a point from
  its y coordinate and a sign bit, the encoding in place that ends the verification, and \<open>verify\<close> itself.
\<close>

section \<open>Decoding\<close>

text \<open>The candidate for the x coordinate: a square root of u / v in the quadratic extension, up to the sign and the
  exchange of its components.\<close>

definition decodeY :: "bytes \<Rightarrow> f2elm_t" where
  "decodeY Pencoded = (case words256 Pencoded of (y0, y1, y2, y3) \<Rightarrow> ((y0, y1), (y2, y3 AND 0x7FFFFFFFFFFFFFFF)))"

definition decodeRoot :: "f2elm_t \<Rightarrow> f2elm_t" where
  "decodeRoot y =
     (let u = fp2sqr1271 y;
          v = fp2mul1271 u PARAMETER_d;
          u = fp2sub1271 u f2elm_one;
          v = fp2add1271 v f2elm_one;
          t0 = fpsqr1271 (fst v);
          t1 = fpsqr1271 (snd v);
          t0 = fpadd1271 t0 t1;
          t1 = fpmul1271 (fst u) (fst v);
          t2 = fpmul1271 (snd u) (snd v);
          t1 = fpadd1271 t1 t2;
          t2 = fpmul1271 (snd u) (fst v);
          t3 = fpmul1271 (fst u) (snd v);
          t2 = fpsub1271 t2 t3;
          t3 = fpsqr1271 t1;
          t4 = fpsqr1271 t2;
          t3 = fpadd1271 t3 t4;
          t3 = (fpsqr1271 ^^ 125) t3;
          t = mod1271 (fpadd1271 t1 t3);
          t = (if t = (0, 0) then fpsub1271 t1 t3 else t);
          t = fpadd1271 t t;
          t3 = fpsqr1271 t0;
          t3 = fpmul1271 t0 t3;
          t3 = fpmul1271 t t3;
          r = fpexp1251 t3;
          t3 = fpmul1271 t0 r;
          x0 = fpmul1271 t t3;
          t1 = fpsqr1271 x0;
          t1 = fpmul1271 t0 t1;
          x0 = fpdiv1271 x0;
          x1 = fpmul1271 t2 t3;
          t = mod1271 (fpsub1271 t t1);
          (x0, x1) = (if t \<noteq> (0, 0) then (x1, x0) else (x0, x1))
      in (mod1271 x0, x1))"

text \<open>The bit that stands for the sign of x.\<close>

definition signBit :: "f2elm_t \<Rightarrow> u64" where
  "signBit x = drop_bit 62 (snd (if fst x = (0, 0) then snd x else fst x))"

definition decode :: "bytes \<Rightarrow> point_affine option" where
  "decode Pencoded =
     (let y = decodeY Pencoded;
          x = decodeRoot y;
          x = (if (ucast (drop_bit 7 (Pencoded ! 31)) :: u32) \<noteq> ucast (signBit x) then fp2neg1271 x else x);
          P = \<lparr>pa_x = x, pa_y = y\<rparr>;
          R = point_setup P
      in if ecc_point_validate R then Some P
         else
           let R = R\<lparr>pe_x := (fst (pe_x R), fpneg1271 (snd (pe_x R)))\<rparr>;
               P = P\<lparr>pa_x := (fst (pa_x P), snd (pe_x R))\<rparr>
           in if ecc_point_validate R then Some P else None)"

section \<open>Verification\<close>

text \<open>\<open>encode\<close> with the point itself as the destination: the copy of y overwrites x before x is tested for zero.\<close>

definition encodeInPlace :: "point_affine \<Rightarrow> bytes" where
  "encodeInPlace P =
     (let temp1 = push_bit 1 (snd (snd (pa_x P)) AND 0x4000000000000000);
          temp2 = push_bit 1 (snd (fst (pa_x P)) AND 0x4000000000000000);
          P = P\<lparr>pa_x := pa_y P\<rparr>;
          (x0, x1) = pa_x P
      in f2elmBytes (x0, (fst x1, snd x1 OR (if fst x0 = 0 \<and> snd x0 = 0 then temp1 else temp2))))"

definition verify :: "bytes \<Rightarrow> bytes \<Rightarrow> bytes \<Rightarrow> bool option" where
  "verify publicKey messageDigest signature =
     (if publicKey ! 15 AND 0x80 \<noteq> 0 \<or> signature ! 15 AND 0x80 \<noteq> 0 \<or> signature ! 62 AND 0xC0 \<noteq> 0 \<or> signature ! 63 \<noteq> 0
      then Some False
      else case decode publicKey of
             None \<Rightarrow> Some False
           | Some A \<Rightarrow>
               let h = KangarooTwelve (take 32 signature @ publicKey @ messageDigest) 96 64
               in case ecc_mul_double (words256 (drop 32 signature)) (words256 h) A of
                    None \<Rightarrow> None
                  | Some None \<Rightarrow> Some False
                  | Some (Some A) \<Rightarrow> Some (encodeInPlace A = take 32 signature))"

section \<open>What decoding yields\<close>

lemma fpneg1271_snd: "f2elm_ok x \<Longrightarrow> f2elm_ok (fst x, fpneg1271 (snd x))"
  by (simp add: f2elm_ok_def fp.image_simps)

lemma f2elm_ok_decodeRoot:
  assumes "f2elm_ok y"
  shows "f2elm_ok (decodeRoot y)"
proof -
  have parts: "felm_ok (fst a)" "felm_ok (snd a)" if "f2elm_ok a" for a using that by (simp_all add: f2elm_ok_def)
  note ok = fp.image_simps fp2.image_simps d_ok mod1271_facts(1) fpdiv1271_facts(1) fpexp1251_facts [THEN conjunct1]
    fp.iter_sqr [THEN conjunct1] parts
  show ?thesis
    using assms unfolding decodeRoot_def Let_def by (simp add: ok f2elm_ok_def [of "(_, _)"] split: if_splits prod.splits)
qed

lemma bit_u64_iff: "n < 64 \<Longrightarrow> bit (w :: u64) n \<longleftrightarrow> odd (unat w div 2 ^ n)"
  using and_exp_nonzero_iff [of n w] by (simp add: and_exp_eq_0_iff_not_bit)

lemma felm_ok_iff_bit: "felm_ok a \<longleftrightarrow> \<not> bit (snd a) 63"
proof -
  have "\<not> bit (snd a) 63 \<longleftrightarrow> unat (snd a) < 2 ^ 63"
  proof (cases "unat (snd a) < 2 ^ 63")
    case False
    then have "unat (snd a) div 2 ^ 63 = 1" using unat_u64_le [of "snd a"] by (intro div_nat_eqI) simp_all
    then show ?thesis using False by (simp only: bit_u64_iff) simp
  qed (simp add: bit_u64_iff)
  then show ?thesis using unat_u64_le [of "fst a"] by (auto simp: felm_ok_def fval_def)
qed

lemma bit_62_iff: "felm_ok a \<Longrightarrow> bit (snd a) 62 \<longleftrightarrow> 2 ^ 62 \<le> unat (snd a)"
proof -
  assume "felm_ok a"
  then have l: "unat (snd a) < 2 ^ 63" by (simp add: felm_ok_def fval_def)
  show ?thesis
  proof (cases "unat (snd a) < 2 ^ 62")
    case False
    then have "unat (snd a) div 2 ^ 62 = 1" using l by (intro div_nat_eqI) simp_all
    then show ?thesis using False by (simp only: bit_u64_iff) simp
  qed (simp add: bit_u64_iff)
qed

lemma drop_bit_62: "felm_ok a \<Longrightarrow> drop_bit 62 (snd a) = of_bool (bit (snd a) 62)"
proof -
  assume a: "felm_ok a"
  then have "unat (snd a) < 2 ^ 63" by (simp add: felm_ok_def fval_def)
  moreover have "unat (snd a) div 2 ^ 62 = 1" if "2 ^ 62 \<le> unat (snd a)" "unat (snd a) < 2 ^ 63"
    using that by (intro div_nat_eqI) simp_all
  ultimately have "unat (drop_bit 62 (snd a)) = unat (of_bool (bit (snd a) 62) :: u64)"
    unfolding unat_drop_bit bit_62_iff [OF a] unat_of_bool by (cases "2 ^ 62 \<le> unat (snd a)") simp_all
  then show ?thesis by (simp only: word_unat_eq_iff)
qed

lemma bit_62_fpneg: "felm_ok a \<Longrightarrow> bit (snd (fpneg1271 a)) 62 \<longleftrightarrow> \<not> bit (snd a) 62"
proof -
  assume a: "felm_ok a"
  then have "unat (snd a) \<le> 2 ^ 63 - 1" by (simp add: felm_ok_def fval_def)
  then have "unat (0x7FFFFFFFFFFFFFFF - snd a) = 2 ^ 63 - 1 - unat (snd a)"
    by (subst unat_sub) (simp_all add: word_le_nat_alt)
  moreover have "felm_ok (fpneg1271 a)" using a by (simp add: fp.image_simps)
  ultimately show ?thesis using bit_62_iff [OF a] bit_62_iff [of "fpneg1271 a"] by (simp add: fpneg1271_def) linarith
qed

lemma f2elm_ok_decodeY:
  assumes "length b = 32" "b ! 15 AND 0x80 = 0"
  shows "f2elm_ok (decodeY b)"
proof -
  have "\<not> bit (b ! 15) 7" using assms(2) and_exp_eq_0_iff_not_bit [of "b ! 15" 7] by simp
  then have "\<not> bit (load_le (take 8 (drop 8 b)) :: u64) 63" using assms(1) by (simp add: bit_load_le)
  moreover have "\<not> bit (w AND 0x7FFFFFFFFFFFFFFF :: u64) 63" for w by (simp add: bit_and_iff)
  ultimately show ?thesis by (simp add: f2elm_ok_def felm_ok_iff_bit decodeY_def words256_def)
qed

lemma on_curve_validated:
  assumes "extproj_ok P" "ecc_point_validate P"
  shows "on_curve (fp2v (pe_x P)) (fp2v (pe_y P))"
proof -
  note d = curveDifference_facts [OF assms(1)]
  have "fval (fst (curveDifference P)) = 0" "fval (snd (curveDifference P)) = 0"
    using assms(2) d(1) by (simp_all add: ecc_point_validate_difference zeroTest_iff f2elm_ok_def)
  then show ?thesis unfolding d(2) [symmetric] by (simp add: fp2v_def fpv_def zero_gfp2_def)
qed

text \<open>Which x coordinate decode returns: the root, with the sign of the encoding, possibly with its second component negated.\<close>

definition signedRoot :: "bytes \<Rightarrow> f2elm_t" where
  "signedRoot b = (let x = decodeRoot (decodeY b)
     in if (ucast (drop_bit 7 (b ! 31)) :: u32) \<noteq> ucast (signBit x) then fp2neg1271 x else x)"

lemma decode_cases:
  assumes "decode b = Some P"
  shows "pa_y P = decodeY b" "pa_x P = signedRoot b \<or> pa_x P = (fst (signedRoot b), fpneg1271 (snd (signedRoot b)))"
    "ecc_point_validate (point_setup P)"
proof -
  have v: "ecc_point_validate ((point_setup Q)\<lparr>pe_x := x\<rparr>) = ecc_point_validate (point_setup (Q\<lparr>pa_x := x\<rparr>))" for Q x
    by (simp add: ecc_point_validate_def point_setup_def)
  show "pa_y P = decodeY b" "pa_x P = signedRoot b \<or> pa_x P = (fst (signedRoot b), fpneg1271 (snd (signedRoot b)))"
    "ecc_point_validate (point_setup P)"
    using assms unfolding decode_def Let_def signedRoot_def [unfolded Let_def, symmetric] v
    by (auto simp: point_setup_def split: if_splits)
qed

lemma signedRoot_facts:
  assumes "length b = 32" "b ! 15 AND 0x80 = 0"
  shows "f2elm_ok (signedRoot b)"
    "fpv (fst (signedRoot b)) \<noteq> 0 \<Longrightarrow> bit (snd (fst (signedRoot b))) 62 \<longleftrightarrow> bit (b ! 31) 7"
proof -
  let ?x = "decodeRoot (decodeY b)"
  have ok: "f2elm_ok ?x" by (intro f2elm_ok_decodeRoot f2elm_ok_decodeY assms)
  then show "f2elm_ok (signedRoot b)" by (simp add: signedRoot_def Let_def fp2.image_simps)
  assume nz: "fpv (fst (signedRoot b)) \<noteq> 0"
  have f: "felm_ok (fst ?x)" using ok by (simp add: f2elm_ok_def)
  have "fpv (0, 0) = 0" by (simp add: fpv_def fval_def)
  then have "fst ?x \<noteq> (0, 0)" using nz f by (auto simp: signedRoot_def Let_def fp2neg1271_def fp.image_simps split: if_splits)
  then have s: "signBit ?x = drop_bit 62 (snd (fst ?x))" by (simp add: signBit_def)
  have d: "drop_bit 62 (snd (fst ?x)) = of_bool (bit (snd (fst ?x)) 62)" using f by (rule drop_bit_62)
  have e: "drop_bit 7 (b ! 31) = of_bool (bit (b ! 31) 7)"
  proof (rule bit_eqI)
    fix n
    show "bit (drop_bit 7 (b ! 31)) n \<longleftrightarrow> bit (of_bool (bit (b ! 31) 7) :: byte) n"
      by (cases "n = 0") (auto simp: bit_drop_bit_eq bit_of_bool_iff dest: bit_imp_le_length)
  qed
  have "(ucast (drop_bit 7 (b ! 31)) :: u32) = ucast (signBit ?x) \<longleftrightarrow> (bit (snd (fst ?x)) 62 \<longleftrightarrow> bit (b ! 31) 7)"
    unfolding s d e by (cases "bit (snd (fst ?x)) 62"; cases "bit (b ! 31) 7") simp_all
  then show "bit (snd (fst (signedRoot b))) 62 \<longleftrightarrow> bit (b ! 31) 7"
    using bit_62_fpneg [OF f] by (auto simp: signedRoot_def Let_def fp2neg1271_def)
qed

lemma low63_or:
  "(bit y 63 \<longleftrightarrow> bit w 62) \<Longrightarrow> (y AND 0x7FFFFFFFFFFFFFFF) OR push_bit 1 (w AND 0x4000000000000000) = (y :: u64)"
proof (rule bit_eqI)
  fix n assume e: "bit y 63 \<longleftrightarrow> bit w 62" and n: "possible_bit TYPE(64 word) n"
  have low: "(0x7FFFFFFFFFFFFFFF :: u64) = mask 63" and top: "(0x4000000000000000 :: u64) = 2 ^ 62"
    by (simp_all add: mask_eq_exp_minus_1)
  show "bit ((y AND 0x7FFFFFFFFFFFFFFF) OR push_bit 1 (w AND 0x4000000000000000)) n \<longleftrightarrow> bit y n"
    unfolding low top bit_or_iff bit_and_iff bit_push_bit_iff bit_mask_iff bit_exp_iff
    using n e by (cases "n = 63") auto
qed

lemma f2elmBytes_words256:
  assumes "length b = 32" "words256 b = (y0, y1, y2, y3)"
  shows "f2elmBytes ((y0, y1), (y2, y3)) = b"
proof -
  have s: "store_le 8 (load_le (take 8 (drop n b)) :: u64) = take 8 (drop n b)" if "n + 8 \<le> 32" for n
    using that assms(1) by (intro store_load_le) simp_all
  have "take (8 + (8 + (8 + 8))) b = take 8 b @ take 8 (drop 8 b) @ take 8 (drop 16 b) @ take 8 (drop 24 b)"
    by (simp only: take_add drop_drop) simp
  then show ?thesis
    using assms s [of 0] s [of 8] s [of 16] s [of 24] by (auto simp: words256_def f2elmBytes_def)
qed

lemma encode_of_signed:
  assumes "length b = 32" "pa_y P = decodeY b" "fst (pa_x P) \<noteq> (0, 0)" "bit (snd (fst (pa_x P))) 62 \<longleftrightarrow> bit (b ! 31) 7"
  shows "encode P = b"
proof -
  obtain y0 y1 y2 y3 where y: "words256 b = (y0, y1, y2, y3)" by (rule prod_cases4)
  have "bit y3 63 \<longleftrightarrow> bit (b ! 31) 7" using y assms(1) by (auto simp: words256_def bit_load_le)
  then have "y3 AND 0x7FFFFFFFFFFFFFFF OR push_bit 1 (snd (fst (pa_x P)) AND 0x4000000000000000) = y3"
    using assms(4) low63_or [of y3 "snd (fst (pa_x P))"] by simp
  then show ?thesis
    using f2elmBytes_words256 [OF assms(1) y] assms(2,3) by (auto simp: encode_def decodeY_def y Let_def prod_eq_iff case_prod_beta)
qed

text \<open>
  C18: decoding yields points of the curve and inverts the encoding.  When decode accepts 32 bytes whose bit 127 is
  clear, which verify checks first, the components have at most 127 bits and the point satisfies the curve equation; and
  unless the first component of x is zero, encoding the point gives back the same bytes.\<close>

theorem decode_sound:
  assumes "length b = 32" "b ! 15 AND 0x80 = 0" "decode b = Some P"
  shows "f2elm_ok (pa_x P) \<and> f2elm_ok (pa_y P) \<and> on_curve (fp2v (pa_x P)) (fp2v (pa_y P)) \<and>
    (fpv (fst (pa_x P)) = 0 \<or> encode P = b)"
proof -
  note d = decode_cases [OF assms(3)]
  note s = signedRoot_facts [OF assms(1,2)]
  have ok: "f2elm_ok (pa_x P)" "f2elm_ok (pa_y P)"
    using d(1,2) s(1) f2elm_ok_decodeY [OF assms(1,2)] by (auto simp: f2elm_ok_def fp.image_simps)
  then have "extproj_ok (point_setup P)" by (simp add: extproj_ok_def point_setup_def d_ok)
  then have c: "on_curve (fp2v (pa_x P)) (fp2v (pa_y P))"
    using d(3) on_curve_validated [of "point_setup P"] by (simp add: point_setup_def)
  have "encode P = b" if "fpv (fst (pa_x P)) \<noteq> 0"
    using that d(1,2) s(2) by (intro encode_of_signed assms(1)) (auto simp: fpv_def fval_def)
  then show ?thesis using ok c by blast
qed

section \<open>What verification accepts\<close>

text \<open>The recoding never leaves its arrays, so that the double multiplication always returns.\<close>

lemma recodeAll_total:
  assumes "2 \<le> w" "w \<le> 8"
  shows "\<exists>dss. recodeAll w ss = Some dss"
proof (induction ss)
  case (Cons s ss)
  obtain ds where "wNAF_recode s w (replicate 65 0) = Some ds" using wNAF_recode_value [OF assms, of "replicate 65 0" s] by auto
  then show ?case using Cons by auto
qed simp

lemma ecc_mul_double_total: "\<exists>r. ecc_mul_double k l Q = Some r"
proof -
  obtain dk where dk: "recodeAll 8 (scalarList (decompose k)) = Some dk" using recodeAll_total [of 8] by auto
  obtain dl where dl: "recodeAll 4 (scalarList (decompose l)) = Some dl" using recodeAll_total [of 4] by auto
  show ?thesis by (simp add: ecc_mul_double_def Let_def dk dl)
qed


text \<open>The encodings differ in the bit taken for the sign.\<close>

lemma store_le_inject: "store_le 8 (a :: u64) = store_le 8 b \<longleftrightarrow> a = b"
proof
  assume "store_le 8 a = store_le 8 b"
  then have "(load_le (store_le 8 a) :: u64) = load_le (store_le 8 b)" by simp
  then show "a = b" by (simp add: load_store_le)
qed simp

lemma f2elmBytes_inject: "f2elmBytes a = f2elmBytes b \<longleftrightarrow> a = b"
  by (auto simp: f2elmBytes_def store_le_inject prod_eq_iff)

lemma bit_sign: "bit (push_bit 1 (v AND 0x4000000000000000) :: u64) n \<longleftrightarrow> n = 63 \<and> bit v 62"
proof -
  have "(0x4000000000000000 :: u64) = 2 ^ 62" by simp
  then show ?thesis by (simp only: bit_push_bit_iff bit_and_iff bit_exp_iff) auto
qed

lemma sign_or_inject:
  assumes "\<not> bit (y :: u64) 63"
  shows "y OR push_bit 1 (v AND 0x4000000000000000) = y OR push_bit 1 (w AND 0x4000000000000000) \<longleftrightarrow> (bit v 62 \<longleftrightarrow> bit w 62)"
    (is "?a = ?b \<longleftrightarrow> _")
proof
  assume "?a = ?b"
  then have "bit ?a 63 \<longleftrightarrow> bit ?b 63" by (simp only:)
  then show "bit v 62 \<longleftrightarrow> bit w 62" using assms by (simp only: bit_or_iff bit_sign simp_thms)
next
  assume "bit v 62 \<longleftrightarrow> bit w 62"
  then show "?a = ?b" by (intro bit_eqI) (simp only: bit_or_iff bit_sign)
qed

text \<open>
  C26: the encoding in place at the end of verify is not always the encoding.  The copy of y overwrites x before x is tested for
  zero, so that the result agrees with encode exactly if the first components of x and of y are both zero or both not zero,
  or the two candidates for the sign bit agree.\<close>

theorem encodeInPlace_iff:
  assumes "f2elm_ok (pa_y P)"
  shows "encodeInPlace P = encode P \<longleftrightarrow>
    ((fst (pa_x P) = (0, 0)) = (fst (pa_y P) = (0, 0))) \<or> (bit (snd (snd (pa_x P))) 62 \<longleftrightarrow> bit (snd (fst (pa_x P))) 62)"
proof -
  obtain y0 y1 where y: "pa_y P = (y0, y1)" by (cases "pa_y P")
  have "\<not> bit (snd y1) 63" using assms y by (simp add: f2elm_ok_def felm_ok_iff_bit)
  note inj = sign_or_inject [OF this]
  define sb :: "u64 \<Rightarrow> u64" where "sb v = push_bit 1 (v AND 0x4000000000000000)" for v
  have z: "fst a = 0 \<and> snd a = 0 \<longleftrightarrow> a = (0, 0)" for a :: felm_t by (simp add: prod_eq_iff)
  have "encodeInPlace P = f2elmBytes (y0, fst y1, snd y1 OR (if y0 = (0, 0) then sb (snd (snd (pa_x P))) else sb (snd (fst (pa_x P)))))"
    unfolding encodeInPlace_def Let_def sb_def [symmetric] by (simp add: y z)
  moreover have "encode P = f2elmBytes (y0, fst y1, snd y1 OR (if fst (pa_x P) = (0, 0) then sb (snd (snd (pa_x P))) else sb (snd (fst (pa_x P)))))"
    unfolding encode_def Let_def sb_def [symmetric] by (simp add: y z)
  ultimately show ?thesis using inj [folded sb_def] by (auto simp: y f2elmBytes_inject)
qed

theorem encodeInPlace_iff_witness:
  "encodeInPlace \<lparr>pa_x = ((0, 0), (0, 0x4000000000000000)), pa_y = f2elm_one\<rparr> \<noteq>
   encode \<lparr>pa_x = ((0, 0), (0, 0x4000000000000000)), pa_y = f2elm_one\<rparr>"
  using encodeInPlace_iff [of "\<lparr>pa_x = ((0, 0), (0, 0x4000000000000000)), pa_y = f2elm_one\<rparr>"]
  by (simp add: d_ok) (simp add: f2elm_one_def)

section \<open>The neutral point\<close>

lemmas word_defs = fpmul1271_def fpsqr1271_def fpadd1271_def fpsub1271_def fpreduce_def add128_def sub128_def mod1271_def
  fpdiv1271_def addcarry_u64_def subborrow_u64_def umul128_def shiftleft128_def shiftright128_def

lemma zero_ops:
  "fpmul1271 a (0, 0) = (0, 0)" "fpmul1271 (0, 0) a = (0, 0)" "fpsqr1271 (0, 0) = (0, 0)" "fpadd1271 (0, 0) (0, 0) = (0, 0)"
  "fpsub1271 (0, 0) (0, 0) = (0, 0)" "mod1271 (0, 0) = (0, 0)" "fpdiv1271 (0, 0) = (0, 0)"
  by (simp_all add: word_defs Let_def minus_one_u64)

lemma iter_sqr_zero: "(fpsqr1271 ^^ n) (0, 0) = (0, 0)"
  by (induction n) (simp_all add: zero_ops)

lemma one_ops:
  "fp2sqr1271 f2elm_one = f2elm_one" "fp2sub1271 f2elm_one f2elm_one = ((0, 0), (0, 0))"
  "fp2sub1271 f2elm_one ((0, 0), (0, 0)) = f2elm_one" "fp2add1271 ((0, 0), (0, 0)) f2elm_one = f2elm_one"
  by (simp_all add: fp2sqr1271_def fp2add1271_def fp2sub1271_def f2elm_one_def word_defs Let_def)

lemma fp2_zero_ops:
  "fp2sqr1271 ((0, 0), (0, 0)) = ((0, 0), (0, 0))" "fp2mul1271 a ((0, 0), (0, 0)) = ((0, 0), (0, 0))"
  "fp2mul1271 ((0, 0), (0, 0)) a = ((0, 0), (0, 0))"
  by (simp_all add: fp2sqr1271_def fp2mul1271_def zero_ops Let_def)

lemma decodeRoot_one: "decodeRoot f2elm_one = ((0, 0), (0, 0))"
  unfolding decodeRoot_def Let_def one_ops fst_conv snd_conv zero_ops iter_sqr_zero by (simp add: zero_ops)

lemma neutral_validated: "ecc_point_validate (point_setup neutral)"
  by (simp add: ecc_point_validate_def point_setup_def neutral_def one_ops fp2_zero_ops zeroTest_def Let_def)

lemma decode_neutral: "decode (1 # replicate 31 0) = Some neutral"
proof -
  have y: "decodeY (1 # replicate 31 0) = f2elm_one"
    by (simp add: decodeY_def words256_def load_le_def f2elm_one_def numeral_eq_Suc)
  have s: "drop_bit 7 ((1 # replicate 31 0) ! 31 :: byte) = 0" by simp
  show ?thesis unfolding decode_def Let_def y decodeRoot_one s signBit_def
    using neutral_validated by (simp add: neutral_def)
qed

theorem decode_sound_witness:
  "f2elm_ok (pa_x neutral) \<and> f2elm_ok (pa_y neutral) \<and> on_curve (fp2v (pa_x neutral)) (fp2v (pa_y neutral))"
  using decode_sound [OF _ _ decode_neutral] by simp

end
