(* ===== verification/Octal.thy ===== *)
theory Octal
  imports Main
begin

text \<open>
  Arithmetic modulo 2^127 - 1 for evaluation by the simplifier.  Numbers are lists of octal digits, lowest first, of 43 digits when
  reduced: 8^43 is congruent to 4.  Every operation comes with its rewrite rules and with the fact that it is correct modulo 2^127 - 1.
\<close>

section \<open>Digits\<close>

datatype oct = O0 | O1 | O2 | O3 | O4 | O5 | O6 | O7

primrec ov :: "oct \<Rightarrow> nat" where
  "ov O0 = 0" | "ov O1 = 1" | "ov O2 = 2" | "ov O3 = 3" | "ov O4 = 4" | "ov O5 = 5" | "ov O6 = 6" | "ov O7 = 7"

definition oct_of :: "nat \<Rightarrow> oct" where
  "oct_of n = [O0, O1, O2, O3, O4, O5, O6, O7] ! (n mod 8)"

lemma ov_oct_of: "ov (oct_of n) = n mod 8"
proof -
  have "n mod 8 \<in> {0, 1, 2, 3, 4, 5, 6, 7}" by (simp, presburger)
  then show ?thesis by (auto simp: oct_of_def)
qed

lemma ov_le: "ov d \<le> 7"
  by (cases d) simp_all

primrec oval :: "oct list \<Rightarrow> nat" where
  "oval [] = 0" | "oval (d # ds) = ov d + 8 * oval ds"

lemma oval_append: "oval (xs @ ys) = oval xs + 8 ^ length xs * oval ys"
  by (induction xs) simp_all

section \<open>Addition\<close>

fun oinc :: "oct list \<Rightarrow> oct list" where
  "oinc [] = [O1]"
| "oinc (d # ds) = oct_of (ov d + 1) # (if d = O7 then oinc ds else ds)"

fun oadd :: "bool \<Rightarrow> oct list \<Rightarrow> oct list \<Rightarrow> oct list" where
  "oadd c [] ys = (if c then oinc ys else ys)"
| "oadd c (x # xs) [] = (if c then oinc (x # xs) else x # xs)"
| "oadd c (x # xs) (y # ys) = oct_of (ov x + ov y + of_bool c) # oadd (8 \<le> ov x + ov y + of_bool c) xs ys"

lemma oval_oinc: "oval (oinc xs) = oval xs + 1"
proof (induction xs)
  case (Cons d ds)
  then show ?case by (cases d) (simp_all add: ov_oct_of)
qed simp

lemma oval_oadd: "oval (oadd c xs ys) = oval xs + oval ys + of_bool c"
proof (induction c xs ys rule: oadd.induct)
  case (3 c x xs y ys)
  define s where "s = ov x + ov y + of_bool c"
  have "s < 16" using ov_le [of x] ov_le [of y] by (simp add: s_def)
  then have "s = s mod 8 + 8 * of_bool (8 \<le> s)" by (auto simp: mod_if)
  moreover have "oval (oadd c (x # xs) (y # ys)) = s mod 8 + 8 * (oval xs + oval ys + of_bool (8 \<le> s))"
    using 3 by (simp add: s_def [symmetric] ov_oct_of)
  ultimately show ?case by (simp add: s_def [symmetric] algebra_simps) (simp add: s_def)
qed (simp_all add: oval_oinc del: oinc.simps)

lemma oadd_ends:
  "oadd False [] ys = ys" "oadd False xs [] = xs" "oadd True [] ys = oinc ys" "oadd True xs [] = oinc xs"
  by (simp_all, (cases xs; simp)+)

lemma oadd_digits:
  "oadd False (O0 # xs) (O0 # ys) = O0 # oadd False xs ys"
  "oadd False (O0 # xs) (O1 # ys) = O1 # oadd False xs ys"
  "oadd False (O0 # xs) (O2 # ys) = O2 # oadd False xs ys"
  "oadd False (O0 # xs) (O3 # ys) = O3 # oadd False xs ys"
  "oadd False (O0 # xs) (O4 # ys) = O4 # oadd False xs ys"
  "oadd False (O0 # xs) (O5 # ys) = O5 # oadd False xs ys"
  "oadd False (O0 # xs) (O6 # ys) = O6 # oadd False xs ys"
  "oadd False (O0 # xs) (O7 # ys) = O7 # oadd False xs ys"
  "oadd False (O1 # xs) (O0 # ys) = O1 # oadd False xs ys"
  "oadd False (O1 # xs) (O1 # ys) = O2 # oadd False xs ys"
  "oadd False (O1 # xs) (O2 # ys) = O3 # oadd False xs ys"
  "oadd False (O1 # xs) (O3 # ys) = O4 # oadd False xs ys"
  "oadd False (O1 # xs) (O4 # ys) = O5 # oadd False xs ys"
  "oadd False (O1 # xs) (O5 # ys) = O6 # oadd False xs ys"
  "oadd False (O1 # xs) (O6 # ys) = O7 # oadd False xs ys"
  "oadd False (O1 # xs) (O7 # ys) = O0 # oadd True xs ys"
  "oadd False (O2 # xs) (O0 # ys) = O2 # oadd False xs ys"
  "oadd False (O2 # xs) (O1 # ys) = O3 # oadd False xs ys"
  "oadd False (O2 # xs) (O2 # ys) = O4 # oadd False xs ys"
  "oadd False (O2 # xs) (O3 # ys) = O5 # oadd False xs ys"
  "oadd False (O2 # xs) (O4 # ys) = O6 # oadd False xs ys"
  "oadd False (O2 # xs) (O5 # ys) = O7 # oadd False xs ys"
  "oadd False (O2 # xs) (O6 # ys) = O0 # oadd True xs ys"
  "oadd False (O2 # xs) (O7 # ys) = O1 # oadd True xs ys"
  "oadd False (O3 # xs) (O0 # ys) = O3 # oadd False xs ys"
  "oadd False (O3 # xs) (O1 # ys) = O4 # oadd False xs ys"
  "oadd False (O3 # xs) (O2 # ys) = O5 # oadd False xs ys"
  "oadd False (O3 # xs) (O3 # ys) = O6 # oadd False xs ys"
  "oadd False (O3 # xs) (O4 # ys) = O7 # oadd False xs ys"
  "oadd False (O3 # xs) (O5 # ys) = O0 # oadd True xs ys"
  "oadd False (O3 # xs) (O6 # ys) = O1 # oadd True xs ys"
  "oadd False (O3 # xs) (O7 # ys) = O2 # oadd True xs ys"
  "oadd False (O4 # xs) (O0 # ys) = O4 # oadd False xs ys"
  "oadd False (O4 # xs) (O1 # ys) = O5 # oadd False xs ys"
  "oadd False (O4 # xs) (O2 # ys) = O6 # oadd False xs ys"
  "oadd False (O4 # xs) (O3 # ys) = O7 # oadd False xs ys"
  "oadd False (O4 # xs) (O4 # ys) = O0 # oadd True xs ys"
  "oadd False (O4 # xs) (O5 # ys) = O1 # oadd True xs ys"
  "oadd False (O4 # xs) (O6 # ys) = O2 # oadd True xs ys"
  "oadd False (O4 # xs) (O7 # ys) = O3 # oadd True xs ys"
  "oadd False (O5 # xs) (O0 # ys) = O5 # oadd False xs ys"
  "oadd False (O5 # xs) (O1 # ys) = O6 # oadd False xs ys"
  "oadd False (O5 # xs) (O2 # ys) = O7 # oadd False xs ys"
  "oadd False (O5 # xs) (O3 # ys) = O0 # oadd True xs ys"
  "oadd False (O5 # xs) (O4 # ys) = O1 # oadd True xs ys"
  "oadd False (O5 # xs) (O5 # ys) = O2 # oadd True xs ys"
  "oadd False (O5 # xs) (O6 # ys) = O3 # oadd True xs ys"
  "oadd False (O5 # xs) (O7 # ys) = O4 # oadd True xs ys"
  "oadd False (O6 # xs) (O0 # ys) = O6 # oadd False xs ys"
  "oadd False (O6 # xs) (O1 # ys) = O7 # oadd False xs ys"
  "oadd False (O6 # xs) (O2 # ys) = O0 # oadd True xs ys"
  "oadd False (O6 # xs) (O3 # ys) = O1 # oadd True xs ys"
  "oadd False (O6 # xs) (O4 # ys) = O2 # oadd True xs ys"
  "oadd False (O6 # xs) (O5 # ys) = O3 # oadd True xs ys"
  "oadd False (O6 # xs) (O6 # ys) = O4 # oadd True xs ys"
  "oadd False (O6 # xs) (O7 # ys) = O5 # oadd True xs ys"
  "oadd False (O7 # xs) (O0 # ys) = O7 # oadd False xs ys"
  "oadd False (O7 # xs) (O1 # ys) = O0 # oadd True xs ys"
  "oadd False (O7 # xs) (O2 # ys) = O1 # oadd True xs ys"
  "oadd False (O7 # xs) (O3 # ys) = O2 # oadd True xs ys"
  "oadd False (O7 # xs) (O4 # ys) = O3 # oadd True xs ys"
  "oadd False (O7 # xs) (O5 # ys) = O4 # oadd True xs ys"
  "oadd False (O7 # xs) (O6 # ys) = O5 # oadd True xs ys"
  "oadd False (O7 # xs) (O7 # ys) = O6 # oadd True xs ys"
  "oadd True (O0 # xs) (O0 # ys) = O1 # oadd False xs ys"
  "oadd True (O0 # xs) (O1 # ys) = O2 # oadd False xs ys"
  "oadd True (O0 # xs) (O2 # ys) = O3 # oadd False xs ys"
  "oadd True (O0 # xs) (O3 # ys) = O4 # oadd False xs ys"
  "oadd True (O0 # xs) (O4 # ys) = O5 # oadd False xs ys"
  "oadd True (O0 # xs) (O5 # ys) = O6 # oadd False xs ys"
  "oadd True (O0 # xs) (O6 # ys) = O7 # oadd False xs ys"
  "oadd True (O0 # xs) (O7 # ys) = O0 # oadd True xs ys"
  "oadd True (O1 # xs) (O0 # ys) = O2 # oadd False xs ys"
  "oadd True (O1 # xs) (O1 # ys) = O3 # oadd False xs ys"
  "oadd True (O1 # xs) (O2 # ys) = O4 # oadd False xs ys"
  "oadd True (O1 # xs) (O3 # ys) = O5 # oadd False xs ys"
  "oadd True (O1 # xs) (O4 # ys) = O6 # oadd False xs ys"
  "oadd True (O1 # xs) (O5 # ys) = O7 # oadd False xs ys"
  "oadd True (O1 # xs) (O6 # ys) = O0 # oadd True xs ys"
  "oadd True (O1 # xs) (O7 # ys) = O1 # oadd True xs ys"
  "oadd True (O2 # xs) (O0 # ys) = O3 # oadd False xs ys"
  "oadd True (O2 # xs) (O1 # ys) = O4 # oadd False xs ys"
  "oadd True (O2 # xs) (O2 # ys) = O5 # oadd False xs ys"
  "oadd True (O2 # xs) (O3 # ys) = O6 # oadd False xs ys"
  "oadd True (O2 # xs) (O4 # ys) = O7 # oadd False xs ys"
  "oadd True (O2 # xs) (O5 # ys) = O0 # oadd True xs ys"
  "oadd True (O2 # xs) (O6 # ys) = O1 # oadd True xs ys"
  "oadd True (O2 # xs) (O7 # ys) = O2 # oadd True xs ys"
  "oadd True (O3 # xs) (O0 # ys) = O4 # oadd False xs ys"
  "oadd True (O3 # xs) (O1 # ys) = O5 # oadd False xs ys"
  "oadd True (O3 # xs) (O2 # ys) = O6 # oadd False xs ys"
  "oadd True (O3 # xs) (O3 # ys) = O7 # oadd False xs ys"
  "oadd True (O3 # xs) (O4 # ys) = O0 # oadd True xs ys"
  "oadd True (O3 # xs) (O5 # ys) = O1 # oadd True xs ys"
  "oadd True (O3 # xs) (O6 # ys) = O2 # oadd True xs ys"
  "oadd True (O3 # xs) (O7 # ys) = O3 # oadd True xs ys"
  "oadd True (O4 # xs) (O0 # ys) = O5 # oadd False xs ys"
  "oadd True (O4 # xs) (O1 # ys) = O6 # oadd False xs ys"
  "oadd True (O4 # xs) (O2 # ys) = O7 # oadd False xs ys"
  "oadd True (O4 # xs) (O3 # ys) = O0 # oadd True xs ys"
  "oadd True (O4 # xs) (O4 # ys) = O1 # oadd True xs ys"
  "oadd True (O4 # xs) (O5 # ys) = O2 # oadd True xs ys"
  "oadd True (O4 # xs) (O6 # ys) = O3 # oadd True xs ys"
  "oadd True (O4 # xs) (O7 # ys) = O4 # oadd True xs ys"
  "oadd True (O5 # xs) (O0 # ys) = O6 # oadd False xs ys"
  "oadd True (O5 # xs) (O1 # ys) = O7 # oadd False xs ys"
  "oadd True (O5 # xs) (O2 # ys) = O0 # oadd True xs ys"
  "oadd True (O5 # xs) (O3 # ys) = O1 # oadd True xs ys"
  "oadd True (O5 # xs) (O4 # ys) = O2 # oadd True xs ys"
  "oadd True (O5 # xs) (O5 # ys) = O3 # oadd True xs ys"
  "oadd True (O5 # xs) (O6 # ys) = O4 # oadd True xs ys"
  "oadd True (O5 # xs) (O7 # ys) = O5 # oadd True xs ys"
  "oadd True (O6 # xs) (O0 # ys) = O7 # oadd False xs ys"
  "oadd True (O6 # xs) (O1 # ys) = O0 # oadd True xs ys"
  "oadd True (O6 # xs) (O2 # ys) = O1 # oadd True xs ys"
  "oadd True (O6 # xs) (O3 # ys) = O2 # oadd True xs ys"
  "oadd True (O6 # xs) (O4 # ys) = O3 # oadd True xs ys"
  "oadd True (O6 # xs) (O5 # ys) = O4 # oadd True xs ys"
  "oadd True (O6 # xs) (O6 # ys) = O5 # oadd True xs ys"
  "oadd True (O6 # xs) (O7 # ys) = O6 # oadd True xs ys"
  "oadd True (O7 # xs) (O0 # ys) = O0 # oadd True xs ys"
  "oadd True (O7 # xs) (O1 # ys) = O1 # oadd True xs ys"
  "oadd True (O7 # xs) (O2 # ys) = O2 # oadd True xs ys"
  "oadd True (O7 # xs) (O3 # ys) = O3 # oadd True xs ys"
  "oadd True (O7 # xs) (O4 # ys) = O4 # oadd True xs ys"
  "oadd True (O7 # xs) (O5 # ys) = O5 # oadd True xs ys"
  "oadd True (O7 # xs) (O6 # ys) = O6 # oadd True xs ys"
  "oadd True (O7 # xs) (O7 # ys) = O7 # oadd True xs ys"
  by (simp_all add: oct_of_def)

lemma oinc_digits:
  "oinc (O0 # xs) = O1 # xs"
  "oinc (O1 # xs) = O2 # xs"
  "oinc (O2 # xs) = O3 # xs"
  "oinc (O3 # xs) = O4 # xs"
  "oinc (O4 # xs) = O5 # xs"
  "oinc (O5 # xs) = O6 # xs"
  "oinc (O6 # xs) = O7 # xs"
  "oinc (O7 # xs) = O0 # oinc xs"
  by (simp_all add: oct_of_def)

lemmas oadd_rules = oadd_ends oadd_digits oinc_digits oinc.simps(1)

section \<open>Multiplication\<close>

text \<open>The multiples of a number by a digit, and the multiplication digit by digit with an accumulator.\<close>

primrec omults :: "oct list \<Rightarrow> oct list \<Rightarrow> oct list \<Rightarrow> oct list \<Rightarrow> oct list \<Rightarrow> oct list \<Rightarrow> oct list \<Rightarrow> oct \<Rightarrow> oct list" where
  "omults y1 y2 y3 y4 y5 y6 y7 O0 = []"
| "omults y1 y2 y3 y4 y5 y6 y7 O1 = y1"
| "omults y1 y2 y3 y4 y5 y6 y7 O2 = y2"
| "omults y1 y2 y3 y4 y5 y6 y7 O3 = y3"
| "omults y1 y2 y3 y4 y5 y6 y7 O4 = y4"
| "omults y1 y2 y3 y4 y5 y6 y7 O5 = y5"
| "omults y1 y2 y3 y4 y5 y6 y7 O6 = y6"
| "omults y1 y2 y3 y4 y5 y6 y7 O7 = y7"

primrec oemit :: "(oct list \<Rightarrow> oct list) \<Rightarrow> oct list \<Rightarrow> oct list" where
  "oemit f [] = O0 # f []"
| "oemit f (d # ds) = d # f ds"

primrec omul :: "(oct \<Rightarrow> oct list) \<Rightarrow> oct list \<Rightarrow> oct list \<Rightarrow> oct list" where
  "omul m [] acc = acc"
| "omul m (x # xs) acc = oemit (omul m xs) (oadd False acc (m x))"

lemma oval_oemit: "(\<And>ds. oval (f ds) = n + oval ds) \<Longrightarrow> oval (oemit f ds) = 8 * n + oval ds"
  by (cases ds) simp_all

lemma oval_omul:
  assumes "\<And>d. oval (m d) = ov d * y"
  shows "oval (omul m xs acc) = oval xs * y + oval acc"
proof (induction xs arbitrary: acc)
  case (Cons x xs)
  have "oval (oemit (omul m xs) (oadd False acc (m x))) = 8 * (oval xs * y) + oval (oadd False acc (m x))"
    by (rule oval_oemit) (rule Cons.IH)
  then show ?case by (simp add: oval_oadd assms algebra_simps)
qed simp

text \<open>The multiples are computed in three stages, so that each is evaluated once.\<close>

definition omult3 :: "oct list \<Rightarrow> oct list \<Rightarrow> oct list \<Rightarrow> oct list \<Rightarrow> oct list \<Rightarrow> oct list" where
  "omult3 xs y y2 y3 y4 = omul (omults y y2 y3 y4 (oadd False y4 y) (oadd False y4 y2) (oadd False y4 y3)) xs []"

definition omult2 :: "oct list \<Rightarrow> oct list \<Rightarrow> oct list \<Rightarrow> oct list" where
  "omult2 xs y y2 = omult3 xs y y2 (oadd False y2 y) (oadd False y2 y2)"

definition omult :: "oct list \<Rightarrow> oct list \<Rightarrow> oct list" where
  "omult xs y = omult2 xs y (oadd False y y)"

lemma oval_omult: "oval (omult xs y) = oval xs * oval y"
proof -
  let ?y2 = "oadd False y y"
  let ?y4 = "oadd False ?y2 ?y2"
  have "oval (omults y ?y2 (oadd False ?y2 y) ?y4 (oadd False ?y4 y) (oadd False ?y4 ?y2) (oadd False ?y4 (oadd False ?y2 y)) d) =
      ov d * oval y" for d
    by (cases d) (simp_all add: oval_oadd)
  from oval_omul [OF this] show ?thesis by (simp add: omult_def omult2_def omult3_def)
qed

lemmas omult_rules = omult_def omult2_def omult3_def omul.simps oemit.simps omults.simps

section \<open>Reduction\<close>

abbreviation P127 :: nat where
  "P127 \<equiv> 2 ^ 127 - 1"

text \<open>The digits from the 43rd on, times 4, are added to the lower ones.\<close>

definition oquad :: "oct list \<Rightarrow> oct list" where
  "oquad xs = oadd False (oadd False xs xs) (oadd False xs xs)"

definition ofold :: "oct list \<Rightarrow> oct list" where
  "ofold xs = oadd False (take 43 xs) (oquad (drop 43 xs))"

lemma oval_oquad: "oval (oquad xs) = 4 * oval xs"
  by (simp add: oquad_def oval_oadd)

lemma oval_ofold: "oval (ofold xs) mod P127 = oval xs mod P127"
proof (cases "43 \<le> length xs")
  case True
  have "oval xs = oval (take 43 xs @ drop 43 xs)" by simp
  also have "\<dots> = oval (take 43 xs) + 8 ^ 43 * oval (drop 43 xs)"
    unfolding oval_append using True by simp
  also have "\<dots> = oval (ofold xs) + P127 * (4 * oval (drop 43 xs))"
    by (simp add: ofold_def oval_oadd oval_oquad)
  finally show ?thesis by (metis mod_mult_self2)
next
  case False
  then show ?thesis by (simp add: ofold_def oquad_def oadd_ends)
qed

lemma ofold_digits:
  "ofold (a0 # a1 # a2 # a3 # a4 # a5 # a6 # a7 # a8 # a9 # a10 # a11 # a12 # a13 # a14 # a15 # a16 # a17 # a18 # a19 # a20 # a21 # a22 # a23 # a24 # a25 # a26 # a27 # a28 # a29 # a30 # a31 # a32 # a33 # a34 # a35 # a36 # a37 # a38 # a39 # a40 # a41 # a42 # rest) = oadd False [a0, a1, a2, a3, a4, a5, a6, a7, a8, a9, a10, a11, a12, a13, a14, a15, a16, a17, a18, a19, a20, a21, a22, a23, a24, a25, a26, a27, a28, a29, a30, a31, a32, a33, a34, a35, a36, a37, a38, a39, a40, a41, a42] (oquad rest)"
  by (simp add: ofold_def)

lemma oquad_digits: "oquad [] = []" "oquad (x # xs) = oadd False (oadd False (x # xs) (x # xs)) (oadd False (x # xs) (x # xs))"
  by (simp_all add: oquad_def)

section \<open>Subtraction\<close>

text \<open>The complement of 43 digits is 8^43 - 1 - y, which is congruent to 3 - y; a number of another length is brought back by
  multiplication with - 1.\<close>

primrec ocompl :: "oct list \<Rightarrow> oct list" where
  "ocompl [] = []"
| "ocompl (d # ds) = oct_of (7 - ov d) # ocompl ds"

fun olist :: "nat \<Rightarrow> oct list" where
  "olist n = (if n = 0 then [] else oct_of n # olist (n div 8))"

declare olist.simps [simp del]

lemma oval_olist: "oval (olist n) = n"
proof (induction n rule: olist.induct)
  case (1 n)
  then show ?case by (subst olist.simps) (simp add: ov_oct_of)
qed

lemma oval_ocompl: "oval (ocompl xs) + oval xs + 1 = 8 ^ length xs"
proof (induction xs)
  case (Cons d ds)
  have "ov (oct_of (7 - ov d)) + ov d = 7" using ov_le [of d] by (simp add: ov_oct_of)
  then show ?case using Cons by simp
qed simp

lemma ocompl_digits:
  "ocompl (O0 # xs) = O7 # ocompl xs"
  "ocompl (O1 # xs) = O6 # ocompl xs"
  "ocompl (O2 # xs) = O5 # ocompl xs"
  "ocompl (O3 # xs) = O4 # ocompl xs"
  "ocompl (O4 # xs) = O3 # ocompl xs"
  "ocompl (O5 # xs) = O2 # ocompl xs"
  "ocompl (O6 # xs) = O1 # ocompl xs"
  "ocompl (O7 # xs) = O0 # ocompl xs"
  by (simp_all add: oct_of_def)

definition ominus3 :: "oct list" where
  "ominus3 = [O4, O7, O7, O7, O7, O7, O7, O7, O7, O7, O7, O7, O7, O7, O7, O7, O7, O7, O7, O7, O7, O7, O7, O7, O7, O7, O7, O7, O7, O7, O7, O7, O7, O7, O7, O7, O7, O7, O7, O7, O7, O7, O1]"

lemma oval_ominus3: "oval ominus3 = P127 - 3"
  by (simp add: ominus3_def)

definition fsub :: "oct list \<Rightarrow> oct list \<Rightarrow> oct list" where
  "fsub x y = (if length y = 43 then ofold (oadd False (oadd False x (ocompl y)) ominus3) else olist (oval x + (P127 - 1) * oval y))"

lemma fsub_digits:
  "fsub x [a0, a1, a2, a3, a4, a5, a6, a7, a8, a9, a10, a11, a12, a13, a14, a15, a16, a17, a18, a19, a20, a21, a22, a23, a24, a25, a26, a27, a28, a29, a30, a31, a32, a33, a34, a35, a36, a37, a38, a39, a40, a41, a42] = ofold (oadd False (oadd False x (ocompl [a0, a1, a2, a3, a4, a5, a6, a7, a8, a9, a10, a11, a12, a13, a14, a15, a16, a17, a18, a19, a20, a21, a22, a23, a24, a25, a26, a27, a28, a29, a30, a31, a32, a33, a34, a35, a36, a37, a38, a39, a40, a41, a42])) ominus3)"
  by (simp add: fsub_def)

lemma oval_fsub: "int (oval (fsub x y)) mod int P127 = (int (oval x) - int (oval y)) mod int P127"
proof (cases "length y = 43")
  case True
  let ?v = "oval x + oval (ocompl y) + (P127 - 3)"
  have "oval (fsub x y) mod P127 = ?v mod P127"
    unfolding fsub_def True by (simp only: simp_thms if_True oval_ofold oval_oadd oval_ominus3 of_bool_eq add_0_right)
  then have "int (oval (fsub x y)) mod int P127 = int ?v mod int P127" by (metis zmod_int)
  moreover have "oval (ocompl y) = 8 ^ 43 - 1 - oval y" "oval y < 8 ^ 43" using oval_ocompl [of y] True by simp_all
  then have "int ?v = int (oval x) - int (oval y) + int P127 * 5" by (simp add: of_nat_diff)
  ultimately show ?thesis by (metis mod_mult_self2)
next
  case False
  then have "oval (fsub x y) = oval x + (P127 - 1) * oval y" unfolding fsub_def by (simp only: if_False oval_olist)
  then have "int (oval (fsub x y)) = int (oval x) - int (oval y) + int P127 * int (oval y)" by (simp add: algebra_simps)
  then show ?thesis by (metis mod_mult_self2)
qed

section \<open>Comparison\<close>

text \<open>The last of 43 digits has one bit below and two above 2^127.\<close>

primrec olow :: "oct \<Rightarrow> oct" where
  "olow O0 = O0"
| "olow O1 = O1"
| "olow O2 = O0"
| "olow O3 = O1"
| "olow O4 = O0"
| "olow O5 = O1"
| "olow O6 = O0"
| "olow O7 = O1"

primrec ohigh :: "oct \<Rightarrow> oct" where
  "ohigh O0 = O0"
| "ohigh O1 = O0"
| "ohigh O2 = O1"
| "ohigh O3 = O1"
| "ohigh O4 = O2"
| "ohigh O5 = O2"
| "ohigh O6 = O3"
| "ohigh O7 = O3"

definition ocanon :: "oct list \<Rightarrow> oct list" where
  "ocanon xs = (if length xs = 43 then oadd False (butlast xs @ [olow (last xs)]) [ohigh (last xs)] else xs)"

lemma ocanon_digits:
  "ocanon [a0, a1, a2, a3, a4, a5, a6, a7, a8, a9, a10, a11, a12, a13, a14, a15, a16, a17, a18, a19, a20, a21, a22, a23, a24, a25, a26, a27, a28, a29, a30, a31, a32, a33, a34, a35, a36, a37, a38, a39, a40, a41, a42] = oadd False [a0, a1, a2, a3, a4, a5, a6, a7, a8, a9, a10, a11, a12, a13, a14, a15, a16, a17, a18, a19, a20, a21, a22, a23, a24, a25, a26, a27, a28, a29, a30, a31, a32, a33, a34, a35, a36, a37, a38, a39, a40, a41, olow a42] [ohigh a42]"
  by (simp add: ocanon_def)

lemma oval_ocanon: "oval (ocanon xs) mod P127 = oval xs mod P127"
proof (cases "length xs = 43")
  case True
  then have "xs \<noteq> []" by auto
  then have "oval xs = oval (butlast xs @ [last xs])" by simp
  also have "\<dots> = oval (butlast xs) + 8 ^ 42 * ov (last xs)" unfolding oval_append using True by simp
  also have "ov (last xs) = ov (olow (last xs)) + 2 * ov (ohigh (last xs))" by (cases "last xs") simp_all
  finally have "oval xs = oval (butlast xs) + 8 ^ 42 * ov (olow (last xs)) + ov (ohigh (last xs)) + P127 * ov (ohigh (last xs))"
    by (simp add: algebra_simps)
  also have "oval (butlast xs) + 8 ^ 42 * ov (olow (last xs)) + ov (ohigh (last xs)) = oval (ocanon xs)"
    using True by (simp add: ocanon_def oval_oadd oval_append)
  finally show ?thesis by (metis mod_mult_self2)
qed (simp add: ocanon_def)

definition feq :: "oct list \<Rightarrow> oct list \<Rightarrow> bool" where
  "feq x y \<longleftrightarrow> ocanon (ocanon x) = ocanon (ocanon y)"

lemma oval_feq: "feq x y \<Longrightarrow> oval x mod P127 = oval y mod P127"
  unfolding feq_def using oval_ocanon by metis

section \<open>Field operations\<close>

definition fadd :: "oct list \<Rightarrow> oct list \<Rightarrow> oct list" where
  "fadd x y = ofold (oadd False x y)"

definition fmul :: "oct list \<Rightarrow> oct list \<Rightarrow> oct list" where
  "fmul x y = ofold (ofold (omult x y))"

text \<open>The digits of a numeral.\<close>

fun onum :: "num \<Rightarrow> oct list" where
  "onum (num.Bit0 (num.Bit0 (num.Bit0 n))) = O0 # onum n"
| "onum (num.Bit1 (num.Bit0 (num.Bit0 n))) = O1 # onum n"
| "onum (num.Bit0 (num.Bit1 (num.Bit0 n))) = O2 # onum n"
| "onum (num.Bit1 (num.Bit1 (num.Bit0 n))) = O3 # onum n"
| "onum (num.Bit0 (num.Bit0 (num.Bit1 n))) = O4 # onum n"
| "onum (num.Bit1 (num.Bit0 (num.Bit1 n))) = O5 # onum n"
| "onum (num.Bit0 (num.Bit1 (num.Bit1 n))) = O6 # onum n"
| "onum (num.Bit1 (num.Bit1 (num.Bit1 n))) = O7 # onum n"
| "onum num.One = [O1]"
| "onum (num.Bit0 num.One) = [O2]"
| "onum (num.Bit1 num.One) = [O3]"
| "onum (num.Bit0 (num.Bit0 num.One)) = [O4]"
| "onum (num.Bit1 (num.Bit0 num.One)) = [O5]"
| "onum (num.Bit0 (num.Bit1 num.One)) = [O6]"
| "onum (num.Bit1 (num.Bit1 num.One)) = [O7]"

lemma num2: "(numeral (num.Bit0 n) :: nat) = 2 * numeral n" "(numeral (num.Bit1 n) :: nat) = 2 * numeral n + 1"
  by (simp_all only: numeral_Bit0 [of n] numeral_Bit1 [of n] mult_2)

lemma num8: "(numeral (num.Bit0 (num.Bit0 (num.Bit0 n))) :: nat) = 8 * numeral n"
  "(numeral (num.Bit1 (num.Bit0 (num.Bit0 n))) :: nat) = 8 * numeral n + 1"
  "(numeral (num.Bit0 (num.Bit1 (num.Bit0 n))) :: nat) = 8 * numeral n + 2"
  "(numeral (num.Bit1 (num.Bit1 (num.Bit0 n))) :: nat) = 8 * numeral n + 3"
  "(numeral (num.Bit0 (num.Bit0 (num.Bit1 n))) :: nat) = 8 * numeral n + 4"
  "(numeral (num.Bit1 (num.Bit0 (num.Bit1 n))) :: nat) = 8 * numeral n + 5"
  "(numeral (num.Bit0 (num.Bit1 (num.Bit1 n))) :: nat) = 8 * numeral n + 6"
  "(numeral (num.Bit1 (num.Bit1 (num.Bit1 n))) :: nat) = 8 * numeral n + 7"
proof -
  have e: "2 * (2 * (2 * m)) = 8 * m" "2 * (2 * (2 * m)) + 1 = 8 * m + 1" "2 * (2 * (2 * m) + 1) = 8 * m + 2"
    "2 * (2 * (2 * m) + 1) + 1 = 8 * m + 3" "2 * (2 * (2 * m + 1)) = 8 * m + 4" "2 * (2 * (2 * m + 1)) + 1 = 8 * m + 5"
    "2 * (2 * (2 * m + 1) + 1) = 8 * m + 6" "2 * (2 * (2 * m + 1) + 1) + 1 = 8 * m + 7" for m :: nat
    by simp_all
  note low = num2 [of n] num2 [of "num.Bit0 n"] num2 [of "num.Bit1 n"] num2 [of "num.Bit0 (num.Bit0 n)"]
    num2 [of "num.Bit0 (num.Bit1 n)"] num2 [of "num.Bit1 (num.Bit0 n)"] num2 [of "num.Bit1 (num.Bit1 n)"]
  show "(numeral (num.Bit0 (num.Bit0 (num.Bit0 n))) :: nat) = 8 * numeral n" unfolding low by (rule e(1))
  show "(numeral (num.Bit1 (num.Bit0 (num.Bit0 n))) :: nat) = 8 * numeral n + 1" unfolding low by (rule e(2))
  show "(numeral (num.Bit0 (num.Bit1 (num.Bit0 n))) :: nat) = 8 * numeral n + 2" unfolding low by (rule e(3))
  show "(numeral (num.Bit1 (num.Bit1 (num.Bit0 n))) :: nat) = 8 * numeral n + 3" unfolding low by (rule e(4))
  show "(numeral (num.Bit0 (num.Bit0 (num.Bit1 n))) :: nat) = 8 * numeral n + 4" unfolding low by (rule e(5))
  show "(numeral (num.Bit1 (num.Bit0 (num.Bit1 n))) :: nat) = 8 * numeral n + 5" unfolding low by (rule e(6))
  show "(numeral (num.Bit0 (num.Bit1 (num.Bit1 n))) :: nat) = 8 * numeral n + 6" unfolding low by (rule e(7))
  show "(numeral (num.Bit1 (num.Bit1 (num.Bit1 n))) :: nat) = 8 * numeral n + 7" unfolding low by (rule e(8))
qed

lemma oval_onum: "oval (onum n) = numeral n"
proof (induction n rule: onum.induct)
  case (1 n)
  show ?case unfolding onum.simps oval.simps ov.simps "1.IH" num8 [of n] by simp
next
  case (2 n)
  show ?case unfolding onum.simps oval.simps ov.simps "2.IH" num8 [of n] by (rule add.commute)
next
  case (3 n)
  show ?case unfolding onum.simps oval.simps ov.simps "3.IH" num8 [of n] by (rule add.commute)
next
  case (4 n)
  show ?case unfolding onum.simps oval.simps ov.simps "4.IH" num8 [of n] by (rule add.commute)
next
  case (5 n)
  show ?case unfolding onum.simps oval.simps ov.simps "5.IH" num8 [of n] by (rule add.commute)
next
  case (6 n)
  show ?case unfolding onum.simps oval.simps ov.simps "6.IH" num8 [of n] by (rule add.commute)
next
  case (7 n)
  show ?case unfolding onum.simps oval.simps ov.simps "7.IH" num8 [of n] by (rule add.commute)
next
  case (8 n)
  show ?case unfolding onum.simps oval.simps ov.simps "8.IH" num8 [of n] by (rule add.commute)
qed simp_all

definition ozero :: "oct list" where
  "ozero = [O0, O0, O0, O0, O0, O0, O0, O0, O0, O0, O0, O0, O0, O0, O0, O0, O0, O0, O0, O0, O0, O0, O0, O0, O0, O0, O0, O0, O0, O0, O0, O0, O0, O0, O0, O0, O0, O0, O0, O0, O0, O0, O0]"

text \<open>A number as 43 digits.\<close>

definition fnum :: "nat \<Rightarrow> oct list" where
  "fnum n = (if n = 0 then ozero else oadd False (onum (num_of_nat n)) ozero)"

lemma fnum_numeral: "fnum 0 = ozero" "fnum 1 = oadd False [O1] ozero" "fnum (numeral n) = oadd False (onum n) ozero"
  by (simp_all add: fnum_def num_of_nat_numeral_eq num_of_nat.simps)

lemma oval_fnum: "oval (fnum n) = n"
  by (simp add: fnum_def oval_oadd oval_onum numeral_num_of_nat) (simp add: ozero_def)

lemmas field_rules = fadd_def fmul_def fsub_digits feq_def ofold_digits oquad_digits ocompl_digits ocompl.simps(1) ominus3_def
  ocanon_digits olow.simps ohigh.simps fnum_numeral onum.simps ozero_def oadd_rules omult_rules

end
