(* ===== verification/Mersenne127.thy ===== *)
theory Mersenne127
  imports Octal
begin

text \<open>
  The sequence of the test of Lucas and Lehmer for 2^127 - 1: s0 = 4, s' = s^2 - 2, computed modulo the number in octal digits; its
  125th element is a multiple of the number.
\<close>

abbreviation M127 :: int where "M127 \<equiv> 2 ^ 127 - 1"

definition lucasStep :: "oct list \<Rightarrow> oct list" where
  "lucasStep x = fsub (fmul x x) (fnum 2)"

fun lucas :: "nat \<Rightarrow> oct list \<Rightarrow> oct list" where
  "lucas 0 x = x"
| "lucas (Suc n) x = lucas n (lucasStep x)"

lemma lucas_numeral: "lucas (numeral k) x = lucas (pred_numeral k) (lucasStep x)"
  by (simp add: numeral_eq_Suc)

text \<open>Three times 2^127 - 1.\<close>

definition lucasEnd :: "oct list" where
  "lucasEnd = [O5, O7, O7, O7, O7, O7, O7, O7, O7, O7, O7, O7, O7, O7, O7, O7, O7, O7, O7, O7, O7, O7, O7, O7, O7, O7, O7, O7, O7, O7, O7, O7, O7, O7, O7, O7, O7, O7, O7, O7, O7, O7, O5]"

lemma lucas_125: "lucas 125 (fnum 4) = lucasEnd"
  by (simp only: lucas_numeral pred_numeral_simps Num.BitM.simps lucas.simps(1) lucasStep_def lucasEnd_def field_rules)

lemma oval_lucasEnd: "int (oval lucasEnd) = 3 * M127"
  by (simp add: lucasEnd_def)

lemma lucasStep_cong: "M127 dvd int (oval (lucasStep x)) - (int (oval x) ^ 2 - 2)"
proof -
  have "oval (fmul x x) mod P127 = (oval x * oval x) mod P127" by (simp only: fmul_def oval_ofold oval_omult)
  then have "int (oval (fmul x x)) mod int P127 = (int (oval x) ^ 2) mod int P127"
    by (metis of_nat_mult power2_eq_square zmod_int)
  then have "(int (oval (fmul x x)) - 2) mod int P127 = (int (oval x) ^ 2 - 2) mod int P127" by (rule mod_diff_cong) (rule refl)
  then have "int (oval (lucasStep x)) mod int P127 = (int (oval x) ^ 2 - 2) mod int P127"
    using oval_fsub [of "fmul x x" "fnum 2"] by (simp only: lucasStep_def oval_fnum of_nat_numeral)
  moreover have "int P127 = M127" by simp
  ultimately show ?thesis by (simp only: mod_eq_dvd_iff)
qed

end
