(* ===== verification/Prime127.thy ===== *)
theory Prime127
  imports Mersenne127
begin

text \<open>
  From the sequence of Lucas and Lehmer to primality: the ring Z[sqrt 3], congruence of its elements modulo an integer, the
  order of 2 + sqrt 3 modulo a divisor of 2^127 - 1, and the count of the residues.
\<close>

section \<open>The ring\<close>

datatype zs3 = ZS (zr: int) (zi: int)

instantiation zs3 :: comm_ring_1
begin

definition zero_zs3 :: zs3 where "0 = ZS 0 0"
definition one_zs3 :: zs3 where "1 = ZS 1 0"
definition plus_zs3 :: "zs3 \<Rightarrow> zs3 \<Rightarrow> zs3" where "u + v = ZS (zr u + zr v) (zi u + zi v)"
definition uminus_zs3 :: "zs3 \<Rightarrow> zs3" where "- u = ZS (- zr u) (- zi u)"
definition minus_zs3 :: "zs3 \<Rightarrow> zs3 \<Rightarrow> zs3" where "u - v = ZS (zr u - zr v) (zi u - zi v)"
definition times_zs3 :: "zs3 \<Rightarrow> zs3 \<Rightarrow> zs3" where
  "u * v = ZS (zr u * zr v + 3 * (zi u * zi v)) (zr u * zi v + zi u * zr v)"

instance
  by standard (auto simp: zero_zs3_def one_zs3_def plus_zs3_def uminus_zs3_def minus_zs3_def times_zs3_def algebra_simps)

end

lemmas zs3_defs = zero_zs3_def one_zs3_def plus_zs3_def uminus_zs3_def minus_zs3_def times_zs3_def

lemma two_zs3: "(2 :: zs3) = ZS 2 0"
  unfolding one_add_one [symmetric] one_zs3_def plus_zs3_def by simp

text \<open>Congruence modulo an integer.\<close>

definition zcong :: "int \<Rightarrow> zs3 \<Rightarrow> zs3 \<Rightarrow> bool" where
  "zcong q u v \<longleftrightarrow> (\<exists>w. u - v = ZS q 0 * w)"

lemma zcong_refl: "zcong q u u"
  unfolding zcong_def by (rule exI [of _ 0]) simp

lemma zcong_components: "zcong q u v \<longleftrightarrow> q dvd zr u - zr v \<and> q dvd zi u - zi v"
proof
  assume "q dvd zr u - zr v \<and> q dvd zi u - zi v"
  then obtain a b where "zr u - zr v = q * a" "zi u - zi v = q * b" by (auto simp: dvd_def)
  then show "zcong q u v" unfolding zcong_def by (intro exI [of _ "ZS a b"]) (simp add: zs3_defs)
qed (auto simp: zcong_def zs3_defs)

lemma zcong_sym: "zcong q u v \<Longrightarrow> zcong q v u"
  by (simp add: zcong_components dvd_diff_commute)

lemma zcong_trans: "zcong q u v \<Longrightarrow> zcong q v w \<Longrightarrow> zcong q u w"
  unfolding zcong_def by (metis add_diff_eq diff_add_cancel distrib_left)

lemma zcong_mult: "zcong q u v \<Longrightarrow> zcong q (u * w) (v * w)"
  unfolding zcong_def by (metis left_diff_distrib mult.assoc)

lemma zcong_add: "zcong q u v \<Longrightarrow> zcong q (u + w) (v + w)"
  by (simp add: zcong_def)

lemma zcong_power: "zcong q u v \<Longrightarrow> zcong q (u ^ n) (v ^ n)"
proof (induction n)
  case (Suc n)
  have "zcong q (u * u ^ n) (v * u ^ n)" using Suc.prems by (rule zcong_mult)
  moreover have "zcong q (u ^ n * v) (v ^ n * v)" using Suc by (intro zcong_mult)
  ultimately show ?case by (simp add: mult.commute zcong_trans)
qed (simp add: zcong_refl)

lemma zcong_divisor: "q dvd m \<Longrightarrow> zcong m u v \<Longrightarrow> zcong q u v"
  by (auto simp: zcong_components elim: dvd_trans)

section \<open>The order of 2 + sqrt 3\<close>

definition omega :: zs3 where "omega = ZS 2 1"
definition omegab :: zs3 where "omegab = ZS 2 (- 1)"

lemma omega_inverse: "omega * omegab = 1"
  by (simp add: omega_def omegab_def zs3_defs)

lemma omega_powers: "omega ^ n * omegab ^ n = 1"
  by (simp add: power_mult_distrib [symmetric] omega_inverse)

lemma lucas_square:
  "(omega ^ 2 ^ n + omegab ^ 2 ^ n) ^ 2 - 2 = omega ^ 2 ^ Suc n + omegab ^ 2 ^ Suc n"
proof -
  have "(u + v) ^ 2 - 2 = u ^ 2 + v ^ 2" if "u * v = 1" for u v :: zs3
    by (simp add: power2_sum mult.assoc that)
  moreover have "x ^ 2 ^ Suc n = (x ^ 2 ^ n) ^ 2" for x :: zs3 by (simp only: power_Suc2 power_mult)
  ultimately show ?thesis using omega_powers [of "2 ^ n"] by (simp only:)
qed

lemma lucas_cong:
  "zcong M127 (ZS (int (oval a)) 0) (omega ^ 2 ^ k + omegab ^ 2 ^ k) \<Longrightarrow>
   zcong M127 (ZS (int (oval (lucas n a))) 0) (omega ^ 2 ^ (k + n) + omegab ^ 2 ^ (k + n))"
proof (induction n arbitrary: a k)
  case (Suc n)
  have s: "ZS (int (oval a) ^ 2 - 2) 0 = ZS (int (oval a)) 0 ^ 2 - 2"
    by (simp add: power2_eq_square two_zs3 times_zs3_def minus_zs3_def)
  have "zcong M127 (ZS (int (oval (lucasStep a))) 0) (ZS (int (oval a) ^ 2 - 2) 0)"
    using lucasStep_cong [of a] by (simp add: zcong_components)
  moreover have "zcong M127 (ZS (int (oval a)) 0 ^ 2 - 2) ((omega ^ 2 ^ k + omegab ^ 2 ^ k) ^ 2 - 2)"
    using zcong_add [OF zcong_power [OF Suc.prems, of 2], of "- 2"] by (simp only: diff_conv_add_uminus [where 'a = zs3])
  ultimately have "zcong M127 (ZS (int (oval (lucasStep a))) 0) (omega ^ 2 ^ Suc k + omegab ^ 2 ^ Suc k)"
    unfolding s lucas_square [symmetric] by (rule zcong_trans)
  from Suc.IH [OF this] show ?case by (simp only: lucas.simps add_Suc_right add_Suc)
qed simp

lemma omega_126: "zcong M127 (omega ^ 2 ^ 126) (- 1)"
proof -
  have "zcong M127 (ZS (int (oval (fnum 4))) 0) (omega ^ 2 ^ 0 + omegab ^ 2 ^ 0)"
    unfolding oval_fnum by (simp add: omega_def omegab_def zs3_defs zcong_components)
  from lucas_cong [OF this, of 125] have "zcong M127 (ZS (3 * M127) 0) (omega ^ 2 ^ 125 + omegab ^ 2 ^ 125)"
    unfolding lucas_125 oval_lucasEnd by simp
  moreover have "zcong M127 0 (ZS (3 * M127) 0)" by (simp add: zcong_components zs3_defs)
  ultimately have "zcong M127 0 (omega ^ 2 ^ 125 + omegab ^ 2 ^ 125)" by (rule zcong_trans [rotated])
  from zcong_mult [OF this, of "omega ^ 2 ^ 125"] have "zcong M127 0 (omega ^ 2 ^ 126 + 1)"
    using omega_powers [of "2 ^ 125"] by (simp add: distrib_right mult.commute [of "omegab ^ _"] power_add [symmetric] mult_2 [symmetric])
  from zcong_add [OF zcong_sym [OF this], of "- 1"] show ?thesis by simp
qed

section \<open>Counting residues\<close>

lemma odd_part: "0 < (m :: nat) \<Longrightarrow> \<exists>k j. m = 2 ^ k * j \<and> odd j"
proof (induction m rule: less_induct)
  case (less m)
  show ?case
  proof (cases "odd m")
    case True
    then show ?thesis by (intro exI [of _ 0] exI [of _ m]) simp
  next
    case False
    then obtain n where n: "m = 2 * n" by blast
    then have "n < m" "0 < n" using less.prems by simp_all
    then obtain k j where "n = 2 ^ k * j" "odd j" using less.IH by blast
    then show ?thesis using n by (intro exI [of _ "Suc k"] exI [of _ j]) simp
  qed
qed

text \<open>No power of 2 + sqrt 3 below 2^127 is 1 modulo an odd divisor.\<close>

lemma omega_order:
  assumes "q dvd M127" "odd q" "1 < q" "0 < m" "m < 2 ^ 127"
  shows "\<not> zcong q 1 (omega ^ m)"
proof
  assume c: "zcong q 1 (omega ^ m)"
  obtain k j where m: "m = 2 ^ k * j" "odd j" using odd_part [OF assms(4)] by blast
  then have "1 \<le> j" by (cases j) simp_all
  then have "2 ^ k < (2 ^ 127 :: nat)" using assms(5) m(1) mult_le_mono2 [of 1 j "2 ^ k"] by linarith
  then have "k < 127" by (rule power_less_imp_less_exp [rotated]) simp
  then have e: "m * 2 ^ (126 - k) = 2 ^ 126 * j" by (simp add: m(1) power_add [symmetric] mult.assoc mult.left_commute)
  have "zcong q (1 ^ 2 ^ (126 - k)) ((omega ^ m) ^ 2 ^ (126 - k))" using c by (rule zcong_power)
  then have "zcong q 1 ((omega ^ 2 ^ 126) ^ j)" by (simp only: power_one power_mult [symmetric] e)
  moreover have "zcong q ((omega ^ 2 ^ 126) ^ j) ((- 1) ^ j)" by (intro zcong_power zcong_divisor [OF assms(1) omega_126])
  ultimately have "zcong q 1 (- 1)" using zcong_trans m(2) by (metis minus_one_power_iff power_one)
  then have "q dvd 2" by (simp add: zcong_components zs3_defs)
  then have "q \<le> 2" by (rule zdvd_imp_le) simp
  then show False using assms(2,3) by (cases "q = 2") auto
qed

definition residue :: "int \<Rightarrow> nat \<Rightarrow> int \<times> int" where
  "residue q n = (zr (omega ^ n) mod q, zi (omega ^ n) mod q)"

lemma residue_cong: "residue q i = residue q j \<Longrightarrow> zcong q (omega ^ i) (omega ^ j)"
  by (simp add: residue_def zcong_components mod_eq_dvd_iff)

lemma no_small_divisor:
  assumes "q dvd M127" "1 < q"
  shows "M127 < q * q"
proof (rule ccontr)
  assume "\<not> M127 < q * q"
  then have small: "q * q < 2 ^ 127" by linarith
  have "odd M127" by simp
  then have odd: "odd q" using assms(1) dvd_trans by blast
  let ?A = "{..<2 ^ 127 :: nat}"
  have sub: "residue q ` ?A \<subseteq> {0..<q} \<times> {0..<q}" using assms(2) by (auto simp: residue_def)
  have "card (residue q ` ?A) \<le> card ({0..<q} \<times> {0..<q})" by (rule card_mono [OF _ sub]) simp
  also have "\<dots> = nat (q * q)" using assms(2) by (simp add: card_cartesian_product nat_mult_distrib)
  also have "\<dots> < 2 ^ 127" using small by (simp only: nat_less_iff zero_le_square) (simp only: of_nat_power of_nat_numeral)
  finally have "card (residue q ` ?A) < card ?A" by (simp only: card_lessThan)
  then have "\<not> inj_on (residue q) ?A" by (rule pigeonhole)
  then obtain i j where ij: "i < 2 ^ 127" "j < 2 ^ 127" "residue q i = residue q j" "i < j"
    unfolding inj_on_def by (metis lessThan_iff linorder_neqE_nat)
  have j: "omega ^ j = omega ^ (j - i) * omega ^ i" using ij(4) by (simp only: power_add [symmetric]) simp
  have "zcong q (omega ^ i * omegab ^ i) (omega ^ j * omegab ^ i)" by (intro zcong_mult residue_cong ij(3))
  then have "zcong q 1 (omega ^ (j - i))" unfolding j by (simp only: omega_powers mult.assoc mult_1_right)
  moreover have "0 < j - i" "j - i < 2 ^ 127" using ij by linarith+
  ultimately show False using omega_order [OF assms(1) odd assms(2)] by blast
qed

lemma M127_prime:
  assumes "q dvd M127" "0 < q"
  shows "q = 1 \<or> q = M127"
proof -
  obtain r where r: "M127 = q * r" using assms(1) by (auto simp: dvd_def)
  have "0 < q * r" unfolding r [symmetric] by simp
  then have "0 < r" using assms(2) by (simp add: zero_less_mult_iff)
  have "q = 1 \<or> r = 1"
  proof (rule ccontr)
    assume "\<not> (q = 1 \<or> r = 1)"
    then have "1 < q" "1 < r" using assms(2) \<open>0 < r\<close> by linarith+
    moreover have "r dvd M127" by (rule dvdI [of _ _ q]) (simp only: r mult.commute)
    ultimately have "q * r < q * q" "q * r < r * r" using no_small_divisor assms(1) r by metis+
    then have "r < q" "q < r" using \<open>0 < r\<close> assms(2) by (simp_all only: mult_less_cancel_left_pos mult_less_cancel_right_pos)
    then show False by simp
  qed
  then show ?thesis using r by auto
qed

end
