(* ===== verification/Fp_Field.thy ===== *)
theory Fp_Field
  imports Fp2_1271 Prime127
begin

text \<open>
  The residues modulo 2^127 - 1 and their quadratic extension are fields: the theorem of Fermat for finite
  integral domains, the inverses, and the squares that the completeness of the curve needs.
\<close>

section \<open>Fermat\<close>

lemma fermat_finite:
  fixes x :: "'a :: {idom, finite}"
  assumes "x \<noteq> 0"
  shows "x ^ (card (UNIV :: 'a set) - 1) = 1"
proof -
  let ?U = "UNIV - {0 :: 'a}"
  have inj: "inj_on ((*) x) ?U" using assms by (auto simp: inj_on_def)
  have "(*) x ` ?U \<subseteq> ?U" using assms by auto
  then have "(*) x ` ?U = ?U" using inj by (intro endo_inj_surj) simp_all
  then have "prod id ?U = prod id ((*) x ` ?U)" by simp
  also have "\<dots> = (\<Prod>y\<in>?U. x * y)" using inj by (simp add: prod.reindex comp_def)
  also have "\<dots> = x ^ card ?U * prod id ?U" by (simp add: prod.distrib)
  finally have "prod id ?U * 1 = prod id ?U * x ^ card ?U" by (simp add: mult.commute)
  moreover have "prod id ?U \<noteq> 0" by simp
  ultimately have "x ^ card ?U = 1" by (metis mult_left_cancel)
  then show ?thesis by (simp add: card_Diff_singleton)
qed

section \<open>The prime field\<close>

lemma Rep_gfp_bounds: "0 \<le> Rep_gfp x" "Rep_gfp x < M127"
  using Rep_gfp [of x] by simp_all

lemma Rep_gfp_eq_0: "Rep_gfp x = 0 \<longleftrightarrow> x = 0"
  by (metis gfp.Rep_0 Rep_gfp_inject)

lemma gfp_coprime:
  assumes "x \<noteq> 0"
  shows "coprime (Rep_gfp x) M127"
proof -
  let ?g = "gcd (Rep_gfp x) M127"
  have pos: "0 < Rep_gfp x" using assms Rep_gfp_bounds [of x] Rep_gfp_eq_0 [of x] by linarith
  then have "?g \<le> Rep_gfp x" by (intro zdvd_imp_le gcd_dvd1)
  then have "?g \<noteq> M127" using Rep_gfp_bounds [of x] by linarith
  moreover have "?g = 1 \<or> ?g = M127" using pos by (intro M127_prime gcd_dvd2) (simp add: gcd_pos_int)
  ultimately show ?thesis unfolding coprime_iff_gcd_eq_1 by blast
qed

instance gfp :: idom
proof
  fix x y :: gfp
  assume "x \<noteq> 0" "y \<noteq> 0"
  show "x * y \<noteq> 0"
  proof
    assume "x * y = 0"
    then have "Rep_gfp x * Rep_gfp y mod M127 = 0" by (metis gfp.Rep_0 times_gfp_def gfp.Rep_Abs_mod)
    then have "M127 dvd Rep_gfp x * Rep_gfp y" by (simp only: dvd_eq_mod_eq_0)
    then have "M127 dvd Rep_gfp y" using gfp_coprime [OF \<open>x \<noteq> 0\<close>] by (metis coprime_commute coprime_dvd_mult_right_iff)
    moreover have "0 < Rep_gfp y" using \<open>y \<noteq> 0\<close> Rep_gfp_bounds [of y] Rep_gfp_eq_0 [of y] by linarith
    ultimately have "M127 \<le> Rep_gfp y" by (rule zdvd_imp_le)
    then show False using Rep_gfp_bounds [of y] by linarith
  qed
qed

lemma card_gfp: "finite (UNIV :: gfp set)" "card (UNIV :: gfp set) = 2 ^ 127 - 1"
proof -
  have u: "(UNIV :: gfp set) = Abs_gfp ` {0 ..< M127}" by (rule type_definition.Abs_image [OF type_definition_gfp, symmetric])
  show "finite (UNIV :: gfp set)" unfolding u by (intro finite_imageI finite_atLeastLessThan_int)
  have "card (UNIV :: gfp set) = card {0 ..< M127}" by (rule type_definition.card [OF type_definition_gfp])
  also have "\<dots> = nat M127" by (simp only: card_atLeastLessThan_int diff_0_right)
  finally show "card (UNIV :: gfp set) = 2 ^ 127 - 1" by simp
qed

instance gfp :: finite
  by standard (rule card_gfp(1))

lemma gfp_fermat: "x \<noteq> 0 \<Longrightarrow> x ^ (2 ^ 127 - 2) = (1 :: gfp)"
  using fermat_finite [of x] unfolding card_gfp(2) diff_diff_left one_add_one by blast

instantiation gfp :: inverse
begin

definition inverse_gfp :: "gfp \<Rightarrow> gfp" where "inverse_gfp x = x ^ (2 ^ 127 - 3)"
definition divide_gfp :: "gfp \<Rightarrow> gfp \<Rightarrow> gfp" where "divide_gfp x y = x * inverse y"

instance ..

end

instance gfp :: field
proof
  fix x y :: gfp
  have "2 ^ 127 - 2 = Suc (2 ^ 127 - 3 :: nat)" by simp
  then have "x ^ (2 ^ 127 - 2) = inverse x * x" by (simp only: inverse_gfp_def power_Suc2)
  then show "x \<noteq> 0 \<Longrightarrow> inverse x * x = 1" using gfp_fermat [of x] by metis
  show "x div y = x * inverse y" by (rule divide_gfp_def)
  have "(2 ^ 127 - 3 :: nat) = Suc (2 ^ 127 - 4)" by simp
  then show "inverse (0 :: gfp) = 0" by (simp only: inverse_gfp_def power_Suc mult_zero_left)
qed

lemma of_int_multiple: "z = k * M127 \<Longrightarrow> (of_int z :: gfp) = 0"
proof -
  have "M127 = int (2 ^ 127 - 1)" by simp
  then have "(of_int M127 :: gfp) = 0" using of_nat_p_eq_0 by (simp only: of_int_of_nat_eq)
  then show "z = k * M127 \<Longrightarrow> (of_int z :: gfp) = 0" by (simp only: of_int_mult mult_zero_right)
qed

lemma two_neq_0: "(2 :: gfp) \<noteq> 0"
proof -
  have "(2 :: gfp) = of_nat 2" by simp
  then show ?thesis using of_nat_gfp_eq_iff [of 2 0] by simp
qed

text \<open>As 2^127 - 1 is 3 modulo 4, - 1 is not a square.\<close>

lemma minus_one_nonsquare: "t ^ 2 \<noteq> (- 1 :: gfp)"
proof
  assume t: "t ^ 2 = - 1"
  then have "t \<noteq> 0" by auto
  have "(2 ^ 127 - 2 :: nat) = 2 * (2 ^ 126 - 1)" by simp
  then have "t ^ (2 ^ 127 - 2) = (t ^ 2) ^ (2 ^ 126 - 1)" by (simp only: power_mult)
  also have "\<dots> = - 1" unfolding t by (rule power_minus_odd [where a = 1, simplified]) simp
  finally have "(1 :: gfp) = - 1" using gfp_fermat [OF \<open>t \<noteq> 0\<close>] by metis
  then have "(2 :: gfp) = 0" by (metis add.right_inverse one_add_one)
  then show False using two_neq_0 by blast
qed

lemma sum_squares_eq_0: "a ^ 2 + b ^ 2 = 0 \<longleftrightarrow> a = 0 \<and> b = (0 :: gfp)"
proof
  assume e: "a ^ 2 + b ^ 2 = 0"
  have "b = 0"
  proof (rule ccontr)
    assume "b \<noteq> 0"
    have "a ^ 2 = - (b ^ 2)" using e by (simp add: eq_neg_iff_add_eq_0)
    then have "(a / b) ^ 2 = - 1" using \<open>b \<noteq> 0\<close> by (simp add: power_divide)
    then show False using minus_one_nonsquare by blast
  qed
  then show "a = 0 \<and> b = 0" using e by simp
qed simp

section \<open>The quadratic extension\<close>

definition gnorm :: "gfp2 \<Rightarrow> gfp" where
  "gnorm x = re x ^ 2 + im x ^ 2"

lemma gnorm_eq_0: "gnorm x = 0 \<longleftrightarrow> x = 0"
  by (cases x) (simp add: gnorm_def sum_squares_eq_0 zero_gfp2_def)

lemma gnorm_mult: "gnorm (x * y) = gnorm x * gnorm y"
  by (simp add: gnorm_def times_gfp2_def power2_eq_square algebra_simps)

instantiation gfp2 :: inverse
begin

definition inverse_gfp2 :: "gfp2 \<Rightarrow> gfp2" where "inverse_gfp2 x = GFp2 (re x / gnorm x) (- im x / gnorm x)"
definition divide_gfp2 :: "gfp2 \<Rightarrow> gfp2 \<Rightarrow> gfp2" where "divide_gfp2 x y = x * inverse y"

instance ..

end

instance gfp2 :: field
proof
  fix x y :: gfp2
  show "inverse x * x = 1" if "x \<noteq> 0"
  proof -
    have "gnorm x \<noteq> 0" using that by (simp add: gnorm_eq_0)
    then show ?thesis
      by (simp add: inverse_gfp2_def times_gfp2_def one_gfp2_def) (simp add: gnorm_def power2_eq_square add_divide_distrib [symmetric])
  qed
  show "x div y = x * inverse y" by (rule divide_gfp2_def)
  show "inverse (0 :: gfp2) = 0" by (simp add: inverse_gfp2_def zero_gfp2_def)
qed

text \<open>The root of - 1.\<close>

definition imaginary :: gfp2 where "imaginary = GFp2 0 1"

lemma imaginary_square: "imaginary ^ 2 = - 1"
  by (simp add: imaginary_def power2_eq_square times_gfp2_def uminus_gfp2_def one_gfp2_def)

end
