(* ===== verification/FourQ_Group.thy ===== *)
theory FourQ_Group
  imports FourQ Fp_Field
begin

text \<open>
  The points of the curve FourQ form a commutative group under the addition law of the twisted Edwards form.  The
  parameter d is not a square, so that the denominators never vanish; associativity is an identity of polynomials modulo the
  equations of three points.  The type \<open>fourq\<close> of the points is an instance of the class of commutative groups.
\<close>

section \<open>Completeness\<close>

lemma gnorm_curve_d: "gnorm curve_d = - (of_int 73786976294838206470 ^ 2)"
proof -
  have c: "re curve_d = of_int 4205857648805777768770" "im curve_d = of_int 125317048443780598345676279555970305165"
    by (simp_all add: fp2v_def PARAMETER_d_def fpv_def fval_def)
  have "(4205857648805777768770 ^ 2 + 125317048443780598345676279555970305165 ^ 2 + 73786976294838206470 ^ 2 :: int) =
      92301947778032355076313350722726454575 * M127" by simp
  then have "(of_int (4205857648805777768770 ^ 2 + 125317048443780598345676279555970305165 ^ 2 + 73786976294838206470 ^ 2) :: gfp) = 0"
    by (rule of_int_multiple)
  then show ?thesis unfolding gnorm_def c by (simp only: of_int_add of_int_power add_eq_0_iff2)
qed

lemma curve_d_nonsquare: "e ^ 2 \<noteq> curve_d"
proof
  assume "e ^ 2 = curve_d"
  then have "gnorm e ^ 2 = gnorm curve_d" by (metis gnorm_mult power2_eq_square)
  then have g: "gnorm e ^ 2 = - (of_int 73786976294838206470 ^ 2)" by (simp only: gnorm_curve_d)
  have "(of_int 73786976294838206470 :: gfp) = of_nat 73786976294838206470" by simp
  then have "(of_int 73786976294838206470 :: gfp) \<noteq> 0" using of_nat_gfp_eq_iff [of 73786976294838206470 0] by simp
  moreover have "gnorm e ^ 2 + of_int 73786976294838206470 ^ 2 = 0" unfolding g by (rule left_minus)
  ultimately show False unfolding sum_squares_eq_0 by blast
qed

lemma two_gfp2: "(2 :: gfp2) \<noteq> 0"
proof -
  have "(2 :: gfp2) = GFp2 2 0" unfolding one_add_one [symmetric] one_gfp2_def plus_gfp2_def by simp
  then show ?thesis using two_neq_0 unfolding zero_gfp2_def by (metis gfp2.inject)
qed

lemma edwards_denominator:
  assumes "on_curve x1 y1" "on_curve x2 y2"
  shows "(curve_d * x1 * x2 * y1 * y2) ^ 2 \<noteq> 1"
proof
  let ?D = "curve_d * x1 * x2 * y1 * y2"
  assume D: "?D ^ 2 = 1"
  then have nz: "x1 \<noteq> 0" "y1 \<noteq> 0" "x2 \<noteq> 0" by auto
  note c = assms [unfolded on_curve_def]
  have i: "imaginary ^ 2 = - 1" by (rule imaginary_square)
  have key: "(imaginary * x1 + \<epsilon> * ?D * y1) ^ 2 = curve_d * (x1 * y1 * (imaginary * x2 + \<epsilon> * y2)) ^ 2" if "\<epsilon> ^ 2 = 1" for \<epsilon>
    using c i that D by algebra
  have zero: "imaginary * x2 + \<epsilon> * y2 = 0" if "\<epsilon> ^ 2 = 1" for \<epsilon>
  proof (rule ccontr)
    assume "imaginary * x2 + \<epsilon> * y2 \<noteq> 0"
    then have r: "x1 * y1 * (imaginary * x2 + \<epsilon> * y2) \<noteq> 0" (is "?r \<noteq> 0") using nz by simp
    then have "((imaginary * x1 + \<epsilon> * ?D * y1) / ?r) ^ 2 = curve_d" unfolding power_divide key [OF that] by simp
    then show False using curve_d_nonsquare by blast
  qed
  have "imaginary * x2 + y2 = 0" "imaginary * x2 - y2 = 0" using zero [of 1] zero [of "- 1"] by simp_all
  then have "imaginary * (2 * x2) = 0" by algebra
  then show False using nz(3) i two_gfp2 by auto
qed

section \<open>The addition law\<close>

definition edw_D :: "gfp2 \<Rightarrow> gfp2 \<Rightarrow> gfp2 \<Rightarrow> gfp2 \<Rightarrow> gfp2" where
  "edw_D x1 y1 x2 y2 = curve_d * x1 * x2 * y1 * y2"

definition edw_add :: "gfp2 \<times> gfp2 \<Rightarrow> gfp2 \<times> gfp2 \<Rightarrow> gfp2 \<times> gfp2" where
  "edw_add = (\<lambda>(x1, y1) (x2, y2).
     ((x1 * y2 + y1 * x2) / (1 + edw_D x1 y1 x2 y2), (y1 * y2 + x1 * x2) / (1 - edw_D x1 y1 x2 y2)))"

lemma denominators:
  assumes "on_curve x1 y1" "on_curve x2 y2"
  shows "1 + edw_D x1 y1 x2 y2 \<noteq> 0" "1 - edw_D x1 y1 x2 y2 \<noteq> 0"
proof -
  have n: "edw_D x1 y1 x2 y2 ^ 2 \<noteq> 1" using edwards_denominator [OF assms] by (simp add: edw_D_def)
  have "e = - 1 \<Longrightarrow> e ^ 2 = 1" "e = 1 \<Longrightarrow> e ^ 2 = 1" for e :: gfp2 by simp_all
  then show "1 + edw_D x1 y1 x2 y2 \<noteq> 0" "1 - edw_D x1 y1 x2 y2 \<noteq> 0" using n by (metis eq_neg_iff_add_eq_0 add.commute) (metis n power_one right_minus_eq)
qed

lemma closure_identity:
  fixes x1 :: "'a :: idom"
  assumes "- (x1 ^ 2) + y1 ^ 2 = 1 + d * x1 ^ 2 * y1 ^ 2" "- (x2 ^ 2) + y2 ^ 2 = 1 + d * x2 ^ 2 * y2 ^ 2"
  shows "- ((x1 * y2 + y1 * x2) ^ 2 * (1 - d * x1 * x2 * y1 * y2) ^ 2) + (y1 * y2 + x1 * x2) ^ 2 * (1 + d * x1 * x2 * y1 * y2) ^ 2 =
    (1 + d * x1 * x2 * y1 * y2) ^ 2 * (1 - d * x1 * x2 * y1 * y2) ^ 2 + d * (x1 * y2 + y1 * x2) ^ 2 * (y1 * y2 + x1 * x2) ^ 2"
  using assms by algebra

lemma curve_fraction:
  fixes X Y P Q d :: "'a :: field"
  assumes "P \<noteq> 0" "Q \<noteq> 0" "- (X ^ 2 * Q ^ 2) + Y ^ 2 * P ^ 2 = P ^ 2 * Q ^ 2 + d * X ^ 2 * Y ^ 2"
  shows "- ((X / P) ^ 2) + (Y / Q) ^ 2 = 1 + d * (X / P) ^ 2 * (Y / Q) ^ 2"
proof -
  obtain a b where i: "P * a = 1" "Q * b = 1" and q: "X / P = X * a" "Y / Q = Y * b"
    using assms(1,2) by (metis divide_inverse right_inverse)
  show ?thesis unfolding q using assms(3) i by algebra
qed

lemma edw_add_on_curve:
  assumes "on_curve x1 y1" "on_curve x2 y2" "edw_add (x1, y1) (x2, y2) = (x3, y3)"
  shows "on_curve x3 y3"
proof -
  note c = closure_identity [OF assms(1,2) [unfolded on_curve_def], folded edw_D_def]
  have "x3 = (x1 * y2 + y1 * x2) / (1 + edw_D x1 y1 x2 y2)" "y3 = (y1 * y2 + x1 * x2) / (1 - edw_D x1 y1 x2 y2)"
    using assms(3) by (simp_all add: edw_add_def)
  then show ?thesis unfolding on_curve_def using curve_fraction [OF denominators [OF assms(1,2)] c] by (simp only:)
qed

text \<open>The sum of a sum: one fraction over the coordinates of three points.\<close>

lemma fraction_fractions:
  fixes X Y P Q x y d :: "'a :: field"
  assumes "P \<noteq> 0" "Q \<noteq> 0"
  shows "(X / P * y + Y / Q * x) / (1 + d * (X / P) * x * (Y / Q) * y) = (X * Q * y + Y * P * x) / (P * Q + d * X * x * Y * y)"
    "(Y / Q * y + X / P * x) / (1 - d * (X / P) * x * (Y / Q) * y) = (Y * P * y + X * Q * x) / (P * Q - d * X * x * Y * y)"
proof -
  have s: "X / P * y + Y / Q * x = (X * Q * y + Y * P * x) / (P * Q)" "Y / Q * y + X / P * x = (Y * P * y + X * Q * x) / (P * Q)"
    "1 + d * (X / P) * x * (Y / Q) * y = (P * Q + d * X * x * Y * y) / (P * Q)"
    "1 - d * (X / P) * x * (Y / Q) * y = (P * Q - d * X * x * Y * y) / (P * Q)"
    using assms by (simp_all add: add_divide_distrib diff_divide_distrib)
  have c: "(u / (P * Q)) / (v / (P * Q)) = u / v" for u v using assms by simp
  show "(X / P * y + Y / Q * x) / (1 + d * (X / P) * x * (Y / Q) * y) = (X * Q * y + Y * P * x) / (P * Q + d * X * x * Y * y)"
    "(Y / Q * y + X / P * x) / (1 - d * (X / P) * x * (Y / Q) * y) = (Y * P * y + X * Q * x) / (P * Q - d * X * x * Y * y)"
    unfolding s c by (rule refl)+
qed

lemma edw_add_fractions:
  assumes "P \<noteq> 0" "Q \<noteq> 0"
  shows "edw_add (X / P, Y / Q) (x, y) =
    ((X * Q * y + Y * P * x) / (P * Q + curve_d * X * x * Y * y), (Y * P * y + X * Q * x) / (P * Q - curve_d * X * x * Y * y))"
  unfolding edw_add_def edw_D_def prod.case fraction_fractions [OF assms] by (rule refl)

lemma edw_add_commute: "edw_add p q = edw_add q p"
  by (cases p; cases q) (simp add: edw_add_def edw_D_def mult.commute mult.left_commute add.commute)

lemma assoc_identity_x:
  fixes x1 :: "'a :: idom"
  assumes "- (x1 ^ 2) + y1 ^ 2 = 1 + d * x1 ^ 2 * y1 ^ 2" "- (x2 ^ 2) + y2 ^ 2 = 1 + d * x2 ^ 2 * y2 ^ 2"
    "- (x3 ^ 2) + y3 ^ 2 = 1 + d * x3 ^ 2 * y3 ^ 2"
  shows "((x1 * y2 + y1 * x2) * (1 - d * x1 * x2 * y1 * y2) * y3 + (y1 * y2 + x1 * x2) * (1 + d * x1 * x2 * y1 * y2) * x3) *
    ((1 + d * x2 * x3 * y2 * y3) * (1 - d * x2 * x3 * y2 * y3) + d * (x2 * y3 + y2 * x3) * x1 * (y2 * y3 + x2 * x3) * y1) =
   ((x2 * y3 + y2 * x3) * (1 - d * x2 * x3 * y2 * y3) * y1 + (y2 * y3 + x2 * x3) * (1 + d * x2 * x3 * y2 * y3) * x1) *
    ((1 + d * x1 * x2 * y1 * y2) * (1 - d * x1 * x2 * y1 * y2) + d * (x1 * y2 + y1 * x2) * x3 * (y1 * y2 + x1 * x2) * y3)"
  using assms by algebra

lemma assoc_identity_y:
  fixes x1 :: "'a :: idom"
  assumes "- (x1 ^ 2) + y1 ^ 2 = 1 + d * x1 ^ 2 * y1 ^ 2" "- (x2 ^ 2) + y2 ^ 2 = 1 + d * x2 ^ 2 * y2 ^ 2"
    "- (x3 ^ 2) + y3 ^ 2 = 1 + d * x3 ^ 2 * y3 ^ 2"
  shows "((y1 * y2 + x1 * x2) * (1 + d * x1 * x2 * y1 * y2) * y3 + (x1 * y2 + y1 * x2) * (1 - d * x1 * x2 * y1 * y2) * x3) *
    ((1 + d * x2 * x3 * y2 * y3) * (1 - d * x2 * x3 * y2 * y3) - d * (x2 * y3 + y2 * x3) * x1 * (y2 * y3 + x2 * x3) * y1) =
   ((y2 * y3 + x2 * x3) * (1 + d * x2 * x3 * y2 * y3) * y1 + (x2 * y3 + y2 * x3) * (1 - d * x2 * x3 * y2 * y3) * x1) *
    ((1 + d * x1 * x2 * y1 * y2) * (1 - d * x1 * x2 * y1 * y2) - d * (x1 * y2 + y1 * x2) * x3 * (y1 * y2 + x1 * x2) * y3)"
  using assms by algebra

lemma nonzero_fraction: "(u :: 'a :: field) / v = c \<Longrightarrow> c \<noteq> 0 \<Longrightarrow> u \<noteq> 0 \<and> v \<noteq> 0"
  by auto

text \<open>The denominators of a sum of a sum do not vanish either: they are those of the outer sum, over a common factor.\<close>

lemma denominators_sum:
  assumes "on_curve x1 y1" "on_curve x2 y2" "on_curve x3 y3"
  defines "P \<equiv> 1 + edw_D x1 y1 x2 y2" and "Q \<equiv> 1 - edw_D x1 y1 x2 y2"
    and "X \<equiv> x1 * y2 + y1 * x2" and "Y \<equiv> y1 * y2 + x1 * x2"
  shows "P * Q + curve_d * X * x3 * Y * y3 \<noteq> 0" "P * Q - curve_d * X * x3 * Y * y3 \<noteq> 0"
proof -
  have nz: "P \<noteq> 0" "Q \<noteq> 0" using denominators [OF assms(1,2)] by (simp_all add: P_def Q_def)
  have "edw_add (x1, y1) (x2, y2) = (X / P, Y / Q)" by (simp add: edw_add_def P_def Q_def X_def Y_def)
  then have c: "on_curve (X / P) (Y / Q)" using edw_add_on_curve [OF assms(1,2)] by blast
  have s: "(P * Q + curve_d * X * x3 * Y * y3) / (P * Q) = 1 + edw_D (X / P) (Y / Q) x3 y3"
      "(P * Q - curve_d * X * x3 * Y * y3) / (P * Q) = 1 - edw_D (X / P) (Y / Q) x3 y3"
    using nz by (simp_all only: add_divide_distrib diff_divide_distrib edw_D_def divide_self_if no_zero_divisors if_False
      times_divide_eq_left times_divide_eq_right divide_divide_eq_left mult.commute mult.left_commute mult.assoc mult_eq_0_iff simp_thms)
  show "P * Q + curve_d * X * x3 * Y * y3 \<noteq> 0" "P * Q - curve_d * X * x3 * Y * y3 \<noteq> 0"
    using nonzero_fraction [OF s(1) denominators(1) [OF c assms(3)]] nonzero_fraction [OF s(2) denominators(2) [OF c assms(3)]] by blast+
qed

lemma edw_add_edw_add:
  assumes "on_curve x1 y1" "on_curve x2 y2"
  shows "edw_add (edw_add (x1, y1) (x2, y2)) (x3, y3) =
   (((x1 * y2 + y1 * x2) * (1 - edw_D x1 y1 x2 y2) * y3 + (y1 * y2 + x1 * x2) * (1 + edw_D x1 y1 x2 y2) * x3) /
     ((1 + edw_D x1 y1 x2 y2) * (1 - edw_D x1 y1 x2 y2) + curve_d * (x1 * y2 + y1 * x2) * x3 * (y1 * y2 + x1 * x2) * y3),
    ((y1 * y2 + x1 * x2) * (1 + edw_D x1 y1 x2 y2) * y3 + (x1 * y2 + y1 * x2) * (1 - edw_D x1 y1 x2 y2) * x3) /
     ((1 + edw_D x1 y1 x2 y2) * (1 - edw_D x1 y1 x2 y2) - curve_d * (x1 * y2 + y1 * x2) * x3 * (y1 * y2 + x1 * x2) * y3))"
proof -
  have "edw_add (x1, y1) (x2, y2) = ((x1 * y2 + y1 * x2) / (1 + edw_D x1 y1 x2 y2), (y1 * y2 + x1 * x2) / (1 - edw_D x1 y1 x2 y2))"
    by (simp add: edw_add_def)
  then show ?thesis by (simp only: edw_add_fractions [OF denominators [OF assms]])
qed

lemma edw_add_assoc:
  assumes c: "on_curve x1 y1" "on_curve x2 y2" "on_curve x3 y3"
  shows "edw_add (edw_add (x1, y1) (x2, y2)) (x3, y3) = edw_add (x1, y1) (edw_add (x2, y2) (x3, y3))"
proof -
  note ids = assoc_identity_x [OF c [unfolded on_curve_def], folded edw_D_def]
    assoc_identity_y [OF c [unfolded on_curve_def], folded edw_D_def]
  have r: "edw_add (x1, y1) (edw_add (x2, y2) (x3, y3)) = edw_add (edw_add (x2, y2) (x3, y3)) (x1, y1)" by (rule edw_add_commute)
  show ?thesis
    unfolding r edw_add_edw_add [OF c(1,2), folded edw_D_def] edw_add_edw_add [OF c(2,3), folded edw_D_def] prod.inject
      frac_eq_eq [OF denominators_sum(1) [OF c, folded edw_D_def] denominators_sum(1) [OF c(2,3,1), folded edw_D_def]]
      frac_eq_eq [OF denominators_sum(2) [OF c, folded edw_D_def] denominators_sum(2) [OF c(2,3,1), folded edw_D_def]]
    using ids by (rule conjI)
qed

section \<open>The group\<close>

lemma on_curve_neutral: "on_curve 0 1"
  by (simp add: on_curve_def)

lemma on_curve_uminus: "on_curve x y \<Longrightarrow> on_curve (- x) y"
  by (simp add: on_curve_def)

typedef fourq = "{(x, y). on_curve x y}"
  using on_curve_neutral by blast

definition px :: "fourq \<Rightarrow> gfp2" where "px p = fst (Rep_fourq p)"

definition py :: "fourq \<Rightarrow> gfp2" where "py p = snd (Rep_fourq p)"

definition point :: "gfp2 \<Rightarrow> gfp2 \<Rightarrow> fourq" where "point x y = Abs_fourq (x, y)"

lemma on_curve_point: "on_curve (px p) (py p)"
  using Rep_fourq [of p] by (simp add: px_def py_def case_prod_beta)

lemma point_coordinates [simp]: "on_curve x y \<Longrightarrow> px (point x y) = x" "on_curve x y \<Longrightarrow> py (point x y) = y"
  by (simp_all add: px_def py_def point_def Abs_fourq_inverse)

lemma fourq_eqI: "px p = px q \<Longrightarrow> py p = py q \<Longrightarrow> p = q"
  by (metis Rep_fourq_inject prod_eqI px_def py_def)

lemma point_px_py [simp]: "point (px p) (py p) = p"
  by (rule fourq_eqI) (simp_all add: on_curve_point)

instantiation fourq :: ab_group_add
begin

definition zero_fourq :: fourq where "0 = point 0 1"
definition plus_fourq :: "fourq \<Rightarrow> fourq \<Rightarrow> fourq" where
  "p + q = (case edw_add (px p, py p) (px q, py q) of (x, y) \<Rightarrow> point x y)"
definition uminus_fourq :: "fourq \<Rightarrow> fourq" where "- p = point (- px p) (py p)"
definition minus_fourq :: "fourq \<Rightarrow> fourq \<Rightarrow> fourq" where "p - q = p + (- q :: fourq)"

lemma fourq_plus_coordinates: "(px (p + q), py (p + q)) = edw_add (px p, py p) (px q, py q)"
proof (cases "edw_add (px p, py p) (px q, py q)")
  case (Pair x y)
  then show ?thesis using edw_add_on_curve [OF on_curve_point on_curve_point Pair] by (simp add: plus_fourq_def)
qed

lemma fourq_zero_coordinates: "px 0 = 0" "py 0 = 1"
  by (simp_all add: zero_fourq_def on_curve_neutral)

lemma fourq_uminus_coordinates: "px (- p) = - px p" "py (- p) = py p"
  by (simp_all add: uminus_fourq_def on_curve_uminus on_curve_point)

instance
proof
  fix p q r :: fourq
  have eq: "u = v" if "(px u, py u) = (px v, py v)" for u v using that fourq_eqI by simp
  show "p + q + r = p + (q + r)"
    by (rule eq) (simp only: fourq_plus_coordinates edw_add_assoc [OF on_curve_point on_curve_point on_curve_point])
  show "p + q = q + p" by (rule eq) (simp only: fourq_plus_coordinates edw_add_commute)
  show "0 + p = p" by (rule eq) (simp only: fourq_plus_coordinates fourq_zero_coordinates, simp add: edw_add_def edw_D_def)
  show "p - q = p + - q" by (simp only: minus_fourq_def)
  have "(1 - curve_d * - x * x * y * y) = y * y + - x * x" if "on_curve x y" for x y
    using that unfolding on_curve_def by algebra
  note d = this [OF on_curve_point [of p]]
  have nz: "1 - curve_d * - px p * px p * py p * py p \<noteq> 0"
    using denominators(2) [OF on_curve_uminus [OF on_curve_point [of p]] on_curve_point [of p]] by (simp only: edw_D_def not_False_eq_True)
  show "- p + p = 0"
  proof (rule fourq_eqI)
    have e: "edw_add (- px p, py p) (px p, py p) = (0, 1)"
      unfolding edw_add_def edw_D_def prod.case using nz d by (simp only: prod.inject divide_self simp_thms, simp)
    have "(px (- p + p), py (- p + p)) = (0, 1)" by (simp only: fourq_plus_coordinates fourq_uminus_coordinates e)
    then show "px (- p + p) = px 0" "py (- p + p) = py 0" by (simp_all add: fourq_zero_coordinates)
  qed
qed

end

end
