(* ===== verification/FourQ_Refine.thy ===== *)
theory FourQ_Refine
  imports FourQ_Group Schnorr_Verify
begin

text \<open>
  The operations on coordinates in \<open>dispatcher/src/crypto/k12_and_key_utils.h\<close> refine the group of the curve: the
  extended coordinates stand for points, the formulas for sums, and the interleaved loop of the double multiplication for the
  sum of eight multiples.
\<close>

section \<open>Multiples\<close>

primrec nmul :: "nat \<Rightarrow> 'a :: ab_group_add \<Rightarrow> 'a" where
  "nmul 0 p = 0"
| "nmul (Suc n) p = p + nmul n p"

definition zmul :: "int \<Rightarrow> 'a :: ab_group_add \<Rightarrow> 'a" where
  "zmul z p = nmul (nat z) p - nmul (nat (- z)) p"

lemma nmul_add: "nmul (m + n) p = nmul m p + nmul n p"
  by (induction m) (simp_all add: add.assoc)

lemma nmul_distrib: "nmul n (p + q) = nmul n p + nmul n q"
  by (induction n) (simp_all add: algebra_simps)

lemma zmul_difference: "zmul (int m - int n) p = nmul m p - nmul n p"
proof (cases "n \<le> m")
  case True
  then have "nmul m p = nmul (m - n) p + nmul n p" by (simp flip: nmul_add)
  then show ?thesis using True by (simp add: zmul_def flip: of_nat_diff)
next
  case False
  then have "nmul n p = nmul (n - m) p + nmul m p" by (simp flip: nmul_add)
  moreover have "nat (int m - int n) = 0" "nat (- (int m - int n)) = n - m" using False by simp_all
  ultimately show ?thesis by (simp add: zmul_def)
qed

lemma zmul_0 [simp]: "zmul 0 p = 0"
  by (simp add: zmul_def)

lemma zmul_zero [simp]: "zmul z 0 = 0"
proof -
  have "nmul n 0 = (0 :: 'a)" for n by (induction n) simp_all
  then show ?thesis by (simp add: zmul_def)
qed

lemma zmul_1 [simp]: "zmul 1 p = p"
  by (simp add: zmul_def)

lemma zmul_add: "zmul (a + b) p = zmul a p + zmul b p"
proof -
  obtain m n where a: "a = int m - int n" by (rule int_diff_cases)
  obtain k l where b: "b = int k - int l" by (rule int_diff_cases)
  have "a + b = int (m + k) - int (n + l)" by (simp add: a b)
  then have "zmul (a + b) p = nmul (m + k) p - nmul (n + l) p" by (simp only: zmul_difference)
  then show ?thesis by (simp add: a b zmul_difference nmul_add)
qed

lemma zmul_minus: "zmul (- a) p = - zmul a p"
  by (simp add: zmul_def)

lemma zmul_distrib: "zmul a (p + q) = zmul a p + zmul a q"
  by (simp add: zmul_def nmul_distrib)

lemma zmul_double: "zmul (2 * a) p = zmul a (p + p)"
  unfolding zmul_distrib by (simp only: mult_2 zmul_add)

section \<open>The loop of a multiplication\<close>

text \<open>
  Representations with a doubling that is correct for the group: whatever a pass adds, doubling before every pass
  weighs the additions by powers of two.
\<close>

locale doubling =
  fixes stands :: "'r \<Rightarrow> 'g :: ab_group_add \<Rightarrow> bool" and dbl :: "'r \<Rightarrow> 'r"
  assumes dbl_stands: "stands P p \<Longrightarrow> stands (dbl P) (p + p)"
begin

lemma fold_adds:
  assumes "\<And>x P p. x \<in> set xs \<Longrightarrow> stands P p \<Longrightarrow> stands (f x P) (p + c x)" "stands P p"
  shows "stands (fold f xs P) (p + sum_list (map c xs))"
  using assms
proof (induction xs arbitrary: P p)
  case (Cons x xs)
  then have "stands (fold f xs (f x P)) (p + c x + sum_list (map c xs))" by simp
  then show ?case by (simp add: add.assoc)
qed simp

lemma fold_doublings:
  assumes "\<And>i P p. i < n \<Longrightarrow> stands P p \<Longrightarrow> stands (step i P) (p + c i)" "stands P p"
  shows "stands (fold (\<lambda>i P. step i (dbl P)) (rev [0..<n]) P) (zmul (2 ^ n) p + (\<Sum>i<n. zmul (2 ^ i) (c i)))"
  using assms
proof (induction n arbitrary: P p)
  case (Suc n)
  have s: "stands (step n (dbl P)) (p + p + c n)" using Suc.prems dbl_stands by blast
  have "stands (fold (\<lambda>i P. step i (dbl P)) (rev [0..<n]) (step n (dbl P)))
      (zmul (2 ^ n) (p + p + c n) + (\<Sum>i<n. zmul (2 ^ i) (c i)))"
    by (rule Suc.IH [OF _ s]) (use Suc.prems in auto)
  moreover have "zmul (2 ^ n) (p + p + c n) = zmul (2 ^ Suc n) p + zmul (2 ^ n) (c n)"
    by (simp add: zmul_distrib zmul_double)
  ultimately show ?case by (simp add: algebra_simps)
qed simp

end

section \<open>Coordinates stand for points\<close>

definition stands :: "point_extproj \<Rightarrow> fourq \<Rightarrow> bool" where
  "stands P p \<longleftrightarrow> extproj_ok P \<and> represents P (px p) (py p) \<and> fp2v (pe_z P) \<noteq> 0"

definition stands_precomp :: "point_extproj_precomp \<Rightarrow> fourq \<Rightarrow> bool" where
  "stands_precomp R p \<longleftrightarrow> (\<exists>w. w \<noteq> 0 \<and> precomputes_proj R w (px p) (py p))"

lemma edwards_sum_stands:
  assumes "edwards_sum R w (px p) (py p) (px q) (py q)" "w \<noteq> 0" "extproj_ok R"
  shows "stands R (p + q)"
proof -
  define D where "D = edw_D (px p) (py p) (px q) (py q)"
  define X where "X = px p * py q + py p * px q"
  define Y where "Y = py p * py q + px p * px q"
  note nz = denominators [OF on_curve_point on_curve_point, of p q, folded D_def]
  have "curve_d * px p * px q * py p * py q = D" by (simp add: D_def edw_D_def)
  then have s: "fp2v (pe_x R) = w * (1 - D) * X" "fp2v (pe_y R) = w * (1 + D) * Y" "fp2v (pe_z R) = w * (1 - D) * (1 + D)"
      "fp2v (pe_ta R) * fp2v (pe_tb R) = w * X * Y"
    using assms(1) by (simp_all add: edwards_sum_def X_def Y_def)
  have "px (p + q) = X / (1 + D)" "py (p + q) = Y / (1 - D)"
    using fourq_plus_coordinates [of p q] by (simp_all add: edw_add_def D_def X_def Y_def)
  then have "X = px (p + q) * (1 + D)" "Y = py (p + q) * (1 - D)" using nz by (simp_all only: times_divide_eq_left nonzero_mult_div_cancel_right simp_thms)
  then have "represents R (px (p + q)) (py (p + q))" unfolding represents_def s by (simp add: mult_ac)
  then show ?thesis using assms(2,3) nz by (simp add: stands_def s)
qed

lemma four_gfp2: "(4 :: gfp2) \<noteq> 0"
proof -
  have "(4 :: gfp2) = 2 * 2" by simp
  then show ?thesis using two_gfp2 by (simp only: mult_eq_0_iff simp_thms)
qed

lemma eccadd_stands:
  assumes "stands P p" "stands_precomp R q"
  shows "stands (eccadd R P) (p + q)"
proof -
  obtain w where w: "w \<noteq> 0" "precomputes_proj R w (px q) (py q)" using assms(2) by (auto simp: stands_precomp_def)
  have P: "extproj_ok P" "represents P (px p) (py p)" "fp2v (pe_z P) \<noteq> 0" using assms(1) by (simp_all add: stands_def)
  have "extproj_ok (eccadd R P)" using P w by (simp add: extproj_ok_eccadd precomputes_proj_def)
  then show ?thesis using edwards_sum_stands [OF eccadd_precomputes [OF P(1,2) w(2)]] P w(1) four_gfp2 by simp
qed

lemma eccdouble_stands:
  assumes "stands P p"
  shows "stands (eccdouble P) (p + p)"
proof -
  have P: "extproj_ok P" "represents P (px p) (py p)" "fp2v (pe_z P) ^ 4 \<noteq> 0" using assms by (simp_all add: stands_def)
  show ?thesis by (rule edwards_sum_stands [OF eccdouble_edwards [OF P(1,2) on_curve_point] P(3) eccdouble_facts(1) [OF P(1)]])
qed

lemma eccmadd_stands:
  assumes "stands P p" "precomputes Q (px q) (py q)"
  shows "stands (eccmadd Q P) (p + q)"
proof -
  have P: "extproj_ok P" "represents P (px p) (py p)" "4 * fp2v (pe_z P) ^ 2 \<noteq> 0" using assms(1) four_gfp2 by (simp_all add: stands_def)
  show ?thesis by (rule edwards_sum_stands [OF eccmadd_edwards [OF P(1,2) assms(2)] P(3) eccmadd_facts(1) [OF P(1) assms(2)]])
qed

lemma R1_to_R2_stands: "stands P p \<Longrightarrow> stands_precomp (R1_to_R2 P) p"
  using R1_to_R2_precomputes by (auto simp: stands_def stands_precomp_def)

lemma eccneg_stands: "stands_precomp R p \<Longrightarrow> stands_precomp (eccneg_extproj_precomp R) (- p)"
  using eccneg_precomputes_proj by (fastforce simp: stands_precomp_def fourq_uminus_coordinates)

interpretation curve: doubling stands eccdouble
  by unfold_locales (rule eccdouble_stands)

lemma zmul_numeral: "zmul (1 + 2 * int n) p = p + nmul n (p + p)"
proof -
  have "nmul (n + n) p = nmul n (p + p)" by (simp only: nmul_add nmul_distrib)
  moreover have "1 + 2 * int n = int (Suc (n + n)) - int 0" by simp
  ultimately show ?thesis by (simp only: zmul_difference nmul.simps diff_zero)
qed

text \<open>The table of a point: its multiples by 1, 3, 5 and 7.\<close>

lemma ecc_precomp_double_stands:
  assumes "stands P p" "i < 4"
  shows "stands_precomp (ecc_precomp_double P ! i) (zmul (1 + 2 * int i) p)"
proof -
  define T where "T = rec_nat (R1_to_R2 P) (\<lambda>_ R. R1_to_R2 (eccadd R (eccdouble P)))"
  have "stands_precomp (T n) (p + nmul n (p + p))" for n
  proof (induction n)
    case 0
    then show ?case using R1_to_R2_stands [OF assms(1)] by (simp add: T_def)
  next
    case (Suc n)
    then show ?case using R1_to_R2_stands [OF eccadd_stands [OF eccdouble_stands [OF assms(1)] Suc.IH]]
      by (simp add: T_def add_ac)
  qed
  moreover have "ecc_precomp_double P = [T 0, T 1, T 2, T 3]"
    by (simp add: ecc_precomp_double_def Let_def T_def eccadd_def numeral_2_eq_2 numeral_3_eq_3)
  then have "ecc_precomp_double P ! i = T i" using assms(2) by (auto simp: less_Suc_eq numeral_eq_Suc)
  ultimately show ?thesis unfolding zmul_numeral by simp
qed

lemma odd_digit:
  assumes "odd d" "\<bar>d\<bar> < 2 * int n"
  shows "\<bar>d\<bar> = 1 + 2 * int (nat (\<bar>d\<bar> div 2))" "nat (\<bar>d\<bar> div 2) < n"
proof -
  define a where "a = \<bar>d\<bar>"
  have "odd a" "0 \<le> a" "a < 2 * int n" using assms by (simp_all add: a_def)
  then have "a = 1 + 2 * (a div 2)" "0 \<le> a div 2" "a div 2 < int n" by presburger+
  then show "\<bar>d\<bar> = 1 + 2 * int (nat (\<bar>d\<bar> div 2))" "nat (\<bar>d\<bar> div 2) < n" by (simp_all add: a_def [symmetric])
qed

lemma addDigit_stands:
  assumes "stands T t" "stands Q q" "sint d = 0 \<or> odd (sint d) \<and> \<bar>sint d\<bar> < 8"
  shows "stands (addDigit (ecc_precomp_double Q) d T) (t + zmul (sint d) q)"
proof (cases "sint d = 0")
  case False
  then have "odd (sint d)" "\<bar>sint d\<bar> < 2 * int 4" using assms(3) by auto
  note o = odd_digit [OF this]
  let ?R = "ecc_precomp_double Q ! nat (\<bar>sint d\<bar> div 2)"
  have R: "stands_precomp ?R (zmul \<bar>sint d\<bar> q)" using ecc_precomp_double_stands [OF assms(2) o(2)] unfolding o(1) [symmetric] .
  show ?thesis
  proof (cases "sint d < 0")
    case True
    have "stands_precomp (eccneg_extproj_precomp ?R) (zmul (sint d) q)"
      using eccneg_stands [OF R] True by (simp add: zmul_minus [symmetric])
    from eccadd_stands [OF assms(1) this] show ?thesis using True by (simp add: addDigit_def)
  next
    case neg: False
    then show ?thesis using eccadd_stands [OF assms(1) R] False by (simp add: addDigit_def)
  qed
qed (simp add: addDigit_def assms(1))

lemma maddDigit_stands:
  assumes "stands T t" "\<And>j. j < 64 \<Longrightarrow> precomputes (doublePoint (base + j)) (px (zmul (1 + 2 * int j) g)) (py (zmul (1 + 2 * int j) g))"
    "sint d = 0 \<or> odd (sint d) \<and> \<bar>sint d\<bar> < 128"
  shows "stands (maddDigit base d T) (t + zmul (sint d) g)"
proof (cases "sint d = 0")
  case False
  then have "odd (sint d)" "\<bar>sint d\<bar> < 2 * int 64" using assms(3) by auto
  note o = odd_digit [OF this]
  let ?Q = "doublePoint (base + nat (\<bar>sint d\<bar> div 2))" and ?m = "zmul \<bar>sint d\<bar> g"
  have Q: "precomputes ?Q (px ?m) (py ?m)" using assms(2) [OF o(2)] unfolding o(1) [symmetric] .
  show ?thesis
  proof (cases "sint d < 0")
    case True
    have "precomputes (eccneg_precomp ?Q) (px (zmul (sint d) g)) (py (zmul (sint d) g))"
      using eccneg_precomp_precomputes [OF Q] True by (simp add: zmul_minus fourq_uminus_coordinates)
    from eccmadd_stands [OF assms(1) this] show ?thesis using True by (simp add: maddDigit_def)
  next
    case neg: False
    then show ?thesis using eccmadd_stands [OF assms(1) Q] False by (simp add: maddDigit_def)
  qed
qed (simp add: maddDigit_def assms(1))

section \<open>The interleaved loop\<close>

lemma naf_sum: "naf ds = (\<Sum>i<length ds. sint (ds ! i) * 2 ^ i)"
  by (induction ds) (simp_all add: sum.lessThan_Suc_shift sum_distrib_left mult.left_commute del: sum.lessThan_Suc)

lemma zmul_sum: "zmul (\<Sum>i<(n :: nat). f i) p = (\<Sum>i<n. zmul (f i) p)"
  by (induction n) (simp_all add: zmul_add)

lemma zmul_mult_pow2: "zmul (a * 2 ^ i) p = zmul (2 ^ i) (zmul a p)"
proof (induction i arbitrary: a p)
  case (Suc i)
  have "zmul (a * 2 ^ Suc i) p = zmul (2 * a * 2 ^ i) p" by (simp add: mult_ac)
  also have "\<dots> = zmul (2 ^ i) (zmul (2 * a) p)" by (rule Suc.IH)
  also have "\<dots> = zmul (2 ^ i) (zmul a p + zmul a p)" by (simp only: zmul_double zmul_distrib)
  also have "\<dots> = zmul (2 ^ Suc i) (zmul a p)" by (simp only: zmul_double power_Suc)
  finally show ?case .
qed simp

lemma zmul_naf: "length ds = n \<Longrightarrow> zmul (naf ds) p = (\<Sum>i<n. zmul (2 ^ i) (zmul (sint (ds ! i)) p))"
  by (simp only: naf_sum zmul_sum zmul_mult_pow2)

lemma zmul_sum_list: "zmul z (sum_list (map f xs)) = (\<Sum>x\<leftarrow>xs. zmul z (f x))"
  by (induction xs) (simp_all add: zmul_distrib)

lemma sum_sum_list: "(\<Sum>i<(n :: nat). \<Sum>x\<leftarrow>xs. f x i) = (\<Sum>x\<leftarrow>xs. \<Sum>i<n. f x i :: 'a :: comm_monoid_add)"
  by (induction xs) (simp_all add: sum.distrib)

text \<open>A block of the table for the generator holds the odd multiples of a point up to 127.\<close>

definition table_of :: "nat \<Rightarrow> fourq \<Rightarrow> bool" where
  "table_of base g \<longleftrightarrow> (\<forall>j<64. precomputes (doublePoint (base + j)) (px (zmul (1 + 2 * int j) g)) (py (zmul (1 + 2 * int j) g)))"

definition lPart :: "(point_extproj \<times> fourq \<times> 8 word list) list \<Rightarrow> bool" where
  "lPart = list_all (\<lambda>(Q, q, ds). stands Q q \<and> length ds = 65 \<and> naf_ok 4 ds)"

definition kPart :: "(nat \<times> fourq \<times> 8 word list) list \<Rightarrow> bool" where
  "kPart = list_all (\<lambda>(base, g, ds). table_of base g \<and> length ds = 65 \<and> naf_ok 8 ds)"

definition doubleDigits :: "(point_extproj \<times> fourq \<times> 8 word list) list \<Rightarrow> (nat \<times> fourq \<times> 8 word list) list \<Rightarrow> DoubleDigits" where
  "doubleDigits ls ks = \<lparr>dd_l = map (\<lambda>(Q, q, ds). (ecc_precomp_double Q, ds)) ls, dd_k = map (\<lambda>(base, g, ds). (base, ds)) ks\<rparr>"

lemma naf_ok_nth: "naf_ok w ds \<Longrightarrow> i < length ds \<Longrightarrow> sint (ds ! i) = 0 \<or> odd (sint (ds ! i)) \<and> \<bar>sint (ds ! i)\<bar> < 2 ^ (w - 1)"
  by (simp add: naf_ok_def list_all_length)

lemma adds_stands:
  assumes "lPart ls" "kPart ks" "i < 65" "stands T t"
  shows "stands (fold (\<lambda>(base, digits). maddDigit base (digits ! i)) (dd_k (doubleDigits ls ks))
      (fold (\<lambda>(table, digits). addDigit table (digits ! i)) (dd_l (doubleDigits ls ks)) T))
    (t + ((\<Sum>(Q, q, ds)\<leftarrow>ls. zmul (sint (ds ! i)) q) + (\<Sum>(base, g, ds)\<leftarrow>ks. zmul (sint (ds ! i)) g)))"
proof -
  let ?add = "\<lambda>(Q, q, ds). addDigit (ecc_precomp_double Q) (ds ! i)"
  let ?madd = "\<lambda>(base, g, ds). maddDigit base (ds ! i)"
  have l: "stands (fold ?add ls T) (t + (\<Sum>(Q, q, ds)\<leftarrow>ls. zmul (sint (ds ! i)) q))"
  proof (rule curve.fold_adds [OF _ assms(4)])
    fix x P p
    assume "x \<in> set ls" "stands P p"
    moreover obtain Q q ds where x: "x = (Q, q, ds)" by (rule prod_cases3)
    ultimately have "stands Q q" "sint (ds ! i) = 0 \<or> odd (sint (ds ! i)) \<and> \<bar>sint (ds ! i)\<bar> < 8"
      using assms(1,3) naf_ok_nth [of 4 ds i] by (auto simp: lPart_def list_all_iff)
    then show "stands (?add x P) (p + (case x of (Q, q, ds) \<Rightarrow> zmul (sint (ds ! i)) q))"
      using addDigit_stands [OF \<open>stands P p\<close>] by (simp add: x)
  qed
  have "stands (fold ?madd ks (fold ?add ls T))
      (t + (\<Sum>(Q, q, ds)\<leftarrow>ls. zmul (sint (ds ! i)) q) + (\<Sum>(base, g, ds)\<leftarrow>ks. zmul (sint (ds ! i)) g))"
  proof (rule curve.fold_adds [OF _ l])
    fix x P p
    assume "x \<in> set ks" "stands P p"
    moreover obtain base g ds where x: "x = (base, g, ds)" by (rule prod_cases3)
    ultimately have "table_of base g" "sint (ds ! i) = 0 \<or> odd (sint (ds ! i)) \<and> \<bar>sint (ds ! i)\<bar> < 128"
      using assms(2,3) naf_ok_nth [of 8 ds i] by (auto simp: kPart_def list_all_iff)
    then show "stands (?madd x P) (p + (case x of (base, g, ds) \<Rightarrow> zmul (sint (ds ! i)) g))"
      using maddDigit_stands [OF \<open>stands P p\<close>] by (simp add: x table_of_def)
  qed
  then show ?thesis by (simp add: doubleDigits_def fold_map comp_def case_prod_unfold add.assoc)
qed

lemma doubleStart_stands: "stands doubleStart 0"
  by (simp add: stands_def doubleStart_def extproj_ok_def represents_def d_ok fp2v_one fourq_zero_coordinates)
     (simp add: fp2v_def f2elm_ok_def felm_ok_def fpv_def zero_gfp2_def)

lemma doubleLoop_stands:
  assumes "lPart ls" "kPart ks"
  shows "stands (doubleLoop (doubleDigits ls ks)) ((\<Sum>(Q, q, ds)\<leftarrow>ls. zmul (naf ds) q) + (\<Sum>(base, g, ds)\<leftarrow>ks. zmul (naf ds) g))"
proof -
  let ?c = "\<lambda>i. (\<Sum>(Q, q, ds)\<leftarrow>ls. zmul (sint (ds ! i)) q) + (\<Sum>(base, g, ds)\<leftarrow>ks. zmul (sint (ds ! i)) g)"
  have "stands (doubleLoop (doubleDigits ls ks)) (zmul (2 ^ 65) 0 + (\<Sum>i<65. zmul (2 ^ i) (?c i)))"
    unfolding doubleLoop_def doubleStep_def by (rule curve.fold_doublings [OF adds_stands [OF assms] doubleStart_stands])
  moreover have "(\<Sum>i<65. zmul (2 ^ i) (\<Sum>(Q, q, ds)\<leftarrow>ls. zmul (sint (ds ! i)) q)) = (\<Sum>(Q, q, ds)\<leftarrow>ls. zmul (naf ds) q)"
    unfolding zmul_sum_list sum_sum_list using assms(1)
    by (intro arg_cong [where f = sum_list] map_cong refl) (auto simp: zmul_naf lPart_def list_all_iff)
  moreover have "(\<Sum>i<65. zmul (2 ^ i) (\<Sum>(base, g, ds)\<leftarrow>ks. zmul (sint (ds ! i)) g)) = (\<Sum>(base, g, ds)\<leftarrow>ks. zmul (naf ds) g)"
    unfolding zmul_sum_list sum_sum_list using assms(2)
    by (intro arg_cong [where f = sum_list] map_cong refl) (auto simp: zmul_naf kPart_def list_all_iff)
  ultimately show ?thesis by (simp add: zmul_distrib sum.distrib)
qed

section \<open>Normalisation\<close>

lemma norm_gnorm: "norm z = gnorm (fp2v z)"
  by (simp add: gnorm_def fp2v_def)

lemma eccnorm_stands:
  assumes "stands P p"
  shows "fp2v (pa_x (eccnorm P)) = px p" "fp2v (pa_y (eccnorm P)) = py p"
    "f2elm_reduced (pa_x (eccnorm P))" "f2elm_reduced (pa_y (eccnorm P))"
proof -
  have P: "extproj_ok P" "represents P (px p) (py p)" "fp2v (pe_z P) \<noteq> 0" using assms by (simp_all add: stands_def)
  have "norm (pe_z P) \<noteq> 0" unfolding norm_gnorm gnorm_eq_0 by (rule P(3))
  then have n: "norm (pe_z P) ^ (2 ^ 127 - 2) = 1" by (rule gfp_fermat)
  note e = eccnorm_facts [OF P(1), unfolded n one_gfp2_def [symmetric] mult_1_right]
  have "fp2v (pa_x (eccnorm P)) * fp2v (pe_z P) = px p * fp2v (pe_z P)" "fp2v (pa_y (eccnorm P)) * fp2v (pe_z P) = py p * fp2v (pe_z P)"
    using e(1,2) P(2) by (simp_all add: represents_def)
  then show "fp2v (pa_x (eccnorm P)) = px p" "fp2v (pa_y (eccnorm P)) = py p" using P(3) by simp_all
  show "f2elm_reduced (pa_x (eccnorm P))" "f2elm_reduced (pa_y (eccnorm P))" using e(3) by blast+
qed

lemma point_setup_stands:
  assumes "f2elm_ok (pa_x A)" "f2elm_ok (pa_y A)" "on_curve (fp2v (pa_x A)) (fp2v (pa_y A))"
  shows "stands (point_setup A) (point (fp2v (pa_x A)) (fp2v (pa_y A)))"
  using assms by (simp add: stands_def point_setup_def extproj_ok_def represents_def d_ok fp2v_one)

lemma neutral_stands: "stands (point_setup neutral) 0"
  using neutral_facts by (simp add: stands_def fourq_zero_coordinates)

section \<open>Properties\<close>

text \<open>
  C7: the formulas on extended coordinates implement the group of the curve.  For coordinates that stand for the points p and q,
  eccadd gives coordinates of p + q, with the negated precomputed point of p - q, eccdouble of 2p, the denominator
  never vanishes, and eccnorm gives the affine coordinates of p, fully reduced.\<close>

theorem coordinates_refine_group:
  assumes "stands P p" "stands Q q"
  shows "stands (eccadd (R1_to_R2 Q) P) (p + q) \<and> stands (eccadd (eccneg_extproj_precomp (R1_to_R2 Q)) P) (p - q) \<and>
    stands (eccdouble P) (p + p) \<and> fp2v (pa_x (eccnorm P)) = px p \<and> fp2v (pa_y (eccnorm P)) = py p \<and>
    f2elm_reduced (pa_x (eccnorm P)) \<and> f2elm_reduced (pa_y (eccnorm P))"
  using eccadd_stands [OF assms(1) R1_to_R2_stands [OF assms(2)]] eccadd_stands [OF assms(1) eccneg_stands [OF R1_to_R2_stands [OF assms(2)]]]
    eccdouble_stands [OF assms(1)] eccnorm_stands [OF assms(1)] by simp

theorem coordinates_refine_group_witness:
  "stands (eccadd (R1_to_R2 (point_setup neutral)) (point_setup neutral)) (0 + 0) \<and> fp2v (pa_y (eccnorm (point_setup neutral))) = py 0"
  using coordinates_refine_group [OF neutral_stands neutral_stands] by simp



end
