(* ===== verification/Octal_Points.thy ===== *)
theory Octal_Points
  imports Octal
begin

text \<open>
  Checks of equations between points of the curve, for evaluation by the simplifier: elements of the quadratic extension are pairs
  of octal numbers, and the addition law is checked without divisions.  Intermediate results are arguments
  of auxiliary functions, so that each is evaluated once.
\<close>

type_synonym pel = "oct list \<times> oct list"

definition padd :: "pel \<Rightarrow> pel \<Rightarrow> pel" where
  "padd = (\<lambda>(a, b) (c, d). (fadd a c, fadd b d))"

definition psub :: "pel \<Rightarrow> pel \<Rightarrow> pel" where
  "psub = (\<lambda>(a, b) (c, d). (fsub a c, fsub b d))"

definition pmul3 :: "oct list \<Rightarrow> oct list \<Rightarrow> oct list \<Rightarrow> pel" where
  "pmul3 m n k = (fsub m n, fsub k (fadd m n))"

definition pmul :: "pel \<Rightarrow> pel \<Rightarrow> pel" where
  "pmul = (\<lambda>(a, b) (c, d). pmul3 (fmul a c) (fmul b d) (fmul (fadd a b) (fadd c d)))"

definition fdbl :: "oct list \<Rightarrow> oct list" where
  "fdbl x = fadd x x"

definition psqr :: "pel \<Rightarrow> pel" where
  "psqr = (\<lambda>(a, b). (fmul (fadd a b) (fsub a b), fdbl (fmul a b)))"

definition pdbl :: "pel \<Rightarrow> pel" where
  "pdbl x = padd x x"

definition peq :: "pel \<Rightarrow> pel \<Rightarrow> bool" where
  "peq = (\<lambda>(a, b) (c, d). feq a c \<and> feq b d)"

definition ptwo :: pel where
  "ptwo = (fnum 2, ozero)"

text \<open>Coordinates as four numbers.\<close>

type_synonym coords = "nat \<times> nat \<times> nat \<times> nat"

definition pX :: "coords \<Rightarrow> pel" where
  "pX = (\<lambda>(a, b, c, d). (fnum a, fnum b))"

definition pY :: "coords \<Rightarrow> pel" where
  "pY = (\<lambda>(a, b, c, d). (fnum c, fnum d))"

section \<open>Doubling\<close>

text \<open>x' (y^2 - x^2) = (x + y)^2 - (x^2 + y^2) and y' (2 - (y^2 - x^2)) = x^2 + y^2.\<close>

definition dbl3 :: "pel \<Rightarrow> pel \<Rightarrow> pel \<Rightarrow> pel \<Rightarrow> pel \<Rightarrow> bool" where
  "dbl3 x' y' d e u \<longleftrightarrow> peq (pmul x' d) (psub u e) \<and> peq (pmul y' (psub ptwo d)) e"

definition dbl2 :: "pel \<Rightarrow> pel \<Rightarrow> pel \<Rightarrow> pel \<Rightarrow> pel \<Rightarrow> bool" where
  "dbl2 x' y' s t u = dbl3 x' y' (psub t s) (padd s t) u"

definition dbl1 :: "pel \<Rightarrow> pel \<Rightarrow> pel \<Rightarrow> pel \<Rightarrow> bool" where
  "dbl1 x y x' y' = dbl2 x' y' (psqr x) (psqr y) (psqr (padd x y))"

fun chain :: "coords list \<Rightarrow> bool" where
  "chain (p # q # ps) \<longleftrightarrow> dbl1 (pX p) (pY p) (pX q) (pY q) \<and> chain (q # ps)"
| "chain [p] \<longleftrightarrow> True"
| "chain [] \<longleftrightarrow> True"

section \<open>The curve equation\<close>

definition pd :: pel where
  "pd = (fnum 0xE40000000000000142, fnum 0x5E472F846657E0FCB3821488F1FC0C8D)"

definition curve2 :: "pel \<Rightarrow> pel \<Rightarrow> bool" where
  "curve2 s t = peq (psub t s) (padd (fnum 1, ozero) (pmul pd (pmul s t)))"

definition curveCheck :: "coords \<Rightarrow> bool" where
  "curveCheck p = curve2 (psqr (pX p)) (psqr (pY p))"

section \<open>Addition to a precomputed point\<close>

text \<open>
  (a, b, t) is a precomputed point (x + y, y - x, 2dxy) and (x, y) another point.  With A = a (x + y), B = b (y - x) and
  E = t x y, the sum (x', y') satisfies 2x' (2 + E) = 2 (A - B) and 2y' (2 - E) = 2 (A + B).
\<close>

definition add2 :: "pel \<Rightarrow> pel \<Rightarrow> pel \<Rightarrow> pel \<Rightarrow> pel \<Rightarrow> bool" where
  "add2 X Y A B E \<longleftrightarrow> peq (pmul X (padd ptwo E)) (pdbl (psub A B)) \<and> peq (pmul Y (psub ptwo E)) (pdbl (padd A B))"

definition add1 :: "pel \<Rightarrow> pel \<Rightarrow> pel \<Rightarrow> pel \<Rightarrow> pel \<Rightarrow> pel \<Rightarrow> pel \<Rightarrow> bool" where
  "add1 a b t x y X Y = add2 X Y (pmul a (padd x y)) (pmul b (psub y x)) (pmul t (pmul x y))"

text \<open>An entry of the table as six numbers.\<close>

type_synonym entry = "coords \<times> nat \<times> nat"

definition pA :: "entry \<Rightarrow> pel" where
  "pA = (\<lambda>((a, b, c, d), e, f). (fnum a, fnum b))"

definition pB :: "entry \<Rightarrow> pel" where
  "pB = (\<lambda>((a, b, c, d), e, f). (fnum c, fnum d))"

definition pT :: "entry \<Rightarrow> pel" where
  "pT = (\<lambda>((a, b, c, d), e, f). (fnum e, fnum f))"

text \<open>The third component: 2t = d (a - b) (a + b).\<close>

definition entryT :: "pel \<Rightarrow> pel \<Rightarrow> pel \<Rightarrow> bool" where
  "entryT X Y t = peq (pdbl t) (pmul pd (pmul X Y))"

definition entryAdd2 :: "entry \<Rightarrow> coords \<Rightarrow> pel \<Rightarrow> pel \<Rightarrow> pel \<Rightarrow> bool" where
  "entryAdd2 e p X Y t \<longleftrightarrow> add1 (pA e) (pB e) (pT e) (pX p) (pY p) X Y \<and> entryT X Y t"

definition entryAdd :: "coords \<Rightarrow> entry \<Rightarrow> entry \<Rightarrow> bool" where
  "entryAdd p e e' = entryAdd2 e p (psub (pA e') (pB e')) (padd (pA e') (pB e')) (pT e')"

text \<open>A block of the table as a binary tree: the right half is the left half plus a point.\<close>

datatype block = Entry entry | Halves block block

fun blockAdd :: "coords \<Rightarrow> block \<Rightarrow> block \<Rightarrow> bool" where
  "blockAdd p (Entry e) (Entry e') \<longleftrightarrow> entryAdd p e e'"
| "blockAdd p (Halves l r) (Halves l' r') \<longleftrightarrow> blockAdd p l l' \<and> blockAdd p r r'"
| "blockAdd p _ _ \<longleftrightarrow> False"

fun blockCheck :: "coords list \<Rightarrow> block \<Rightarrow> bool" where
  "blockCheck (p # ps) (Halves l r) \<longleftrightarrow> blockAdd p l r \<and> blockCheck ps l"
| "blockCheck [] (Entry e) \<longleftrightarrow> True"
| "blockCheck _ _ \<longleftrightarrow> False"

text \<open>The first entry of a block is a given point.\<close>

definition entryBase :: "coords \<Rightarrow> entry \<Rightarrow> bool" where
  "entryBase p e \<longleftrightarrow> peq (pA e) (padd (pX p) (pY p)) \<and> peq (pB e) (psub (pY p) (pX p)) \<and>
     entryT (psub (pA e) (pB e)) (padd (pA e) (pB e)) (pT e)"

section \<open>Sums of entries\<close>

text \<open>A point plus an entry, or minus it.\<close>

definition sumStep :: "bool \<Rightarrow> entry \<Rightarrow> coords \<Rightarrow> coords \<Rightarrow> bool" where
  "sumStep neg e p q =
     (if neg then add1 (pB e) (pA e) (psub (ozero, ozero) (pT e)) (pX p) (pY p) (pdbl (pX q)) (pdbl (pY q))
      else add1 (pA e) (pB e) (pT e) (pX p) (pY p) (pdbl (pX q)) (pdbl (pY q)))"

lemma sumStep_cases:
  "sumStep True e p q = add1 (pB e) (pA e) (psub (ozero, ozero) (pT e)) (pX p) (pY p) (pdbl (pX q)) (pdbl (pY q))"
  "sumStep False e p q = add1 (pA e) (pB e) (pT e) (pX p) (pY p) (pdbl (pX q)) (pdbl (pY q))"
  by (simp_all add: sumStep_def)

fun sumCheck :: "coords \<Rightarrow> (bool \<times> entry \<times> coords) list \<Rightarrow> bool" where
  "sumCheck p [] \<longleftrightarrow> True"
| "sumCheck p ((neg, e, q) # ss) \<longleftrightarrow> sumStep neg e p q \<and> sumCheck q ss"

lemmas point_rules = padd_def psub_def pmul_def pmul3_def fdbl_def psqr_def pdbl_def peq_def ptwo_def pX_def pY_def pA_def pB_def pT_def
  dbl1_def dbl2_def dbl3_def chain.simps add1_def add2_def entryT_def entryAdd_def entryAdd2_def entryBase_def
  blockAdd.simps(1,2) blockCheck.simps(1,2) sumStep_cases sumCheck.simps pd_def curve2_def curveCheck_def if_True if_False prod.case simp_thms field_rules

end
