(* ===== verification/FourQ_Powers.thy ===== *)
theory FourQ_Powers
  imports Octal_Points
begin

text \<open>
  The doublings of the generator: the points 2^(10k) G for k up to 24, and the checks that each comes from the one before by ten
  doublings, whose results are listed.  All checks are evaluated by the simplifier.
\<close>

definition pow_0 :: coords where
  "pow_0 = (0x1A3472237C2FB305286592AD7B3833AA, 0x1E1F553F2878AA9C96869FB360AC77F6, 0xE3FEE9BA120785AB924A2462BCBB287, 0x6E1C4AF8630E024249A7C344844C8B5C)"

definition pow_10 :: coords where
  "pow_10 = (0x619F5D1FD93BC4F5FA4FAD9EC7732700, 0x72EC1D429F026578814B78DADF6A9024, 0x799208A76EAD2BA37FF28C92C8CEF9DE, 0x51698145D42F3E29B1AE60FFFCB520A)"

definition pow_20 :: coords where
  "pow_20 = (0x17200EC897EE84306DC1CB9E20F3FCEE, 0x37D202EE0982CBC6E312B742D40AD428, 0xEB43FE03B26BFADC995093658CECF4F, 0x744E441533A527B8F519D4AC52B0581A)"

definition pow_30 :: coords where
  "pow_30 = (0x20C622E82A9F25442E532FA4F7256623, 0x5341BC39DD62F6F937743511D84F3A9A, 0x6CE13C753A393F682E32C8E7D44EDDD6, 0x483824D1CFD03FC9F1EBBF369961C0E9)"

definition pow_40 :: coords where
  "pow_40 = (0xB2AFCE09385E6ECC15C827A1C1397BC, 0x7B477A4E106F693106930FE52A7FC0F1, 0x7244443687FC5AA842AE77A630CA66C, 0x37C1DAB0C480A6C73526270F82EDBC75)"

definition pow_50 :: coords where
  "pow_50 = (0x2BE5F69F6AB1D4CB2701A7C1B4360E8, 0x499645A4B46FEC6C8EAC8980E9DBF621, 0xD6033792783697523A9622088914986, 0x70954079F5A9751694EF3C2A3EA4DECD)"

definition pow_60 :: coords where
  "pow_60 = (0x2A795D603BE22D687D4D734FBBE3628C, 0x1218C88D61FDD55A2F321D821126DD16, 0x7D6191245DD7B5387BD613395E025879, 0x6AEB248CBF5AF1B9DDBFF9581B58CA34)"

definition pow_70 :: coords where
  "pow_70 = (0x649FDC436BEB78EC9A3F92F42A1C5686, 0x5DA73B46A7A99EE1AB78F29E4A69C59F, 0x35FD493A5C821D55420D88D284D4CE99, 0x41FF1C281FE916B75DDF575A6A9424FF)"

definition pow_80 :: coords where
  "pow_80 = (0x53C6C5C8BC464C2F40C94E9C4B8B145B, 0x6D31EE9182AA7C3FF76EF17ED2F67B75, 0x226E365559DAB91A3FBE683B739EEB00, 0x28663B70A308E69340A5A866E77A6ED)"

definition pow_90 :: coords where
  "pow_90 = (0x2A1A70577CC10DE553B58049E8C08D88, 0x1F1377937859D298E78B7FA98FABAF00, 0x7FBE83674643A3A4438690177F561D0, 0x66065FC1C64AE1DC1856A6866A28863B)"

definition pow_100 :: coords where
  "pow_100 = (0x2E14D0B61B966D312636534891D1FB53, 0x1178A2BF3BE5E706DDF3130ACEF45105, 0x172BA53FFC1217EBA5FFE04C3F6C3804, 0x4CEEFAA71E88BBA3BEB39C590DDBEF51)"

definition pow_110 :: coords where
  "pow_110 = (0x1F0B8B5C53C8A4A92D07F72EC3CE62B0, 0x4D00CE6EAF044E4C877A5439170C2449, 0x7BB0349C409C05EFF63B84B1F4B3C5FB, 0x338B3EE5A73682AC1F80D6BE493A3AAC)"

definition pow_120 :: coords where
  "pow_120 = (0x749EA89852BE656F81E9FCDC8C71DAB1, 0x764B370D6EAB981F8A5CE6197D626DD4, 0x4316C52ED61902BEDADF4808D50B5C97, 0x2075FF42CAE2FEA0BDF564CCC0703D03)"

definition pow_130 :: coords where
  "pow_130 = (0x7A73B24B72BE20EF037CC1EB11628F46, 0x40F3E343D0CCCBD517BC14F670F04B2D, 0x8EBC13998C966567889658878DD20D4, 0x1163090A3B2AA6A2D9EABCC03DC610F)"

definition pow_140 :: coords where
  "pow_140 = (0x5456813D57942EC5333D0330A18D3341, 0x79C8EAAD3C8E5F85B8519DA7949D39E6, 0x649CA86B7663ED5AFBDE5B8765E59EF8, 0x3D2AD54EB93AA6F64EA15DDBBD4442E4)"

definition pow_150 :: coords where
  "pow_150 = (0x228CD77D8007679B23FDB0AFDD2DD650, 0x3E276373F9F1C0AC5A8B8459F5CCB28F, 0x305FD4D203056716D5712A2A87028387, 0x64DA3CA410D607B919FA5CC4CFFBCB5F)"

definition pow_160 :: coords where
  "pow_160 = (0x6475AD2CBF541D9215E31F826F4438B6, 0x2CFCA97694DF2DCDFF57DE05054DC9B8, 0x608DDC2662F93D6BFDA93F7A19BED031, 0x4E3B92A25F76BE59B6604231E274610B)"

definition pow_170 :: coords where
  "pow_170 = (0x5E869F911645EE20C487B89F51092E6D, 0x451A9C9D27F64CC8B2B813685DA51B78, 0x3F84BB76953D9F11AED4E67196E37A4E, 0x38440FAB47E18A0862D98D024AE3C860)"

definition pow_180 :: coords where
  "pow_180 = (0x5016551FB1397AAA9F171DA544BD496A, 0x6B6F87CB72CD2449737D30DED7774C37, 0x79AEE6A4A40DE08EFAFB42661BAD3B63, 0x7BB1F52C15B09F20945D7EE8A59607A3)"

definition pow_190 :: coords where
  "pow_190 = (0x2932EE71D0164232E373EB7404B0B548, 0x7EF8CC978A837B4E546D96B37668EACF, 0x6476C2BF1F39E61D0ADCEF42711BF243, 0x1CBDCA558B5D046772450871572D01AF)"

definition pow_200 :: coords where
  "pow_200 = (0x648473A0DD5954FB22879522C7C0ED74, 0x1152E4926FA996F3BED2F132C130B5FE, 0x6FC9005CDEE5082106EF4E4871E25DEF, 0x11E8CB07B26B466D12FFA298269B5FAD)"

definition pow_210 :: coords where
  "pow_210 = (0x279688304A7E8DC5A3E06A4CEBEB139B, 0x57489FC5B5A540C6A1EA2AFFEE4380EE, 0x53A4EE5BE3A7DC6DAAD820667FF53764, 0x157984789C3501CB76C02374DA8D9B92)"

definition pow_220 :: coords where
  "pow_220 = (0x339BCAE7A4A640B756688D5604CC216C, 0x60BCDC8A572223F1980300A4A9685103, 0x51FF37CA83FCC13C8D3A47AE7E7BC8A, 0x1885B3C9E268B363777AE2786A9BE9D5)"

definition pow_230 :: coords where
  "pow_230 = (0x24D4D479901CEB35DB5C2582973D8916, 0x2931A2E9D4CA88D39D006518AC476996, 0x3AF4D3BE2ABE5C17E97A033559B18250, 0x4EF2728360C6EF379029E7B1BEF7687B)"

definition pow_240 :: coords where
  "pow_240 = (0x329D82A30E73B885E242D024B4559B6A, 0x5D40C370F78088960D5A520B6D343E8C, 0x6CB50115ABBAB8343C8869A24221B9FB, 0x6FF722182E7DA1D1A91107F0705513D5)"

lemma curve_pow_0: "curveCheck pow_0"
  by (simp only: point_rules pow_0_def)

lemma chain_0: "chain [pow_0,
    (0x210A7D9F9782A38CDFFD6556D311CE43, 0x58D4179CFC261E7B023C5E59AFC61DF4, 0x2DB3FC78C3D93DFE35A2323D01CB626C, 0x44C04CB98A015452EE7C9525E2919BF8),
    (0x5ED74234051A217B66161959B80546A7, 0x25E463A9625BEA0BC64448CC446529B2, 0x75EE43643940C19D9F9097DB745193E8, 0x6497521029D877017EB80AC86A7981EF),
    (0x46A99DF6DA5BD7B9431F41FB2252CC0D, 0x7132FE9DF342729AC5BD84FBB84A3DBE, 0x45CAF3B446C89BD482489442C0BAF355, 0x3BE71FB0A5D3DE6DC9520DB6E2E4F2D1),
    (0x7C112E3C41407291D3E4EBBF372235B4, 0x2AC8B7C7B43767054A17119D649F9D40, 0x3E0F67DAD044A500E18E5696AC93EB5E, 0x30F9588CFD5327402B1840F29C624EE7),
    (0x5586FB6DBD2A82943573739FCA037C44, 0x4C53E4DFD63CF77BE647AA21EE392052, 0x48EC7C597200739EB255170A17584D1, 0x38969192B10C0A72057FCBDD6AFB0962),
    (0x23836806025A5D1E8AA9A6A6EF14BD8, 0x7F94A2964FAAB2832EF9CE3239667207, 0x5E64F1874EE0CD3512657CBBDF07290E, 0x23BE4E8DFD199E8A7A1882480004D492),
    (0x3EDA63ED1E8AE356B57CC002F2796EEC, 0x6F27E5D9C1A8FB8C89939810D379E0B, 0x2E7B5050C4A689991594F0E3294E8A7F, 0x392DE160B6B20614E665F7331614CA86),
    (0x174BA7761919BB772DFA75F1C503E8CD, 0x7B4EB625A7717FFFBDF0ADA28C143C88, 0x42607D080BFC3DAC5E79FFE636C973DD, 0x4A31B0CA916D79205D89125660C454EA),
    (0x6AC31FB79C2FBCB6ED667F6A0C14428C, 0x41293706198DE0C1A10EF4D0F5F409F, 0x704DAB8BDD71366C8F5D7A06661005C9, 0x52F2DE19235D9CF8E7E51A5938906CE2),
    pow_10]"
  by (simp only: point_rules pow_0_def pow_10_def)

lemma chain_10: "chain [pow_10,
    (0x59C33B2D19588FB0948AC4CE1FD6DDBE, 0x389F4773616E7EC331FC746B0EDD4A46, 0x154545C85F6921D115467A1D76A01B35, 0x714B21C199ADC54C6CCEEEA70920AE33),
    (0x55D47D46B8B0C7E2B450D3A4DAFBAD78, 0x1D38C62C6FCA0341F98EBFF17B2F8276, 0x6E88F539F648CEE4F6A8775B6F8724E0, 0x7508EC836AA7DA83571C3C087BF147F6),
    (0x462BC15BECB161F24B3052F90B8AD7CD, 0x12598CC58663A1B6F78C2C443525ADC3, 0x3BF1AB9913E6A5EF80AAD5F00272BB19, 0x263A71EC7F12481D3EB707CEE04BC48C),
    (0x47A5D9C5CFD16336015F9F53E983AED, 0x49798F5572365535D59B9117FCB0BFBC, 0x52F11EFF5D730F216E414F77E832F447, 0x46BB556D3B5F37BFF4E9ED7D85E04D82),
    (0x3D4757A7508A69C4277E4114A2EAC3B8, 0x3542F5050DE7AA0C9A664164B55E9281, 0x1A2DC71B5BA2731F8D3D80D1F1FDCB64, 0x79F0F97D5B64A09C92878DB0A210FF4D),
    (0x2D7314E9ED32767C1E7A3D648511DCDA, 0x6918395EEEB1B94B2F6A8EF68E14960C, 0x778010E5F89FBCDD00214B4CC67A214A, 0x1C26E48DE6C91CF42E9E9491C0F78143),
    (0x17AD22EE5F0F1CE3AD79385DCEFDBC73, 0x48AB105A772820988D21067A2E0C7848, 0x7A531B11B809FA6170613C4C75A1850C, 0x210FB4966E6A26776D9CA308CBBAFE0C),
    (0x475C1D827E498D0D31F7AE6121F64D4C, 0x230514BB90D34C883B5D7682CCE6B260, 0xB3A6E65971DDDA9DF472F454B320573, 0x2EDFEED90C67EB447B77114B6CE40657),
    (0x121DBF51F0B140DA4DEFD040900755AA, 0x568BB5E727803FC4965794856C208D33, 0x11722AB48E27BFE2DFEBE917DC6F3153, 0x3A008C1E70B1BCE002B18D022A55F744),
    pow_20]"
  by (simp only: point_rules pow_10_def pow_20_def)

lemma chain_20: "chain [pow_20,
    (0x1AF0A85555BF634EAD5A8ED8B2CEB7C, 0x6C73A6B5C1D3A57E1B97F744130768B9, 0x4E521F5D068E9405987EEF1CEC7A3CBA, 0x203D97F94D71D6625D907357D331CF0E),
    (0x3E0466F0E960BA75C2BCAD50E1D3AD9F, 0xBF2370516F949893A68AB9CAC1DCB4B, 0x31DBA3254494A2EE718F8977CEE1242A, 0x21A3B656F4CCFFF97BDD994800BD33E8),
    (0x1E1DAF756215E009320BFD39DD163808, 0x28846BE618EE3FBA7E96AF471DCEE0E4, 0x3527E03F56F9960BAF5C455C7F2517, 0x36989156A6AA6E62A7654B7BE1662F52),
    (0x65C57CAF132541229E5E64C02965241A, 0x6F303FA0001F7711194A0E062A2D2D5C, 0x73FF9338AD602FAD8D4BFD84FD7C4890, 0x6BFA2793735C57C82845E035ABAE6309),
    (0x6B74D34E155D2119ABC340A7DDC08580, 0x5CAE354597C9106A1B6E0A6DC6A5BC70, 0x1812145CDE0E8DCBE276B58944E2D60B, 0x1A593C1711EEBCDEF4D6895A6375AA22),
    (0x5CA00DD79433EC8FCC57B50839BD3DB3, 0x6E5C96729409B0AE7408C2E7FA19F861, 0xBAB872C252FE6C5881B0DD6D0BF4DE4, 0x498FF68F804B8BF019FAED38D99E6E3F),
    (0x61843AA3D6A3309FE1FA321373CB0263, 0x7BDF0E3355102AB52575505863789791, 0x43CBEA83C9EF1D7CAA3DB77A296BB430, 0x17B482F03D64069190705CF411433DF0),
    (0x63FEC526D23B255D2A79E80B24552498, 0x2E536FAA33387FCB5AD48698079AA851, 0x2A84D99466B0F8060342801A6F2E2239, 0x259A1A95431577078D48050C4404B7F5),
    (0x141ACE17932B6D5B93A6C503385F8E2, 0x3292A70C0C7841300E84B9BCB7FD769B, 0x31446E8BDD6AE2202074D5B73FC2C78D, 0x3E1A8717B4FDF613814B6F32EB5A810A),
    pow_30]"
  by (simp only: point_rules pow_20_def pow_30_def)

lemma chain_30: "chain [pow_30,
    (0x7A2509E4ACC463051897ADA82CFA072D, 0x22ED9ABA0391399671871066AC2012D9, 0x1AEF42D43CE51F3F2112DC95994A95C3, 0x4DCF5FA057ACF966DD2239FFD8245464),
    (0x21E915F9088F81D76F01DE6AC18F3903, 0x799634A4F3CDC86639E31B0B56C5BD36, 0x1183071E38E0C7CDA15279BB32575FCA, 0x4584440D842EB6314B37B935374C4F8C),
    (0x33458999C8180E29B3BA38A2FD60C1E, 0x37E3BE53C0236C64A5EF6EFAB8B7EEE3, 0x112C21BE16F7C94D126C9E4907B9F766, 0x538AA3196ED09527CADB0C0DEB1CB4C2),
    (0x33A0BE62D56021D8AC22CE39553B8D10, 0x8B248924B40F344D54C48FAA52B5FA1, 0x1DC886AF86291BC17206773B13C83746, 0x19878D7A90DD46D9F4F6F16358A1254B),
    (0x3CE01A8B50C6CFEFB6BB28BEED9BE7FB, 0x7424441F44CCDA8B3FA27C79235AF683, 0x4FBA64E0C7D42E3D79AE85E9AFEFD99E, 0x768806F4E9779B7D6A306C85DB7EF165),
    (0x2136CB33711F76A214B7FA49E52E4483, 0x340F49292F55400F46C55471840C0657, 0xF1C13640A0652FB7B7B76170C172EB1, 0x6D7AEA9F651EE62478FEAB0E8F9EFBE),
    (0x534816EA24F28D4BFB1DD144B502EC9E, 0x7AC6434487944B0BBE9E69DC3F8B50DA, 0x3F5EAE5660BCCBBCD261856F396C3129, 0x79D69D3BB9B98FDE60532E4FC163744),
    (0x71191F8C932A9E09DB399D0635964AA1, 0x63308A2134BDE7B1B058CA1234EFD0D8, 0x2428F5E44D51F604719F71614365DE6A, 0x6999BCC1EFDEF9D37430CE121D75675E),
    (0x33B6F4848C4FBEB2435EBEAB2250C49B, 0x462DF8B0F776198C5D730100BCBCD9E3, 0x1190B6B2329821C41C6EE0181DC4039B, 0x5D6E60BD48B347FB5E245D0CA873AA9E),
    pow_40]"
  by (simp only: point_rules pow_30_def pow_40_def)

lemma chain_40: "chain [pow_40,
    (0x43E3DB8D4AD428F3E7C22424B01064FE, 0x140E062A89214D29FDBB4EB0F5B9B0C0, 0x72F78C218D5D4BC6734360A72D59AE5B, 0x1407BB9DF7390F3140BFBF3C1112415B),
    (0x839E67FA8EAC10FC6E12D8054246241, 0x60329118780B6EB76B5185C85159CC48, 0x626EF2CEE0F8D0838C6100CF51A73F7C, 0x1BA4CB607FDAF24FCE87336EAB61CB11),
    (0x59983F7963B1A88C9E7AEE4DD8057B28, 0x716F29236F784DFA68BA4C0384387AE5, 0x4796B3A1A74B40003CBB9162EAB2B637, 0x515DB24482AE9815B82AFBF96CA10E78),
    (0x7A39F6D33B543FA99533F14160C75E6D, 0xB2982DEE3BF16FFD5FA1F30C8925C55, 0x269E28A78DFE9A67DBF3F4633A77DB9F, 0x7A799F5E2C4CCF7C7B0DDC0602AD25D4),
    (0x61F2FC277F62E9C4C02F3ADB3C04491B, 0x2F2AC2BB5D49198D539F64FAF59C9B1F, 0xC19508E53FCD96CBE92532E1D7ECAD2, 0x25FA32BDB99ACA0DA59D898F94504B4B),
    (0x28932CD353A0957AAEA53146BBE9D88F, 0x15B73A11131719BD063EBCB603381D63, 0xA7B8748048FAA9B5F1CC7B36A363B92, 0x19AEBCBB5B77B3459797C2A2E1FD2DE5),
    (0x54D5D8F6D8427995F1098A4BACF95183, 0x4BBEE97F96ED79AC51BE20B2ED90568E, 0x5B0B6C62309C3E49BEF9C1DDED9FB85A, 0x261079278581EA2B03C8991DB3691355),
    (0x18D4CFB7345EADC84732B4AC4B2A01F, 0x4740B36D61DBB83815CCD25E27D93956, 0x5865DFED7B1B664FEC553EFDAB221A9C, 0x5675D467F0F1C85D09F5728421ED3A27),
    (0x22082134F8D7BC70257C69DED9C57407, 0x6769B2D9C40876B947496F6E1A56F717, 0x5E587F8DB9C59224288B61C154286CB2, 0x4D2EB26BD42B1E68E61F5A4E132E41B0),
    pow_50]"
  by (simp only: point_rules pow_40_def pow_50_def)

lemma chain_50: "chain [pow_50,
    (0x4F5C339FADFB250818A7A2BBFF21A667, 0x7CB4EAE1C1B88C7FD119ED1F1E060122, 0x1ACC0F609E1C861C5460417651238EE0, 0x75FF4D8E62BB666DF7ED0FCF73D3517A),
    (0x22883FBCCB42C3E14811016CFFBF2FE9, 0x2B415F3E270AE65A0EAF24D3BD334E0A, 0x43DF3FE428E95F8BD960605848E1843, 0x3A66B80D032B20FABA1312DA0E50837D),
    (0x241A12051611B59B7C09B82B0EFD939F, 0x9931F611632AB4219C003C0BCE9363A, 0x578C68BF8F5601C11FCCE4C7C23EEC37, 0x67FFD6E382B3A7617E225C72A229ABFE),
    (0x26D98FFF1489730A43E108C08A469207, 0x76A47AC26DC8658F2AB3AE1ED4F1E9B2, 0x59819EFCAB54957C18BFB8524F174F5, 0x703EBDD46D80D4A2B015AFECD3255D67),
    (0x3B6578A4A5906DD59714250483341E53, 0x1862940339D50E77DCF1D262789AC00B, 0x4EC78E267C62B0226C063FCFBAEC09D7, 0x578490BDB256D1D17094C5E0F47F685F),
    (0x73CEC13497705A8964E06A22C2B543C2, 0x123315B87890D0E459675DF8518E3F74, 0x553F8CFDEF5816487B24EE98C3469744, 0x53AE7F7D0F8EE7FFA2099C26B7AC355E),
    (0x1D725F6232083E0702ED2EE13E1E52DE, 0xAE256D0FDDFCB001706BAC48CB1BB11, 0x166A515069E1D796CA63A476EB3BBD82, 0x6305380B4F71E24B125B7F7F39392E5),
    (0x50D4FF494D8E3ED0DCAB0FB46B8703C0, 0x670C9F27DE406CD5EE9C7A712C3C72FF, 0x2BEE4AD3877EC958F2D1730EC234983A, 0xC0EEE1B204F8F996319A6B057D1F695),
    (0x50E45109C69B5E62E3B4DB8651009615, 0xF4FD954D6485C0C8AE007C684AEC83F, 0x3ABB9B6BF6D9840F22898FB99F4D79CF, 0x5AA691EFC4E4C10614E3DBD30586D9C),
    pow_60]"
  by (simp only: point_rules pow_50_def pow_60_def)

lemma chain_60: "chain [pow_60,
    (0xA372DCB937CE84A91E377C62B8857D0, 0x29C76499EA09FE8F0FB27F2190DB7CF7, 0x76A37D85D48816C5D8C76370B709AB61, 0x16E2BA7743E1DF46D27B93489952673A),
    (0x1D619E5F318E10268B14D70E7BCE6A40, 0x175A9D1F6477C769D87EC84EC3F30B12, 0x60E0F288DF7B560213C6F230D796E490, 0xEE1966E35E2950FDE67D780829F3B64),
    (0x431B7CFB42365CB89D9CF95D224AC22D, 0x372BEA45FC8F8897DC3E5260C3E4C378, 0x2CC1CE0832FA42B50551571F568B21A6, 0x1F48F6F374CD7E9BFFAC8E1EF2E2973B),
    (0x31DEE66289BC21A821199934A589E4C8, 0x450B3A3E1C06A74615F3BEDBDDB30CB7, 0x2905EEFB8004BE4504980C9B7474D5D3, 0x78C7B1EFB3FB424A47212655176538D4),
    (0x1174A5FE45BDF19982291FC6B41ADF50, 0x14AD7BD4F1FEEE75FA9D10A686F74E5D, 0x68A19386C3FB2E4C95D9AA4F028308AE, 0x3F64F594EBCBBF3C0FEEB710509EF8F4),
    (0x367AEB956A4F42A988BF2F707BDFD544, 0x110EC67167750EAD847568B2089B4587, 0x7A22DC8FFD1DB28E5B14516A34A54DE2, 0x5B0F5D88C0101E18D536116C0C61AFCF),
    (0x3027F762214E6EBCCFC66B46B6768B50, 0x7497300C0F4883E3DD7608CEB340E8D6, 0xA5F065998DB6B2DC1955481710CD97A, 0x2384F8FA512E98DCF0B60BAA06C87E64),
    (0x64BEEEA8C02C049B80E5D9F94C7ED223, 0x76D41352532E540EB594F7E4222FF3B8, 0xDC8DA1195CF7C4A9735A3F1E162CE4D, 0x4DF74EE0A9C96362532EF268E64945A3),
    (0x67946BAD8E472E0EA6DE1A168D47577, 0x5B812000C69650295051E7169C74A066, 0x6C3BF32FD3D4006CBCB0E48E74AB3548, 0x39D591CCF89F0DB05B7546CF66EC4340),
    pow_70]"
  by (simp only: point_rules pow_60_def pow_70_def)

lemma chain_70: "chain [pow_70,
    (0x71C8F6E143CC936F3BD254EADA88A818, 0x694BFA94CC368B585E84EE150F53CB5F, 0x12093A5BC98FB5A89CA1332F4B68B0E8, 0x3D3DF2072AE68BB598B0D6E9B59AE877),
    (0x7351ACBD72DED59B9A76532C6D9B4C74, 0x180ECA8C6C6F8F126383B830981FC98, 0x5A2EDF68E99309288F5CAAB4A9FE2F5C, 0x2F88EA0BF85292134851E1F898524C65),
    (0x53683980EA780D07AD31A1C25972D5FF, 0x11A71A828D6F85E535417A1C6C4B4F9F, 0xFEF6CC371F8C2DE17220DFFFD6737AE, 0x5A255F432182E7B449B2AF969C01ECED),
    (0x52F50430E58C4EC9EC68530923A62164, 0x79DE770FE2ADDC3F76D831FF8680193, 0x27B7ACA01464C24D435C07FD7213C467, 0x3B68ACAF76F7C251511DC418F2FE7079),
    (0x53241B5329535FBCC4D86677DD3DB68, 0x3840CE05ACDE521BADEE934C5034C2AE, 0x7595D642EFE0F5DF23EB88FC611C7FB6, 0x58B9C6B7A81397A6B40D36C3BE693279),
    (0x483A6ECB36F0849B845AF5C23FAEA02B, 0x5E27779E95CDE500F8F9028E4E350CE4, 0x6BAB3729E3445388DE7572B21F9E0AF4, 0x39A99617946B6351171DE0F0569C31A5),
    (0x7526F91E41DC7C343CBFE7469D029312, 0x47C6C13EF2AAF4A0EA6CD17FF1514D23, 0x4A65B7CEBBFA0E028652F9CA9528E3D9, 0x4E06FE9B5B6B2B9BF6E208D501E52E2),
    (0x691BAA73A222C7DD958B27BD86E07D61, 0x1AB779CBAB26069F0B22A19A4FD347F0, 0x8818034C632486AEDCDDE714537E793, 0x37D6F0C46186C9F9E75DF89D605B3E2A),
    (0x64E64050349DBFEB6CE784F43C03057, 0xAE37DA54D958CFAAC77E04EE3ED780, 0x700B4A495FDC39933888821498F882C2, 0x32C6B25986BC8499848543D93A30F06F),
    pow_80]"
  by (simp only: point_rules pow_70_def pow_80_def)

lemma chain_80: "chain [pow_80,
    (0x788C1794303BBBF3D647895DFB00E1AA, 0x6E915CAEB3DFA17BFADA23B170B93A1, 0xC5C8334FB1949FA910D5B10F9D21178, 0x568AD2B16FB78E66E35BE67AD5664517),
    (0x6E4B2C6C21A93CD62CD5584702C03C96, 0x1BC01072ABCB2E98B06F54DA715B6295, 0xAB7089F3543CDE18B26A110360A9D10, 0x3E9A6F56416BF7230DCE3006AC116534),
    (0x708FE90261D0C23F2D4E1EE069E80133, 0x67BB89250209012276298CDD88291B9E, 0x59777FEADC734FCD49B13B0BD5BFE3F8, 0x550CE09EA337B8521FCF6770E03CB6E7),
    (0x5FFC4EB503D9BECD11E30B2AEA6BD596, 0x2BB1F4DF68E4DDF8E70D8EFDC3DD19ED, 0x3520F04CC859BA90607859C43DEFE66, 0xDC771886F778D4297BC3E7BE0984D66),
    (0x4BE300D5E99DB8521D50CB86B970CB70, 0x78DB862BB13A4FFDC8C04440FA1A1E11, 0x4537F77480D7284D2BA0465D82AE654E, 0x36FD1F9202E2BA3937522C3CCB29637),
    (0x777FB75C7E02E0B5D18B08583E1B1E8C, 0x141FEA4653FDC98C463CD071F75B2A2D, 0x887804D26C675FC492F2D889A69F75E, 0x2D70379453978559DDDACA7DF5DBC75C),
    (0x8706D4337AAE6C19FC8E6B6ECBB9600, 0x1F38E16A09D6F424CDB84EF29F1CC13E, 0x12C606D6E4D321B58439EEEE7A5AB011, 0x52152E41E4FAE0E67899A5311D14F31A),
    (0x1DBD71ED11389CE629B459858054ECC1, 0x75E384AD34C46EAD5C781AD66F7B50AC, 0x6D51237B5719CC01CE04C251D9537F45, 0xEA99D2ADAD6335D7F84E6234B02CFCB),
    (0x6FA3A9649525EBB8A9B2476672D94EE1, 0x2033EAEA095F110046CF6A0110271FD2, 0x732F2EA7FA937B9B5BC8B07D5CF3B3B6, 0x5972431B4A39D3880419B31FEEEAD106),
    pow_90]"
  by (simp only: point_rules pow_80_def pow_90_def)

lemma chain_90: "chain [pow_90,
    (0x78F8FB7FFEF1F355EE086529E5DFB681, 0x2C55BC5C4CF7B829248358E53B2273E3, 0x7B4E63EAAB7BFE1FD0F6B887EE77AE1F, 0x23BA1A03D760E57982C01BC027ECCFAA),
    (0x6DFE68B7603D2EF03FD78562E4EE210C, 0x32C143BD2EFDA0391A0F4C1C95C1ABCF, 0x17E605165F02AE550A24C551A7110939, 0x62ED0F7DD3C4E1A3DB55C9A028F796B3),
    (0x699237C5B7860CF1D7028D70C227DCE4, 0x70554EDB5C8EDDBFFCF4BB8683FF5798, 0x6DC9DE2574DE1044917CF46CDB878B5B, 0x54A418291741541286350802637D9DA5),
    (0xF58D617EC49A44B02B41F8F813FD12F, 0x4194EF47B50AAD98263E91646DEE9330, 0x5C84CAE9C71B5A2BA6C8D4266EB58F3B, 0x5B8D7980519C639432853752F0169BCE),
    (0x10E5199EFB7A66C31C05C573ED253E62, 0x719460F06AB0FE90F6CBC97CBE8637A8, 0x6605F176497B781A9EAFADE04B5AA941, 0x511C9051044E46D7CD679AC2D7CE67A2),
    (0x34546F8C6BA80840FC628AE7929AD01E, 0x671CF699567C9D0A64C385289ED35F1A, 0x7E17D47392ED56CC24B121C218ECA81F, 0x172D2B2D9C645036884546A4654709F),
    (0x6D518B89563DCE7195E9F65FFA2F5B4E, 0x38C0D42E12DAC2259E707CEEDAEB3E39, 0x59098754E723627485DBB32B227CC4BF, 0x6E4227FAB7C397E260E4A9E1B9539535),
    (0x405AAF5004B260CADBC354E0C6D12BD8, 0x70F68F1D1E2A7716E77DBF10185A8765, 0x4E2CC6FE133F3B080192052D00001C2A, 0x6AD3DDEB397FFE3EEE983F70F69689C9),
    (0xCCB028821EB6BCC03A38C1AD369B6B8, 0x51DD4871055E79C5BF482BBCF035E5BA, 0x2876CAB7C2EA277F7263C26254F0E067, 0x90C6E434A8FF3FB18BBC453426660),
    pow_100]"
  by (simp only: point_rules pow_90_def pow_100_def)

lemma chain_100: "chain [pow_100,
    (0x50A2578035BF19A6D1C51143D2474497, 0x7D1BB619FFE686C209820C72D85D2E9D, 0x50A0AB6CB9EBEF8D640FEF69A50658BE, 0x6560EBB4BF4875B3EC849161A26D9B30),
    (0x4B90FAF98B86FBE7343D3040D6C31F08, 0x7DFEB443B01A50D05BF6460B91CA49AF, 0x27A64914396830EE54D89D22403E82F0, 0x3E7DAF1AB2EE1778436F43236C4E12BF),
    (0x2CB0E387D15190E5C0673CA7892B1499, 0x29CD571243CBFCFD7E0499BB7A988445, 0x18A4586D5124CF0368FEEBDCD509A2A3, 0x2A412F13818D6C12D36EF77E9539462E),
    (0x514405E53A0FCCBEC70886BFEAAAD694, 0x4884593CF968183990DF96C4C3167AFA, 0x7C6AA566EA1DFDCC76F4B378F3ADAA9D, 0x3329E86E451A6D96B4DE0598D9604615),
    (0x618450E15D753A06E7E9B6B951D6953F, 0xC8424CE07B0F6F4B4CB9FC1090AC4D0, 0x3F268210C5A70BC644ADEE35D1DAD00C, 0x694F7C9350DC0DFB917528ECA4148099),
    (0x53807FF64A4F11C69809EA21413EC55C, 0x70D48DA67F7F9287CA324740D2151E7A, 0x1A2BC866C484D0AC54C75DED56BD4422, 0x7A20EF4214AEBF0D75DA5C2D7EFBB18E),
    (0x5D4ABA9A24800B8F7CACB49C8A1BC727, 0x5DEE75577B8BAFDD2643DDD4BBEFAEE7, 0x6882AA0749AB4640FD661032A37CA0C7, 0x20D45EDCE668C10E003F7E30D43039A0),
    (0x2F23FF4BB200A73B4333AA9D54C157C0, 0x18C7DBE4E6013E50C5A2DC6880C63EC8, 0x600FEFEBFDD49B74F6FCBEDBE7F2DB71, 0x103A3BCA220F06106C40D737765A4F7F),
    (0x7DDCC5CA7799176FA744F4BC3C1C1C62, 0x363DC674CC950B33E8B8AE33EB719AFF, 0x2CE81F483F77F677F889689D0C73DF06, 0x1DD86E42CDCB28DAF84BB8350F02646D),
    pow_110]"
  by (simp only: point_rules pow_100_def pow_110_def)

lemma chain_110: "chain [pow_110,
    (0x53B62DD2CD1C139EC33752B2F92FDB4F, 0x7B04491B283A9052EAFE03AB38EEB582, 0xBD01EF7DC1204D5E76445EBA7DD5E19, 0x200AA47D706192D4C462FC568A81F69D),
    (0x38FE9DE96C969B1972A6EE336FAC340, 0x3C1666A66BECE36158E5D661B70E14DE, 0x229A4B28908A492BBC7A66B51A81810A, 0x69E14FA5024021F9FFE4899796C02F21),
    (0x2DB444408361BE6ED8D6C633AF9D938B, 0x530CFFD2312B6D9D5DA6E0EAAF7368FF, 0x363E8AFD8392C136C5C9440DF3872131, 0x78B29562381170E432CCD32A07440E6A),
    (0x2E330FC7CB0F18F2607FC5D912A497AD, 0x1898BE526E0CA18C0BC5387342E3ECB6, 0x183EF4C9CBE73C9E39D053C05425E7E, 0x4EC4BA0508CA0B03DB1DAB267A82624E),
    (0x5B3D94BF3FB4650BB52AD7E17B30BA32, 0x400A62D9F93C6FF9A6BC3D6DD13A36C0, 0x5894A08F9153AC71B37C3AF8FB6A5AC7, 0x3D91375719F7FE3EF9DC7A798405538B),
    (0x22F49CAD686803E9287570D724E96694, 0x1FA90FBA25D4F4004B233A2479CDF248, 0x740A4A817115BC557262EBCCE39E5C3E, 0x56AC53AA8637950F733DCB27816033E2),
    (0x6AF4794C7CC44A84CC4EB01D78124A5E, 0x44854450729D212723F80C2A12721719, 0x3475821E1D7D2AAF43BF01DE84E14E4E, 0x306E6A84CF47CE58ECB8EF5BB1593FA2),
    (0x3F41989F133E0666A781FB3A9C79DC5A, 0x6AC21BE5221DB8AF0779AB67C1CCDBDE, 0x1147F7FB278ABBA5AC6BC3F9CBCE1DDF, 0x7CF47F9DDEB5199AEBF7536FEA7CD553),
    (0x39283A8DA7B87E792FE5226205B963BC, 0x45696AFB94372A7379345A75B04A046E, 0x12031AC16D4976A5C3E803BFC2EA3FC2, 0x78D7312A5C0B6A84CA3915ECE9C3C13E),
    pow_120]"
  by (simp only: point_rules pow_110_def pow_120_def)

lemma chain_120: "chain [pow_120,
    (0x4DEE7763A6B9B9BF04BA36538296DEAF, 0x25B2638C8C79C271CBDDE54C834DE32B, 0x46ED6C342D4E04EDD552B4F7B7558B33, 0x6FEA7EA44F64E86C0F6BB3E85C24BF93),
    (0x4FB1379FDE86B3183BFE71DA5A6682C8, 0x49D0D6E58D986D37F1A965855AC2601, 0x68CD18E1764B9FFEF555393AB45443DF, 0x76ABD1EF903FF07CF6FAC1B07E4A0BCD),
    (0x53725ABB6D0DCAB3D2BD32604EC0EB26, 0x5F81BD89CEB2DB4467D49082E550A899, 0x703098A409EF3C774F82B07206CB9F38, 0x6A196779B8B8608750972B427D443353),
    (0x3985FBEF50B443E27A5FD60A77A1A096, 0x54D6313A207A950C2BE025244D2F9BFC, 0x21065E5150DE4C757AE1858B26845485, 0xE7AD8B9473F85AECE40C182C0C5FFF5),
    (0x1563F14946E26F4A556168B44F1974A7, 0x2B3C956CBED99CEB45CAF76D096AF197, 0x57FAA551912F85A9CFB7D3A0BCB9E346, 0x2368A80DC7A2E67464B82150C966A8A5),
    (0x258545CADC10C0E2BA3D3DAD89C12184, 0x70666523C3F288921BACF1C484CD20A0, 0x1DC2F211CD2F081F5B772E95FDDB0762, 0x106DC3E9CB4DDE95C4435980D0B97434),
    (0x66C3719CCE1C9FDF337C59DCCB88BBD, 0xA8ED66DB307848064A52000072C12D5, 0x4437A2D153321BE8F7C9CAE2442525D7, 0x14BAC384796044C32BDC4DA9FAE1BE06),
    (0x577055744CFA93E570967161C37EF3EA, 0x16C9EC3138054186EE485CF0E5311667, 0x5F3D60575044C1ED55F77A6F2D1337A5, 0x25F3C70241D31EE4485C522F6DEB3768),
    (0x7B71BCF9276DAFE819F7917C9FA66834, 0x6659041A5F3BFFB517C9F533DCF26E46, 0x69E66D0D211D0E0CA306E808F72B1A4E, 0x7CE707FA57B3FD05BC8004F847577864),
    pow_130]"
  by (simp only: point_rules pow_120_def pow_130_def)

lemma chain_130: "chain [pow_130,
    (0x1280265CE9D9ED157BEB0AD35811CFCE, 0x75311D0B34B5B37917C6CE18C6B5925E, 0x13A359C1354E1E24525794247598DB49, 0x7205CC9AFAF1570CFE13C14168CCCECF),
    (0x521BD068CC4173B40F16BCAC4A4AE7E0, 0x27C71268ABEB66ECACBBF9296004E01B, 0x167AEFDC7F017FB0D8789F16E0C53004, 0x77850C1D9C008C6937E5452E130219F),
    (0x6557DD04B2CF72DF45E7C06B33E846C8, 0x135912ED7AFD3A0BB3FEAB14BF0E3F6E, 0x6BF3685CE2238BEE7492A5403540AE26, 0x7C429C5D4C50C88DAE13B84AB9CED468),
    (0x40E58D26F6B1B5BFBC01529EC09C81D9, 0x3E992A17DCDE69F53D7E6B1CC8348EB6, 0x42BE2193373A69A6BA35886BED5237B6, 0x84CBB01EBF697AB5000020C5B765797),
    (0x5AD09B2AB4A51FA632B86834429B4FD0, 0x58AFA353E904F1DBA4F966C14B3BEAC4, 0x7FD271B4612F54425A1210B719C6224B, 0x3E9D5D4DCB856D9FBD97FF9D8A9EF6D8),
    (0x11A27015E87C47EEFB43CF1F6407C108, 0x75D3B45D22274D463C44E5EBC86A8CF4, 0x2B08B6EC691F7FDFDE6360707BA53731, 0x5C4F58D945C5D6B67745FB5B18DF5F2E),
    (0x29D212F60622909348566B834E256266, 0x3A693A96D499A9179A68BB41825C9B8B, 0x4BE758E48164A5C75B04FC609BE77A3A, 0x2B335B4E9E4E1CA77D73A553521A5CE8),
    (0x6DFF394C960F21AD665B1E2838E3FD77, 0x663AE42F431E954937B7FB863446D551, 0x22C5E465230E0DE770503517D4523A4D, 0x243ECA1BD753C764DB68B6189F10A4EF),
    (0x75C4B93AA4D4B2F3163C50BF851C64D, 0x73E98C98CBA92F89768BDC99F005B4F2, 0x36CD0A1C7E3BF435CA8DDEC300B97F75, 0x72B865F7AB91CA9DD4DEA7683F0DF208),
    pow_140]"
  by (simp only: point_rules pow_130_def pow_140_def)

lemma chain_140: "chain [pow_140,
    (0x4884A6C4B21B4B923897D872A4EC3F29, 0x589B1A9226382BAC15FFFAAA7E89877C, 0x6FF8E5C6000263F40D59CAF950E9EEB3, 0x4FDF32B6D320689DA3826FE99BBB9519),
    (0x29C2F9EE40899950BE4B4A36ED7381B6, 0x363F24354D1C333237BE525D47A21D44, 0x520C514C855F94562F95D9ABAB9661FE, 0x4D126F148D855C67EA6EFD073C2E3C47),
    (0x5C14E02D59FFC6238DEF0B9AEF3BC2C, 0x3774192C9F29751402B2E48D3E0DDBB3, 0x2C6226C89392C6C50E209E65BD5F2598, 0x15BFFC173622C70F7EC9360A6A03A443),
    (0x31AEC49A2D395FC9925B23AE96FA9685, 0x3B8A8D74B321E0F95D78ACA94A9FFD72, 0x55091FE29989EFB9EE275C34D873D608, 0xF60D97E041C6F3B4B8C991D7964C4AB),
    (0x43F57F6B0A3108C66997FBF9129A295A, 0x752B5C659CF1E50634D8C661CB662D5E, 0x1996F93691696D779C06382F3AA935DF, 0x349A3E610A15A6D2EDCE1F2F8925576B),
    (0x6D8243595F1496E3B227E009E85D5EAD, 0x149046663AB9FD7CE1B43D3355F820E, 0x6AF8B0EC5121556AB791A29DFA825D8B, 0x2A39993DED6A8B8BA9CBF382FFE1E627),
    (0x5A1A601BB56F2516BBDE33C998D4672, 0x5700EB4F575D857C4670168DF3235454, 0x2979E9B16CC0642CC9CBA2FFEBB3CFD7, 0x2278C1C64D3561FB775AB6ED32FD4A8B),
    (0x1E44F6B661E9A09483014E705F832063, 0x699B5C062F1EEF29DEB2F62BECC1147, 0x397D328E192D47574B496FA2EEE52C56, 0x60625675F2F96367EEDD11C22901E5FD),
    (0x7F8B3F70125F80EDD182586C6338820, 0x6F24E250EF447AE3D6198EF4A8745835, 0x102CA73D9D458537C0E14F25C0DB47FA, 0x45CA4FCBD53254DD86D03CC25B63A231),
    pow_150]"
  by (simp only: point_rules pow_140_def pow_150_def)

lemma chain_150: "chain [pow_150,
    (0x112627755D11F9A9517BBE265B9A8D5, 0x41F1532C131AB1A95455F7D96C04B675, 0x63E80ED0FFD6F60B8CAC4832738FC6A3, 0x5812C4FBEDD0EE7D7368868DA6EB8597),
    (0x8E5187FEB0ED4B434D3E112E217E8BD, 0x83F46ED1B0259E9DF579F55D63BAAA0, 0xEBB0BBF39D418EF513E84A6448F471C, 0x555B3AE7C15D8212141EC77063FF4BE6),
    (0x4371D6C6FC5484F9E1D4CEF4B911E20D, 0x16DC7B2B5CED80CB3FF8BDCD5EB0ED4C, 0x37C0E2D7ADE6973C29D7FDCBE06635BC, 0x13497CB2D8BDE808BE9040959EC4B7F6),
    (0x6980E29ADF2591D2EA8786EC4E86CD05, 0x369451F660B9FA01E21042AB940BACFA, 0x2C8F5F5DC0D049A82C2D775C2BD784C3, 0x51C4831A21C609C91E63DEEF73EF37B0),
    (0x9A3519FF81D85A56B38851686E24C59, 0x310543BD196AB798D407A2ED461FC3D7, 0x77E18B927435A779654A6546F77DC8B0, 0x705500A816EA8C63D78992358013A472),
    (0x5352E5B1F7FC5C5EB223D48233D421FB, 0x65A3A2D3213DC08123D76BED04EE78FB, 0x4DB0B0FC72E87622B3AD2EF0C8A2885B, 0x3C1E232DC7B45E6B6C48D4D10ED39FB6),
    (0x6EF0454FCE8AC7E95EFAE1FF3F1C13F7, 0x1E707CF0B9C8E7DCBA4544DA4BE478CC, 0x9B21422571CDF6ED8E2979C877435AD, 0x2F42DCD612A0A7CDA26C7E688268029B),
    (0x1AEDD1C35CF1F5657FAE252CAD91B7B9, 0x510E49648B85F4F2CD13A084AC807959, 0x1CCC276E17A51A53A352DD375BA281F9, 0x5B4437BD3F55F32C64CA0BEBE91EF7A5),
    (0x705932C5F09F33D2D634FAA257189594, 0x2C8DC7EFC149B079369150B7BDBFA81D, 0x1E6BDEEE1EC96A60B0F2A162C353240A, 0x45EF0DD504FF1D950119EDFD435BF86F),
    pow_160]"
  by (simp only: point_rules pow_150_def pow_160_def)

lemma chain_160: "chain [pow_160,
    (0x79CC73C7CCE65B98F648399E1616B7DE, 0x5CB68B3FDC40A5311123DDB9ABF2950F, 0x7F55A4DFCA3CAF879E2D94A12E065391, 0x22789E7FD798874105EEB9B3B0225DD),
    (0x425AD929CB1F29B01F9DD21DE0D23080, 0x38F50C52A213D43F21CFDF5324A56DA7, 0x198280B29AEB905F230255DEC29612F5, 0x1FFD984CFE16B787099C05D7F266A5A2),
    (0x70561B5CF9A74B47261BEA0DDC26B1B4, 0x337357A362B8EA13D73A51011FE06609, 0x3C302B2EAF4FB38C6EF5D1471991B4F2, 0x668A9C3A0622C28A2C42F3EFC286746),
    (0x51EC5581FBEE64405E718B59DBC496C3, 0x614154B2B4247C04B83D1CE25907CC65, 0x185A3780B7F69F8DA13231814A1F59AD, 0x620F78A11B2E7C96C518AF71136B892C),
    (0x6F48700F232DEFF5BCB8C59662679817, 0x7F31134DC3D7A426BB6A5804263E1E79, 0x738089DB56DC99478FDA978D7E3C5609, 0x1C9D3A79B8B1B7979BF743BBCF81FD68),
    (0x32123029FBCFD5297F7710B8AD1E8821, 0x202F585A9F04D6BEC199CC76C71FA63E, 0xC9AD34CD77FC3D54838629E47F9AFA6, 0x4042E54B831E7199759A847E16E3EC0D),
    (0x4BD52EB6351918840092161C4462935, 0x6386B169B1E47AE5976550905B073883, 0x18FEE6FA73E89486F3C774A32EB20DA8, 0x67A47E1E6B6B234C055D8D67B4544D35),
    (0x1348576B13F3B2B0C77DE35745169B4B, 0x12268DF5C77869CA3FC8912FAF283ECE, 0x1F516F4A5A1EF0D5DDC58183FB33FBCC, 0x46166BF9F6102A80203B0AF54FA08A9E),
    (0x372B39E0D70866C8E4FFCD9C0B3E8E9B, 0x3E7A341CB01C48E8AAE7A1BBBA9B86BA, 0x37C225B2AA8C4B6513A0FBCEB060D0DF, 0x31FD56B7C8B4ACED0A001DAE273D9087),
    pow_170]"
  by (simp only: point_rules pow_160_def pow_170_def)

lemma chain_170: "chain [pow_170,
    (0x4905022C9A8127477445DE41E47AFA3F, 0x16FE496232857B69945CAACDA52A9A3B, 0x43E963DABE64BCAD9C0C77FF17498FD1, 0x2FFD25E5CFBD329ABD26873200551720),
    (0x38ED4B42D18168D321BC710856B51876, 0x3C55AA89D53C4AB8DA79867E0A5E24DC, 0x5A1764A74049B4E2A031429F1ECDC077, 0x296A1B243D48CE2E7DE0D69F1A8825D8),
    (0x234C4714E33BFF879B31717C768B592D, 0x3FD38E04CCB054A0E8A88DA7DB0469FD, 0x725EA0E9763A80E9BB136E144BE8CFD6, 0x27FC8103373CEC301E48F4D87AAABB6A),
    (0x8966D126E22C1B8DEA9B2B3E3304821, 0x3B6085C6D0BD655246E8CE68C973A7CC, 0x47BD99A91B84D2204745964DC47B0306, 0x180C677B3E8E3F4247BD259ED6FE716D),
    (0x7EC5CA0EDEFA177655932FD2143E62B8, 0x4E0354F4D084D249DB8AB5BB795262C6, 0x449A82468CE895A8958E19FFB60DA394, 0x5632523009F4851266AA36E3CFBFCED6),
    (0x4B049AE9633B0E8EDC7FF2FF8074FA91, 0xFFF46D9016A607E880449BD83B89991, 0x5D5C910E9C5E7D06D1F8996BB039A535, 0x74C32A0BEDE62D3702AA63CFD3D14D17),
    (0x2B8ED0C1F9A6A69EB173009E1CBA294D, 0x48F8D5FA9C9640A79D983BC480BA0A05, 0x36084126CDC4DF76048C1CDAF92A969, 0x42ED55B2651842791533E778C942C7CE),
    (0x5DE108F9F955E9BCE5993C3CFC99B69, 0x79CF5D3235752A1401D44D8230E2444D, 0x36062C40704E881E725BFF4AF79333BD, 0x4280708EEDAC0294E1BE308EDEA36757),
    (0x6F3F7E51F9BF891022AB6847EA1B63D3, 0x28A74327D7FCCE3E429449D9BA8B5C75, 0x2B478BC1F9DCECD6D3B0EF8C327F0C0, 0x729342E6FA50257CBF8900DD17A4287),
    pow_180]"
  by (simp only: point_rules pow_170_def pow_180_def)

lemma chain_180: "chain [pow_180,
    (0x38B5F878B3D46BA815D82137934076FD, 0x7BC47EDDF0FAD5A3C67E3FD19B7AA84B, 0x323D6999C792CBF56116100D7C15C7DB, 0x58E82D78230F421D8798FCB204748D88),
    (0x136FF64CD75955B88A57E299610BCBEA, 0x71315C15F6C0066B7C56C2E980E5DAB8, 0x59F664B336F16A48B70013A38CDABBEA, 0x41ACCCEB0E1F23E640FF55CB7C954957),
    (0x208D1BED7677E958CD8423F75660D450, 0x60B2496551CBECB0EAA79C01FA90059B, 0x3CCAE0D196D024296C48AFC732308639, 0x3CA3AC87DDD85040A1F898218349271A),
    (0x3F61DDDCE5F2C8593DB9386E2D017B03, 0x74AACAC8F6D4B82340B4C50F78BFC859, 0x4F4E7DC875BCB98CCEFA16A64E0FF6BD, 0x5DFD92CFC58336E5F7AE8ADFCCC4D0AE),
    (0x3285079EC6CB23B8C365837C53726E8B, 0x6A64C069A00F397A6EF01F0413A3DD4B, 0x2FE4D5818849CCF4944E5ADD1958ECDB, 0x69A61F115DEE89902EEFF71F0563E129),
    (0xDA73D519807CFB34C2ECBEA2E06F2BB, 0x7F828892833087F4C086EB1EAC963A5F, 0x79C637BC7374A04F49447F781BB87037, 0x4D69066D90977DB7076A82CC646423EA),
    (0x3F1871C1F78612855A5CA834603ADA61, 0x39148B4E1437F9C681AD13A0782381D5, 0x1B89B3439B00A0419F4568563C0BA724, 0x5A800C15F7801584C8A90454048E3C05),
    (0x492D9E744073A29979A01ED7C1BD2537, 0x6BBE95A7E71F9C7BCFCC11EE5DECD0D7, 0x5C840F3693911178B0F4E5166BCE5F6, 0x51D91C84A1608B0BBA00264EC12C3126),
    (0x15467B448EEC48F2CE1E870A60233C55, 0x2396968E4CC97C1E02EC44D0F7EB4F1C, 0x4C64116C6EB7141E5E761ABE8CFA3B9E, 0x24136D3A36FE5AAB39AA18809EEE20D4),
    pow_190]"
  by (simp only: point_rules pow_180_def pow_190_def)

lemma chain_190: "chain [pow_190,
    (0x7DBEDD87E4E9241EE0CE26237537F435, 0x1837365867BA95C195730F5937E98097, 0x5A42304C96E49F6281ABE02E23FB3232, 0x73CD98812D65D913CACDB19814DA23F2),
    (0x3497BCB2465D555C3451957836341D1D, 0x26B95F24C7FD59522DD6BC3180DD2F46, 0x3F18788631F0F4FD4A50D044414F983F, 0x6486BCBF4E5D6855754138A1FDAE01BD),
    (0xD2B27B72F8B9236673A9D8FF67C134B, 0x6A4C94D3ED7EB297272C52B208964DF, 0x445723AC84C50DBC2C29EB35905FE867, 0x362FF2AACB3741A257EF526D9B35C559),
    (0x426DDC165BA5571539E75DCAA17FCF4F, 0x119FD0918BD77A5BFD0AE6880C90D208, 0x4E9F5C25559CC423445559BA31C8C92B, 0x6528B2507C9446157526011A5A43CD2D),
    (0x30A5ADE18DADC1F1295E7D4825B5BE77, 0x74B07A2510B2CFBF04B565452FC529A8, 0x7EC96F5A6798B810B4E2C482960A2A3A, 0x5B2CB929D644E724DB2F9ED1B4F9B301),
    (0x6F2014716C17537F2D06CAF10E22ED15, 0x3CEB6E33479F7E5DC49A3D564542B280, 0x2911F906BC45DB019DDCEBED54A4F192, 0x789DC27AC6B4A0E738B9538DC8156D89),
    (0x2287C7905FF2ECECB4203FEB3D4B7D18, 0x4ACFCAE2A60E14C1FCEA1C4AC92C640, 0x6C2F2EA5E304FC0A10D98ECA076F6A29, 0x7BC3B909D8C3FDD311E4E581A08C287D),
    (0x12115A6C4FD754479DD53DB8B3A798BD, 0x4C938EB5E6E938553EE14B80B8E63A60, 0x3FAD2E87A5C0254E725E6C3FF11840D5, 0x6CACE45B28BB19B061AE84BE6F5113C8),
    (0x4FBAB8E77BA11BD5B23FFC74B5AE3FA7, 0x30F9EE42B5B5BB66F2B51B8B13BC0CA, 0xD4A46394FAE7A5577EAEAA58DA366F0, 0x258C35AB11A318B9CD2B2370949E915),
    pow_200]"
  by (simp only: point_rules pow_190_def pow_200_def)

lemma chain_200: "chain [pow_200,
    (0x4A9D68BA4899AFC6249B208BAF4F066F, 0x6D3D691CB7038482F245F707D58C0BE4, 0x64289D9B824BBE4A344616B47926E29B, 0xF790F78F29F3961640D8016755328C7),
    (0x8309F18FF55DF6A89A7C99E854A1C6E, 0x528457620392E85743EEAD302DE1D3B9, 0x70B6E72022168DABC43446B267D0F637, 0x1BCEB63CC60CE283828387F4B2C3E525),
    (0x2183D70FF1F24099FD4D68742CC8C79D, 0x62E397CE547F2FA97CCD715548D46340, 0xF113378722A03029CB37D0F3B47F2EF, 0x36DAB30C4C2FAF6C54A8A658478095D4),
    (0x16C4F9EA3E6020D998BDE3416B90D, 0x4BF8C494119708831B84F45BA31C4827, 0x4EC26B824BE8CDBD33AFD2A176F32E7C, 0x18D5F73C5DCA8C511ED4DD7C4F1532B5),
    (0x74BEE8813401D406F7F987695F861C29, 0x5D2751ED9DFF6E7731C0E64CF28D5756, 0x456D3CF483EE384C9117060FBC462C76, 0x3362AFFA83EC580A579C3D912ED2807F),
    (0x7EE64001A626EF017D0AF4C434B21273, 0x7032ADB0F79C369D2C247F4344516943, 0x4656A02A7FDCA79AD1D4A42073036BD, 0x6750E492E7D51E338BCFE52E0E506850),
    (0x7DA19420B0469E0D7AC51CD8D41612FB, 0x613B7E22ED875714990257BEAE803AA5, 0x60C462361A28364E1D5214E84A70CA96, 0x39401B14858686E06401AB6E56ACAF36),
    (0x357DD3AB91B867CF45301D4956823245, 0x1202711A782C11ACD9B3AB464D89A1C, 0x331945255E002F46D471E01D82554EE4, 0x20CA07E30BA57C9491E28A6A6E4A6276),
    (0x1550825609172A2F9807983397587824, 0x456E4B446B4B5C0E1478EE06FF86A4AF, 0x9DB0D5A1B8FD8C603ADF17EBEDE7C9A, 0x5AEBBF3DE860D2DA3D87D654D26CAF02),
    pow_210]"
  by (simp only: point_rules pow_200_def pow_210_def)

lemma chain_210: "chain [pow_210,
    (0x7F996152E1A8DA32DE7AB6910704301A, 0x7AFC01386771BD26150246C22A4EC29B, 0x582E2D09E64785A75EC5C9C7091678B1, 0x50ED49882162B21EF6A0147D52FE9FC1),
    (0x78464C6230102E6E3AF9C2BB91C9E4D4, 0x189027DA9991EFE0BCD243ABD148C178, 0x3572207718F8699DB2E983F9281348E, 0x5B5BA5098074EE4F3B168C218D46093E),
    (0x279AD46AAC90B9EBCF5B0B841FAC2A, 0x55D0EDEF3139250346AFD3461C94D211, 0x51E83ED3644F11E2C0F0E93001E93AE3, 0x7D81C4832BE720E53F24F3C6BE67C241),
    (0x4B5E51D29BA83F712EACCA20D4D861CC, 0x4E369D85F69059A26F118FBBF5F826FD, 0x3C8E166F0E56DE692BA644A4635A8DBB, 0x4954D40309CAE98E3426DC1873CD11DC),
    (0x51AACE42A7A04A8F290505F591E8E0D9, 0x66BC7068B423AEFDFC1A3F45DD79BB55, 0x3BE73F3341ADF27A7B507E4AE64B2068, 0x2F26D0011DD4E258CFDF41B21E0A3BB3),
    (0x261A3A5E9A75A67ADE523712026D20B5, 0x229C8F25196F3CE82245C48D0562EF8D, 0x5AF13072CC78167B62DA7900444978F2, 0x31E5D317964B4FC96ECEBF2E5D21575F),
    (0x4EE535A8C6B57942AB867C5E7D467919, 0x28D605626C7F9D51C7271FF3BE72D3FD, 0x1E6EAC4EB5FE1DF5BE900AB15E65D302, 0x6DAACBB47512E9AFA6C69071C00C251B),
    (0x6C2EBE1EB173FB7116AAFAC2967C41FD, 0x7C04EFA48056D4847D8076E48C7B3B8, 0x72F72A76D4432CD4B43DD5B7EC68039B, 0x1137AD4959D9D119B1353893041E46FC),
    (0x32574D70EE8FD5F58E25CA2C23017E48, 0x72523602695E8E6747B8E4E5F46A0A61, 0x344A5AC8763BC3BB92088FC170005998, 0xE9B1FD49695ED116F87BA312915CA11),
    pow_220]"
  by (simp only: point_rules pow_210_def pow_220_def)

lemma chain_220: "chain [pow_220,
    (0x61B6337DA6F748E5D079748E4CF6C96A, 0x499749F171000F5F562B3DB9A99B529C, 0x4527797B8566B2B70C4E813963900F78, 0x791FE9B6615F87D1AF85C93F2C5001CA),
    (0x419CCFE53AF43E2B785F97AE69E7C290, 0x3E8F03DECA1723415A289509A440BEB3, 0x6E26D4D6C9F950E3A574AC7B49CF89A5, 0x4DA5DC9EB31CD10BD5DCEC2AAC8910FA),
    (0x711372B2885BFBCBC328048241791488, 0x4CE688114685FC2CAA696A2576692330, 0x311E4D8B2CC4D59FDF2F6A52E368FAB4, 0x4151444335195AE9781AE0FD71ADE067),
    (0xD5DB159C9CE1E44CC242E349AC70729, 0x32A7072A1D3AD1242027DD71D074654E, 0x6071B8303040A68019157D0D402A768C, 0x71F53ACDF87B0E43238D3E95BDB65B70),
    (0x6555064D172F8F752A90735C1BFF126B, 0x4EBA45C04738C6B20D50250EF88F644C, 0x1D68B26EDAAD6275D6C55E33BF8A8B54, 0x137C0BED3A52B5579BC2F7056BED4F0D),
    (0x6F2E7A50944806706696CCDDD12C2836, 0x318284149323CD4CB1D99153A1ECDE7C, 0x7817CB6756DD5A9DFBDCB864BEAF2977, 0x512148B905CD6976DCD079F14A199CC7),
    (0x47663106F9445685962B8531A6BC6F4B, 0x74CE6152B96F9830C84645A451C6CDE9, 0x632E852FBBC246AE3D592AE926058713, 0x6E241AA36DFED2C40C412F164D082E5E),
    (0x62F482B88C3FC1E68F7F147B65AFC86C, 0x63E8560291DCA22A74C41F5F5D983EE3, 0x4DC41EBDF6C75BB0D958EE4F74099E29, 0x1993765451D2434CE962AF50AC71A365),
    (0x5BD1931E889E067498244EBB5BCBCCA6, 0x4F11DB9FA7CA799AEF50AEE22D4398F5, 0x6EDB3B8370C54A5ECD0A3E8EBFB8D7AB, 0xBEA24E4D400F1BF30620BBE79E35979),
    pow_230]"
  by (simp only: point_rules pow_220_def pow_230_def)

lemma chain_230: "chain [pow_230,
    (0x4D34AEACD690669188E99857C27E4D43, 0x394F59D7E7D6240A183585FB68108285, 0x734192E648336E0769772A8AAE84E054, 0x22FFB341CFFE296806FBC6D37CEB907A),
    (0x33120C330ED841CB70F83D2598B14128, 0xD8191776E7EB909C1E5A59224D5ACE6, 0x7F04065F3703E600745D0D568CD8EE8C, 0x613AD6DFDF17D34447103AC5C26B9072),
    (0xE9E9C4B5883E6F0DE4EC525318F68A, 0x5D43D938606ED429983E1AF98FE64C9B, 0x7CCED83ABD145A2D1683DA8B802BA69A, 0x27CFF53D4536833AAEFE4347518F9D72),
    (0x4475F9CEEDA7FAA1B9E1D9BA595BDC6E, 0x445899616313C4E10127C38782187065, 0xF131BFF660F06FDB0E9F6EE6D66BFE5, 0x6C82D4FC197DE98614EDBE7855428169),
    (0x7ABA514B103DDB54B3B3F6E7578F8204, 0x7ACC3AB1FDB4BC3FF5C0C584A7FF76AD, 0x77DE0CA55DCA4030116B9E08BD3E1875, 0x7F62C57EE4A4AFE52131BB3FCE9098DD),
    (0x5F319BE756BDB0376775431A2D2B6366, 0x4BFBB8D620695F0070CDCB04F7B6E055, 0x7BC8C6D8554487BE013C102E1FA422BD, 0x340CE979EF0746B84B9486EE8001B871),
    (0x560A6AF2D4BA7F390F3A6FB7933A9596, 0x7576A486E4557502F068A64A9EFF9085, 0x28688C6033BCDCDF933C055B43EBFB81, 0x7CE124FAAAB8B89B9E97AADD73AE5F16),
    (0x12AFBDC5FE564F6406F248571B2F9A37, 0x6675DFAFCE5966F92FA3C3B7CC50CE46, 0x6087FDC3F65F5889527150441A54F272, 0x5C6121B9196DB57FEF20944FD4FEA6),
    (0x27D19BAFF0955A75D42E431B57772FB8, 0x169E2165ABB0C33BB8BEA8ACF9D38A53, 0x7B9B73F061D5F88790EB9706FE84AA83, 0x3DABFCEBD1DB7E044424FA4063806DA3),
    pow_240]"
  by (simp only: point_rules pow_230_def pow_240_def)

end
