(* ===== verification/FourQ_Entries.thy ===== *)
theory FourQ_Entries
  imports FourQ_Powers
begin

text \<open>
  The 80 entries of the fixed-base table as numbers, in five blocks of sixteen, and the checks that the entries of a block are
  the sums of 2^(10e) G with a choice of 2^(50 + 10e) G, 2^(100 + 10e) G, 2^(150 + 10e) G and 2^(200 + 10e) G.
\<close>

definition entry_0 :: entry where
  "entry_0 = ((0x287460BF1D502B5FE18A34F3A703E631, 0xC3BA0378B86ACDEE02E62F7E4F90353, 0x740B7C7824F0C55590BF0F98B0937EDC, 0x4FFCF5B93A9557A5B321239123A01366), 0x5948D137556C97C6297AFCCBABDA42BB, 0xCAF2B720A341F27A8189A393330684C)"

definition entry_1 :: entry where
  "entry_1 = ((0x5546128188DD12A83A8BA018FD188787, 0x1BAEEAF8B84D2049B0B3CC33C09F9B77, 0x18F7CD12E1A6F789006425A611FAF900, 0x448E05EEACE7B6EB6DCCF09A12556066), 0x6D911DCB2957BDB4BF2F33689D2829B0, 0x6C54305BABEE5019F2353DBDC3C03EE)"

definition entry_2 :: entry where
  "entry_2 = ((0x72963058648A364D2EAF45713DAFA125, 0x4F41C7F8BFE2B06961B7771F9D313EF2, 0x4D33858644330A42408623AE599790AC, 0x74DF72E0E598E114FC5696649CDD7487), 0x76BD4115FE4B0D8C9A06325913C110B, 0x249240147CEE3A0876619E65D6BFF3D9)"

definition entry_3 :: entry where
  "entry_3 = ((0x28AAC8A28829F706D695B96148965A73, 0x441CA9E89F03E00E41F1C05329F7A57B, 0x58F28CAFC832B7F4E1AA38AB8BF7241E, 0x34B6D106284E863ECADAF8B8FA5400C6), 0x6DBE7790017D9C49F5498CAB3AF15097, 0x6371925BF23AE00663BF76A81448E8BC)"

definition entry_4 :: entry where
  "entry_4 = ((0x4EDE70EED68056ABC5E2C721BDED81FA, 0x4752FD192F0A9AA88F3CD9B5B4975810, 0x11DDF7D2C8468662318794EB1F734414, 0x465575B37AB067702613B06F72B1A34E), 0x48894050790298CE40B9845F82638D2B, 0x4F3560D2889B2FBBEDB93A501B4F131)"

definition entry_5 :: entry where
  "entry_5 = ((0x56F25EE54D92858A457DD875115B278B, 0x78FCA4187D7499692D4C1CDCE0C977E, 0x117B28853DDC2BF63BBB2DED76CC22A1, 0x73079E25E0EA8A8F43F3767CB9C2BAA2), 0x2E77721480D9EF920177992B5A15796D, 0x258F176B7AF7576DBE09883567372916)"

definition entry_6 :: entry where
  "entry_6 = ((0x7285925F9A7353A4308338FD6168391B, 0x53259EE7423AEB51862C0FD04FE85114, 0x1A4F1D661FA071FCFE0031A84B3B1A68, 0x60185C1ADF196A6A2DDD54168DC928A7), 0x6062094B4DCFFC0349809717DC6DA9B4, 0x4A4FE06F277148A0A41EA6FA05FA7E8D)"

definition entry_7 :: entry where
  "entry_7 = ((0x419A928BCCB117337BB253A9EE9E80F0, 0x1B2D1AE972814BB84323BE66A9A039E, 0x54DF1E20CC979DD7A7588584D3051231, 0x4E36E9975FDF1A0F91D906FE3E2F22DD), 0x3E5E31BAEEE13433D81871746B747634, 0x4B852AD97CFE77C6E4DA80979573BAA3)"

definition entry_8 :: entry where
  "entry_8 = ((0x283D719B2FE6EF88E08B346714418B9E, 0x75ACFCEF11D2D5C8B7339D2DE45C180B, 0xC54AC40A7134C4B8F40777A8C561876, 0x6F357E5006A188BFB92E287D66BAEE08), 0x747C45EF91DAFD40C5903319ED1E6971, 0x5DCB27EDB3B3EF7DDE4086A91D2F816E)"

definition entry_9 :: entry where
  "entry_9 = ((0x51551F9F7096649843FDC46CFA1DD2EE, 0x453455B3073FB07FB54534F761ED9BDC, 0x679BE25E758CF4DFF24773E383CAB70B, 0x3DC9E5B8D6DC0F66DA17EDF2943EEE29), 0x1E65315BC5A8537F56A50CBA413FB75B, 0x73C9D8C8F425252E5FF90242802C7213)"

definition entry_10 :: entry where
  "entry_10 = ((0x534F84B3ED414F333C637B8633198C8F, 0x5ED57E941CDF33AFAD313E72DEDD6902, 0x73B63DEA344713F95A6FE01D2A57306E, 0x2DF8C6E49F1A18DB39CB70570F1C2BF3), 0x501AE7CBBEBE9062661BC349677797E4, 0x372752811C01D515B52A88DE8959643)"

definition entry_11 :: entry where
  "entry_11 = ((0x378B317155554FC6010C57A2301BB928, 0x5F0047B850D7DB29F883FA4229A02CF1, 0xD030627A850A2BC4D247AE328402DAA, 0x6EC9686B2D6DB089B4E65D9A88A443F5), 0x5C64E1D3F28D7600DE202E08FEA1D987, 0x56392D36DD75334C157D17BEF661BFB7)"

definition entry_12 :: entry where
  "entry_12 = ((0x146D4F2D3D336AFDE25478D8BD19155C, 0x2B185A9A6ADF10C09BFBE00BF94E15E8, 0x67997E1473101E80926527B3ED52AB7B, 0x36F800C7FAC99A7AB58F4FF4947CC541), 0x4372E43640BC697BD0302E32400456D9, 0x75D25AFAC9A23CBF9144CABB4750D898)"

definition entry_13 :: entry where
  "entry_13 = ((0x74DB216617FC4B07794591767655CBFE, 0x1D543B5908417B237057B2242566D0C9, 0x352309FD8B6CC3EF19C280B444428783, 0x4EC0671A23C019F437833D6AC068AE72), 0x44FE1ADFF224EFE39D9836E1A3D05BB5, 0x2EFEC86835A14150A296BC3CE57EFB4A)"

definition entry_14 :: entry where
  "entry_14 = ((0x18CC07D3953CD2062FE19C09FB194BCA, 0x671AA756581ABCEE5BDFF217C9C0B9E0, 0x1B6F254937A0A3FEE1CC33AE28F7D1A2, 0x74B95636D588921151503D1665BABB83), 0x1507CE189E2510BDBDB97AE4EA96F869, 0x6A81765F05960929796E4D54FAB93B13)"

definition entry_15 :: entry where
  "entry_15 = ((0x3BDEA532B245F6442E940521E5A833ED, 0x64B94848BA6D4ED6BEA76975FFD52693, 0x71CF65DA55639F259DB52D0194E33EC7, 0x12E4D13B6C62DC22EDE73B1FDB5A8138), 0x77A011D257B5FDD09D19B0C265185517, 0x46844E151E3492D11FEDC5CAAECD84E4)"

definition entry_16 :: entry where
  "entry_16 = ((0x5B3165C747E8F0997A423A31904220DF, 0x7802B556FC45595B1C665EEADF35E22E, 0x17F2AB87957166AD85A2DEF4015BD2DE, 0x122A7AD1BE408E6A19CF6D352060C1E5), 0x20FB009D4D0ADACF5B79BBC8645BF766, 0x7041B4E90D420BDE97526A272BA28538)"

definition entry_17 :: entry where
  "entry_17 = ((0x3D398B66F0D242433B30113358DAB057, 0x1EAE2409CD93809691A5999A03CD4708, 0x171308378908196866DD6B604C36108C, 0x34B06CB89704F1CA57CAD6917125DCFD), 0x698331198D544DB9DCAFE8E71F35ABF2, 0x200950E5559D2B6D6287676643AF075B)"

definition entry_18 :: entry where
  "entry_18 = ((0x7473317142AC13A2D4F63FC3ECDD9074, 0x2C20FFE0244378BA96B0030805319356, 0x4EE327219997FCF64889511AD26AC01A, 0x6B617FB4A6D0A6D715FFE6E70F0BF8EA), 0x3C8269F0864682774916DCA1C52F7324, 0x4E480B4F915A542CC24210C4C837E04B)"

definition entry_19 :: entry where
  "entry_19 = ((0x31A501DE44FD84B2C5FEF3B09A7FE35E, 0xBA7E03CA5CCE5AB79F29E4940A407B9, 0x46F4C7810E26DADCA7A8B2058A74D8EA, 0x44DB55025495A81146171ACE94A1128A), 0x4D4F172A43F306B27F889E1A4BF18D5C, 0x6254775924D39ACA33A99766BB1CFFAD)"

definition entry_20 :: entry where
  "entry_20 = ((0x1C544DD078D9211DD855230EC225136E, 0x69AF1DC949DD38212FE9969F63F63BA, 0x63AE90924BBBB595305BCF40CFE5C256, 0x9780CF39FC0043EE451097793B7DE06), 0x3ACE8A6C77577A37827AF8E7EB798871, 0x561DC07AAACEA92B79DF061332E055BA)"

definition entry_21 :: entry where
  "entry_21 = ((0x6B85DF83E0AF53487E4422D9820D2673, 0x35EAD8E5157142BD1F151AC1DED8526B, 0x5F2EA04D2594FDE46DA6EF6C33C79DD4, 0x53B5401007B0331B91037D0CC027D5FA), 0x4463BD259BA94195810F198A3D4BA5A3, 0x78711761D64349CE32B894ACEC2ACF9E)"

definition entry_22 :: entry where
  "entry_22 = ((0x409E4B3F535B6463253AE1B3F51FE211, 0x19D2B1029C21336A3A236D10DA5E49DE, 0x942A31505190B192835F40436AADD90, 0x3AFE96C3CA8E1F9CC189131876828279), 0x39E28DB8625FD0919F1801B491230693, 0x145155DA729B280D9FAB50355DD44C8E)"

definition entry_23 :: entry where
  "entry_23 = ((0x5A0FAA1A8C2B6C68D3CCF8101D4D76D5, 0x51052CE3F566C7733CC66C84CB54EA8A, 0x7586118A01CCF0243BEE14DE65AE9FF5, 0x35FF022D261D93D6089E791C896BF15E), 0x4F1DE98F95B7B8F6CD3CE13D8F7D1CF9, 0x61AD9E3C23F6DD2951E68A2462DC41B4)"

definition entry_24 :: entry where
  "entry_24 = ((0x5D52FE073F9DECF3584FEA6480EBDB51, 0x1DFA03C980B1696A9AFE483EADF336D5, 0x697BF55D361100ED55F73D47FF819A19, 0x618C94467FCE259FDED4804446399419), 0x7C935B98DD933C0F2597FF1F08EF50C, 0x1E9A0D06AF13148FBB758CBC78DED5F6)"

definition entry_25 :: entry where
  "entry_25 = ((0x28396CA1962D4994879CE1457F4CD4DB, 0x1E570F3DA4C527B1F5095A3DC57605C3, 0x591EE376FDD01CCE2AF69A3904935787, 0x5464D651B2F395D1F77B58DF88BC8633), 0x6CE2DF4BF65B6B28AFBC096B1E9A86AE, 0x6382011D8D2D66D03B3A828D2E9D3E08)"

definition entry_26 :: entry where
  "entry_26 = ((0x50DDF70D3B6D56AF94987CA64D3D193D, 0x39208098BC5B1F928D5DF67CC8AD15A9, 0x323BBC87B86A7BA9CE99F520DFD5A4FB, 0x56FFDCBDF2200055E13F88A8D803C789), 0x70011566460C0C163AFF0DA31B24C72D, 0x1C069BFEB7077BC276F7B7F53AC46A13)"

definition entry_27 :: entry where
  "entry_27 = ((0x6D73E34AF088DE3D8F47193CA14A3C36, 0x5B404738B77F1EC8634B2BD9317D6634, 0x54ABBCACA546A46F34FABB71CA1CB1D, 0x6971ABBF958BDEF1E8CDCADD08EDA660), 0x1E158585B079B67C41338557DDDB4EAF, 0x53B36D32B3CEA469D2270474CFA26068)"

definition entry_28 :: entry where
  "entry_28 = ((0x4668E92C5F73314E011523C16C543D08, 0x4037D1AA713931ABAEF3EBE4117ACD1, 0x6B80CD55A44C157568E118E4E390C68D, 0x5CC5475FEEE99AB27307EA8A5729C032), 0x3F09157E5DB3DCD834450E424C14AC75, 0x27A899C54E652F8F62CE2B1B50588052)"

definition entry_29 :: entry where
  "entry_29 = ((0x4B4044DDD5813EEC0ACD039F2FC2A5ED, 0x242551BCE71D33A1C04D189E90A75958, 0x2988820F809D815D95AF96B51F87F05, 0x2EF60745F4364B43B27F65F73B9483C5), 0x2B86C9B48756BB8ACB66BDC93F4FB8B9, 0x441E70184E6FE9AAF8EBDAE09B9867A1)"

definition entry_30 :: entry where
  "entry_30 = ((0x47D8D65A8B4D6992FDC2530330CC1289, 0x1CA8693CC3BD99D58C03B6FA30AE74BE, 0x3DA04764D9F4FFF5699EB1511018F2A6, 0x2FA911612CB857FF361720433D3AAB59), 0x48A219B933A5C619A4057DA10C2F1CAC, 0x73F8895046A09DAD42341020D15F0BC5)"

definition entry_31 :: entry where
  "entry_31 = ((0x4194771B368E622E1BAD5312C67421B8, 0x4B4564E45467F1C28CC71A79E44E0DFF, 0x391B71DCD75FBEA97759F16AAFE52093, 0x23087545444130D2A1C0694AB4EF798), 0x64E26F32D73361E74B7AE1FFCFAA1AA1, 0x148CFA6FEAECEE158DA47038BD0B54B9)"

definition entry_32 :: entry where
  "entry_32 = ((0x25D44EA8D31543DE3756D4D479C2CC3D, 0x2C2047033D27F37FD82C8BEF26BB2C43, 0x77943117A3383B7D5BD33D9837DAD260, 0x3C7C41272A225BF212071D697EA583F2), 0x5D61030C68B6370492EBBDFAF1F03AD3, 0x12404B34771A3636CA6E2853BAEE75D1)"

definition entry_33 :: entry where
  "entry_33 = ((0x2BD261916F9BE3B0BE13C46326667E4F, 0x74520D8A1794CB4886E3F8CBADC80F89, 0x5CEE741E1E53EB021E15C745024CF97E, 0x625812961CC0862C8D088DE0AF99CDA1), 0x60BBC768C424F7A44313437321C0E934, 0x37B8EA9F14A915B8ABA71FBF3C10E143)"

definition entry_34 :: entry where
  "entry_34 = ((0x74A08828FF77845C8D96EC65C40213FF, 0x17E86671161C8706BEDB7194DAF607A3, 0x68552AC494916F09ACEB98E0524059CF, 0x68442EBCDDE21B704CD2971BAF1B3C47), 0x6A6955D3635FA47A19629B8C0E867595, 0x66DD3EF4FCF050C46FAB45E0F2E393AD)"

definition entry_35 :: entry where
  "entry_35 = ((0x14EB5B751B0BCF9CBB0B7ABCFDDC7DF1, 0x5C496F73FFF0600A1CF79F9CA2FD411D, 0x46C1016A2322D8A949648D8555426D70, 0x609EB65209DDB633B57FDB870D9B6D4F), 0x772FB5B5C8AFAF27E70F9166BEDC82C5, 0x7F75B141112DBC8D79A294D9B0227A20)"

definition entry_36 :: entry where
  "entry_36 = ((0x5953D0AAC48217B198D1C7F88E070020, 0x267D1DC11E614C45E28253EBE15F33FF, 0x4EAAAB5C82FE5495BE64F50AB99E2246, 0x67D3786DE6AA1B4D927D5AC07E60BED0), 0x63D93844A35EEA9BA71962BF0F6E2945, 0x169C38D2EB28F5A1B34228C7D26640AC)"

definition entry_37 :: entry where
  "entry_37 = ((0x71478457CDAA1E144B7972B33439DC22, 0x669D8796E78FD4F15226E125EC1D58C7, 0x327C62B55AEBBECF750DD1AAAA44A07F, 0x2AB3F95D01EB364E006B8E95B54FBD25), 0x2A1B9BD75A57E725FCBE5080C0D5E196, 0x751CF4AF849B7A731D2B2B6758139B5D)"

definition entry_38 :: entry where
  "entry_38 = ((0xCEE3A4CB83A4BC164A7D2E337D00A5, 0x53D899148D285023498E0366DBE28F9, 0x4A99132208D68E7401665D64CAB0FB69, 0x1D34B0F9172122BBBA44BBD4BD3F915D), 0x8E7A43DD5334B605D114DC729E8A9F3, 0x5CB7BE1B80264F6228DB8E9232F0F3E8)"

definition entry_39 :: entry where
  "entry_39 = ((0x336AE7CCF7E3A1B29AF2C78782508F23, 0x573D2E1B2B8A68727FE2D4EE2DD194BE, 0x200BC1375B1F42433332EA3363B2EA36, 0x42021FCA53995C5E65C47C8C06B3260D), 0x311FBA6A23196D2C2F7E6CF49BB19946, 0x61EEAC142711B0DCC30C13B62BE0D70D)"

definition entry_40 :: entry where
  "entry_40 = ((0x70169BCBE6BD21D788526996597D35D4, 0x2ADE531472C1B94DA0F1B2D0AD29A510, 0x2D2A1794E85CDB3811E320DC189873E7, 0x4B06D5B54525F6F7A0A8C453A6F621E3), 0x1D4216555D578730F42916691848EC1C, 0x66DD9F39A1F3565FF8C60DA7290A5B4E)"

definition entry_41 :: entry where
  "entry_41 = ((0x4291967A4A369EE455AC29D937B474A0, 0x3D46E8900651C310918DACAA12E6BC89, 0x16F62BF56DA5CA39AF055430A00E90B1, 0xD64DADF63FBBCD51A021C33488C51E6), 0x3B3319D7DD74203A0918ECE59DBFEA7C, 0x13B792DC908C59E61D88545B8B9FA90C)"

definition entry_42 :: entry where
  "entry_42 = ((0x321A5DBEB74BF1270A2D939A9C3D0979, 0x22EC9ECAFD26BC995E5947FFF66D8470, 0x593F56C0559DD846DE17CA8293B10536, 0x23C6B0FDF7448B1C1148373375485023), 0x573E91962726EA70377904458A27804F, 0x51BA082049F4F85E35E1B24F3235AC70)"

definition entry_43 :: entry where
  "entry_43 = ((0x5D29A21E3308E1DD4BC4918160D47194, 0x50DBBD2F4F31D0FB7E15894B3E6E4E33, 0x3418ADD21B634710EF248BD235A9C9DE, 0x7C8414AD9A08C99F96C7233A52363BD2), 0x5729021A1193579ABC6ACB4A54E6C05C, 0x3D0B4FF9E17C2A730627C3E00B08FA1C)"

definition entry_44 :: entry where
  "entry_44 = ((0x75B27BB3BC7BFE48D507E8755990317F, 0x7B9795FC1B706E4644A80F2C6CE651F5, 0x75ADE50ABABFFAA89DE75BDEFDF9A640, 0x6F3DDCFCDD59EC6CCE0AB116870889A0), 0x291D1129EA28A0736E36833588DE0674, 0x706EF8F1AE854D76F8B8E53864884D61)"

definition entry_45 :: entry where
  "entry_45 = ((0x1E45F1CC620F966137A8C6583753069, 0x36D29EACE3E89C54E28E1FF82F76C7BA, 0x65E9C39E2BACB93783379F157F0B49CB, 0x16E02F31AB7E2DE59B323C45070CDA3E), 0x1FD7E207D6C2DE0953BCF346635122B7, 0xCBA06E8D0F0B4DF3A5F5F94EA1E57AC)"

definition entry_46 :: entry where
  "entry_46 = ((0x1E7DC143DEE1D80070B440C387A9C392, 0x332870A017182D145498BA6D7239912B, 0x2C2CE211245B2B4E6BE306FC672D794C, 0x268520FA9C5F727A109B722C8D2BA79F), 0x736201ECCBAEA698515B300524FE78EE, 0x32D8FD919C4418434608AC113210BF78)"

definition entry_47 :: entry where
  "entry_47 = ((0x775437F798DC7459C9557E1B04B8F2D8, 0x2E00EC5F3E7AD3041200F5585BA417F5, 0x32270A93624876E4FC873D5F2B446288, 0x2370D9FE925616BEC646A47C08789B22), 0x156468CEAC1F5FB2430AFA3619E671C4, 0x31140E9017C0E58F3B84DEC2F2417635)"

definition entry_48 :: entry where
  "entry_48 = ((0xDA75F5D64D864AC5C85F88CCB7443FA, 0x1B79E10BAD3336C3295FF44871B0FB84, 0x4C1B198D0F9A1A23FFDF9942DD2977B3, 0x74F66897F26D48D0BA778A24C112864E), 0x4B98CE33FF7878B93FD5C06E867AB611, 0x11665AA099EC5163F7DB4DCE75CB9165)"

definition entry_49 :: entry where
  "entry_49 = ((0x265EC3DBB4EB509A2A498F16AE7118B9, 0x36E62BAAB2E333853DA4230668CE2C86, 0x25BFB2FC411E887599507D4A79AB4478, 0x23D341AE033D0466D7AC1EC933022CE1), 0x23D0211BA2D73180D295B465E962BC00, 0x1E767148DE301514A03CCD7AFF922D4D)"

definition entry_50 :: entry where
  "entry_50 = ((0x1C9FC2F343FC1E58C241AB36A894EFAB, 0x53623E2285DD7015CA3B96562BD27A87, 0x19265577096B42F9557411F01C219420, 0x30A9A9A1C3C51C06D3312D941B23592F), 0x7EAB751DC5C77CB23D89B0B3EA6E8F79, 0x4F844D583F155694C0A9B186E6DF6E36)"

definition entry_51 :: entry where
  "entry_51 = ((0x2ADD440B6BD3854D419018232793DFFA, 0x318CE3846AE3E417D55480F131DF6E32, 0x6EBAEC63D2BFF9F60565062D1A0984F4, 0xDD9434624C8A4E777075FE729E79790), 0x1B17D8255EE8B364BF8F11E2DFA9B062, 0x28106880D081E8DC62C2150CF72C6344)"

definition entry_52 :: entry where
  "entry_52 = ((0x1A8F0E6C977E1F2EF4A4AF0DDFEC91C1, 0x323716728C4E22EC72A7A3A738B9316F, 0x81514248911D367C14069065BA4AF3B, 0x50E77A9B513400E751BD4AFAA8B6C337), 0x24886E41A5EDCFC46C0051B2A822548, 0x336A30B01B9C5675A06B0EFA41CAC17F)"

definition entry_53 :: entry where
  "entry_53 = ((0x2B204CAA48E9098174FB2C10CA097626, 0x39C2E9B6B922303B6902C952B9A17B74, 0x6D92930264F15F76B9216B9B3C597419, 0xF0744ADFE1BD3077B1297D5EEAE1427), 0x282FA2E533356C1033B57E265BE6A89D, 0x4F5D8F5E893DCFF53A03995C61DC772C)"

definition entry_54 :: entry where
  "entry_54 = ((0x596F2241D6A685AE4BFC927EFC48023F, 0x31018E0D106538423CB3E0AFEC29B8A2, 0x1241D8704982E0112FD00FE944575626, 0x1B05F49D0F3DE2CE970D56664E6781A7), 0x416374A76BA88E98A994FFDF63717E66, 0x56781DFAB5D2AA4B8B082CED53F1579A)"

definition entry_55 :: entry where
  "entry_55 = ((0x64669B840D6081F78151DEFD1865B318, 0x43D438410A974B40E436F4BB5F38E14E, 0x6347D9E1AE1828E5832CEB3D666BE02, 0x2CF2CF61CB4B5AE46979471B39E3EA86), 0x12E75CB29ACA5768B7AB29EADA5A6EE4, 0x71F9BECD6B320E5AE65B1109D30D1FFC)"

definition entry_56 :: entry where
  "entry_56 = ((0x31D62D050CA5458FDC8289026647EED9, 0x602BF0B9E3EE5491EA2BBF523A54C1E5, 0x2B6B1E3271DF5F5825AA73622380AD4B, 0x5353C24B8C4354BDBC5EFD86AA0470D), 0x288A1C8F2B4EA5F7A3C7DB3CF5E06BCA, 0x59D4C1B436673C7DD6152F5E12CE7CA1)"

definition entry_57 :: entry where
  "entry_57 = ((0x66D3980F240AD4401E02554E521FCB95, 0x7FEA351CA94C2F62ABF16F6B39A4D9D1, 0xFC6B44F2E7895EA3D62B6F3389163BA, 0x2E4099090E603193D5C64403CDA7C669), 0x46295C9D8E12B6399B5C0FAF15FA4C2F, 0x5FA7BD736C4C58795CE4ADD63A5B331B)"

definition entry_58 :: entry where
  "entry_58 = ((0x28004C1C2232573947B3471447D1AEF2, 0x2AB19C1812CD27E8D588437D9A3C5299, 0x1AD163800B422B363AE700F680037802, 0x44BCDEFF21DCBD1D45B7EF36FABC2139), 0x2C35EE79F7C4CC1441C6DA2171E11C7B, 0x6492D26F10BE050A4852942759C13849)"

definition entry_59 :: entry where
  "entry_59 = ((0x6A2DB2B6DD62181BA6F54E988C50F0D9, 0x57526BDB3BA53D20F7D9806B2A5E57A3, 0x5D841B042F8F34517CE6CB1F500E650, 0x4F4B559ABE2CB8EAA800A6C698DE970), 0x213839BDF94DB935C050DFD7259CE49D, 0x7D323B8B19F9705AB371258655306204)"

definition entry_60 :: entry where
  "entry_60 = ((0x79717069AA89595B26D4502B16B6C618, 0x13D601D86C76E1D0F867C0E36DB41872, 0x185472F3E42E80752DFC8B0D331B7383, 0x519A387490F79B9505BD13E72B10EBA0), 0x45DA45D2CF0F7338D09C1B2D3AD2500, 0x728D57F59BFE1B09640181956862426C)"

definition entry_61 :: entry where
  "entry_61 = ((0x4FC4831E61DC4E10F9A99F878DA2C585, 0x484566B67E9E8AE6DC602CC54394FE0, 0x71C0C23A58F3E2BBC5FCF0474A93809B, 0x614C2F3EAEE4C0A7B400FABE36FE6C43), 0x1CE8197C88885DCC7610A980D0E1C6C1, 0x471AD07BAF2F341EEADE1C9F3AC2CB2B)"

definition entry_62 :: entry where
  "entry_62 = ((0x2A8E64281F59CB59D67A837C6B01121B, 0x19E0A27DECE5058052E701E42F3262CA, 0x43484C311B9DF1F2B5691C17A7BDA6AC, 0x43A2C5DDA225FAE5A68155549BAE49EA), 0x58911F5623918856FA5E992AED700EEF, 0x66E6E30CBDD0C3BD648B81A1E48C4DA9)"

definition entry_63 :: entry where
  "entry_63 = ((0x20F7A86230447685F3BA209C169D266B, 0x366C29843D1111F1D1BB5AAA1A0C3D2E, 0x27484A64E109E3FB06C78B642DCC9013, 0xB6CB31B1DC24CC18F8EACBCA4677464), 0x2DD426744920F2A2DF69C84F898F0FA0, 0x489ADE7F6A98D8D6C0912A197D4C5C69)"

definition entry_64 :: entry where
  "entry_64 = ((0x124F4123FC05AC97458769F47F203E28, 0x330954FED4F00FF83BB936F4AD6D7D67, 0x7BF94762D4F9DEBDC2CE650046F90EAF, 0x3C7A6062B4113D962E93172A586DFB83), 0x8E3596FC68390345DDB0397147F0D93, 0x19021C2119888232374E67FF67639BFA)"

definition entry_65 :: entry where
  "entry_65 = ((0x5B4C6E079E1BAA3002F5D04FDD55EFA, 0x1C42F7826A58A77DE5678EA3AD74C84C, 0x237668D3EDE4261CE054668BD2CAFACD, 0x31EC8C5931CF0EF4EDF46A6374AEBB32), 0x27D8B0EA68259603955C2E95C35B5825, 0x6B6CC5C07152BD13B7A8976E427D1EC0)"

definition entry_66 :: entry where
  "entry_66 = ((0x1CAE9A8CFED89703D88F0CA0B244CD, 0x676C9ACB7ABDEC96A844B3A1F693A7FD, 0x29F289DC0CDDD9B8631B6BD5E0CDBD33, 0x1EB2CE650E3EB0590947D57536FB2EFF), 0x4165EDFB39F4AE8D2139B3A40E8BF405, 0x2E3CC0328C9084F6E061EDA67A70D6A6)"

definition entry_67 :: entry where
  "entry_67 = ((0x6D4D01CE49E8B3D51EF8329ED056063F, 0x6DAD1C4E170829E00110C92F1656D34B, 0x597E5F0AD525E935584C56C590B477BE, 0x3F586754999C829E6008264D8EB7D36D), 0x41754F7D9A3F43643D7EA89DF5546A1D, 0x1AB27795982628723B0796822EF879A7)"

definition entry_68 :: entry where
  "entry_68 = ((0x256EC818EC35A097DC37C9F0BBEF7923, 0x51DF6C61EDCAD45C4A72DA5C09DD5846, 0xBA6BB959AE689F1AEF24FCDCF5CE819, 0x71FFD591A28A8E4AE667BD65A57B3A9E), 0x6667F2986B2DCF1306C325FA53A7FADF, 0x517A104240B8C74A3EF751A6D52A09E4)"

definition entry_69 :: entry where
  "entry_69 = ((0x59237CC71B8147F1D08CDDFD8C8183F5, 0x538ACC592D10EF67FFF94FD188395933, 0x69D42B8114C5FE65AC51CE386FF0EB1D, 0x5DC6D98FDF05A341A17EDA3995BFE8B9), 0x31B58521ECC483CAF2304D375CE8BE78, 0x3DC18B2BE3ED95C904D2D8140780222A)"

definition entry_70 :: entry where
  "entry_70 = ((0x4FFD54A6BC0F38D0A48E1639F2D70D2B, 0x482EB41F9178FA9D8AE3C65BA6B7143B, 0x6D8532420059EB40240B8B4E87AD4F1D, 0x6261076A0DAAE349C135F77E44275132), 0x246165BA3A8BFD9235316BDB3842765C, 0x45A2F991647E3B61C2D774BD5177A75)"

definition entry_71 :: entry where
  "entry_71 = ((0x514FADA5ACD4DB5ED3B5923594671A8, 0x7CD2BADCF2952A91E8297FC358A0F50F, 0x26A0D43C1E14C9790DA45130EA9AC266, 0x360357AFF7F67CCBBB62B729FE93A390), 0x570DAFFD86FA470B3AD4835D1C7C59E8, 0x17E4BDEC2AD76FFCD7C4BE698FA3BD96)"

definition entry_72 :: entry where
  "entry_72 = ((0x58BA7AE0D64A518E43CE4EA9EAD7DC51, 0x3ABC953CE2630B8E014CC7E64680555, 0x2B258FA2E84DA952A318620C7799BE57, 0x17371DD79A3AA556DD88FDC5063B2FFD), 0x554552101D90AB2D927B837578981299, 0x59109B65FFDB6235B45306218CE54BD0)"

definition entry_73 :: entry where
  "entry_73 = ((0x41467FE41C6604F48663E0C4A180A515, 0x19D3CB02C6C07517AE2C1AA4DCB73878, 0x70DAC71A31CAC43CAA147C97EA6745F1, 0x67F228E9F60E7B25B9213EC26AF87DFA), 0x36687792A4256FA3BFB59B8CF78DF3DF, 0x786A9E1B644B1C90E1BE5C1F23177544)"

definition entry_74 :: entry where
  "entry_74 = ((0x62AE5BB4B8AAEB594172F47393CA7F5B, 0x1FBE20B2EDC9CC6DBCD9C431FA631B6F, 0x241DD315ADC5DD595FDD829FBC0EE085, 0x595A82FEE5BED2D4B4B688D625F7DBB6), 0x2B9E85FEFC402F7669653AE0CC11880D, 0x5D20C575FB34731BB2495B507770A81)"

definition entry_75 :: entry where
  "entry_75 = ((0x27012A9665F3FEBB9D9E623436485AB2, 0x44A5860CC0EABFBE586CFEF484C04FF7, 0x5ABEABAAF3220FE6FBFE6E2F3532E80, 0x2AA62112B7EAFED21BED21F2CB809678), 0x1EC8FBBCEF9158F8E298837CF610190B, 0x6A3B842A068B0EF31EFE9B3AA4F96F6B)"

definition entry_76 :: entry where
  "entry_76 = ((0x605175BBF3FD1C9792DD4B7CD7F827F7, 0x3A3AB2E9978DB310139BB6419C1F6D98, 0x34C6C76025B2BCE0C5C95941C9D5DD0B, 0x7622CBEB11DAF6190D44115A49BB8126), 0x7191647D355CB45D785BFF93164EF5AD, 0x581B448B0E9AAE3E117F255C4CCE6E5C)"

definition entry_77 :: entry where
  "entry_77 = ((0x790180C539BC468554A4F3CB36225414, 0x43CCCF5B3A2C010B47064043B7C6B96F, 0x1C368F31955725741DFBF3AFC14C3731, 0x332D8DD63B37F6000BC2ED3B5070B5A), 0x2D258E628DACB9CE0744B1908C9BD8F0, 0xBCA12295A34E996BBA5B4BDB9C61E14)"

definition entry_78 :: entry where
  "entry_78 = ((0x1A3BED438790BE78059C84C66F2175D4, 0x304777E63B3C33E4DF394F577DABB5B0, 0x72E421D1E88E77A459A29D4FE82C5A6A, 0x2DA03AAD8CF2BBB869E6230313312959), 0x343099E7A40243A62858D8608FECB0B6, 0x3D2028A4F6F15886BA29B675D29A8F63)"

definition entry_79 :: entry where
  "entry_79 = ((0x14999B5D6C770E20F068E2D286047D0A, 0x78AEB552C15A1CD9D1874A592385DA79, 0x7B18A19FB54B5745482DCCCC23E9C06E, 0x2F2C2CE0D1871C13036C896EFE9A7A06), 0x649C7E50819D0773B2D9B9ED65492C7, 0x49B15B40C4AAF03FCDAB66EA7B65E3CB)"

definition block_0 :: block where
  "block_0 = Halves (Halves (Halves (Halves (Entry entry_0) (Entry entry_1)) (Halves (Entry entry_2) (Entry entry_3))) (Halves (Halves (Entry entry_4) (Entry entry_5)) (Halves (Entry entry_6) (Entry entry_7)))) (Halves (Halves (Halves (Entry entry_8) (Entry entry_9)) (Halves (Entry entry_10) (Entry entry_11))) (Halves (Halves (Entry entry_12) (Entry entry_13)) (Halves (Entry entry_14) (Entry entry_15))))"

definition block_1 :: block where
  "block_1 = Halves (Halves (Halves (Halves (Entry entry_16) (Entry entry_17)) (Halves (Entry entry_18) (Entry entry_19))) (Halves (Halves (Entry entry_20) (Entry entry_21)) (Halves (Entry entry_22) (Entry entry_23)))) (Halves (Halves (Halves (Entry entry_24) (Entry entry_25)) (Halves (Entry entry_26) (Entry entry_27))) (Halves (Halves (Entry entry_28) (Entry entry_29)) (Halves (Entry entry_30) (Entry entry_31))))"

definition block_2 :: block where
  "block_2 = Halves (Halves (Halves (Halves (Entry entry_32) (Entry entry_33)) (Halves (Entry entry_34) (Entry entry_35))) (Halves (Halves (Entry entry_36) (Entry entry_37)) (Halves (Entry entry_38) (Entry entry_39)))) (Halves (Halves (Halves (Entry entry_40) (Entry entry_41)) (Halves (Entry entry_42) (Entry entry_43))) (Halves (Halves (Entry entry_44) (Entry entry_45)) (Halves (Entry entry_46) (Entry entry_47))))"

definition block_3 :: block where
  "block_3 = Halves (Halves (Halves (Halves (Entry entry_48) (Entry entry_49)) (Halves (Entry entry_50) (Entry entry_51))) (Halves (Halves (Entry entry_52) (Entry entry_53)) (Halves (Entry entry_54) (Entry entry_55)))) (Halves (Halves (Halves (Entry entry_56) (Entry entry_57)) (Halves (Entry entry_58) (Entry entry_59))) (Halves (Halves (Entry entry_60) (Entry entry_61)) (Halves (Entry entry_62) (Entry entry_63))))"

definition block_4 :: block where
  "block_4 = Halves (Halves (Halves (Halves (Entry entry_64) (Entry entry_65)) (Halves (Entry entry_66) (Entry entry_67))) (Halves (Halves (Entry entry_68) (Entry entry_69)) (Halves (Entry entry_70) (Entry entry_71)))) (Halves (Halves (Halves (Entry entry_72) (Entry entry_73)) (Halves (Entry entry_74) (Entry entry_75))) (Halves (Halves (Entry entry_76) (Entry entry_77)) (Halves (Entry entry_78) (Entry entry_79))))"

lemmas block_0_rules = point_rules block_0_def entry_0_def entry_1_def entry_2_def entry_3_def entry_4_def entry_5_def entry_6_def entry_7_def entry_8_def entry_9_def entry_10_def entry_11_def entry_12_def entry_13_def entry_14_def entry_15_def
  pow_0_def pow_50_def pow_100_def pow_150_def pow_200_def

lemma base_0: "entryBase pow_0 entry_0"
  by (simp only: block_0_rules)

lemma check_0: "blockCheck [pow_200, pow_150, pow_100, pow_50] block_0"
  by (simp only: block_0_rules)

lemmas block_1_rules = point_rules block_1_def entry_16_def entry_17_def entry_18_def entry_19_def entry_20_def entry_21_def entry_22_def entry_23_def entry_24_def entry_25_def entry_26_def entry_27_def entry_28_def entry_29_def entry_30_def entry_31_def
  pow_10_def pow_60_def pow_110_def pow_160_def pow_210_def

lemma base_1: "entryBase pow_10 entry_16"
  by (simp only: block_1_rules)

lemma check_1: "blockCheck [pow_210, pow_160, pow_110, pow_60] block_1"
  by (simp only: block_1_rules)

lemmas block_2_rules = point_rules block_2_def entry_32_def entry_33_def entry_34_def entry_35_def entry_36_def entry_37_def entry_38_def entry_39_def entry_40_def entry_41_def entry_42_def entry_43_def entry_44_def entry_45_def entry_46_def entry_47_def
  pow_20_def pow_70_def pow_120_def pow_170_def pow_220_def

lemma base_2: "entryBase pow_20 entry_32"
  by (simp only: block_2_rules)

lemma check_2: "blockCheck [pow_220, pow_170, pow_120, pow_70] block_2"
  by (simp only: block_2_rules)

lemmas block_3_rules = point_rules block_3_def entry_48_def entry_49_def entry_50_def entry_51_def entry_52_def entry_53_def entry_54_def entry_55_def entry_56_def entry_57_def entry_58_def entry_59_def entry_60_def entry_61_def entry_62_def entry_63_def
  pow_30_def pow_80_def pow_130_def pow_180_def pow_230_def

lemma base_3: "entryBase pow_30 entry_48"
  by (simp only: block_3_rules)

lemma check_3: "blockCheck [pow_230, pow_180, pow_130, pow_80] block_3"
  by (simp only: block_3_rules)

lemmas block_4_rules = point_rules block_4_def entry_64_def entry_65_def entry_66_def entry_67_def entry_68_def entry_69_def entry_70_def entry_71_def entry_72_def entry_73_def entry_74_def entry_75_def entry_76_def entry_77_def entry_78_def entry_79_def
  pow_40_def pow_90_def pow_140_def pow_190_def pow_240_def

lemma base_4: "entryBase pow_40 entry_64"
  by (simp only: block_4_rules)

lemma check_4: "blockCheck [pow_240, pow_190, pow_140, pow_90] block_4"
  by (simp only: block_4_rules)

end
