(* ===== verification/FourQ_Order.thy ===== *)
theory FourQ_Order
  imports FourQ_Entries
begin

text \<open>
  The order of the generator: the multiplication by the order of the curve, column by column as the code does it, with every
  intermediate sum listed, ends in the neutral point.
\<close>

definition order_start :: coords where
  "order_start = (0xCE40641A8A78B5316A2BD1176494885, 0x6FEFCB6825A02308B2058E7B32310ED3, 0x188AC1D7438E1544C5950CDF45A6309E, 0x61EFA0F9C82AB153986D4BE0D7AC4972)"

definition column_9 :: coords where
  "column_9 = (0x1D727EC037863BB24A52A136A2FDEEEF, 0x1110B9705CB4153C75F61A4DD8039888, 0x7EF7B732BD823321123580030D19A5F7, 0x6792304FA5ABBB255C0B4DD0464BC6E2)"

definition double_8 :: coords where
  "double_8 = (0x4669727CEEBF0F7EBE78EB0BF326FFB6, 0x48BF5B22FDE96513070EB02600BE4FC, 0x584810BB05B733A9AA85B407F71197A5, 0x2E5A1CE33D8CD939D579D0190031EEF8)"

definition column_8 :: coords where
  "column_8 = (0x3F6016B282AAFF91E4D1902D5BF757FA, 0x2D842708C1C101BA0F9375B8595FEE0F, 0x20A3710C3D9590E7EAEC1BCBA77C42C1, 0x617FC5EF8B1D97D9656B049BC0C435F6)"

definition double_7 :: coords where
  "double_7 = (0x741B029E9E8EDF6F453257FE6C3E3331, 0x65A6424DDED8EFB61600D412EE18A6C5, 0x106DEB77049404C01B3B93DA4DB69903, 0x784F837EEA31CEACA066A54A8A04EBA2)"

definition column_7 :: coords where
  "column_7 = (0x18F527AF25E4F71170804DE5DC2D1057, 0x23E6642A0467E0F87E427C9B08BF4137, 0x5CE0894515780B0E3E3FEF4E8C70B01E, 0x248BCA75284289D70785A404DCDE1C5F)"

definition double_6 :: coords where
  "double_6 = (0x5DB1CEA64182FA5645FE82FA64C46F41, 0x48EF103FB4D8C9CF3A3C0596450870D, 0x49E400BA38DC2EA7D4C065509BCD6D25, 0x2C951E6259A3951E1A50E43049509E4)"

definition column_6 :: coords where
  "column_6 = (0x49903DC5BFCEB1804655CD4D63D57ABA, 0x1F0F2CF74159F0192DB90312B529F8F5, 0x2CD6355DE5AED8DB2F58B28463352FE1, 0x58C9AB13075CCB295CF1BC7DB14ACBD7)"

definition double_5 :: coords where
  "double_5 = (0x7490C949E99FBD934481EBDEF32D8A13, 0x4070A2FDDAB6179FAD8D89B3B99EE08D, 0x37EB4E2706F3A5EFDDB926ED6AAEB981, 0x5700C5A11F3364A819B1100630C3E618)"

definition column_5 :: coords where
  "column_5 = (0x49EF8567ABB206433D760AF517F30511, 0x2D686CD1A2561603B54BDAE63CDF1DB8, 0x11569FAE14B7FC027D1ED0A587EFE469, 0x616E4CAAC5EEB8A69332AEF1790133BA)"

definition double_4 :: coords where
  "double_4 = (0x42DAF8495065688B497CE210127026AA, 0x60CD050F5DDC716EFCC0428F61EDFDD3, 0x691E4AED64B547B2999FFF4798A264A5, 0x33765ABA2B28F3DB230487225EFF3937)"

definition column_4 :: coords where
  "column_4 = (0x690495C0521D6F72AE96215491F74B84, 0x1954D9D6DBBF5644A27FA277D53E7A42, 0x39B1DB10F7C9D1ED5E239E157AFAA2FC, 0x28E9A78DBDDB4ABB129B5502274C96B7)"

definition double_3 :: coords where
  "double_3 = (0x65B9FB1DDE77CEFE53458695DBF3BEA4, 0x61A0EFBAC1340C4A5800DB841A28B7A, 0x55FED0C06BF572F6EEFF8DCD532D8B6C, 0x27A81D63E83DB033129FC90C5440EC8F)"

definition column_3 :: coords where
  "column_3 = (0x5A66C2666E1EE52D31D7F4B54C3A8B89, 0xC157DD60ACE733D15DA2DBC68C5E065, 0x5B4E7C4BD6A0149C79578AB63ACCB925, 0x42CE490C109833B172303EFAA3546C46)"

definition double_2 :: coords where
  "double_2 = (0x4106B7A7C9FCBE945ADB49BAA5AFD1B2, 0x56324B69D814C2DA1E9199BB73395659, 0x6DA38AC99D9B5ED6526B32315E137FC2, 0x4F0A9B41ED4633127BB95662663F16E)"

definition column_2 :: coords where
  "column_2 = (0x4A339B6F52CF9A710DB63CEAAF9AD974, 0x2C4911F110E15F3C291BE1040558E5D9, 0x690EF6E5DAE86512B45DFFD945DC3B4C, 0xC8D6AF10E8FF9E7A3F1D751265A6128)"

definition double_1 :: coords where
  "double_1 = (0x61D2DA1C66ABB3D92F928A490E0D8DDD, 0x74D8ED17A82F8404BD430666BBFB8F2A, 0x6690196AF50DA3BF8165400C6FBB3679, 0x25D9F0BD143E02B2F4B2CB9F1C369ACC)"

definition column_1 :: coords where
  "column_1 = (0x5AB24A1A645A2C1B95B8A528D26B31AB, 0x5114AF4876B296616074B27BCCF91A18, 0x5872F62B52D9AF34A1E6DB535E9E8CE9, 0x63052C464C05421BC25F0B21A96D3282)"

definition double_0 :: coords where
  "double_0 = (0x3F4E06F1F1558A74FF973FC00BF56CE8, 0x74B777A92D1D1E3948943D76603C8707, 0x17348E13B7650D3A6B4EFED054123B36, 0x5FF9043F65EDCFC15D3B08B04797B24D)"

definition column_0 :: coords where
  "column_0 = (0x0, 0x0, 0x1, 0x0)"

lemma start_entry: "entryBase order_start entry_68"
  by (simp only: point_rules order_start_def entry_68_def)

lemma sum_9: "sumCheck order_start [(True, entry_51, (0x3279CBF2BE3E9034D80F26F94E071602, 0x7D14D172712077C62FE8644055503E42, 0x790216643A266A4952160D79A87299EC, 0x74860BF57B63197B82474C49567E974)),
    (False, entry_39, (0x7A95546FCAAFD5B24E438DDC8EA04752, 0x2716016EA387C6306F7E8ED50A96B28, 0x4674005AAEF9462015678C7D4CD34F79, 0x6749C4BB6EB48958C0A7744843C18000)),
    (False, entry_17, (0x60D6B1BC537ABB0F1BC3A62D6E5B3B, 0x4E1540BB7A7ACEDA40D5AD2ACE05712E, 0xB69573679C3F7E446166DFA1074032, 0x409C7F9F69C8CF03D2B3A457276B780D)),
    (False, entry_12, column_9)]"
  by (simp only: point_rules order_start_def column_9_def entry_51_def entry_39_def entry_17_def entry_12_def)

lemma doubled_8: "chain [column_9, double_8]"
  by (simp only: point_rules column_9_def double_8_def)

lemma sum_8: "sumCheck double_8 [(False, entry_64, (0x23E72F65073AE611B8884ADF292E6B46, 0x12A4C5BCB3F732E3367F7256BCE85DCC, 0x6EC14398BC90F7BE564812EE21B8D41A, 0x6905511AFC7DE26ADF113FF2BEDE00B1)),
    (True, entry_52, (0x2952E26C20C89D87006ED43961FC705, 0x5A888E1D375FC49128F4DC5A1CD4551F, 0x19451EF9CE4E8830E40280D0FCCB47AF, 0x1B120B2D9B29E8825026EF361209C174)),
    (True, entry_36, (0x64099E793CABA2C35C76CA6ABA158ADB, 0x8F94419AF6DF9430D3695CD7D1B8D38, 0x1674567E917457BD29B2A4B61E79EEF, 0x27A2181D9491E7246A6A45E39A04AD44)),
    (True, entry_31, (0x2D0434DA6A76DE1783CE5ECA437C3A0D, 0x66F9E6D576EE756650965CD4571531D4, 0x31AA85793C3EBBB752D3D0207C09B86C, 0x3D326B7F1E6192AF32D1F686911E434C)),
    (True, entry_0, column_8)]"
  by (simp only: point_rules double_8_def column_8_def entry_64_def entry_52_def entry_36_def entry_31_def entry_0_def)

lemma doubled_7: "chain [column_8, double_7]"
  by (simp only: point_rules column_8_def double_7_def)

lemma sum_7: "sumCheck double_7 [(True, entry_65, (0x156836B48E50FCB1CA3BE2050DA906B5, 0x3BD5390C03F907E60436B5BDD7A6005C, 0x534BAC0A2FE2EB71908445AAD207CEFB, 0xC69F7CE53885D4D6E8D03D285F89779)),
    (True, entry_58, (0x193B17F6ABA8B2B747F614C7CEAA7E7B, 0x7ACEBDFEE266F28377E044E131F89AAE, 0x33A599A773C33C0CAC2137F5AF392CFD, 0x5599BBF2603D0E6505B67D7233CAEC95)),
    (True, entry_32, (0x1EE70CBA750C78B67204B171C6264033, 0x23A7BF8A23B1494298482C3E761E878F, 0x7E7CF67362875970121B71AF64D4AA4F, 0x61707F7431E33136D2247D9843CC2B93)),
    (False, entry_29, (0x607F26BC05E68CE760B600C0BB2DAFD3, 0x2A119CA6D155E672F89B062F20CAA593, 0x54B1CB13C37DA0BC5B71E02D4A93180, 0xAA49491323DC632163A4C7DC9CB1974)),
    (True, entry_1, column_7)]"
  by (simp only: point_rules double_7_def column_7_def entry_65_def entry_58_def entry_32_def entry_29_def entry_1_def)

lemma doubled_6: "chain [column_7, double_6]"
  by (simp only: point_rules column_7_def double_6_def)

lemma sum_6: "sumCheck double_6 [(True, entry_70, (0x3814DEFBBD0D38200F0307DA14A980C7, 0x417C9C752B02A0E99BCEDA844B8B922C, 0x1DB258457DF236E5448AB65701CED960, 0x44BEF8C7CD9F25E55A80EE9BCA4168C3)),
    (True, entry_58, (0x3D631871AAD3982EEBAEC2320D4CDEF8, 0x323767C6C860E885F1AD3CA56CD752BD, 0x7995860CCBBCF3DDE2EF1399BA9448BD, 0x7983057CE22E82EFC79FB8FC8FA486B8)),
    (True, entry_39, (0x4738CEDC71DEEF752455A76B025ACA67, 0x6F4587C03A8D30EA01C0A8215DCCD990, 0x27E1345737A24610A2DAC0DE6791CE5C, 0x640CC2C7139E70458505C29ACEA22930)),
    (False, entry_25, (0x5117F150DAC1FA2123AFDFE0C228F31E, 0x35033D3A789059667E2FA4BB3D967A1F, 0x166C9DD49C568CD9270486973AF19878, 0x1EE72424315627AD16082D7C48A2DF19)),
    (False, entry_5, column_6)]"
  by (simp only: point_rules double_6_def column_6_def entry_70_def entry_58_def entry_39_def entry_25_def entry_5_def)

lemma doubled_5: "chain [column_6, double_5]"
  by (simp only: point_rules column_6_def double_5_def)

lemma sum_5: "sumCheck double_5 [(False, entry_76, (0x25FCB9B890F0ADC670DF972F249CB1B2, 0x699B4601B469B7A9A2CA2243267CAC83, 0x5805CAFE6CC30478A5A80BB65EC56420, 0x5FC007BCB8EDAF3D0DED3E48853B0684)),
    (True, entry_58, (0x767E8CB682623970C10C1AFF04A29B0, 0x5CBC5D6B78824DF1AF05B5B5808633F, 0x7B2B591050B76B875E15E727F31B57D5, 0x706C436F21BCA507E0B1D13231DA9B33)),
    (False, entry_39, (0x32F3EE2726645215BB96C2DE2C63CF30, 0x54FC079FE71D880EFF261564F40E3B66, 0x533EF68EB272AFD391331AD751504D6A, 0x539181EE63E05D81E7E1104B7BAF7110)),
    (True, entry_25, (0x6CD688D88B9C6D31849018F161D76679, 0x2083395308C4C994FA8917E3683F5874, 0x5B544F524996D8094151CED3A10A946B, 0x2230276E690FCA7D24E61D07EA8CD366)),
    (False, entry_5, column_5)]"
  by (simp only: point_rules double_5_def column_5_def entry_76_def entry_58_def entry_39_def entry_25_def entry_5_def)

lemma doubled_4: "chain [column_5, double_4]"
  by (simp only: point_rules column_5_def double_4_def)

lemma sum_4: "sumCheck double_4 [(True, entry_68, (0x56AF53A29DC3870A163D70078C6E6A72, 0x5536BC7C0070743A3A75A6C643C56B3, 0x18AC09E6739B9890E64DF9719F14235C, 0x67562FF91BA85E63FD50B81A1DAFFE7)),
    (False, entry_59, (0x35CA89FEAB53666BF17C74D9ABB8F8A2, 0x39A09F06CF5C0C6C6F5FC5BC82524C84, 0x360A78E6649B810A59280AAB3398EC91, 0x4F83E978234F461C831FCF6ED4E30AE9)),
    (False, entry_40, (0x5E1B7BF85C8E5189506061FDB9A9EA94, 0x1C2DE49AF58B39FE995ADA30E68B2F88, 0x197740CDDE12B93F65C617370216CAFE, 0x54E05F227E2EADD2E0C434ECE50BC951)),
    (False, entry_20, (0x4375145D66DE5376A0050F4B81ECFB14, 0x74623D2E27195DC612D64AC379CB79DB, 0x654F4449DBD37F5BF7D6F5E90C89408E, 0x56C96E33FE0A861696EB32C15AB8B03A)),
    (False, entry_15, column_4)]"
  by (simp only: point_rules double_4_def column_4_def entry_68_def entry_59_def entry_40_def entry_20_def entry_15_def)

lemma doubled_3: "chain [column_4, double_3]"
  by (simp only: point_rules column_4_def double_3_def)

lemma sum_3: "sumCheck double_3 [(False, entry_72, (0x6F9631ACFD1EE0D7E445CAB3E3A44274, 0x389C6A8A76341D3DEEF6E08AD502EE89, 0x794D0195173F87D6D14CF2CA639DACD2, 0x750246BDD790CC2DDA5CAB1BA4088DC8)),
    (False, entry_50, (0x580A99A10786C84A8AE18F19497F90C9, 0x3FA8BC8AC69A2AC776E5F7E6D54E9F88, 0xE43E9F6B4F4CFC447240255B6A82ACB, 0x5D718CBA357644F240F9A0A37449B8EA)),
    (False, entry_45, (0x44D5BAEEAAA37BCD778E253DDDA0C533, 0x3653304CC0F20568A17D974289122D00, 0xEE4941C4D83D57A065F58629867CE61, 0x615A8F9DED163DED53133270485CC12A)),
    (True, entry_31, (0x4FFB2049C50A77E49A6753EFFB1CEAB4, 0x73A7AEE860EC09B0633A3B468B01B707, 0x667D756AE514A5CF7C60381B06150DD1, 0x7AB00FDD177224160F1C68DDDFDA3E0A)),
    (True, entry_10, column_3)]"
  by (simp only: point_rules double_3_def column_3_def entry_72_def entry_50_def entry_45_def entry_31_def entry_10_def)

lemma doubled_2: "chain [column_3, double_2]"
  by (simp only: point_rules column_3_def double_2_def)

lemma sum_2: "sumCheck double_2 [(True, entry_68, (0x123F627AFEE2749B332D4E3A2F13E311, 0x2924E048B9BBE76344F12218D79999D8, 0x6D489C3BE272F58251576AB8C75F546D, 0x297DB0299712F2FF1B29DA5E1E4EA052)),
    (False, entry_52, (0x2D0CD7606471869E610909004C711330, 0x72E3C2E775A2A658E9294000139D49F7, 0x2CDFE7B66EC178C2CB30FEB24A9392FC, 0x7472EFF1AAD0367F972FAB43605683B9)),
    (True, entry_45, (0x728491C8FC8BB30B38CB8ED2D108C3AE, 0x33B065804068F10B7611EDB5A2E1D3C8, 0x133A1D85DE0BC878DE8F594376165FC0, 0x3BBF90AF11F54519EE78D5ED65184608)),
    (True, entry_23, (0x188EFE2C4A0F23747041DC381F3139F4, 0x679E6D431EE137532837373D3B25CE96, 0x46B399261532C33484B223349CDC2E6E, 0x44E58D9CE99CC69C282B4ED1FA27160C)),
    (True, entry_3, column_2)]"
  by (simp only: point_rules double_2_def column_2_def entry_68_def entry_52_def entry_45_def entry_23_def entry_3_def)

lemma doubled_1: "chain [column_2, double_1]"
  by (simp only: point_rules column_2_def double_1_def)

lemma sum_1: "sumCheck double_1 [(False, entry_74, (0x66885616B664E12F5246D916B3FBBE10, 0x7813E2026C1E90FF155CA7D0BF6489E5, 0x72FA331BA0FADF3521FE271AB6F9A6EB, 0x30E76E9D6C4768F525FF833A244F64BE)),
    (True, entry_57, (0x21F40435F605059CABC3B3D8D1A2FD24, 0x1248A90DFD94777161512239CED95D50, 0x70628B9B2E6A7458865E177582C3CEA5, 0x1791DF952D49CD24174F25E5C50047D1)),
    (False, entry_37, (0x4F51AD16940DAF7507B659A6429ADC52, 0x63E259B25775C1B47A14C2E272FDA368, 0x4E1C53E8C1023C322503BA237A7F6708, 0x18794211FB571E2BD6392C7A52952EB0)),
    (True, entry_29, (0x17623168810F32834A0C33618A216EF9, 0xCE70C50DE540069A29F76C17F4120F9, 0x17F77E2652CA58CBD6A4EF889EEBA8CC, 0x7E8F17A5388AC9F88237CAB7F54AC744)),
    (False, entry_12, column_1)]"
  by (simp only: point_rules double_1_def column_1_def entry_74_def entry_57_def entry_37_def entry_29_def entry_12_def)

lemma doubled_0: "chain [column_1, double_0]"
  by (simp only: point_rules column_1_def double_0_def)

lemma sum_0: "sumCheck double_0 [(True, entry_64, (0x6688E50C1B71836F253859357D2EDB06, 0x4B3C362C131ED0BDC1A780BFB8719D41, 0x5968BA855BE798AF39A62D2EBF5483B6, 0x2F2093987DC3193CB8C405B41DF792B0)),
    (False, entry_63, (0x85E9C1D8F4742410861D66EB69399AD, 0x52C6DE1DCC29E5157EAD86D40112B795, 0x6F329B44971A509164C993EA6F595578, 0x59120ACD9065FBE1792C9492969E2D62)),
    (False, entry_40, (0x29B12C1B24F0662B30F6C5E78F993873, 0x383AADDEF73346C6ABC391AFDDDBDEF2, 0x161412D38674FC2384D9FEE2BE9DAE56, 0x30081E037C8322A6609341E13ACE4D4D)),
    (False, entry_25, (0x13E4C58342968F2C66BE7C5574E970A6, 0x46795E99CE6F3F8C53D8A2231EF06BC9, 0x66A57E2DD09E2D09741B552D651A9C2, 0x199EFD8110AA2ADDDA04B1F36ED8BCDE)),
    (False, entry_6, column_0)]"
  by (simp only: point_rules double_0_def column_0_def entry_64_def entry_63_def entry_40_def entry_25_def entry_6_def)

end
