(* ===== verification/FourQ_Generator.thy ===== *)
theory FourQ_Generator
  imports FourQ_Refine FourQ_Order
begin

text \<open>
  What the evaluated checks mean in the group of the curve: the table of the fixed-base multiplication holds the multiples
  of the generator that the algorithm needs, and the order of the curve times the generator is the neutral element.
\<close>

section \<open>Values of octal pairs\<close>

definition ofv :: "oct list \<Rightarrow> gfp" where
  "ofv x = of_nat (oval x)"

definition pv :: "pel \<Rightarrow> gfp2" where
  "pv p = GFp2 (ofv (fst p)) (ofv (snd p))"

lemma of_nat_cong: "m mod P127 = n mod P127 \<Longrightarrow> (of_nat m :: gfp) = of_nat n"
  by (simp add: of_nat_gfp_eq_iff)

lemma ofv_fnum: "ofv (fnum n) = of_nat n" "ofv ozero = 0"
  by (simp_all add: ofv_def oval_fnum) (simp add: ozero_def)

lemma ofv_fadd: "ofv (fadd x y) = ofv x + ofv y"
proof -
  have "ofv (fadd x y) = of_nat (oval x + oval y)"
    unfolding ofv_def by (rule of_nat_cong) (simp only: fadd_def oval_ofold oval_oadd of_bool_eq add_0_right)
  then show ?thesis by (simp add: ofv_def)
qed

lemma ofv_fmul: "ofv (fmul x y) = ofv x * ofv y"
proof -
  have "ofv (fmul x y) = of_nat (oval x * oval y)"
    unfolding ofv_def by (rule of_nat_cong) (simp only: fmul_def oval_ofold oval_omult)
  then show ?thesis by (simp add: ofv_def)
qed

lemma ofv_fsub: "ofv (fsub x y) = ofv x - ofv y"
proof -
  have "int (oval (fsub x y) + oval y) mod int P127 = int (oval x) mod int P127"
    using oval_fsub [of x y] unfolding of_nat_add by (metis add_diff_cancel_right' diff_add_cancel mod_add_left_eq)
  then have "(oval (fsub x y) + oval y) mod P127 = oval x mod P127" by (metis zmod_int of_nat_eq_iff)
  then have "(of_nat (oval (fsub x y) + oval y) :: gfp) = of_nat (oval x)" by (rule of_nat_cong)
  then show ?thesis by (simp add: ofv_def algebra_simps)
qed

lemma ofv_feq: "feq x y \<Longrightarrow> ofv x = ofv y"
  unfolding ofv_def by (rule of_nat_cong) (rule oval_feq)

lemma pv_linear:
  "pv (padd x y) = pv x + pv y" "pv (psub x y) = pv x - pv y" "pv (ozero, ozero) = 0" "pv (fnum 1, ozero) = 1"
  by (simp_all add: pv_def padd_def psub_def gfp2_defs ofv_fadd ofv_fsub ofv_fnum case_prod_beta)

lemma pv_pdbl: "pv (pdbl x) = 2 * pv x"
  by (simp only: pdbl_def pv_linear mult_2)

lemma pv_ptwo: "pv ptwo = 2"
proof -
  have "(2 :: gfp2) = GFp2 2 0" unfolding one_add_one [symmetric] one_gfp2_def plus_gfp2_def by simp
  moreover have "pv ptwo = GFp2 2 0" by (simp add: ptwo_def pv_def ofv_fnum)
  ultimately show ?thesis by (simp only:)
qed

lemma pv_pmul: "pv (pmul x y) = pv x * pv y"
  by (simp add: pv_def pmul_def pmul3_def case_prod_beta times_gfp2_def ofv_fadd ofv_fsub ofv_fmul algebra_simps)

lemma pv_psqr: "pv (psqr x) = pv x ^ 2"
  by (simp add: pv_def psqr_def fdbl_def case_prod_beta power2_eq_square times_gfp2_def ofv_fadd ofv_fsub ofv_fmul algebra_simps)

lemmas pv_ops = pv_linear pv_pdbl pv_ptwo pv_pmul pv_psqr

lemma pv_peq: "peq x y \<Longrightarrow> pv x = pv y"
  by (simp add: pv_def peq_def case_prod_beta ofv_feq)

lemma pv_pd: "pv pd = curve_d"
  by (simp add: pv_def pd_def ofv_fnum fp2v_def PARAMETER_d_def fpv_def fval_def)

section \<open>Points and entries\<close>

definition isPoint :: "coords \<Rightarrow> fourq \<Rightarrow> bool" where
  "isPoint c g \<longleftrightarrow> pv (pX c) = px g \<and> pv (pY c) = py g"

definition isEntry :: "entry \<Rightarrow> fourq \<Rightarrow> bool" where
  "isEntry e g \<longleftrightarrow> pv (pA e) = px g + py g \<and> pv (pB e) = py g - px g \<and> pv (pT e) = 2 * curve_d * px g * py g"

lemma sum_coordinates:
  assumes "X * (1 + edw_D (px p) (py p) (px q) (py q)) = px p * py q + py p * px q"
    "Y * (1 - edw_D (px p) (py p) (px q) (py q)) = py p * py q + px p * px q"
  shows "X = px (p + q)" "Y = py (p + q)"
proof -
  note nz = denominators [OF on_curve_point on_curve_point, of p q]
  have "px (p + q) = (px p * py q + py p * px q) / (1 + edw_D (px p) (py p) (px q) (py q))"
      "py (p + q) = (py p * py q + px p * px q) / (1 - edw_D (px p) (py p) (px q) (py q))"
    using fourq_plus_coordinates [of p q] by (simp_all add: edw_add_def)
  then show "X = px (p + q)" "Y = py (p + q)" using assms nz by (metis nonzero_mult_div_cancel_right)+
qed

lemma dbl1_sound:
  assumes "dbl1 (pX p) (pY p) (pX q) (pY q)" "isPoint p g"
  shows "isPoint q (g + g)"
proof -
  have c: "- (px g ^ 2) + py g ^ 2 = 1 + curve_d * px g ^ 2 * py g ^ 2" using on_curve_point [of g] by (simp add: on_curve_def)
  have x: "pv (pX p) = px g" "pv (pY p) = py g" using assms(2) by (simp_all add: isPoint_def)
  have "peq (pmul (pX q) (psub (psqr (pY p)) (psqr (pX p)))) (psub (psqr (padd (pX p) (pY p))) (padd (psqr (pX p)) (psqr (pY p))))"
      "peq (pmul (pY q) (psub ptwo (psub (psqr (pY p)) (psqr (pX p))))) (padd (psqr (pX p)) (psqr (pY p)))"
    using assms(1) by (simp_all only: dbl1_def dbl2_def dbl3_def)
  note this [THEN pv_peq, unfolded pv_ops x]
  then have e: "pv (pX q) * (py g ^ 2 - px g ^ 2) = (px g + py g) ^ 2 - (px g ^ 2 + py g ^ 2)"
      "pv (pY q) * (2 - (py g ^ 2 - px g ^ 2)) = px g ^ 2 + py g ^ 2"
    by blast+
  have "pv (pX q) * (1 + edw_D (px g) (py g) (px g) (py g)) = px g * py g + py g * px g"
    unfolding edw_D_def using e(1) c by algebra
  moreover have "pv (pY q) * (1 - edw_D (px g) (py g) (px g) (py g)) = py g * py g + px g * px g"
    unfolding edw_D_def using e(2) c by algebra
  ultimately show ?thesis using sum_coordinates [of _ g g] by (simp add: isPoint_def)
qed

lemma chain_sound: "chain (p # ps) \<Longrightarrow> isPoint p g \<Longrightarrow> isPoint (last (p # ps)) (zmul (2 ^ length ps) g)"
proof (induction ps arbitrary: p g)
  case (Cons q ps)
  have "isPoint q (g + g)" using Cons.prems dbl1_sound [of p q g] by (simp only: chain.simps)
  then have "isPoint (last (q # ps)) (zmul (2 ^ length ps) (g + g))" using Cons.IH Cons.prems(1) by (simp only: chain.simps)
  then show ?case by (simp add: zmul_double)
qed simp

lemma curveCheck_sound: "curveCheck p \<Longrightarrow> on_curve (pv (pX p)) (pv (pY p))"
proof -
  assume "curveCheck p"
  then have "pv (psub (psqr (pY p)) (psqr (pX p))) = pv (padd (fnum 1, ozero) (pmul pd (pmul (psqr (pX p)) (psqr (pY p)))))"
    unfolding curveCheck_def curve2_def by (rule pv_peq)
  then have "pv (pY p) ^ 2 - pv (pX p) ^ 2 = 1 + curve_d * (pv (pX p) ^ 2 * pv (pY p) ^ 2)" by (simp only: pv_ops pv_pd)
  then show ?thesis by (simp add: on_curve_def algebra_simps)
qed

lemma cancel_2: "2 * x = 2 * y \<Longrightarrow> x = (y :: gfp2)"
  using two_gfp2 by simp

lemma cancel_4: "4 * x = 4 * y \<Longrightarrow> x = (y :: gfp2)"
  using four_gfp2 by simp

lemma add1_sound:
  assumes "add1 a b t (pX p) (pY p) X Y" "isPoint p g"
    and "pv a = px h + py h" "pv b = py h - px h" "pv t = 2 * curve_d * px h * py h"
  shows "pv X = 2 * px (g + h)" "pv Y = 2 * py (g + h)"
proof -
  let ?D = "edw_D (px g) (py g) (px h) (py h)"
  have x: "pv (pX p) = px g" "pv (pY p) = py g" using assms(2) by (simp_all add: isPoint_def)
  have "peq (pmul X (padd ptwo (pmul t (pmul (pX p) (pY p))))) (pdbl (psub (pmul a (padd (pX p) (pY p))) (pmul b (psub (pY p) (pX p)))))"
      "peq (pmul Y (psub ptwo (pmul t (pmul (pX p) (pY p))))) (pdbl (padd (pmul a (padd (pX p) (pY p))) (pmul b (psub (pY p) (pX p)))))"
    using assms(1) by (simp_all only: add1_def add2_def)
  note e = this [THEN pv_peq, unfolded pv_ops x assms(3-5)]
  obtain X' Y' where h: "pv X = 2 * X'" "pv Y = 2 * Y'" using that [of "pv X / 2" "pv Y / 2"] two_gfp2 by simp
  have "4 * (X' * (1 + ?D)) = 4 * (px g * py h + py g * px h)"
    unfolding edw_D_def using e(1) [unfolded h] by algebra
  moreover have "4 * (Y' * (1 - ?D)) = 4 * (py g * py h + px g * px h)"
    unfolding edw_D_def using e(2) [unfolded h] by algebra
  ultimately have "X' = px (g + h)" "Y' = py (g + h)" using sum_coordinates [OF cancel_4 cancel_4] by blast+
  then show "pv X = 2 * px (g + h)" "pv Y = 2 * py (g + h)" using h by simp_all
qed

lemma isEntryI:
  assumes "pv (psub (pA e) (pB e)) = 2 * px g" "pv (padd (pA e) (pB e)) = 2 * py g"
    "entryT (psub (pA e) (pB e)) (padd (pA e) (pB e)) (pT e)"
  shows "isEntry e g"
proof -
  have a: "pv (pA e) - pv (pB e) = 2 * px g" "pv (pA e) + pv (pB e) = 2 * py g" using assms(1,2) by (simp_all only: pv_ops)
  have t: "2 * pv (pT e) = curve_d * ((pv (pA e) - pv (pB e)) * (pv (pA e) + pv (pB e)))"
    using pv_peq [OF assms(3) [unfolded entryT_def]] by (simp only: pv_ops pv_pd)
  have "2 * pv (pA e) = 2 * (px g + py g)" using a by algebra
  moreover have "2 * pv (pB e) = 2 * (py g - px g)" using a by algebra
  moreover have "2 * pv (pT e) = 2 * (2 * curve_d * px g * py g)" unfolding t a by (simp only: mult_ac)
  ultimately show ?thesis unfolding isEntry_def using cancel_2 by blast
qed

lemma entryAdd_sound:
  assumes "entryAdd p e e'" "isPoint p g" "isEntry e h"
  shows "isEntry e' (g + h)"
proof -
  have a: "add1 (pA e) (pB e) (pT e) (pX p) (pY p) (psub (pA e') (pB e')) (padd (pA e') (pB e'))"
    and t: "entryT (psub (pA e') (pB e')) (padd (pA e') (pB e')) (pT e')"
    using assms(1) by (simp_all only: entryAdd_def entryAdd2_def)
  have "pv (pA e) = px h + py h" "pv (pB e) = py h - px h" "pv (pT e) = 2 * curve_d * px h * py h"
    using assms(3) by (simp_all add: isEntry_def)
  from add1_sound [OF a assms(2) this] show ?thesis by (rule isEntryI [OF _ _ t])
qed

lemma entryBase_sound:
  assumes "entryBase p e" "isPoint p g"
  shows "isEntry e g"
proof (rule isEntryI)
  have x: "pv (pX p) = px g" "pv (pY p) = py g" using assms(2) by (simp_all add: isPoint_def)
  have "peq (pA e) (padd (pX p) (pY p))" "peq (pB e) (psub (pY p) (pX p))" using assms(1) by (simp_all only: entryBase_def)
  note this [THEN pv_peq, unfolded pv_ops x]
  then show "pv (psub (pA e) (pB e)) = 2 * px g" "pv (padd (pA e) (pB e)) = 2 * py g" by (simp_all add: pv_ops)
  show "entryT (psub (pA e) (pB e)) (padd (pA e) (pB e)) (pT e)" using assms(1) by (simp only: entryBase_def)
qed

lemma sumStep_sound:
  assumes "sumStep neg e p q" "isPoint p g" "isEntry e h"
  shows "isPoint q (g + (if neg then - h else h))"
proof -
  have e: "pv (pA e) = px h + py h" "pv (pB e) = py h - px h" "pv (pT e) = 2 * curve_d * px h * py h"
    using assms(3) by (simp_all add: isEntry_def)
  have n: "pv (pB e) = px (- h) + py (- h)" "pv (pA e) = py (- h) - px (- h)" "pv (psub (ozero, ozero) (pT e)) = 2 * curve_d * px (- h) * py (- h)"
    using e by (simp_all add: fourq_uminus_coordinates pv_ops)
  have "2 * pv (pX q) = 2 * px (g + (if neg then - h else h)) \<and> 2 * pv (pY q) = 2 * py (g + (if neg then - h else h))"
  proof (cases neg)
    case True
    then have "add1 (pB e) (pA e) (psub (ozero, ozero) (pT e)) (pX p) (pY p) (pdbl (pX q)) (pdbl (pY q))"
      using assms(1) by (simp only: sumStep_def if_True)
    from add1_sound [OF this assms(2) n] show ?thesis using True by (simp add: pv_ops)
  next
    case False
    then have "add1 (pA e) (pB e) (pT e) (pX p) (pY p) (pdbl (pX q)) (pdbl (pY q))" using assms(1) by (simp only: sumStep_def if_False)
    from add1_sound [OF this assms(2) e] show ?thesis using False by (simp add: pv_ops)
  qed
  then show ?thesis unfolding isPoint_def using cancel_2 by blast
qed

section \<open>Blocks of the table\<close>

fun leaves :: "block \<Rightarrow> entry list" where
  "leaves (Entry e) = [e]"
| "leaves (Halves l r) = leaves l @ leaves r"

text \<open>The sums that a block holds, for any addition.\<close>

fun combs :: "'a :: plus list \<Rightarrow> 'a \<Rightarrow> 'a list" where
  "combs [] h = [h]"
| "combs (g # gs) h = combs gs h @ map ((+) g) (combs gs h)"

lemma blockAdd_sound:
  "blockAdd p l r \<Longrightarrow> isPoint p g \<Longrightarrow> list_all2 isEntry (leaves l) hs \<Longrightarrow> list_all2 isEntry (leaves r) (map ((+) g) hs)"
proof (induction p l r arbitrary: hs rule: blockAdd.induct)
  case (1 p e e')
  then show ?case using entryAdd_sound [of p e e'] by (auto simp: list_all2_Cons1)
next
  case (2 p l r l' r')
  from 2(5) obtain us vs where "hs = us @ vs" "list_all2 isEntry (leaves l) us" "list_all2 isEntry (leaves r) vs"
    by (auto simp: list_all2_append1)
  then show ?case using 2 by (simp add: list_all2_appendI)
qed simp_all

lemma blockCheck_sound:
  "blockCheck ps b \<Longrightarrow> list_all2 isPoint ps gs \<Longrightarrow> isEntry (hd (leaves b)) h \<Longrightarrow> list_all2 isEntry (leaves b) (combs gs h)"
proof (induction ps b arbitrary: gs rule: blockCheck.induct)
  case (1 p ps l r)
  from 1(3) obtain g gs' where g: "gs = g # gs'" "isPoint p g" "list_all2 isPoint ps gs'" by (auto simp: list_all2_Cons1)
  have "leaves l \<noteq> []" by (induction l) simp_all
  then have l: "list_all2 isEntry (leaves l) (combs gs' h)" using 1 g by simp
  have "list_all2 isEntry (leaves r) (map ((+) g) (combs gs' h))" using blockAdd_sound [OF _ g(2) l] 1(2) by (simp only: blockCheck.simps)
  then show ?case using l by (simp add: g(1) list_all2_appendI)
qed simp_all

lemma combs_zmul: "combs (map (\<lambda>z. zmul z g) zs) (zmul c g) = map (\<lambda>z. zmul z g) (combs zs c)"
  by (induction zs) (simp_all add: zmul_add)

section \<open>The generator and its doublings\<close>

definition generator :: fourq where
  "generator = point (pv (pX pow_0)) (pv (pY pow_0))"

lemma point_0: "isPoint pow_0 (zmul (2 ^ 0) generator)"
  using curveCheck_sound [OF curve_pow_0] by (simp add: isPoint_def generator_def)

lemma ten_doublings:
  assumes "isPoint p (zmul (2 ^ k) generator)" "chain (p # ps @ [q])" "length ps = 9"
  shows "isPoint q (zmul (2 ^ (k + 10)) generator)"
proof -
  have "zmul (2 ^ (k + 10)) generator = zmul (2 ^ 10) (zmul (2 ^ k) generator)"
    using zmul_mult_pow2 [of "2 ^ k" 10 generator] by (simp only: power_add)
  then show ?thesis using chain_sound [OF assms(2,1)] assms(3) by simp
qed

lemma point_10: "isPoint pow_10 (zmul (2 ^ 10) generator)"
  using ten_doublings [OF point_0, of "[_, _, _, _, _, _, _, _, _]" pow_10] chain_0 by simp

lemma point_20: "isPoint pow_20 (zmul (2 ^ 20) generator)"
  using ten_doublings [OF point_10, of "[_, _, _, _, _, _, _, _, _]" pow_20] chain_10 by simp

lemma point_30: "isPoint pow_30 (zmul (2 ^ 30) generator)"
  using ten_doublings [OF point_20, of "[_, _, _, _, _, _, _, _, _]" pow_30] chain_20 by simp

lemma point_40: "isPoint pow_40 (zmul (2 ^ 40) generator)"
  using ten_doublings [OF point_30, of "[_, _, _, _, _, _, _, _, _]" pow_40] chain_30 by simp

lemma point_50: "isPoint pow_50 (zmul (2 ^ 50) generator)"
  using ten_doublings [OF point_40, of "[_, _, _, _, _, _, _, _, _]" pow_50] chain_40 by simp

lemma point_60: "isPoint pow_60 (zmul (2 ^ 60) generator)"
  using ten_doublings [OF point_50, of "[_, _, _, _, _, _, _, _, _]" pow_60] chain_50 by simp

lemma point_70: "isPoint pow_70 (zmul (2 ^ 70) generator)"
  using ten_doublings [OF point_60, of "[_, _, _, _, _, _, _, _, _]" pow_70] chain_60 by simp

lemma point_80: "isPoint pow_80 (zmul (2 ^ 80) generator)"
  using ten_doublings [OF point_70, of "[_, _, _, _, _, _, _, _, _]" pow_80] chain_70 by simp

lemma point_90: "isPoint pow_90 (zmul (2 ^ 90) generator)"
  using ten_doublings [OF point_80, of "[_, _, _, _, _, _, _, _, _]" pow_90] chain_80 by simp

lemma point_100: "isPoint pow_100 (zmul (2 ^ 100) generator)"
  using ten_doublings [OF point_90, of "[_, _, _, _, _, _, _, _, _]" pow_100] chain_90 by simp

lemma point_110: "isPoint pow_110 (zmul (2 ^ 110) generator)"
  using ten_doublings [OF point_100, of "[_, _, _, _, _, _, _, _, _]" pow_110] chain_100 by simp

lemma point_120: "isPoint pow_120 (zmul (2 ^ 120) generator)"
  using ten_doublings [OF point_110, of "[_, _, _, _, _, _, _, _, _]" pow_120] chain_110 by simp

lemma point_130: "isPoint pow_130 (zmul (2 ^ 130) generator)"
  using ten_doublings [OF point_120, of "[_, _, _, _, _, _, _, _, _]" pow_130] chain_120 by simp

lemma point_140: "isPoint pow_140 (zmul (2 ^ 140) generator)"
  using ten_doublings [OF point_130, of "[_, _, _, _, _, _, _, _, _]" pow_140] chain_130 by simp

lemma point_150: "isPoint pow_150 (zmul (2 ^ 150) generator)"
  using ten_doublings [OF point_140, of "[_, _, _, _, _, _, _, _, _]" pow_150] chain_140 by simp

lemma point_160: "isPoint pow_160 (zmul (2 ^ 160) generator)"
  using ten_doublings [OF point_150, of "[_, _, _, _, _, _, _, _, _]" pow_160] chain_150 by simp

lemma point_170: "isPoint pow_170 (zmul (2 ^ 170) generator)"
  using ten_doublings [OF point_160, of "[_, _, _, _, _, _, _, _, _]" pow_170] chain_160 by simp

lemma point_180: "isPoint pow_180 (zmul (2 ^ 180) generator)"
  using ten_doublings [OF point_170, of "[_, _, _, _, _, _, _, _, _]" pow_180] chain_170 by simp

lemma point_190: "isPoint pow_190 (zmul (2 ^ 190) generator)"
  using ten_doublings [OF point_180, of "[_, _, _, _, _, _, _, _, _]" pow_190] chain_180 by simp

lemma point_200: "isPoint pow_200 (zmul (2 ^ 200) generator)"
  using ten_doublings [OF point_190, of "[_, _, _, _, _, _, _, _, _]" pow_200] chain_190 by simp

lemma point_210: "isPoint pow_210 (zmul (2 ^ 210) generator)"
  using ten_doublings [OF point_200, of "[_, _, _, _, _, _, _, _, _]" pow_210] chain_200 by simp

lemma point_220: "isPoint pow_220 (zmul (2 ^ 220) generator)"
  using ten_doublings [OF point_210, of "[_, _, _, _, _, _, _, _, _]" pow_220] chain_210 by simp

lemma point_230: "isPoint pow_230 (zmul (2 ^ 230) generator)"
  using ten_doublings [OF point_220, of "[_, _, _, _, _, _, _, _, _]" pow_230] chain_220 by simp

lemma point_240: "isPoint pow_240 (zmul (2 ^ 240) generator)"
  using ten_doublings [OF point_230, of "[_, _, _, _, _, _, _, _, _]" pow_240] chain_230 by simp

lemmas doublings = point_0 point_10 point_20 point_30 point_40 point_50 point_60 point_70 point_80 point_90 point_100 point_110 point_120 point_130 point_140 point_150 point_160 point_170 point_180 point_190 point_200 point_210 point_220 point_230 point_240

text \<open>The multiple of the generator in entry \<open>u\<close> of block \<open>e\<close>.\<close>

definition combValue :: "nat \<Rightarrow> nat \<Rightarrow> int" where
  "combValue e u = 2 ^ (10 * e) * (1 + of_bool (odd u) * 2 ^ 50 + of_bool (odd (u div 2)) * 2 ^ 100 +
     of_bool (odd (u div 4)) * 2 ^ 150 + of_bool (odd (u div 8)) * 2 ^ 200)"

lemma block_multiples:
  assumes "blockCheck [p4, p3, p2, p1] b" "entryBase p0 (hd (leaves b))" "isPoint p0 (zmul (2 ^ (10 * e)) generator)"
    "isPoint p1 (zmul (2 ^ (10 * e + 50)) generator)" "isPoint p2 (zmul (2 ^ (10 * e + 100)) generator)"
    "isPoint p3 (zmul (2 ^ (10 * e + 150)) generator)" "isPoint p4 (zmul (2 ^ (10 * e + 200)) generator)" "e < 5"
  shows "list_all2 isEntry (leaves b) (map (\<lambda>u. zmul (combValue e u) generator) [0..<16])"
proof -
  let ?zs = "[2 ^ (10 * e + 200), 2 ^ (10 * e + 150), 2 ^ (10 * e + 100), 2 ^ (10 * e + 50)] :: int list"
  have "list_all2 isPoint [p4, p3, p2, p1] (map (\<lambda>z. zmul z generator) ?zs)" using assms(4-7) by simp
  from blockCheck_sound [OF assms(1) this entryBase_sound [OF assms(2,3)]]
  have "list_all2 isEntry (leaves b) (map (\<lambda>z. zmul z generator) (combs ?zs (2 ^ (10 * e))))" by (simp only: combs_zmul)
  moreover have "e \<in> {0, 1, 2, 3, 4}" using assms(8) by auto
  then have "combs ?zs (2 ^ (10 * e)) = map (combValue e) [0..<16]" by (auto simp: combValue_def upt_rec)
  ultimately show ?thesis by (simp only: map_map comp_def)
qed

lemma multiples_0: "list_all2 isEntry (leaves block_0) (map (\<lambda>u. zmul (combValue 0 u) generator) [0..<16])"
  using block_multiples [of pow_200 pow_150 pow_100 pow_50 block_0 pow_0 0] check_0 base_0 doublings by (simp add: block_0_def)

lemma multiples_1: "list_all2 isEntry (leaves block_1) (map (\<lambda>u. zmul (combValue 1 u) generator) [0..<16])"
  using block_multiples [of pow_210 pow_160 pow_110 pow_60 block_1 pow_10 1] check_1 base_1 doublings by (simp add: block_1_def)

lemma multiples_2: "list_all2 isEntry (leaves block_2) (map (\<lambda>u. zmul (combValue 2 u) generator) [0..<16])"
  using block_multiples [of pow_220 pow_170 pow_120 pow_70 block_2 pow_20 2] check_2 base_2 doublings by (simp add: block_2_def)

lemma multiples_3: "list_all2 isEntry (leaves block_3) (map (\<lambda>u. zmul (combValue 3 u) generator) [0..<16])"
  using block_multiples [of pow_230 pow_180 pow_130 pow_80 block_3 pow_30 3] check_3 base_3 doublings by (simp add: block_3_def)

lemma multiples_4: "list_all2 isEntry (leaves block_4) (map (\<lambda>u. zmul (combValue 4 u) generator) [0..<16])"
  using block_multiples [of pow_240 pow_190 pow_140 pow_90 block_4 pow_40 4] check_4 base_4 doublings by (simp add: block_4_def)

end
