(* ===== verification/FourQ_Base_Table.thy ===== *)
theory FourQ_Base_Table
  imports FourQ_Generator
begin

text \<open>
  The words of the fixed-base table are the checked entries, so that every lookup gives a precomputed multiple of the generator; and
  the sums listed in \<open>FourQ_Order\<close> show that the order of the curve annihilates the generator.
\<close>

section \<open>The words of the table\<close>

fun rows :: "u64 list \<Rightarrow> entry list" where
  "rows (w0 # w1 # w2 # w3 # w4 # w5 # w6 # w7 # w8 # w9 # w10 # w11 # ws) =
     ((unat w0 + 2 ^ 64 * unat w1, unat w2 + 2 ^ 64 * unat w3, unat w4 + 2 ^ 64 * unat w5, unat w6 + 2 ^ 64 * unat w7),
      unat w8 + 2 ^ 64 * unat w9, unat w10 + 2 ^ 64 * unat w11) # rows ws"
| "rows ws = []"

definition tableEntries :: "entry list" where
  "tableEntries = leaves block_0 @ leaves block_1 @ leaves block_2 @ leaves block_3 @ leaves block_4"

lemma unat_literal: "(numeral n :: nat) < 0x10000000000000000 \<Longrightarrow> unat (numeral n :: u64) = numeral n"
proof -
  assume n: "(numeral n :: nat) < 0x10000000000000000"
  have "(0x10000000000000000 :: nat) = 2 ^ LENGTH(64)" by simp
  then have "(numeral n :: nat) mod 2 ^ LENGTH(64) = numeral n" using n by (metis mod_less)
  then show ?thesis using unat_of_nat [where 'a = 64, of "numeral n"] by (simp only: of_nat_numeral)
qed

lemma rows_table: "rows FIXED_BASE_TABLE = tableEntries"
  unfolding FIXED_BASE_TABLE_def rows.simps tableEntries_def block_0_def block_1_def block_2_def block_3_def block_4_def leaves.simps append.simps
    entry_0_def entry_1_def entry_2_def entry_3_def entry_4_def entry_5_def entry_6_def entry_7_def entry_8_def entry_9_def entry_10_def entry_11_def entry_12_def entry_13_def entry_14_def entry_15_def
    entry_16_def entry_17_def entry_18_def entry_19_def entry_20_def entry_21_def entry_22_def entry_23_def entry_24_def entry_25_def entry_26_def entry_27_def entry_28_def entry_29_def entry_30_def entry_31_def
    entry_32_def entry_33_def entry_34_def entry_35_def entry_36_def entry_37_def entry_38_def entry_39_def entry_40_def entry_41_def entry_42_def entry_43_def entry_44_def entry_45_def entry_46_def entry_47_def
    entry_48_def entry_49_def entry_50_def entry_51_def entry_52_def entry_53_def entry_54_def entry_55_def entry_56_def entry_57_def entry_58_def entry_59_def entry_60_def entry_61_def entry_62_def entry_63_def
    entry_64_def entry_65_def entry_66_def entry_67_def entry_68_def entry_69_def entry_70_def entry_71_def entry_72_def entry_73_def entry_74_def entry_75_def entry_76_def entry_77_def entry_78_def entry_79_def
  by (simp only: unat_literal rel_simps, simp)

definition rowAt :: "u64 list \<Rightarrow> nat \<Rightarrow> entry" where
  "rowAt ws i = ((unat (ws ! i) + 2 ^ 64 * unat (ws ! (i + 1)), unat (ws ! (i + 2)) + 2 ^ 64 * unat (ws ! (i + 3)),
      unat (ws ! (i + 4)) + 2 ^ 64 * unat (ws ! (i + 5)), unat (ws ! (i + 6)) + 2 ^ 64 * unat (ws ! (i + 7))),
     unat (ws ! (i + 8)) + 2 ^ 64 * unat (ws ! (i + 9)), unat (ws ! (i + 10)) + 2 ^ 64 * unat (ws ! (i + 11)))"

lemma rows_nth: "12 * j + 12 \<le> length ws \<Longrightarrow> rows ws ! j = rowAt ws (12 * j)"
proof (induction ws arbitrary: j rule: rows.induct)
  case (1 w0 w1 w2 w3 w4 w5 w6 w7 w8 w9 w10 w11 ws)
  show ?case
  proof (cases j)
    case 0
    then show ?thesis by (simp add: rowAt_def)
  next
    case (Suc k)
    have "rows ws ! k = rowAt ws (12 * k)" using 1 by (simp add: Suc)
    moreover have "rowAt (w0 # w1 # w2 # w3 # w4 # w5 # w6 # w7 # w8 # w9 # w10 # w11 # ws) (12 * Suc k) = rowAt ws (12 * k)"
      by (simp add: rowAt_def add.commute)
    ultimately show ?thesis by (simp add: Suc)
  qed
qed simp_all

lemma length_leaves:
  "length (leaves block_0) = 16" "length (leaves block_1) = 16" "length (leaves block_2) = 16" "length (leaves block_3) = 16"
  "length (leaves block_4) = 16"
  by (simp_all add: block_0_def block_1_def block_2_def block_3_def block_4_def)

lemma tableEntries_multiples:
  assumes "e < 5" "u < 16"
  shows "isEntry (tableEntries ! (16 * e + u)) (zmul (combValue e u) generator)"
proof -
  have "e \<in> {0, 1, 2, 3, 4}" using assms(1) by auto
  then show ?thesis
    using multiples_0 [THEN list_all2_nthD, of u] multiples_1 [THEN list_all2_nthD, of u] multiples_2 [THEN list_all2_nthD, of u]
      multiples_3 [THEN list_all2_nthD, of u] multiples_4 [THEN list_all2_nthD, of u] assms(2)
    by (auto simp: tableEntries_def nth_append length_leaves)
qed

definition entryBound :: "entry \<Rightarrow> bool" where
  "entryBound = (\<lambda>((a, b, c, d), e, f). a < 2 ^ 127 \<and> b < 2 ^ 127 \<and> c < 2 ^ 127 \<and> d < 2 ^ 127 \<and> e < 2 ^ 127 \<and> f < 2 ^ 127)"

lemma entries_bound: "list_all entryBound tableEntries"
  unfolding tableEntries_def block_0_def block_1_def block_2_def block_3_def block_4_def leaves.simps append.simps list.pred_inject
    entry_0_def entry_1_def entry_2_def entry_3_def entry_4_def entry_5_def entry_6_def entry_7_def entry_8_def entry_9_def entry_10_def entry_11_def entry_12_def entry_13_def entry_14_def entry_15_def
    entry_16_def entry_17_def entry_18_def entry_19_def entry_20_def entry_21_def entry_22_def entry_23_def entry_24_def entry_25_def entry_26_def entry_27_def entry_28_def entry_29_def entry_30_def entry_31_def
    entry_32_def entry_33_def entry_34_def entry_35_def entry_36_def entry_37_def entry_38_def entry_39_def entry_40_def entry_41_def entry_42_def entry_43_def entry_44_def entry_45_def entry_46_def entry_47_def
    entry_48_def entry_49_def entry_50_def entry_51_def entry_52_def entry_53_def entry_54_def entry_55_def entry_56_def entry_57_def entry_58_def entry_59_def entry_60_def entry_61_def entry_62_def entry_63_def
    entry_64_def entry_65_def entry_66_def entry_67_def entry_68_def entry_69_def entry_70_def entry_71_def entry_72_def entry_73_def entry_74_def entry_75_def entry_76_def entry_77_def entry_78_def entry_79_def
  by (simp add: entryBound_def)

text \<open>The three components of entry \<open>j\<close>.\<close>

lemma table_element:
  assumes "j < 80" "isEntry (tableEntries ! j) g"
  shows "precomputes \<lparr>pq_xy = tableElement (12 * j), pq_yx = tableElement (12 * j + 4), pq_t2 = tableElement (12 * j + 8)\<rparr> (px g) (py g)"
proof -
  have r: "tableEntries ! j = rowAt FIXED_BASE_TABLE (12 * j)"
    using rows_nth [of j FIXED_BASE_TABLE] assms(1) by (simp add: rows_table length_FIXED_BASE_TABLE)
  have l: "length tableEntries = 80" by (simp add: tableEntries_def length_leaves)
  have "entryBound (tableEntries ! j)" using entries_bound assms(1) l by (simp add: list_all_length)
  then show ?thesis
    using assms(2) unfolding r
    by (simp add: precomputes_def isEntry_def rowAt_def entryBound_def f2elm_ok_def felm_ok_def tableElement_def fp2v_def fpv_def fval_def
        pA_def pB_def pT_def pv_def ofv_fnum add_ac)
qed

lemma lookup_negative: "sg \<noteq> 0 \<Longrightarrow> table_lookup_fixed_base digit sg = eccneg_precomp (table_lookup_fixed_base digit 0)"
  by (simp add: table_lookup_fixed_base_def eccneg_precomp_def fp2neg1271_def fpneg1271_def Let_def)

lemma lookup_precomputes:
  assumes "e < 5" "u < 16" "unat digit = 16 * e + u" "m = sgn_of sg * combValue e u"
  shows "precomputes (table_lookup_fixed_base digit sg) (px (zmul m generator)) (py (zmul m generator))"
proof -
  let ?g = "zmul (combValue e u) generator"
  have p: "precomputes (table_lookup_fixed_base digit 0) (px ?g) (py ?g)"
    using table_element [OF _ tableEntries_multiples [OF assms(1,2)]] assms(1-3) by (simp add: table_lookup_fixed_base_def Let_def)
  show ?thesis
  proof (cases "sg = 0")
    case True
    then show ?thesis using p assms(4) by (simp add: sgn_of_def)
  next
    case False
    then show ?thesis
      using eccneg_precomp_precomputes [OF p] assms(4) by (simp add: lookup_negative sgn_of_def zmul_minus fourq_uminus_coordinates)
  qed
qed

section \<open>The order of the generator\<close>

lemma sumCheck_sound:
  "sumCheck p ss \<Longrightarrow> isPoint p (zmul n generator) \<Longrightarrow> list_all2 (\<lambda>(neg, e, q) m. isEntry e (zmul m generator)) ss ms \<Longrightarrow>
   isPoint (last (p # map (\<lambda>(neg, e, q). q) ss)) (zmul (n + (\<Sum>((neg, e, q), m)\<leftarrow>zip ss ms. if neg then - m else m)) generator)"
proof (induction p ss arbitrary: n ms rule: sumCheck.induct)
  case (2 p neg e q ss)
  from "2.prems"(3) obtain m ms' where ms: "ms = m # ms'" "isEntry e (zmul m generator)"
      "list_all2 (\<lambda>(neg, e, q) m. isEntry e (zmul m generator)) ss ms'"
    by (auto simp: list_all2_Cons1)
  have "isPoint q (zmul n generator + (if neg then - zmul m generator else zmul m generator))"
    using sumStep_sound [OF _ "2.prems"(2) ms(2)] "2.prems"(1) by (simp only: sumCheck.simps)
  then have q: "isPoint q (zmul (n + (if neg then - m else m)) generator)" by (simp only: zmul_add zmul_minus if_distrib [of "\<lambda>z. zmul z generator"])
  have "sumCheck q ss" using "2.prems"(1) by (simp only: sumCheck.simps)
  from "2.IH" [OF this q ms(3)] show ?case by (simp add: ms(1) add.assoc)
qed simp

lemma doubled_point: "isPoint p (zmul n generator) \<Longrightarrow> chain [p, q] \<Longrightarrow> isPoint q (zmul (2 * n) generator)"
  using dbl1_sound [of p q "zmul n generator"] by (simp only: chain.simps mult_2 zmul_add)

lemmas block_defs = block_0_def block_1_def block_2_def block_3_def block_4_def

lemma entry_value:
  assumes "tableEntries ! (16 * e + u) = E" "e < 5" "u < 16" "m = combValue e u"
  shows "isEntry E (zmul m generator)"
  using tableEntries_multiples [OF assms(2,3)] assms(1,4) by simp

lemma value_0: "isEntry entry_0 (zmul 1 generator)"
  by (rule entry_value [of 0 0]) (simp_all add: tableEntries_def block_defs combValue_def)

lemma value_1: "isEntry entry_1 (zmul 1125899906842625 generator)"
  by (rule entry_value [of 0 1]) (simp_all add: tableEntries_def block_defs combValue_def)

lemma value_3: "isEntry entry_3 (zmul 1267650600228230527396610048001 generator)"
  by (rule entry_value [of 0 3]) (simp_all add: tableEntries_def block_defs combValue_def)

lemma value_5: "isEntry entry_5 (zmul 1427247692705959881058285969450621036289589249 generator)"
  by (rule entry_value [of 0 5]) (simp_all add: tableEntries_def block_defs combValue_def)

lemma value_6: "isEntry entry_6 (zmul 1427247692705961148708886197678896633085952001 generator)"
  by (rule entry_value [of 0 6]) (simp_all add: tableEntries_def block_defs combValue_def)

lemma value_10: "isEntry entry_10 (zmul 1606938044258990275541962092342430253122431223184289538506753 generator)"
  by (rule entry_value [of 0 10]) (simp_all add: tableEntries_def block_defs combValue_def)

lemma value_12: "isEntry entry_12 (zmul 1606938044258991702789654798301043660808172443277929218048001 generator)"
  by (rule entry_value [of 0 12]) (simp_all add: tableEntries_def block_defs combValue_def)

lemma value_15: "isEntry entry_15 (zmul 1606938044258991702789654798302311311408400673805325828096001 generator)"
  by (rule entry_value [of 0 15]) (simp_all add: tableEntries_def block_defs combValue_def)

lemma value_17: "isEntry entry_17 (zmul 1152921504606848000 generator)"
  by (rule entry_value [of 1 1]) (simp_all add: tableEntries_def block_defs combValue_def)

lemma value_20: "isEntry entry_20 (zmul 1461501637330902918203684832716283019655932544000 generator)"
  by (rule entry_value [of 1 4]) (simp_all add: tableEntries_def block_defs combValue_def)

lemma value_23: "isEntry entry_23 (zmul 1461501637330904216277899466424343073784621696000 generator)"
  by (rule entry_value [of 1 7]) (simp_all add: tableEntries_def block_defs combValue_def)

lemma value_25: "isEntry entry_25 (zmul 1645504557321206042154969182557350504982735866786501367955457024 generator)"
  by (rule entry_value [of 1 9]) (simp_all add: tableEntries_def block_defs combValue_def)

lemma value_29: "isEntry entry_29 (zmul 1645504557321207503656606513460268708667568583069521023888000000 generator)"
  by (rule entry_value [of 1 13]) (simp_all add: tableEntries_def block_defs combValue_def)

lemma value_31: "isEntry entry_31 (zmul 1645504557321207503656606513461566782882202289976653647970305024 generator)"
  by (rule entry_value [of 1 15]) (simp_all add: tableEntries_def block_defs combValue_def)

lemma value_32: "isEntry entry_32 (zmul 1048576 generator)"
  by (rule entry_value [of 2 0]) (simp_all add: tableEntries_def block_defs combValue_def)

lemma value_36: "isEntry entry_36 (zmul 1496577676626844588240573268701473812127674925056000 generator)"
  by (rule entry_value [of 2 4]) (simp_all add: tableEntries_def block_defs combValue_def)

lemma value_37: "isEntry entry_37 (zmul 1496577676626844588240573268702654403748392336359424 generator)"
  by (rule entry_value [of 2 5]) (simp_all add: tableEntries_def block_defs combValue_def)

lemma value_39: "isEntry entry_39 (zmul 1496577676626845917468569053618527307555452616704000 generator)"
  by (rule entry_value [of 2 7]) (simp_all add: tableEntries_def block_defs combValue_def)

lemma value_40: "isEntry entry_40 (zmul 1684996666696914987166688442938726917102321526408785780068976689152 generator)"
  by (rule entry_value [of 2 8]) (simp_all add: tableEntries_def block_defs combValue_def)

lemma value_45: "isEntry entry_45 (zmul 1684996666696916483744365069783315157675590229063189528461312000000 generator)"
  by (rule entry_value [of 2 13]) (simp_all add: tableEntries_def block_defs combValue_def)

lemma value_50: "isEntry entry_50 (zmul 1361129467683753853853498429728146587648 generator)"
  by (rule entry_value [of 3 2]) (simp_all add: tableEntries_def block_defs combValue_def)

lemma value_51: "isEntry entry_51 (zmul 1361129467683755062779318044357321293824 generator)"
  by (rule entry_value [of 3 3]) (simp_all add: tableEntries_def block_defs combValue_def)

lemma value_52: "isEntry entry_52 (zmul 1532495540865888858358347027150309183618739123257344000 generator)"
  by (rule entry_value [of 3 4]) (simp_all add: tableEntries_def block_defs combValue_def)

lemma value_57: "isEntry entry_57 (zmul 1725436586697640946858688965569256363112777244251522458405261304397824 generator)"
  by (rule entry_value [of 3 9]) (simp_all add: tableEntries_def block_defs combValue_def)

lemma value_58: "isEntry entry_58 (zmul 1725436586697640946858688965570617492580460996896450137220359202537472 generator)"
  by (rule entry_value [of 3 10]) (simp_all add: tableEntries_def block_defs combValue_def)

lemma value_59: "isEntry entry_59 (zmul 1725436586697640946858688965570617492580460998105375956834988377243648 generator)"
  by (rule entry_value [of 3 11]) (simp_all add: tableEntries_def block_defs combValue_def)

lemma value_63: "isEntry entry_63 (zmul 1725436586697642479354229831459475850927488148414559575574110560845824 generator)"
  by (rule entry_value [of 3 15]) (simp_all add: tableEntries_def block_defs combValue_def)

lemma value_64: "isEntry entry_64 (zmul 1099511627776 generator)"
  by (rule entry_value [of 4 0]) (simp_all add: tableEntries_def block_defs combValue_def)

lemma value_65: "isEntry entry_65 (zmul 1237940039285381374410752000 generator)"
  by (rule entry_value [of 4 1]) (simp_all add: tableEntries_def block_defs combValue_def)

lemma value_68: "isEntry entry_68 (zmul 1569275433846670190958947355801916604025588862215520256000 generator)"
  by (rule entry_value [of 4 4]) (simp_all add: tableEntries_def block_defs combValue_def)

lemma value_70: "isEntry entry_70 (zmul 1569275433846671584755522263965862950007980902738114379776 generator)"
  by (rule entry_value [of 4 6]) (simp_all add: tableEntries_def block_defs combValue_def)

lemma value_72: "isEntry entry_72 (zmul 1766847064778384329583297500742918515827483896875618958121607300804247552 generator)"
  by (rule entry_value [of 4 8]) (simp_all add: tableEntries_def block_defs combValue_def)

lemma value_74: "isEntry entry_74 (zmul 1766847064778384329583297500744312312402392060821964940513647823398371328 generator)"
  by (rule entry_value [of 4 10]) (simp_all add: tableEntries_def block_defs combValue_def)

lemma value_76: "isEntry entry_76 (zmul 1766847064778385898858731347413109474774839698792222983710468416812875776 generator)"
  by (rule entry_value [of 4 12]) (simp_all add: tableEntries_def block_defs combValue_def)

lemma start_point: "isPoint order_start (zmul 1569275433846670190958947355801916604025588862215520256000 generator)"
proof -
  have "isEntry entry_68 (zmul 1569275433846670190958947355801916604025588862215520256000 generator)" by (rule value_68)
  then have e: "pv (pA entry_68) = px (zmul 1569275433846670190958947355801916604025588862215520256000 generator) + py (zmul 1569275433846670190958947355801916604025588862215520256000 generator)" "pv (pB entry_68) = py (zmul 1569275433846670190958947355801916604025588862215520256000 generator) - px (zmul 1569275433846670190958947355801916604025588862215520256000 generator)"
    by (simp_all add: isEntry_def)
  have "peq (pA entry_68) (padd (pX order_start) (pY order_start))" "peq (pB entry_68) (psub (pY order_start) (pX order_start))"
    using start_entry by (simp_all only: entryBase_def)
  note this [THEN pv_peq, unfolded pv_ops e]
  then have "2 * pv (pX order_start) = 2 * px (zmul 1569275433846670190958947355801916604025588862215520256000 generator)" "2 * pv (pY order_start) = 2 * py (zmul 1569275433846670190958947355801916604025588862215520256000 generator)" by algebra+
  then show ?thesis unfolding isPoint_def using cancel_2 by blast
qed

lemma column_point_9: "isPoint column_9 (zmul (1608507321189416049606098533657730875967947174572744640562177) generator)"
  using sumCheck_sound [OF sum_9 start_point, of "[1361129467683755062779318044357321293824, 1496577676626845917468569053618527307555452616704000, 1152921504606848000, 1606938044258991702789654798301043660808172443277929218048001]"] by (simp add: value_51 value_39 value_17 value_12)

lemma double_point_8: "isPoint double_8 (zmul (3217014642378832099212197067315461751935894349145489281124354) generator)"
  using doubled_point [OF column_point_9 doubled_8] by simp

lemma column_point_8: "isPoint column_8 (zmul (-1642287544212820790099910019340838921549277053058373857359952895) generator)"
  using sumCheck_sound [OF sum_8 double_point_8, of "[1099511627776, 1532495540865888858358347027150309183618739123257344000, 1496577676626844588240573268701473812127674925056000, 1645504557321207503656606513461566782882202289976653647970305024, 1]"] by (simp add: value_64 value_52 value_36 value_31 value_0 [unfolded zmul_1])

lemma double_point_7: "isPoint double_7 (zmul (-3284575088425641580199820038681677843098554106116747714719905790) generator)"
  using doubled_point [OF column_point_8 doubled_7] by simp

lemma column_point_7: "isPoint column_7 (zmul (-1725438225768172051292765508784142713989596665822012470954324353086463) generator)"
  using sumCheck_sound [OF sum_7 double_point_7, of "[1237940039285381374410752000, 1725436586697640946858688965570617492580460996896450137220359202537472, 1048576, 1645504557321207503656606513460268708667568583069521023888000000, 1125899906842625]"] by (simp add: value_65 value_58 value_32 value_29 value_1)

lemma double_point_6: "isPoint double_6 (zmul (-3450876451536344102585531017568285427979193331644024941908648706172926) generator)"
  using doubled_point [OF column_point_7 doubled_6] by simp

lemma column_point_6: "isPoint column_6 (zmul (-5176311392730997005168600749133629096981803204087174130464794394747901) generator)"
  using sumCheck_sound [OF sum_6 double_point_6, of "[1569275433846671584755522263965862950007980902738114379776, 1725436586697640946858688965570617492580460996896450137220359202537472, 1496577676626845917468569053618527307555452616704000, 1645504557321206042154969182557350504982735866786501367955457024, 1427247692705959881058285969450621036289589249]"] by (simp add: value_70 value_58 value_39 value_25 value_5)

lemma double_point_5: "isPoint double_5 (zmul (-10352622785461994010337201498267258193963606408174348260929588789495802) generator)"
  using doubled_point [OF column_point_6 doubled_5] by simp

lemma column_point_5: "isPoint column_5 (zmul (1754769003760721706581825993898176955154373576516320815283993589771678727) generator)"
  using sumCheck_sound [OF sum_5 double_point_5, of "[1766847064778385898858731347413109474774839698792222983710468416812875776, 1725436586697640946858688965570617492580460996896450137220359202537472, 1496577676626845917468569053618527307555452616704000, 1645504557321206042154969182557350504982735866786501367955457024, 1427247692705959881058285969450621036289589249]"] by (simp add: value_76 value_58 value_39 value_25 value_5)

lemma double_point_4: "isPoint double_4 (zmul (3509538007521443413163651987796353910308747153032641630567987179543357454) generator)"
  using doubled_point [OF column_point_5 doubled_4] by simp

lemma column_point_4: "isPoint column_4 (zmul (3511265129106413119794324449984603493282109429431910506678565003137674255) generator)"
  using sumCheck_sound [OF sum_4 double_point_4, of "[1569275433846670190958947355801916604025588862215520256000, 1725436586697640946858688965570617492580460998105375956834988377243648, 1684996666696914987166688442938726917102321526408785780068976689152, 1461501637330902918203684832716283019655932544000, 1606938044258991702789654798302311311408400673805325828096001]"] by (simp add: value_68 value_59 value_40 value_20 value_15)

lemma double_point_3: "isPoint double_3 (zmul (7022530258212826239588648899969206986564218858863821013357130006275348510) generator)"
  using doubled_point [OF column_point_4 doubled_3] by simp

lemma column_point_3: "isPoint column_3 (zmul (8789379006340765770722963651145048171282418901948198166966857559029371933) generator)"
  using sumCheck_sound [OF sum_3 double_point_3, of "[1766847064778384329583297500742918515827483896875618958121607300804247552, 1361129467683753853853498429728146587648, 1684996666696916483744365069783315157675590229063189528461312000000, 1645504557321207503656606513461566782882202289976653647970305024, 1606938044258990275541962092342430253122431223184289538506753]"] by (simp add: value_72 value_50 value_45 value_31 value_10)

lemma double_point_2: "isPoint double_2 (zmul (17578758012681531541445927302290096342564837803896396333933715118058743866) generator)"
  using doubled_point [OF column_point_3 doubled_2] by simp

lemma column_point_2: "isPoint column_2 (zmul (17578756327684863276786503790619087127756453807989805776200462383252087865) generator)"
  using sumCheck_sound [OF sum_2 double_point_2, of "[1569275433846670190958947355801916604025588862215520256000, 1532495540865888858358347027150309183618739123257344000, 1684996666696916483744365069783315157675590229063189528461312000000, 1461501637330904216277899466424343073784621696000, 1267650600228230527396610048001]"] by (simp add: value_68 value_52 value_45 value_23 value_3)

lemma double_point_1: "isPoint double_1 (zmul (35157512655369726553573007581238174255512907615979611552400924766504175730) generator)"
  using doubled_point [OF column_point_2 doubled_1] by simp

lemma column_point_1: "isPoint column_1 (zmul (36922634281917515622933994458739727297478459807819267214233672626264556659) generator)"
  using sumCheck_sound [OF sum_1 double_point_1, of "[1766847064778384329583297500744312312402392060821964940513647823398371328, 1725436586697640946858688965569256363112777244251522458405261304397824, 1496577676626844588240573268702654403748392336359424, 1645504557321207503656606513460268708667568583069521023888000000, 1606938044258991702789654798301043660808172443277929218048001]"] by (simp add: value_74 value_57 value_37 value_29 value_12)

lemma double_point_0: "isPoint double_0 (zmul (73845268563835031245867988917479454594956919615638534428467345252529113318) generator)"
  using doubled_point [OF column_point_1 doubled_0] by simp

lemma column_point_0: "isPoint column_0 (zmul (73846995687063900142583536357581573884798075859800097461294096333596429543) generator)"
  using sumCheck_sound [OF sum_0 double_point_0, of "[1099511627776, 1725436586697642479354229831459475850927488148414559575574110560845824, 1684996666696914987166688442938726917102321526408785780068976689152, 1645504557321206042154969182557350504982735866786501367955457024, 1427247692705961148708886197678896633085952001]"] by (simp add: value_64 value_63 value_40 value_25 value_6)

lemma order_generator: "zmul (int (val256 curve_order)) generator = 0"
proof -
  have "int (val256 curve_order) = 73846995687063900142583536357581573884798075859800097461294096333596429543" by (simp add: curve_order_def)
  then have p: "isPoint column_0 (zmul (int (val256 curve_order)) generator)" using column_point_0 by (simp only:)
  have "pv (pX column_0) = 0" "pv (pY column_0) = 1"
    by (simp_all add: column_0_def pX_def pY_def pv_def ofv_fnum zero_gfp2_def one_gfp2_def)
  then show ?thesis using p by (intro fourq_eqI) (simp_all add: isPoint_def fourq_zero_coordinates)
qed

end
