(* ===== verification/FourQ_Comb.thy ===== *)
theory FourQ_Comb
  imports FourQ_Base_Table
begin

text \<open>
  The multiplication of the generator in \<open>dispatcher/src/crypto/k12_and_key_utils.h\<close> computes the multiple: the comb over the
  recoded digits, the checked table and the order of the generator together.
\<close>

section \<open>The digits\<close>

lemma recodeDigits_bits: "set (recodeDigits signs i n s) \<subseteq> {0, 1}"
proof (induction n arbitrary: i s)
  case (Suc n)
  have "unat (ucast (fst s AND 1) :: u32) < 2" unfolding unat_digit by simp
  then have "(ucast (fst s AND 1) :: u32) \<in> {0, 1}" by (auto simp: word_unat_eq_iff less_2_cases_iff)
  then show ?case using Suc.IH by (simp add: Let_def)
qed simp

lemma recode_digits:
  "set (take 50 (recode k)) \<subseteq> {0, - 1}" "recode k ! 49 = 0" "set (drop 50 (recode k)) \<subseteq> {0, 1}"
proof -
  obtain ds rest where ds: "recodeSigns 49 (shr256 (makeOdd (reduceScalar k))) = (ds, rest)" by (meson surj_pair)
  note s = recodeSigns_value [OF ds]
  have r: "recode k = (ds @ [0]) @ recodeDigits (ds @ [0]) 50 200 rest" by (simp add: recode_def ds Let_def)
  show "set (take 50 (recode k)) \<subseteq> {0, - 1}" "recode k ! 49 = 0" "set (drop 50 (recode k)) \<subseteq> {0, 1}"
    unfolding r using s recodeDigits_bits [of "ds @ [0]" 50 200 rest] by (simp_all add: nth_append)
qed

text \<open>The column of digits that selects an entry.\<close>

definition columnIndex :: "u32 list \<Rightarrow> nat \<Rightarrow> nat \<Rightarrow> nat" where
  "columnIndex ds e t = unat (ds ! (50 + 10 * e + t)) + 2 * unat (ds ! (100 + 10 * e + t)) + 4 * unat (ds ! (150 + 10 * e + t)) +
     8 * unat (ds ! (200 + 10 * e + t))"

definition columnValue :: "u32 list \<Rightarrow> nat \<Rightarrow> nat \<Rightarrow> int" where
  "columnValue ds e t = sgn_of (ds ! (10 * e + t)) * combValue e (columnIndex ds e t)"

lemma bit_digit:
  assumes "length ds = 250" "set (drop 50 ds) \<subseteq> {0, 1}" "50 \<le> i" "i < 250"
  shows "ds ! i = 0 \<or> ds ! i = 1"
proof -
  have "drop 50 ds ! (i - 50) \<in> set (drop 50 ds)" by (rule nth_mem) (use assms in simp)
  then show ?thesis using assms by auto
qed

lemma index_of_bits:
  fixes a b c d :: u32
  assumes "a = 0 \<or> a = 1" "b = 0 \<or> b = 1" "c = 0 \<or> c = 1" "d = 0 \<or> d = 1" "e = 0 \<or> e = 1 \<or> e = 2 \<or> e = 3 \<or> e = 4"
  shows "unat (of_nat (16 * e) + push_bit 1 (push_bit 1 (push_bit 1 d + c) + b) + a) = 16 * e + (unat a + 2 * unat b + 4 * unat c + 8 * unat d)"
  using assms by (elim disjE; simp)

lemma value_of_bits:
  fixes a b c d :: u32
  assumes "a = 0 \<or> a = 1" "b = 0 \<or> b = 1" "c = 0 \<or> c = 1" "d = 0 \<or> d = 1"
  shows "combValue e (unat a + 2 * unat b + 4 * unat c + 8 * unat d) = 2 ^ (10 * e) * (1 + int (unat a) * 2 ^ 50 +
       int (unat b) * 2 ^ 100 + int (unat c) * 2 ^ 150 + int (unat d) * 2 ^ 200)"
    "unat a + 2 * unat b + 4 * unat c + 8 * unat d < 16"
  unfolding combValue_def using assms by (elim disjE; simp)+

lemma combValue_column:
  assumes "length ds = 250" "set (drop 50 ds) \<subseteq> {0, 1}" "e < 5" "t < 10"
  shows "columnIndex ds e t < 16" "unat (tableIndex ds e t) = 16 * e + columnIndex ds e t"
    "combValue e (columnIndex ds e t) = 2 ^ (10 * e) * (1 + int (unat (ds ! (50 + 10 * e + t))) * 2 ^ 50 +
       int (unat (ds ! (100 + 10 * e + t))) * 2 ^ 100 + int (unat (ds ! (150 + 10 * e + t))) * 2 ^ 150 +
       int (unat (ds ! (200 + 10 * e + t))) * 2 ^ 200)"
proof -
  have bits: "ds ! (50 + 10 * e + t) = 0 \<or> ds ! (50 + 10 * e + t) = 1" "ds ! (100 + 10 * e + t) = 0 \<or> ds ! (100 + 10 * e + t) = 1"
      "ds ! (150 + 10 * e + t) = 0 \<or> ds ! (150 + 10 * e + t) = 1" "ds ! (200 + 10 * e + t) = 0 \<or> ds ! (200 + 10 * e + t) = 1"
    using assms(3,4) by (intro bit_digit [OF assms(1,2)]; simp)+
  have e: "e = 0 \<or> e = 1 \<or> e = 2 \<or> e = 3 \<or> e = 4" using assms(3) by auto
  show "columnIndex ds e t < 16" unfolding columnIndex_def by (rule value_of_bits(2) [OF bits])
  show "unat (tableIndex ds e t) = 16 * e + columnIndex ds e t"
    unfolding columnIndex_def tableIndex_def by (rule index_of_bits [OF bits e])
  show "combValue e (columnIndex ds e t) = 2 ^ (10 * e) * (1 + int (unat (ds ! (50 + 10 * e + t))) * 2 ^ 50 +
       int (unat (ds ! (100 + 10 * e + t))) * 2 ^ 100 + int (unat (ds ! (150 + 10 * e + t))) * 2 ^ 150 +
       int (unat (ds ! (200 + 10 * e + t))) * 2 ^ 200)"
    unfolding columnIndex_def by (rule value_of_bits(1) [OF bits])
qed

section \<open>The value of the digits by columns\<close>

lemma sum_shift_add: "(\<Sum>j<m + n. g j) = (\<Sum>j<m. g j) + (\<Sum>i<n. g (m + i) :: 'a :: comm_monoid_add)" for n :: nat
  by (induction n) (simp_all add: add.assoc)

lemma sum_blocks: "(\<Sum>j<k * n. g j) = (\<Sum>b<k. \<Sum>i<n. g (b * n + i) :: 'a :: comm_monoid_add)" for k :: nat
proof (induction k)
  case (Suc k)
  have "(\<Sum>j<Suc k * n. g j) = (\<Sum>j<k * n. g j) + (\<Sum>i<n. g (k * n + i))"
    using sum_shift_add [of g "k * n" n] by (simp only: mult_Suc add.commute)
  then show ?case by (simp add: Suc.IH)
qed simp

definition columnTerm :: "u32 list \<Rightarrow> nat \<Rightarrow> int" where
  "columnTerm ds i = sgn_of (ds ! i) * 2 ^ i * (1 + int (unat (ds ! (50 + i))) * 2 ^ 50 + int (unat (ds ! (100 + i))) * 2 ^ 100 +
     int (unat (ds ! (150 + i))) * 2 ^ 150 + int (unat (ds ! (200 + i))) * 2 ^ 200)"

lemma digitsValue_terms:
  assumes "length ds = 250"
  shows "digitsValue ds = (\<Sum>i<50. columnTerm ds i)"
proof -
  let ?f = "\<lambda>i. sgn_of (ds ! i)" and ?d = "\<lambda>j. int (unat (ds ! j))"
  have s: "signValue (take 50 ds) = (\<Sum>i<50. ?f i * 2 ^ i)" using assms by (simp add: signValue_def)
  have m: "(50 + j) mod 50 = j mod 50" for j :: nat by simp
  have l: "length (drop 50 ds) = 4 * 50" using assms by simp
  have n: "take 50 ds ! (j mod 50) = ds ! (j mod 50)" "drop 50 ds ! j = ds ! (50 + j)" for j using assms by simp_all
  have "digitValue (take 50 ds) 50 (drop 50 ds) = (\<Sum>j<4 * 50. ?f (j mod 50) * ?d (50 + j) * 2 ^ j)"
    unfolding digitValue_def l m n ..
  also have "\<dots> = (\<Sum>b<4. \<Sum>i<50. ?f ((b * 50 + i) mod 50) * ?d (50 + (b * 50 + i)) * 2 ^ (b * 50 + i))" by (rule sum_blocks)
  also have "\<dots> = (\<Sum>b<4. \<Sum>i<50. ?f i * ?d (50 + (b * 50 + i)) * 2 ^ (b * 50 + i))"
    by (intro sum.cong refl) simp
  also have "\<dots> = (\<Sum>i<50. \<Sum>b<4. ?f i * ?d (50 + (b * 50 + i)) * 2 ^ (b * 50 + i))" by (rule sum.swap)
  finally have d: "digitValue (take 50 ds) 50 (drop 50 ds) = (\<Sum>i<50. \<Sum>b<4. ?f i * ?d (50 + (b * 50 + i)) * 2 ^ (b * 50 + i))" .
  have t: "?f i * 2 ^ i + 2 ^ 50 * (\<Sum>b<4. ?f i * ?d (50 + (b * 50 + i)) * 2 ^ (b * 50 + i)) = columnTerm ds i" for i
  proof -
    have "{..<4 :: nat} = {0, 1, 2, 3}" by auto
    then show ?thesis by (simp add: columnTerm_def power_add algebra_simps)
  qed
  show ?thesis unfolding digitsValue_def s d by (simp only: sum_distrib_left sum.distrib [symmetric] t [unfolded sum_distrib_left])
qed

lemma digitsValue_columns:
  assumes "length ds = 250" "set (drop 50 ds) \<subseteq> {0, 1}"
  shows "digitsValue ds = (\<Sum>t<10. 2 ^ t * (\<Sum>e<5. columnValue ds e t))"
proof -
  have c: "columnTerm ds (e * 10 + t) = 2 ^ t * columnValue ds e t" if "e < 5" "t < 10" for e t
    unfolding columnValue_def combValue_column(3) [OF assms that] columnTerm_def
    by (simp add: power_add mult_ac add_ac)
  have "digitsValue ds = (\<Sum>i<5 * 10. columnTerm ds i)" unfolding digitsValue_terms [OF assms(1)] by simp
  also have "\<dots> = (\<Sum>e<5. \<Sum>t<10. columnTerm ds (e * 10 + t))" by (rule sum_blocks)
  also have "\<dots> = (\<Sum>e<5. \<Sum>t<10. 2 ^ t * columnValue ds e t)" by (intro sum.cong refl c) simp_all
  also have "\<dots> = (\<Sum>t<10. \<Sum>e<5. 2 ^ t * columnValue ds e t)" by (rule sum.swap)
  finally show ?thesis by (simp only: sum_distrib_left)
qed

section \<open>The loop\<close>

lemma fixedStep_stands:
  assumes "length ds = 250" "set (drop 50 ds) \<subseteq> {0, 1}" "e < 5" "t < 10" "stands R p"
  shows "stands (fixedStep ds t e R) (p + zmul (columnValue ds e t) generator)"
  unfolding fixedStep_def
  by (rule eccmadd_stands [OF assms(5) lookup_precomputes [OF assms(3) combValue_column(1,2) [OF assms(1-4)] columnValue_def]])

lemma stands_precomputed:
  assumes "precomputes S (px g) (py g)"
  defines "x \<equiv> fp2div1271 (fp2sub1271 (pq_xy S) (pq_yx S))" and "y \<equiv> fp2div1271 (fp2add1271 (pq_xy S) (pq_yx S))"
  shows "stands \<lparr>pe_x = x, pe_y = y, pe_z = f2elm_one, pe_ta = x, pe_tb = y\<rparr> g"
proof -
  have ok: "f2elm_ok (fp2sub1271 (pq_xy S) (pq_yx S))" "f2elm_ok (fp2add1271 (pq_xy S) (pq_yx S))"
    and v: "fp2v (fp2sub1271 (pq_xy S) (pq_yx S)) = px g + py g - (py g - px g)" "fp2v (fp2add1271 (pq_xy S) (pq_yx S)) = px g + py g + (py g - px g)"
    using assms(1) by (simp_all add: precomputes_def fp2.image_simps)
  have "2 * fp2v x = 2 * px g" "2 * fp2v y = 2 * py g"
    unfolding x_def y_def fp2div1271_facts(2) [OF ok(1)] fp2div1271_facts(2) [OF ok(2)] v by simp_all
  then have "fp2v x = px g" "fp2v y = py g" using cancel_2 by blast+
  moreover have "f2elm_ok x" "f2elm_ok y" unfolding x_def y_def by (rule fp2div1271_facts(1) [OF ok(1)], rule fp2div1271_facts(1) [OF ok(2)])
  ultimately show ?thesis by (simp add: stands_def extproj_ok_def represents_def d_ok fp2v_one)
qed

lemma columns_stand:
  assumes "length ds = 250" "set (drop 50 ds) \<subseteq> {0, 1}" "t < 10" "set es \<subseteq> {..<5}" "stands R p"
  shows "stands (fold (fixedStep ds t) es R) (p + zmul (\<Sum>e\<leftarrow>es. columnValue ds e t) generator)"
proof -
  have "stands (fold (fixedStep ds t) es R) (p + (\<Sum>e\<leftarrow>es. zmul (columnValue ds e t) generator))"
    by (rule curve.fold_adds [OF fixedStep_stands [OF assms(1,2) _ assms(3)] assms(5)]) (use assms(4) in auto)
  moreover have "(\<Sum>e\<leftarrow>es. zmul (columnValue ds e t) generator) = zmul (\<Sum>e\<leftarrow>es. columnValue ds e t) generator" for es
    by (induction es) (simp_all add: zmul_add)
  ultimately show ?thesis by simp
qed

lemma zmul_zmul_pow2: "zmul (2 ^ i) (zmul a p) = zmul (2 ^ i * a) p"
  using zmul_mult_pow2 [of a i p] by (simp only: mult.commute)

lemma fixed_loop_stands:
  assumes "length ds = 250" "set (drop 50 ds) \<subseteq> {0, 1}" "ds ! 49 = 0"
  shows "stands (fold (\<lambda>t R. fold (fixedStep ds t) [4, 3, 2, 1, 0] (eccdouble R)) [8, 7, 6, 5, 4, 3, 2, 1, 0]
     (fold (fixedStep ds 9) [3, 2, 1, 0] (fixedStart ds))) (zmul (digitsValue ds) generator)"
proof -
  let ?c = "\<lambda>t. \<Sum>e\<leftarrow>[4, 3, 2, 1, 0]. columnValue ds e t"
  have c: "?c t = (\<Sum>e<5. columnValue ds e t)" for t by (simp add: eval_nat_numeral lessThan_Suc)
  have v: "columnValue ds 4 9 = sgn_of 0 * combValue 4 (columnIndex ds 4 9)" using assms(3) by (simp add: columnValue_def)
  have "precomputes (table_lookup_fixed_base (tableIndex ds 4 9) 0) (px (zmul (columnValue ds 4 9) generator)) (py (zmul (columnValue ds 4 9) generator))"
    by (rule lookup_precomputes [OF _ combValue_column(1,2) [OF assms(1,2)] v]) simp_all
  from stands_precomputed [OF this] have "stands (fixedStart ds) (zmul (columnValue ds 4 9) generator)"
    by (simp only: fixedStart_def Let_def)
  then have s: "stands (fold (fixedStep ds 9) [3, 2, 1, 0] (fixedStart ds)) (zmul (?c 9) generator)"
    using columns_stand [OF assms(1,2), of 9 "[3, 2, 1, 0]"] by (simp add: zmul_add)
  have step: "stands (fold (fixedStep ds t) [4, 3, 2, 1, 0] P) (p + zmul (?c t) generator)" if "t < 9" "stands P p" for t P p
    using columns_stand [OF assms(1,2) _ _ that(2), of t "[4, 3, 2, 1, 0]"] that(1) by simp
  have "stands (fold (\<lambda>t R. fold (fixedStep ds t) [4, 3, 2, 1, 0] (eccdouble R)) (rev [0..<9])
      (fold (fixedStep ds 9) [3, 2, 1, 0] (fixedStart ds))) (zmul (2 ^ 9) (zmul (?c 9) generator) + (\<Sum>t<9. zmul (2 ^ t) (zmul (?c t) generator)))"
    by (rule curve.fold_doublings [OF step s])
  moreover have "rev [0..<9] = [8, 7, 6, 5, 4, 3, 2, 1, 0 :: nat]" by (simp add: upt_rec)
  moreover have "zmul (2 ^ 9) (zmul (?c 9) generator) + (\<Sum>t<9. zmul (2 ^ t) (zmul (?c t) generator)) = zmul (\<Sum>t<Suc 9. 2 ^ t * ?c t) generator"
    by (simp only: sum.lessThan_Suc zmul_add zmul_sum zmul_zmul_pow2 add.commute)
  moreover have "(\<Sum>t<Suc 9. 2 ^ t * ?c t) = digitsValue ds" unfolding digitsValue_columns [OF assms(1,2)] c by simp
  ultimately show ?thesis by (simp only:)
qed

section \<open>The multiple of the generator\<close>

lemma zmul_order: "zmul (a * int (val256 curve_order)) generator = 0"
proof (induction a rule: int_induct [of _ 0])
  case (step1 i)
  then show ?case by (simp add: distrib_right zmul_add order_generator)
next
  case (step2 i)
  have "(i - 1) * int (val256 curve_order) = i * int (val256 curve_order) + - int (val256 curve_order)" by (simp add: algebra_simps)
  then show ?case using step2 by (simp only: zmul_add zmul_minus order_generator minus_zero add_0_right)
qed simp

lemma zmul_mod_order: "a mod int (val256 curve_order) = b mod int (val256 curve_order) \<Longrightarrow> zmul a generator = zmul b generator"
proof -
  have "zmul a generator = zmul (a mod int (val256 curve_order)) generator" for a
  proof -
    have "a = a div int (val256 curve_order) * int (val256 curve_order) + a mod int (val256 curve_order)" by simp
    then have "zmul a generator = zmul (a div int (val256 curve_order) * int (val256 curve_order)) generator + zmul (a mod int (val256 curve_order)) generator"
      by (metis zmul_add)
    then show ?thesis by (simp only: zmul_order add_0)
  qed
  then show "a mod int (val256 curve_order) = b mod int (val256 curve_order) \<Longrightarrow> zmul a generator = zmul b generator" by metis
qed

lemma ecc_mul_fixed_generator:
  "fp2v (pa_x (ecc_mul_fixed k)) = px (zmul (int (val256 k)) generator)" "fp2v (pa_y (ecc_mul_fixed k)) = py (zmul (int (val256 k)) generator)"
  "f2elm_reduced (pa_x (ecc_mul_fixed k))" "f2elm_reduced (pa_y (ecc_mul_fixed k))"
proof -
  note r = recode_represents_scalar [of k]
  have "zmul (digitsValue (recode k)) generator = zmul (int (val256 k)) generator" using r by (intro zmul_mod_order) blast
  then have "stands (fold (\<lambda>t R. fold (fixedStep (recode k) t) [4, 3, 2, 1, 0] (eccdouble R)) [8, 7, 6, 5, 4, 3, 2, 1, 0]
      (fold (fixedStep (recode k) 9) [3, 2, 1, 0] (fixedStart (recode k)))) (zmul (int (val256 k)) generator)"
    using fixed_loop_stands [OF _ recode_digits(3,2), of k] r by simp
  note eccnorm_stands [OF this]
  then show "fp2v (pa_x (ecc_mul_fixed k)) = px (zmul (int (val256 k)) generator)" "fp2v (pa_y (ecc_mul_fixed k)) = py (zmul (int (val256 k)) generator)"
    "f2elm_reduced (pa_x (ecc_mul_fixed k))" "f2elm_reduced (pa_y (ecc_mul_fixed k))"
    by (simp_all only: ecc_mul_fixed_def Let_def)
qed

end
