(* ===== verification/Schnorr_Group.thy ===== *)
theory Schnorr_Group
  imports FourQ_Comb
begin

text \<open>
  The fixed-base multiplication and the signatures of \<open>dispatcher/src/crypto/k12_and_key_utils.h\<close> as statements about the group of
  the curve: public keys are encoded multiples of the generator, and signatures satisfy the equation that a verifier checks.
\<close>

section \<open>Affine coordinates of a point\<close>

definition felmOf :: "gfp \<Rightarrow> felm_t" where
  "felmOf x = (of_nat (nat (Rep_gfp x) mod 2 ^ 64), of_nat (nat (Rep_gfp x) div 2 ^ 64))"

definition f2elmOf :: "gfp2 \<Rightarrow> f2elm_t" where
  "f2elmOf z = (felmOf (re z), felmOf (im z))"

definition affine :: "fourq \<Rightarrow> point_affine" where
  "affine g = \<lparr>pa_x = f2elmOf (px g), pa_y = f2elmOf (py g)\<rparr>"

lemma fval_felmOf: "fval (felmOf x) = nat (Rep_gfp x)"
proof -
  have "nat (Rep_gfp x) < 2 ^ 127" using Rep_gfp_bounds [of x] by simp
  then have "nat (Rep_gfp x) div 2 ^ 64 < 2 ^ 64" by (simp add: less_mult_imp_div_less)
  then show ?thesis by (simp add: felmOf_def unat_of_nat)
qed

lemma felmOf_fpv:
  assumes "fval a < 2 ^ 127 - 1"
  shows "felmOf (fpv a) = a"
proof -
  have "Rep_gfp (of_nat (fval a)) = int (fval a) mod (2 ^ 127 - 1)" by (metis gfp.Rep_Abs_mod gfp.of_nat_eq)
  then have "fval (felmOf (fpv a)) = fval a" using assms unfolding fval_felmOf fpv_def by simp
  then show ?thesis by (simp only: fval_inject)
qed

lemma affine_unique:
  assumes "fp2v (pa_x A) = px g" "fp2v (pa_y A) = py g" "f2elm_reduced (pa_x A)" "f2elm_reduced (pa_y A)"
  shows "A = affine g"
proof -
  have "f2elmOf (fp2v a) = a" if "f2elm_reduced a" for a
    using that by (simp add: f2elmOf_def fp2v_def f2elm_reduced_def felmOf_fpv)
  then have "f2elmOf (px g) = pa_x A" "f2elmOf (py g) = pa_y A" using assms by metis+
  then show ?thesis by (simp add: affine_def)
qed

lemma ecc_mul_fixed_affine: "ecc_mul_fixed k = affine (zmul (int (val256 k)) generator)"
  by (rule affine_unique) (rule ecc_mul_fixed_generator)+

lemma generator_nonzero: "generator \<noteq> 0"
proof
  assume "generator = 0"
  then have "px generator = 0" by (simp add: fourq_zero_coordinates)
  then have "pv (pX pow_0) = 0" using point_0 by (simp add: isPoint_def)
  then have "(of_nat 34832242333165934151976439273177494442 :: gfp) = of_nat 0"
    by (simp add: pow_0_def pX_def pv_def ofv_fnum zero_gfp2_def)
  then show False unfolding of_nat_gfp_eq_iff by simp
qed

section \<open>The verification equation\<close>

text \<open>What a verifier checks for the point \<open>A\<close> of the public key: the signature is R followed by s, and R is the encoding of s G + h A
  for the hash h of R, the key and the message.\<close>

definition group_verifies :: "fourq \<Rightarrow> bytes \<Rightarrow> bytes \<Rightarrow> bytes \<Rightarrow> bool" where
  "group_verifies A publicKey messageDigest signature \<longleftrightarrow> length signature = 64 \<and>
     le_nat (drop 32 signature) < val256 curve_order \<and>
     (let h = KT128 (take 32 signature @ publicKey @ messageDigest) [] 64
      in take 32 signature = encode (affine (zmul (int (le_nat (drop 32 signature))) generator + zmul (int (scalarOf h)) A)))"

lemma zmul_zmul: "zmul a (zmul b p) = zmul (a * b) p"
proof (induction a rule: int_induct [of _ 0])
  case (step1 i)
  then show ?case by (simp add: distrib_right zmul_add)
next
  case (step2 i)
  have "zmul (i - 1) (zmul b p) = zmul i (zmul b p) - zmul b p" using zmul_add [of i "- 1" "zmul b p"] zmul_minus [of 1 "zmul b p"] by simp
  moreover have "zmul ((i - 1) * b) p = zmul (i * b) p - zmul b p"
    using zmul_add [of "i * b" "- b" p] zmul_minus [of b p] by (simp add: left_diff_distrib)
  ultimately show ?case using step2 by simp
qed simp

lemma schnorr_group:
  assumes "schnorr_equation subseed publicKey messageDigest signature"
  shows "group_verifies (zmul (int (scalarOf (KT128 subseed [] 64))) generator) publicKey messageDigest signature"
proof -
  define k where "k = KT128 subseed [] 64"
  define r where "r = KT128 (drop 32 k @ messageDigest) [] 64"
  define h where "h = KT128 (take 32 signature @ publicKey @ messageDigest) [] 64"
  define s where "s = le_nat (drop 32 signature)"
  have l: "length signature = 64" "s < val256 curve_order"
    and R: "take 32 signature = encode (ecc_mul_fixed (words256 r))"
    and e: "(s + scalarOf k * scalarOf h) mod val256 curve_order = scalarOf r mod val256 curve_order"
    using assms [unfolded schnorr_equation_def Let_def, folded k_def, folded r_def h_def s_def] by blast+
  have "zmul (int s + int (scalarOf h) * int (scalarOf k)) generator = zmul (int (scalarOf r)) generator"
  proof (rule zmul_mod_order)
    have "int s + int (scalarOf h) * int (scalarOf k) = int (s + scalarOf k * scalarOf h)" by simp
    then show "(int s + int (scalarOf h) * int (scalarOf k)) mod int (val256 curve_order) = int (scalarOf r) mod int (val256 curve_order)"
      using e by (metis zmod_int)
  qed
  moreover have "val256 (words256 r) = scalarOf r" by (rule val256_words256) (simp add: r_def length_KT128)
  ultimately have "take 32 signature = encode (affine (zmul (int s) generator + zmul (int (scalarOf h)) (zmul (int (scalarOf k)) generator)))"
    unfolding R ecc_mul_fixed_affine by (simp only: zmul_add zmul_zmul)
  then show ?thesis using l unfolding group_verifies_def Let_def k_def h_def s_def by simp
qed

lemma publicKey_point:
  assumes "length subseed = 32"
  shows "getPublicKeyFromPrivateKey (getPrivateKeyFromSubSeed subseed) = encode (affine (zmul (int (scalarOf (KT128 subseed [] 64))) generator))"
proof -
  have p: "getPrivateKeyFromSubSeed subseed = KT128 subseed [] 32"
    using KangarooTwelve_standard [of subseed 32] assms by (simp add: getPrivateKeyFromSubSeed_def)
  have "KT128 subseed [] 32 = take 32 (KT128 subseed [] 64)"
    by (simp add: KT128_def Let_def turboSHAKE128_def squeeze_short)
  then have "val256 (words256 (KT128 subseed [] 32)) = scalarOf (KT128 subseed [] 64)"
    by (subst val256_words256) (simp_all add: length_KT128)
  then show ?thesis by (simp add: getPublicKeyFromPrivateKey_def p ecc_mul_fixed_affine)
qed

lemma sign_group_verifies:
  assumes "length subseed = 32" "length messageDigest = 32"
    "publicKey = getPublicKeyFromPrivateKey (getPrivateKeyFromSubSeed subseed)"
  shows "\<exists>A. publicKey = encode (affine A) \<and> group_verifies A publicKey messageDigest (sign subseed publicKey messageDigest)"
proof -
  have l: "length publicKey = 32" by (simp add: assms(3) getPublicKeyFromPrivateKey_def)
  show ?thesis
    using publicKey_point [OF assms(1)] schnorr_group [OF sign_schnorr [OF assms(1) l assms(2)]] assms(3) by metis
qed

section \<open>Properties\<close>

text \<open>
  C8: ecc_mul_fixed multiplies the generator.  For every 256-bit scalar k the result is the fully reduced affine point k G of the
  group of the curve, where G is the point of the first table entry; G is not neutral, and the order of the curve annihilates it.\<close>

theorem ecc_mul_fixed_correct:
  "ecc_mul_fixed k = affine (zmul (int (val256 k)) generator) \<and> generator \<noteq> 0 \<and> zmul (int (val256 curve_order)) generator = 0"
  using ecc_mul_fixed_affine generator_nonzero order_generator by blast

text \<open>
  C9: signatures verify.  With the public key that the code derives from a subseed, the key is the encoding of a
  point A, and the signature of every digest satisfies the equation of the verifier in the group: its first half is the encoding of s G + h A for
  the scalar s in its second half, which is below the order, and the challenge h.\<close>

theorem signature_verifies_in_group:
  assumes "length subseed = 32" "length messageDigest = 32"
    "publicKey = getPublicKeyFromPrivateKey (getPrivateKeyFromSubSeed subseed)"
  shows "\<exists>A. publicKey = encode (affine A) \<and> group_verifies A publicKey messageDigest (sign subseed publicKey messageDigest)"
  using assms by (rule sign_group_verifies)

theorem signature_verifies_in_group_witness:
  "\<exists>A publicKey. publicKey = encode (affine A) \<and> group_verifies A publicKey (replicate 32 3) (sign (replicate 32 1) publicKey (replicate 32 3))"
  using signature_verifies_in_group [of "replicate 32 1" "replicate 32 3" "getPublicKeyFromPrivateKey (getPrivateKeyFromSubSeed (replicate 32 1))"] by auto

end
