(* ===== verification/Config.thy ===== *)
theory Config
  imports SchnorrQ
begin

text \<open>
  The configuration of \<open>dispatcher/src/config\<close> and the start of \<open>main\<close> in \<open>dispatcher.cpp\<close>.  The JSON library is
  outside the sources; a record holds what its accesses return.  For \<open>at(...).get<T>()\<close> the absent value is the
  exception; for \<open>value(key, default)\<close> the outer option is the exception for a value of the wrong type and the
  inner one the absence of the key.
\<close>

section \<open>Records\<close>

record PoolConfig =
  pc_url :: string
  pc_stratumPort :: string
  pc_workerName :: string
  pc_workerPassword :: string

record QubicConfig =
  qc_ips :: "string list"
  qc_port :: int

record TestDispatcherConfig =
  td_timeBetweenJobsSec :: u32
  td_frequencyClearJobs :: u32

record DispatcherIdentityConfig =
  ic_seed :: bytes

record DispatcherAppConfig =
  ac_pool :: PoolConfig
  ac_qubic :: QubicConfig
  ac_identity :: DispatcherIdentityConfig
  ac_statsFile :: string
  ac_dryRun :: bool

record TestDispatcherAppConfig =
  tc_qubic :: QubicConfig
  tc_identity :: DispatcherIdentityConfig
  tc_testDispatcher :: TestDispatcherConfig

record TestMinerAppConfig =
  mc_qubic :: QubicConfig
  mc_identity :: DispatcherIdentityConfig

text \<open>What the accesses to the parsed file return.\<close>

record ConfigView =
  cv_url :: "string option"
  cv_stratumPort :: "string option"
  cv_workerName :: "string option"
  cv_workerPassword :: "string option option"
  cv_ips :: "string list option"
  cv_port :: "int option option"
  cv_seed :: "bytes option"
  cv_statsFile :: "string option option"
  cv_dryRun :: "bool option option"
  cv_testDispatcher :: bool
  cv_timeBetweenJobsSec :: "u32 option option"
  cv_frequencyClearJobs :: "u32 option option"

datatype configError = JsonError | SeedLength | SeedLetters

section \<open>Parsing\<close>

definition required :: "'a option \<Rightarrow> configError + 'a" where
  "required v = (case v of None \<Rightarrow> Inl JsonError | Some x \<Rightarrow> Inr x)"

definition optional :: "'a \<Rightarrow> 'a option option \<Rightarrow> configError + 'a" where
  "optional fallback v = (case v of None \<Rightarrow> Inl JsonError | Some None \<Rightarrow> Inr fallback | Some (Some x) \<Rightarrow> Inr x)"

fun bindE :: "'e + 'a \<Rightarrow> ('a \<Rightarrow> 'e + 'b) \<Rightarrow> 'e + 'b" where
  "bindE (Inl e) f = Inl e"
| "bindE (Inr x) f = f x"

definition parseIdentityConfig :: "ConfigView \<Rightarrow> configError + DispatcherIdentityConfig" where
  "parseIdentityConfig j =
     bindE (required (cv_seed j)) (\<lambda>seed.
       if length seed \<noteq> 55 then Inl SeedLength
       else if \<exists>c \<in> set seed. c < 97 \<or> c > 122 then Inl SeedLetters
       else Inr \<lparr>ic_seed = seed\<rparr>)"

definition parseQubicConfig :: "ConfigView \<Rightarrow> configError + QubicConfig" where
  "parseQubicConfig j =
     bindE (required (cv_ips j)) (\<lambda>ips. bindE (optional 21841 (cv_port j)) (\<lambda>port. Inr \<lparr>qc_ips = ips, qc_port = port\<rparr>))"

definition parseDispatcherConfig :: "ConfigView \<Rightarrow> configError + DispatcherAppConfig" where
  "parseDispatcherConfig j =
     bindE (required (cv_url j)) (\<lambda>url.
     bindE (required (cv_stratumPort j)) (\<lambda>stratumPort.
     bindE (required (cv_workerName j)) (\<lambda>workerName.
     bindE (optional ''123'' (cv_workerPassword j)) (\<lambda>workerPassword.
     bindE (parseQubicConfig j) (\<lambda>qubic.
     bindE (parseIdentityConfig j) (\<lambda>identity.
     bindE (optional '''' (cv_statsFile j)) (\<lambda>statsFile.
     bindE (optional False (cv_dryRun j)) (\<lambda>dryRun.
       Inr \<lparr>ac_pool = \<lparr>pc_url = url, pc_stratumPort = stratumPort, pc_workerName = workerName, pc_workerPassword = workerPassword\<rparr>,
            ac_qubic = qubic, ac_identity = identity, ac_statsFile = statsFile, ac_dryRun = dryRun\<rparr>))))))))"

definition parseTestDispatcherConfig :: "ConfigView \<Rightarrow> configError + TestDispatcherAppConfig" where
  "parseTestDispatcherConfig j =
     bindE (parseQubicConfig j) (\<lambda>qubic.
     bindE (parseIdentityConfig j) (\<lambda>identity.
       if cv_testDispatcher j
       then bindE (optional 10 (cv_timeBetweenJobsSec j)) (\<lambda>time.
            bindE (optional 6 (cv_frequencyClearJobs j)) (\<lambda>frequency.
              Inr \<lparr>tc_qubic = qubic, tc_identity = identity,
                   tc_testDispatcher = \<lparr>td_timeBetweenJobsSec = time, td_frequencyClearJobs = frequency\<rparr>\<rparr>))
       else Inr \<lparr>tc_qubic = qubic, tc_identity = identity,
                 tc_testDispatcher = \<lparr>td_timeBetweenJobsSec = 10, td_frequencyClearJobs = 6\<rparr>\<rparr>))"

definition parseTestMinerConfig :: "ConfigView \<Rightarrow> configError + TestMinerAppConfig" where
  "parseTestMinerConfig j =
     bindE (parseQubicConfig j) (\<lambda>qubic.
     bindE (parseIdentityConfig j) (\<lambda>identity. Inr \<lparr>mc_qubic = qubic, mc_identity = identity\<rparr>))"

text \<open>A file that cannot be opened or parsed gives no view.\<close>

definition loadConfigFile :: "string option \<Rightarrow> (string \<Rightarrow> ConfigView option) \<Rightarrow> ConfigView option" where
  "loadConfigFile file parse = (case file of None \<Rightarrow> None | Some text \<Rightarrow> parse text)"

section \<open>The start of the dispatcher\<close>

record Startup =
  st_config :: DispatcherAppConfig
  st_signingCtx :: DispatcherSigningContext
  st_identity :: bytes
  st_maskedSeed :: bytes

text \<open>The first part of \<open>main\<close>, up to the creation of the connections: the exit code 1 or the state.\<close>

definition startDispatcher :: "byte \<Rightarrow> ConfigView option \<Rightarrow> nat + Startup" where
  "startDispatcher junk configJson =
     (case configJson of
        None \<Rightarrow> Inl 1
      | Some j \<Rightarrow>
          (case parseDispatcherConfig j of
             Inl e \<Rightarrow> Inl 1
           | Inr config \<Rightarrow>
               (case initSigningContext (ic_seed (ac_identity config)) of
                  None \<Rightarrow> Inl 1
                | Some signingCtx \<Rightarrow>
                    let seed = ic_seed (ac_identity config)
                    in Inr \<lparr>st_config = config, st_signingCtx = signingCtx,
                            st_identity = getIdentityFromPublicKey junk (sc_publicKey signingCtx) False,
                            st_maskedSeed = take 3 seed @ replicate 49 42 @ take 3 (drop 52 seed)\<rparr>)))"

section \<open>Keys of a valid configuration\<close>

lemma bindE_Inr: "bindE m f = Inr y \<longleftrightarrow> (\<exists>x. m = Inr x \<and> f x = Inr y)"
  by (cases m) auto

lemma parseIdentityConfig_Inr:
  "parseIdentityConfig j = Inr c \<longleftrightarrow>
    cv_seed j = Some (ic_seed c) \<and> length (ic_seed c) = 55 \<and> list_all (\<lambda>b. 97 \<le> b \<and> b \<le> 122) (ic_seed c)"
  by (cases c) (auto simp: parseIdentityConfig_def bindE_Inr required_def list_all_iff not_less split: option.splits if_splits)

lemma initSigningContext_valid:
  assumes "length seed = 55" "list_all (\<lambda>b. 97 \<le> b \<and> b \<le> 122) seed"
  shows "initSigningContext seed = Some \<lparr>sc_subseed = KT128 (map (\<lambda>c. c - 97) seed) [] 32,
    sc_publicKey = encode (ecc_mul_fixed (words256 (KT128 (KT128 (map (\<lambda>c. c - 97) seed) [] 32) [] 32)))\<rparr>"
proof -
  let ?s = "map (\<lambda>c. c - 97) seed"
  have "\<not> (\<exists>c \<in> set seed. c < 97 \<or> c > 122)" using assms(2) by (auto simp: list_all_iff not_less)
  then have "getSubseedFromSeed seed = Some (KT128 ?s [] 32)"
    using assms(1) KangarooTwelve_standard [of ?s 32] by (simp add: getSubseedFromSeed_def)
  moreover have "getPrivateKeyFromSubSeed (KT128 ?s [] 32) = KT128 (KT128 ?s [] 32) [] 32"
    using KangarooTwelve_standard [of "KT128 ?s [] 32" 32] by (simp add: getPrivateKeyFromSubSeed_def length_KT128)
  ultimately show ?thesis using assms(1) by (simp add: initSigningContext_def getPublicKeyFromPrivateKey_def)
qed

text \<open>
  C23: a configuration that is accepted always gives keys.  When parseDispatcherConfig accepts the file, the start
  of the dispatcher does not fail: the subseed is KT128 of the letters of the seed, the public key is the encoded
  multiple of the generator by KT128 of the subseed, and the printed identity can be read back to this public key.\<close>

theorem accepted_config_gives_keys:
  assumes "parseDispatcherConfig j = Inr config"
  shows "\<exists>st. startDispatcher junk (Some j) = Inr st \<and> st_config st = config \<and>
    sc_subseed (st_signingCtx st) = KT128 (map (\<lambda>c. c - 97) (ic_seed (ac_identity config))) [] 32 \<and>
    sc_publicKey (st_signingCtx st) = encode (ecc_mul_fixed (words256 (KT128 (sc_subseed (st_signingCtx st)) [] 32))) \<and>
    publicKeyBuffer (st_identity st) = Some (sc_publicKey (st_signingCtx st))"
proof -
  let ?seed = "ic_seed (ac_identity config)"
  obtain identity where "parseIdentityConfig j = Inr identity" "ac_identity config = identity"
    using assms by (auto simp: parseDispatcherConfig_def bindE_Inr)
  then have "length ?seed = 55" "list_all (\<lambda>b. 97 \<le> b \<and> b \<le> 122) ?seed" by (simp_all add: parseIdentityConfig_Inr)
  note ctx = initSigningContext_valid [OF this]
  show ?thesis
    using assms by (simp add: startDispatcher_def ctx Let_def publicKeyBuffer_identityOf)
qed

definition exampleConfigView :: ConfigView where
  "exampleConfigView = \<lparr>cv_url = Some ''pool'', cv_stratumPort = Some ''3333'', cv_workerName = Some ''w'', cv_workerPassword = Some None,
     cv_ips = Some [''10.0.0.1''], cv_port = Some None, cv_seed = Some (replicate 55 97), cv_statsFile = Some None,
     cv_dryRun = Some None, cv_testDispatcher = False, cv_timeBetweenJobsSec = Some None, cv_frequencyClearJobs = Some None\<rparr>"

theorem accepted_config_gives_keys_witness:
  "\<exists>st. startDispatcher 0 (Some exampleConfigView) = Inr st \<and> qc_port (ac_qubic (st_config st)) = 21841 \<and>
    publicKeyBuffer (st_identity st) = Some (sc_publicKey (st_signingCtx st))"
proof -
  define config where "config = \<lparr>ac_pool = \<lparr>pc_url = ''pool'', pc_stratumPort = ''3333'', pc_workerName = ''w'', pc_workerPassword = ''123''\<rparr>,
    ac_qubic = \<lparr>qc_ips = [''10.0.0.1''], qc_port = 21841\<rparr>, ac_identity = \<lparr>ic_seed = replicate 55 97\<rparr>, ac_statsFile = '''', ac_dryRun = False\<rparr>"
  have "parseDispatcherConfig exampleConfigView = Inr config"
    by (simp add: parseDispatcherConfig_def parseQubicConfig_def parseIdentityConfig_def required_def optional_def exampleConfigView_def config_def)
  then obtain st where "startDispatcher 0 (Some exampleConfigView) = Inr st" "st_config st = config"
    "publicKeyBuffer (st_identity st) = Some (sc_publicKey (st_signingCtx st))"
    using accepted_config_gives_keys by blast
  moreover have "qc_port (ac_qubic config) = 21841" by (simp add: config_def)
  ultimately show ?thesis by metis
qed

end
