(* ===== verification/FourQ_Variable.thy ===== *)
theory FourQ_Variable
  imports FourQ_Refine
begin

text \<open>
  Variable-base multiplication in \<open>dispatcher/src/crypto/k12_and_key_utils.h\<close>: the table of the sums of a point and its images
  under the endomorphisms, the multiplication by the cofactor, the recoding of the four scalars into signs and digits, and the
  loop over 64 columns.
\<close>

unbundle bit_operations_syntax

section \<open>The operations\<close>

text \<open>The table, and the argument as the code leaves it: the endomorphism psi is applied in place.\<close>

definition ecc_precomp :: "point_extproj \<Rightarrow> point_extproj_precomp list \<times> point_extproj" where
  "ecc_precomp P =
     (let PP = ecc_phi P;
          Q = R1_to_R3 PP;
          PP = ecc_psi PP;
          S = R1_to_R3 PP;
          T0 = R1_to_R2 P;
          P = ecc_psi P;
          R = R1_to_R3 P;
          T1 = R1_to_R2 (eccadd_core T0 Q);
          T2 = R1_to_R2 (eccadd_core T0 R);
          T3 = R1_to_R2 (eccadd_core T1 R);
          T4 = R1_to_R2 (eccadd_core T0 S);
          T5 = R1_to_R2 (eccadd_core T1 S);
          T6 = R1_to_R2 (eccadd_core T2 S);
          T7 = R1_to_R2 (eccadd_core T3 S)
      in ([T0, T1, T2, T3, T4, T5, T6, T7], P))"

definition cofactor_clearing :: "point_extproj \<Rightarrow> point_extproj" where
  "cofactor_clearing R =
     (let Q = R1_to_R2 R;
          R = eccdouble R;
          R = eccadd Q R;
          R = eccdouble R;
          R = eccdouble R;
          R = eccdouble R;
          R = eccdouble R;
          R = eccadd Q R;
          R = eccdouble R;
          R = eccdouble R
      in eccdouble R)"

text \<open>One bit of the scalars 1 to 3, borrowing from the rest of the scalar where the sign is negative.\<close>

definition recodeBit :: "u32 \<Rightarrow> u64 \<Rightarrow> u32 \<times> u64" where
  "recodeBit bit0 s =
     (let bit = ucast (s AND 1)
      in (bit, drop_bit 1 s + ucast ((bit0 OR bit) XOR bit0)))"

definition recodeColumn :: "u256 \<Rightarrow> (u32 \<times> u32) \<times> u256" where
  "recodeColumn = (\<lambda>(s0, s1, s2, s3).
     (let s0 = drop_bit 1 s0;
          bit0 = ucast (s0 AND 1);
          (bit1, s1) = recodeBit bit0 s1;
          (bit2, s2) = recodeBit bit0 s2;
          (bit3, s3) = recodeBit bit0 s3
      in ((bit0, bit1 + push_bit 1 bit2 + push_bit 2 bit3), (s0, s1, s2, s3))))"

text \<open>The sign masks and digits of the first columns, and what is left of the scalars.\<close>

primrec recodeColumns :: "nat \<Rightarrow> u256 \<Rightarrow> (u32 \<times> u32) list \<times> u256" where
  "recodeColumns 0 s = ([], s)"
| "recodeColumns (Suc n) s =
     (case recodeColumn s of (c, s') \<Rightarrow> (case recodeColumns n s' of (cs, t) \<Rightarrow> (c # cs, t)))"

definition startIndex :: "u256 \<Rightarrow> u64" where
  "startIndex = (\<lambda>(s0, s1, s2, s3). s1 + push_bit 1 s2 + push_bit 2 s3)"

definition mulLoop :: "point_extproj_precomp list \<Rightarrow> (u32 \<times> u32) list \<Rightarrow> point_extproj \<Rightarrow> point_extproj" where
  "mulLoop table cs R =
     (let tables = [map eccneg_extproj_precomp table, table]
      in fold (\<lambda>i R. eccadd (tables ! unat (fst (cs ! i)) ! unat (snd (cs ! i))) (eccdouble R)) (rev [0..<64]) R)"

definition ecc_mul :: "point_affine \<Rightarrow> u256 \<Rightarrow> point_affine option" where
  "ecc_mul P k =
     (let R = point_setup P
      in if \<not> ecc_point_validate R then None
         else
           let scalars = decompose k;
               R = cofactor_clearing R;
               (cs, scalars) = recodeColumns 64 scalars;
               (table, R) = ecc_precomp R;
               R = R2_to_R4 (table ! unat (startIndex scalars)) R
           in Some (eccnorm (mulLoop table cs R)))"

section \<open>The cofactor\<close>

lemma zmul_mult: "zmul a (zmul b p) = zmul (a * b) p"
proof -
  have n: "nmul m (zmul b p) = zmul (int m * b) p" for m
    by (induction m) (simp_all add: zmul_add algebra_simps)
  have "zmul a (zmul b p) = zmul (int (nat a) * b + - (int (nat (- a)) * b)) p"
    unfolding zmul_def [of a] n zmul_add zmul_minus by simp
  then show ?thesis by (cases "0 \<le> a") simp_all
qed

lemma zmul_two: "zmul z p + zmul z p = zmul (2 * z) p"
  by (simp only: mult_2 zmul_add)

lemma zmul_Suc: "zmul z p + p = zmul (z + 1) p"
  by (simp add: zmul_add)

lemma cofactor_clearing_stands:
  assumes "stands P p"
  shows "stands (cofactor_clearing P) (zmul 392 p)"
proof -
  note Q = R1_to_R2_stands [OF assms]
  have dbl: "stands (eccdouble R) (zmul (2 * z) p)" if "stands R (zmul z p)" for R z
    using eccdouble_stands [OF that] by (simp only: zmul_two)
  have add: "stands (eccadd (R1_to_R2 P) R) (zmul (z + 1) p)" if "stands R (zmul z p)" for R z
    using eccadd_stands [OF that Q] by (simp only: zmul_Suc)
  have "stands P (zmul 1 p)" using assms by simp
  from dbl [OF dbl [OF dbl [OF add [OF dbl [OF dbl [OF dbl [OF dbl [OF add [OF dbl [OF this]]]]]]]]]]
  show ?thesis by (simp add: cofactor_clearing_def Let_def)
qed

section \<open>The table\<close>

text \<open>The multiples by bits of a digit.\<close>

definition bitAt :: "nat \<Rightarrow> nat \<Rightarrow> int" where
  "bitAt d j = int (d div 2 ^ j mod 2)"

definition columnPoint :: "fourq \<Rightarrow> fourq \<Rightarrow> fourq \<Rightarrow> fourq \<Rightarrow> nat \<Rightarrow> fourq" where
  "columnPoint p q r s d = p + zmul (bitAt d 0) q + zmul (bitAt d 1) r + zmul (bitAt d 2) s"

definition variableTable :: "point_extproj_precomp list \<Rightarrow> fourq \<Rightarrow> fourq \<Rightarrow> fourq \<Rightarrow> fourq \<Rightarrow> bool" where
  "variableTable T p q r s \<longleftrightarrow> length T = 8 \<and> (\<forall>d<8. stands_precomp (T ! d) (columnPoint p q r s d))"

lemma all_less_8: "(\<forall>d<(8 :: nat). Q d) \<longleftrightarrow> Q 0 \<and> Q 1 \<and> Q 2 \<and> Q 3 \<and> Q 4 \<and> Q 5 \<and> Q 6 \<and> Q 7"
proof -
  have "d \<in> set [0..<8] \<longleftrightarrow> d < 8" for d :: nat by (simp only: set_upt) simp
  then have "(\<forall>d<(8 :: nat). Q d) \<longleftrightarrow> list_all Q [0..<8]" by (simp only: list_all_iff) blast
  then show ?thesis by (simp add: upt_rec numeral_eq_Suc)
qed

lemma columnPoint_values:
  "columnPoint p q r s 0 = p" "columnPoint p q r s 1 = p + q" "columnPoint p q r s 2 = p + r" "columnPoint p q r s 3 = p + q + r"
  "columnPoint p q r s 4 = p + s" "columnPoint p q r s 5 = p + q + s" "columnPoint p q r s 6 = p + r + s"
  "columnPoint p q r s 7 = p + q + r + s"
  by (simp_all add: columnPoint_def bitAt_def)

lemma ecc_precomp_stands:
  assumes "stands P p" "stands (ecc_phi P) q" "stands (ecc_psi P) r" "stands (ecc_psi (ecc_phi P)) s"
  shows "variableTable (fst (ecc_precomp P)) p q r s"
proof -
  have add: "stands_precomp (R1_to_R2 (eccadd_core T (R1_to_R3 R))) (t + u)" if "stands_precomp T t" "stands R u" for T t R u
    using R1_to_R2_stands [OF eccadd_stands [OF that(2,1)]] by (simp add: eccadd_def add.commute)
  note P = R1_to_R2_stands [OF assms(1)]
  note PQ = add [OF P assms(2)] and PR = add [OF P assms(3)]
  note PQR = add [OF PQ assms(3)]
  show ?thesis
    using P PQ PR PQR add [OF P assms(4)] add [OF PQ assms(4)] add [OF PR assms(4)] add [OF PQR assms(4)]
    unfolding variableTable_def all_less_8 columnPoint_values
    by (simp add: ecc_precomp_def Let_def)
qed

lemma ecc_precomp_argument: "snd (ecc_precomp P) = ecc_psi P"
  by (simp add: ecc_precomp_def Let_def)

section \<open>The recoding\<close>

lemma uint_and_one: "uint (s AND 1 :: u64) = uint s mod 2"
  unfolding uint_and unsigned_1 by (rule and_one_eq)

lemma uint_bit: "uint (ucast (s AND 1) :: u32) = uint (s :: u64) mod 2"
  unfolding unsigned_ucast_eq uint_and_one by (rule take_bit_int_eq_self) (simp_all add: pos_mod_bound [THEN less_trans])

lemma uint_shift: "uint (drop_bit 1 s :: u64) = uint s div 2"
proof -
  have "take_bit 64 (uint s) = uint s" by (rule take_bit_int_eq_self) (use uint_lt2p [of s] in auto)
  then show ?thesis unfolding unsigned_drop_bit_eq by (simp add: drop_bit_eq_div)
qed

text \<open>The sign that a mask stands for.\<close>

definition sg :: "u32 \<Rightarrow> int" where
  "sg m = 2 * uint m - 1"

lemma recodeBit_facts:
  assumes "m \<in> {0, 1}" "recodeBit m s = (b, s')"
  shows "b \<in> {0, 1}" "uint s = sg m * uint b + 2 * uint s'" "uint s \<le> 2 ^ Suc n \<Longrightarrow> uint s' \<le> 2 ^ n"
proof -
  have b: "b = ucast (s AND 1)" "s' = drop_bit 1 s + ucast ((m OR b) XOR m)" using assms(2) by (auto simp: recodeBit_def Let_def)
  have ub: "uint b = uint s mod 2" by (simp only: b(1) uint_bit)
  then have "uint b = uint (0 :: u32) \<or> uint b = uint (1 :: u32)" by (simp add: mod_2_eq_odd)
  then show bb: "b \<in> {0, 1}" unfolding word_uint_eq_iff [symmetric] by simp
  have c: "uint (ucast ((m OR b) XOR m) :: u64) = of_bool (m = 0 \<and> b = 1)" using assms(1) bb by auto
  have "uint (drop_bit 1 s) + uint (ucast ((m OR b) XOR m) :: u64) < 2 ^ 64"
  proof -
    have "uint s div 2 + 1 < 2 ^ 64" using uint_lt2p [of s] by simp
    then show ?thesis unfolding uint_shift c by (cases "m = 0 \<and> b = 1") simp_all
  qed
  then have s': "uint s' = uint s div 2 + of_bool (m = 0 \<and> b = 1)"
    unfolding b(2) using uint_add_lem [of "drop_bit 1 s" "ucast ((m OR b) XOR m) :: u64"] by (simp only: uint_shift c len_of_numeral_defs) simp
  define h where "h = uint s div 2"
  have e: "uint s = 2 * h + uint b" unfolding ub h_def by simp
  show "uint s = sg m * uint b + 2 * uint s'" using assms(1) bb unfolding s' e h_def [symmetric] by (auto simp: sg_def)
  show "uint s' \<le> 2 ^ n" if "uint s \<le> 2 ^ Suc n"
    using that bb unfolding s' h_def [symmetric] unfolding e by (cases "m = 0") auto
qed

text \<open>The odd number at a word: the word itself when it is odd.\<close>

definition oddOf :: "u64 \<Rightarrow> int" where
  "oddOf s = 2 * (uint s div 2) + 1"

lemma oddOf_odd: "odd (uint s) \<Longrightarrow> oddOf s = uint s"
  by (simp add: oddOf_def)

definition columnOk :: "u32 \<times> u32 \<Rightarrow> bool" where
  "columnOk c \<longleftrightarrow> fst c \<in> {0, 1} \<and> unat (snd c) < 8"

definition columnDigit :: "nat \<Rightarrow> u32 \<times> u32 \<Rightarrow> int" where
  "columnDigit j c = sg (fst c) * bitAt (unat (snd c)) j"

lemma digit_bits:
  assumes "b1 \<in> {0, 1}" "b2 \<in> {0, 1}" "b3 \<in> {0, 1}"
  defines "d \<equiv> unat (b1 + push_bit 1 b2 + push_bit 2 b3 :: u32)"
  shows "d < 8" "bitAt d 0 = uint b1" "bitAt d 1 = uint b2" "bitAt d 2 = uint b3"
  using assms(1-3) unfolding d_def by (auto simp: bitAt_def)

lemma recodeColumn_facts:
  assumes "recodeColumn (s0, s1, s2, s3) = (c, t0, t1, t2, t3)"
  shows "columnOk c" "oddOf s0 = sg (fst c) + 2 * oddOf t0" "uint t0 = uint s0 div 2"
    "uint s1 = columnDigit 0 c + 2 * uint t1" "uint s2 = columnDigit 1 c + 2 * uint t2" "uint s3 = columnDigit 2 c + 2 * uint t3"
    "uint s1 \<le> 2 ^ Suc n \<Longrightarrow> uint t1 \<le> 2 ^ n" "uint s2 \<le> 2 ^ Suc n \<Longrightarrow> uint t2 \<le> 2 ^ n" "uint s3 \<le> 2 ^ Suc n \<Longrightarrow> uint t3 \<le> 2 ^ n"
proof -
  define m :: u32 where "m = ucast (drop_bit 1 s0 AND 1)"
  obtain b1 u1 where r1: "recodeBit m s1 = (b1, u1)" by (rule prod.exhaust)
  obtain b2 u2 where r2: "recodeBit m s2 = (b2, u2)" by (rule prod.exhaust)
  obtain b3 u3 where r3: "recodeBit m s3 = (b3, u3)" by (rule prod.exhaust)
  have "recodeColumn (s0, s1, s2, s3) = ((m, b1 + push_bit 1 b2 + push_bit 2 b3), drop_bit 1 s0, u1, u2, u3)"
    unfolding recodeColumn_def Let_def prod.case m_def [symmetric] r1 r2 r3 ..
  then have c: "c = (m, b1 + push_bit 1 b2 + push_bit 2 b3)" and t0: "t0 = drop_bit 1 s0"
    and r: "recodeBit m s1 = (b1, t1)" "recodeBit m s2 = (b2, t2)" "recodeBit m s3 = (b3, t3)"
    using r1 r2 r3 unfolding assms by (simp_all only: prod.inject)
  show u: "uint t0 = uint s0 div 2" unfolding t0 by (rule uint_shift)
  have um: "uint m = uint s0 div 2 mod 2" unfolding m_def uint_bit uint_shift ..
  then have "uint m = uint (0 :: u32) \<or> uint m = uint (1 :: u32)" by (simp add: mod_2_eq_odd)
  then have m: "m \<in> {0, 1}" unfolding word_uint_eq_iff [symmetric] by simp
  note f = recodeBit_facts [OF m]
  note d = digit_bits [OF f(1) [OF r(1)] f(1) [OF r(2)] f(1) [OF r(3)]]
  show "columnOk c" using m d(1) by (simp add: columnOk_def c)
  show "oddOf s0 = sg (fst c) + 2 * oddOf t0" unfolding oddOf_def u c fst_conv sg_def um by presburger
  show "uint s1 = columnDigit 0 c + 2 * uint t1" "uint s2 = columnDigit 1 c + 2 * uint t2" "uint s3 = columnDigit 2 c + 2 * uint t3"
    unfolding columnDigit_def c fst_conv snd_conv d by (rule f(2) [OF r(1)] f(2) [OF r(2)] f(2) [OF r(3)])+
  show "uint s1 \<le> 2 ^ Suc n \<Longrightarrow> uint t1 \<le> 2 ^ n" "uint s2 \<le> 2 ^ Suc n \<Longrightarrow> uint t2 \<le> 2 ^ n" "uint s3 \<le> 2 ^ Suc n \<Longrightarrow> uint t3 \<le> 2 ^ n"
    by (rule f(3) [OF r(1)] f(3) [OF r(2)] f(3) [OF r(3)]; assumption)+
qed

text \<open>The value of a list of columns, least significant first.\<close>

primrec columnsValue :: "(u32 \<times> u32 \<Rightarrow> int) \<Rightarrow> (u32 \<times> u32) list \<Rightarrow> int" where
  "columnsValue f [] = 0"
| "columnsValue f (c # cs) = f c + 2 * columnsValue f cs"

lemma columnsValue_sum: "columnsValue f cs = (\<Sum>i<length cs. f (cs ! i) * 2 ^ i)"
  by (induction cs) (simp_all add: sum.lessThan_Suc_shift sum_distrib_left mult.left_commute del: sum.lessThan_Suc)

lemma recodeColumns_facts:
  assumes "recodeColumns n (s0, s1, s2, s3) = (cs, t0, t1, t2, t3)"
  shows "length cs = n \<and> list_all columnOk cs \<and> uint t0 = uint s0 div 2 ^ n \<and>
    oddOf s0 = columnsValue (sg \<circ> fst) cs + 2 ^ n * oddOf t0 \<and>
    uint s1 = columnsValue (columnDigit 0) cs + 2 ^ n * uint t1 \<and>
    uint s2 = columnsValue (columnDigit 1) cs + 2 ^ n * uint t2 \<and>
    uint s3 = columnsValue (columnDigit 2) cs + 2 ^ n * uint t3 \<and>
    (uint s1 \<le> 2 ^ n \<longrightarrow> uint t1 \<le> 1) \<and> (uint s2 \<le> 2 ^ n \<longrightarrow> uint t2 \<le> 1) \<and> (uint s3 \<le> 2 ^ n \<longrightarrow> uint t3 \<le> 1)"
  using assms
proof (induction n arbitrary: s0 s1 s2 s3 cs)
  case (Suc n)
  obtain c u0 u1 u2 u3 where u: "recodeColumn (s0, s1, s2, s3) = (c, u0, u1, u2, u3)" by (metis surj_pair)
  obtain cs' where cs: "recodeColumns n (u0, u1, u2, u3) = (cs', t0, t1, t2, t3)" "cs = c # cs'"
    using Suc.prems by (auto simp: u split: prod.splits)
  note i = Suc.IH [OF cs(1)] and f = recodeColumn_facts [OF u]
  have "uint t0 = uint s0 div 2 ^ Suc n" using i unfolding f(3) by (simp add: zdiv_zmult2_eq)
  then show ?case using i f by (simp add: cs(2) algebra_simps)
qed simp

section \<open>The loop\<close>

text \<open>A table entry converted by \<open>R2_to_R4\<close> keeps stale Ta and Tb, which the doubling that comes first overwrites.\<close>

lemma R2_to_R4_stands:
  assumes "stands_precomp T p" "extproj_ok R"
  obtains ta tb where "stands ((R2_to_R4 T R)\<lparr>pe_ta := ta, pe_tb := tb\<rparr>) p"
proof -
  obtain w where w: "w \<noteq> 0" "precomputes_proj T w (px p) (py p)" using assms(1) by (auto simp: stands_precomp_def)
  define A where "A = eccnorm (eccadd T (point_setup neutral))"
  have "stands (eccadd T (point_setup neutral)) p" using eccadd_stands [OF neutral_stands assms(1)] by simp
  note n = eccnorm_stands [OF this, folded A_def]
  have ok: "f2elm_ok (pa_x A)" "f2elm_ok (pa_y A)" using n(3,4) by (simp_all add: f2elm_reduced_def f2elm_ok_def felm_ok_def)
  have "stands ((R2_to_R4 T R)\<lparr>pe_ta := fp2mul1271 (pa_x A) (pa_y A), pe_tb := pp_z2 T\<rparr>) p"
    using w ok n(1,2) two_gfp2
    by (simp add: stands_def extproj_ok_def represents_def R2_to_R4_def precomputes_proj_def precomp_ok_def fp2.image_simps algebra_simps)
  then show thesis by (rule that)
qed

lemma fold_eccdouble_ignores_T:
  "fold (\<lambda>i R. f i (eccdouble R)) (rev [0..<Suc n]) (R\<lparr>pe_ta := a, pe_tb := b\<rparr>) = fold (\<lambda>i R. f i (eccdouble R)) (rev [0..<Suc n]) R"
  by (simp add: eccdouble_ignores_T)

lemma zmul_columnPoint:
  assumes "columnOk c"
  shows "zmul (sg (fst c)) (columnPoint p q r s (unat (snd c))) =
    zmul (sg (fst c)) p + zmul (columnDigit 0 c) q + zmul (columnDigit 1 c) r + zmul (columnDigit 2 c) s"
  by (simp only: columnPoint_def columnDigit_def zmul_distrib zmul_mult)

lemma mulStep_stands:
  assumes "variableTable table p q r s" "columnOk c" "stands R t"
  shows "stands (eccadd ([map eccneg_extproj_precomp table, table] ! unat (fst c) ! unat (snd c)) R)
    (t + zmul (sg (fst c)) (columnPoint p q r s (unat (snd c))))"
proof -
  let ?d = "unat (snd c)"
  have d: "?d < length table" "stands_precomp (table ! ?d) (columnPoint p q r s ?d)"
    using assms(1,2) by (simp_all add: variableTable_def columnOk_def)
  from assms(2) consider "fst c = 0" | "fst c = 1" by (auto simp: columnOk_def)
  then show ?thesis
  proof cases
    case 1
    then show ?thesis using eccadd_stands [OF assms(3) eccneg_stands [OF d(2)]] d(1) by (simp add: sg_def zmul_minus)
  next
    case 2
    then show ?thesis using eccadd_stands [OF assms(3) d(2)] by (simp add: sg_def)
  qed
qed

lemma zmul_columnsValue:
  "length cs = n \<Longrightarrow> zmul (columnsValue f cs) p = (\<Sum>i<n. zmul (2 ^ i) (zmul (f (cs ! i)) p))"
  by (simp only: columnsValue_sum zmul_sum zmul_mult_pow2)

lemma mulLoop_stands:
  assumes "variableTable table p q r s" "length cs = 64" "list_all columnOk cs" "stands_precomp T t" "extproj_ok R"
  shows "stands (mulLoop table cs (R2_to_R4 T R))
    (zmul (2 ^ 64) t + (zmul (columnsValue (sg \<circ> fst) cs) p + zmul (columnsValue (columnDigit 0) cs) q +
     zmul (columnsValue (columnDigit 1) cs) r + zmul (columnsValue (columnDigit 2) cs) s))"
proof -
  obtain a b where st: "stands ((R2_to_R4 T R)\<lparr>pe_ta := a, pe_tb := b\<rparr>) t" using R2_to_R4_stands [OF assms(4,5)] .
  let ?c = "\<lambda>i. zmul (sg (fst (cs ! i))) (columnPoint p q r s (unat (snd (cs ! i))))"
  have ok: "columnOk (cs ! i)" if "i < 64" for i using assms(2,3) that by (simp add: list_all_length)
  have "mulLoop table cs ((R2_to_R4 T R)\<lparr>pe_ta := a, pe_tb := b\<rparr>) = mulLoop table cs (R2_to_R4 T R)"
    using fold_eccdouble_ignores_T [where n = 63] unfolding mulLoop_def Let_def eval_nat_numeral by simp
  moreover have "stands (mulLoop table cs ((R2_to_R4 T R)\<lparr>pe_ta := a, pe_tb := b\<rparr>)) (zmul (2 ^ 64) t + (\<Sum>i<64. zmul (2 ^ i) (?c i)))"
    unfolding mulLoop_def Let_def by (rule curve.fold_doublings [OF mulStep_stands [OF assms(1) ok] st])
  moreover have "(\<Sum>i<64. zmul (2 ^ i) (?c i)) =
      (\<Sum>i<64. zmul (2 ^ i) (zmul (sg (fst (cs ! i))) p) + zmul (2 ^ i) (zmul (columnDigit 0 (cs ! i)) q) +
        zmul (2 ^ i) (zmul (columnDigit 1 (cs ! i)) r) + zmul (2 ^ i) (zmul (columnDigit 2 (cs ! i)) s))"
    by (rule sum.cong) (simp_all only: zmul_columnPoint [OF ok] zmul_distrib lessThan_iff)
  ultimately show ?thesis by (simp only: sum.distrib zmul_columnsValue [OF assms(2)] comp_apply)
qed

text \<open>What is left of the scalars selects an entry of the table.\<close>

lemma startIndex_facts:
  assumes "uint t1 \<le> 1" "uint t2 \<le> 1" "uint t3 \<le> 1"
  shows "unat (startIndex (t0, t1, t2, t3)) < 8"
    "columnPoint p q r s (unat (startIndex (t0, t1, t2, t3))) = p + zmul (uint t1) q + zmul (uint t2) r + zmul (uint t3) s"
proof -
  have w: "x = 0 \<or> x = 1" if "uint x \<le> 1" for x :: u64
  proof -
    have "uint x = 0 \<or> uint x = 1" using that uint_nonnegative [of x] by linarith
    then show ?thesis by (simp add: word_uint_eq_iff)
  qed
  show "unat (startIndex (t0, t1, t2, t3)) < 8"
    "columnPoint p q r s (unat (startIndex (t0, t1, t2, t3))) = p + zmul (uint t1) q + zmul (uint t2) r + zmul (uint t3) s"
    using w [OF assms(1)] w [OF assms(2)] w [OF assms(3)] by (auto simp: startIndex_def columnPoint_def bitAt_def)
qed

lemma recoded_multiples:
  assumes "recodeColumns 64 (s0, s1, s2, s3) = (cs, t)" "odd (uint s0)" "variableTable table p q r s" "extproj_ok R"
  shows "unat (startIndex t) < 8"
    "stands (mulLoop table cs (R2_to_R4 (table ! unat (startIndex t)) R)) (zmul (uint s0) p + zmul (uint s1) q + zmul (uint s2) r + zmul (uint s3) s)"
proof -
  obtain t0 t1 t2 t3 where t: "t = (t0, t1, t2, t3)" by (rule prod_cases4)
  note f = recodeColumns_facts [OF assms(1) [unfolded t]]
  have u: "uint x \<le> 2 ^ 64" for x :: u64 using uint_lt2p [of x] by simp
  have le: "uint t1 \<le> 1" "uint t2 \<le> 1" "uint t3 \<le> 1" using f u [of s1] u [of s2] u [of s3] by blast+
  note i = startIndex_facts [OF le, where ?t0.0 = t0, folded t]
  show "unat (startIndex t) < 8" by (rule i(1))
  have "uint t0 = 0" using f uint_lt2p [of s0] by (simp add: zdiv_eq_0_iff)
  then have o: "uint s0 = 2 ^ 64 + columnsValue (sg \<circ> fst) cs" using f oddOf_odd [OF assms(2)] by (simp add: oddOf_def)
  have e: "stands_precomp (table ! unat (startIndex t)) (p + zmul (uint t1) q + zmul (uint t2) r + zmul (uint t3) s)"
    using assms(3) i by (simp add: variableTable_def flip: i(2))
  have ws: "uint s1 = 2 ^ 64 * uint t1 + columnsValue (columnDigit 0) cs" "uint s2 = 2 ^ 64 * uint t2 + columnsValue (columnDigit 1) cs"
    "uint s3 = 2 ^ 64 * uint t3 + columnsValue (columnDigit 2) cs" using f by simp_all
  show "stands (mulLoop table cs (R2_to_R4 (table ! unat (startIndex t)) R)) (zmul (uint s0) p + zmul (uint s1) q + zmul (uint s2) r + zmul (uint s3) s)"
    using mulLoop_stands [OF assms(3) _ _ e assms(4)] f unfolding o ws by (simp add: zmul_add zmul_distrib zmul_mult algebra_simps)
qed

section \<open>The endomorphisms at the neutral point\<close>

text \<open>Coordinates of the neutral point, up to Ta and Tb.\<close>

definition neutralXYZ :: "point_extproj \<Rightarrow> bool" where
  "neutralXYZ P \<longleftrightarrow> extproj_ok P \<and> fp2v (pe_x P) = 0 \<and> fp2v (pe_y P) = fp2v (pe_z P) \<and> fp2v (pe_z P) \<noteq> 0"

lemma neutralXYZ_stands: "stands P 0 \<Longrightarrow> neutralXYZ P"
  by (simp add: neutralXYZ_def stands_def represents_def fourq_zero_coordinates)

lemma endo_constants_ok:
  "f2elm_ok ctau1" "f2elm_ok ctaudual1" "f2elm_ok cphi0" "f2elm_ok cphi1" "f2elm_ok cphi2" "f2elm_ok cphi3" "f2elm_ok cphi4" "f2elm_ok cphi5"
  "f2elm_ok cphi6" "f2elm_ok cphi7" "f2elm_ok cphi8" "f2elm_ok cphi9" "f2elm_ok cpsi1" "f2elm_ok cpsi2" "f2elm_ok cpsi3" "f2elm_ok cpsi4"
  by (simp_all add: f2elm_ok_def felm_ok_def ctau1_def ctaudual1_def cphi0_def cphi1_def cphi2_def cphi3_def cphi4_def cphi5_def cphi6_def cphi7_def cphi8_def cphi9_def cpsi1_def cpsi2_def cpsi3_def cpsi4_def)

definition gconj :: "gfp2 \<Rightarrow> gfp2" where
  "gconj x = GFp2 (re x) (- im x)"

lemma gconj_facts: "gconj 0 = 0" "gconj x = 0 \<longleftrightarrow> x = 0"
  by (simp add: gconj_def zero_gfp2_def) (cases x, simp add: gconj_def zero_gfp2_def)

lemma conjugate_facts:
  assumes "f2elm_ok a"
  shows "f2elm_ok (fst a, fpneg1271 (snd a))" "fp2v (fst a, fpneg1271 (snd a)) = gconj (fp2v a)"
  using assms by (simp_all add: f2elm_ok_def fp2v_def gconj_def fp.image_simps)

lemmas endo_simps = extproj_ok_def fp2.image_simps endo_constants_ok conjugate_facts gconj_facts

lemma ecc_tau_neutral: "neutralXYZ P \<Longrightarrow> neutralXYZ (ecc_tau P)"
  by (simp add: neutralXYZ_def ecc_tau_def Let_def endo_simps)

lemma ecc_tau_dual_neutral: "neutralXYZ P \<Longrightarrow> stands (ecc_tau_dual P) 0"
  by (simp add: neutralXYZ_def stands_def represents_def fourq_zero_coordinates ecc_tau_dual_def Let_def endo_simps)

lemma gfp_numeral_iff:
  "(numeral a :: gfp) = numeral b \<longleftrightarrow> (numeral a :: nat) mod (2 ^ 127 - 1) = numeral b mod (2 ^ 127 - 1)"
  "(numeral a :: gfp) = 0 \<longleftrightarrow> (numeral a :: nat) mod (2 ^ 127 - 1) = 0" "0 = (numeral a :: gfp) \<longleftrightarrow> (numeral a :: nat) mod (2 ^ 127 - 1) = 0"
  using of_nat_gfp_eq_iff [of "numeral a" "numeral b"] of_nat_gfp_eq_iff [of "numeral a" 0] by (auto simp: eq_commute [of 0])

lemmas constant_simps = fp2v_def fpv_def gfp2_defs gfp_numeral_iff diff_eq_eq eq_neg_iff_add_eq_0

lemma psi_constants: "fp2v cpsi4 = - fp2v cpsi3" "fp2v cpsi2 \<noteq> 0" "fp2v cpsi3 \<noteq> 0"
  by (simp_all add: constant_simps cpsi2_def cpsi3_def cpsi4_def)

lemma ecc_delpsidel_neutral: "neutralXYZ P \<Longrightarrow> neutralXYZ (ecc_delpsidel P)"
  by (simp add: neutralXYZ_def ecc_delpsidel_def Let_def endo_simps psi_constants)

lemma phi_constants:
  "(1 + (fp2v cphi6 + fp2v cphi7)) * fp2v cphi5 = fp2v cphi8 + 1 + fp2v cphi9" "fp2v cphi8 + 1 + fp2v cphi9 \<noteq> 0"
  "fp2v cphi4 + 1 + fp2v cphi3 \<noteq> 0" "fp2v cphi4 + 1 \<noteq> fp2v cphi3"
  by (simp_all add: constant_simps cphi3_def cphi4_def cphi5_def cphi6_def cphi7_def cphi8_def cphi9_def)

lemma phi_factors:
  fixes z :: gfp2
  shows "z ^ 4 + ((z * z) ^ 2 * a + z ^ 4 * b) = z ^ 4 * (1 + (a + b))" "(z * z) ^ 2 * a + z ^ 4 + z ^ 4 * b = z ^ 4 * (a + 1 + b)"
    "z ^ 2 * a + z ^ 2 + z * z * b = z ^ 2 * (a + 1 + b)" "z ^ 2 * a + z ^ 2 - z * z * b = z ^ 2 * (a + 1 - b)"
  by (simp_all add: power2_eq_square power4_eq_xxxx algebra_simps)

lemma ecc_delphidel_neutral: "neutralXYZ P \<Longrightarrow> neutralXYZ (ecc_delphidel P)"
  by (simp add: neutralXYZ_def ecc_delphidel_def Let_def endo_simps phi_factors phi_constants(2-4))
     (simp add: phi_constants(1) [symmetric] mult_ac)

lemma endomorphisms_neutral:
  assumes "stands P 0"
  shows "stands (ecc_phi P) 0" "stands (ecc_psi P) 0"
  unfolding ecc_phi_def ecc_psi_def
  by (intro ecc_tau_dual_neutral ecc_delphidel_neutral ecc_delpsidel_neutral ecc_tau_neutral neutralXYZ_stands assms)+

section \<open>Properties\<close>

text \<open>How the multiplication is composed.\<close>

lemma ecc_mul_accepted:
  assumes "ecc_point_validate (point_setup A)" "f2elm_ok (pa_x A)" "f2elm_ok (pa_y A)"
    "stands (cofactor_clearing (point_setup A)) p" "stands (ecc_phi (cofactor_clearing (point_setup A))) q"
    "stands (ecc_psi (cofactor_clearing (point_setup A))) r" "stands (ecc_psi (ecc_phi (cofactor_clearing (point_setup A)))) s"
    "decompose k = (s0, s1, s2, s3)"
  obtains P where "ecc_mul A k = Some (eccnorm P)" "stands P (zmul (uint s0) p + zmul (uint s1) q + zmul (uint s2) r + zmul (uint s3) s)"
proof -
  let ?R = "cofactor_clearing (point_setup A)"
  obtain cs t where c: "recodeColumns 64 (s0, s1, s2, s3) = (cs, t)" by (rule prod.exhaust)
  have "odd (uint s0)" using decompose_value [of k] by (simp add: assms(8))
  moreover have "extproj_ok (ecc_psi ?R)" using assms(6) by (simp add: stands_def)
  ultimately have "stands (mulLoop (fst (ecc_precomp ?R)) cs (R2_to_R4 (fst (ecc_precomp ?R) ! unat (startIndex t)) (ecc_psi ?R)))
      (zmul (uint s0) p + zmul (uint s1) q + zmul (uint s2) r + zmul (uint s3) s)"
    by (rule recoded_multiples(2) [OF c _ ecc_precomp_stands [OF assms(4-7)]])
  moreover have "ecc_mul A k = Some (eccnorm (mulLoop (fst (ecc_precomp ?R)) cs (R2_to_R4 (fst (ecc_precomp ?R) ! unat (startIndex t)) (ecc_psi ?R))))"
    using assms(1) by (simp add: ecc_mul_def Let_def assms(8) c case_prod_unfold ecc_precomp_argument)
  ultimately show thesis by (rule that [rotated])
qed

lemma zmul_cong_order:
  assumes "zmul n p = 0" "a mod n = b mod n"
  shows "zmul a p = zmul b p"
proof -
  obtain c where "a = b + c * n" using assms(2) by (metis mod_eqE mult.commute)
  then show ?thesis using assms(1) by (simp add: zmul_add flip: zmul_mult)
qed

text \<open>
  C24: variable-base multiplication.  For a point that the validation accepts, suppose that on its multiple p by the cofactor 392 the two
  endomorphisms are the multiplications by their eigenvalues and that the order of the curve annihilates p.  Then ecc_mul returns the
  affine coordinates, reduced, of k p = 392 k A: the decomposition, the recoding into signs and digits, the table of eight sums and the
  loop over 64 columns are exact.  Any other point is refused.\<close>

theorem ecc_mul_correct:
  assumes "f2elm_ok (pa_x A)" "f2elm_ok (pa_y A)"
  defines "R \<equiv> cofactor_clearing (point_setup A)" and "g \<equiv> point (fp2v (pa_x A)) (fp2v (pa_y A))"
  assumes "stands (ecc_phi R) (zmul (392 * lambda_phi) g)" "stands (ecc_psi R) (zmul (392 * lambda_psi) g)"
    "stands (ecc_psi (ecc_phi R)) (zmul (392 * (lambda_phi * lambda_psi)) g)" "zmul (392 * int (val256 curve_order)) g = 0"
  shows "if ecc_point_validate (point_setup A)
    then \<exists>B. ecc_mul A k = Some B \<and> fp2v (pa_x B) = px (zmul (392 * int (val256 k)) g) \<and> fp2v (pa_y B) = py (zmul (392 * int (val256 k)) g) \<and>
      f2elm_reduced (pa_x B) \<and> f2elm_reduced (pa_y B)
    else ecc_mul A k = None"
proof (cases "ecc_point_validate (point_setup A)")
  case True
  obtain s0 s1 s2 s3 where d: "decompose k = (s0, s1, s2, s3)" by (rule prod_cases4)
  have "extproj_ok (point_setup A)" using assms(1,2) by (simp add: extproj_ok_def point_setup_def d_ok)
  from on_curve_validated [OF this True] have "on_curve (fp2v (pa_x A)) (fp2v (pa_y A))" by (simp add: point_setup_def)
  from point_setup_stands [OF assms(1,2) this] have R: "stands R (zmul 392 g)" unfolding R_def g_def by (rule cofactor_clearing_stands)
  obtain P where P: "ecc_mul A k = Some (eccnorm P)"
    "stands P (zmul (uint s0) (zmul 392 g) + zmul (uint s1) (zmul (392 * lambda_phi) g) + zmul (uint s2) (zmul (392 * lambda_psi) g) +
       zmul (uint s3) (zmul (392 * (lambda_phi * lambda_psi)) g))"
    using ecc_mul_accepted [OF True assms(1,2) R [unfolded R_def] assms(5-7) [unfolded R_def] d] .
  have "eigen (uvec (decompose k)) mod int (val256 curve_order) = int (val256 k) mod int (val256 curve_order)" using decompose_value by blast
  then have "392 * eigen (uvec (decompose k)) mod (392 * int (val256 curve_order)) = 392 * int (val256 k) mod (392 * int (val256 curve_order))"
    by (simp only: mult_mod_right [symmetric])
  note e = zmul_cong_order [OF assms(8) this]
  have "392 * eigen (uvec (decompose k)) =
      uint s0 * 392 + uint s1 * (392 * lambda_phi) + uint s2 * (392 * lambda_psi) + uint s3 * (392 * (lambda_phi * lambda_psi))"
    by (simp add: d uvec_def eigen_def algebra_simps)
  then have "stands P (zmul (392 * int (val256 k)) g)" using P(2) unfolding e [symmetric] by (simp only: zmul_mult zmul_add)
  from eccnorm_stands [OF this] show ?thesis using True P(1) by simp
qed (simp add: ecc_mul_def)

lemma neutral_coordinates:
  "f2elm_ok (pa_x neutral)" "f2elm_ok (pa_y neutral)" "point (fp2v (pa_x neutral)) (fp2v (pa_y neutral)) = 0"
  unfolding zero_fourq_def
  by (simp_all add: neutral_def f2elm_ok_def felm_ok_def f2elm_one_def fp2v_def fpv_def zero_gfp2_def one_gfp2_def)

theorem ecc_mul_correct_witness:
  "\<exists>B. ecc_mul neutral (5, 0, 0, 0) = Some B \<and> fp2v (pa_x B) = 0 \<and> fp2v (pa_y B) = 1 \<and> f2elm_reduced (pa_x B) \<and> f2elm_reduced (pa_y B)"
proof -
  have "stands (point_setup neutral) 0" by (rule neutral_stands)
  from cofactor_clearing_stands [OF this] have R: "stands (cofactor_clearing (point_setup neutral)) 0" by simp
  note f = endomorphisms_neutral(1) [OF R]
  show ?thesis
    using ecc_mul_correct [OF neutral_coordinates(1,2), of "(5, 0, 0, 0)"] neutral_validated f endomorphisms_neutral(2) [OF R]
      endomorphisms_neutral(2) [OF f]
    by (simp add: neutral_coordinates(3) fourq_zero_coordinates)
qed

end
