(* ===== verification/Dispatcher_Main.thy ===== *)
theory Dispatcher_Main
  imports Config Task_Dist Stratum_Recv Qubic_Peers
begin

text \<open>
  The rest of \<open>main\<close> in \<open>dispatcher/src/dispatcher.cpp\<close>: opening the connections, the thread that drains the messages of the
  pool in dry mode, the integer part of the statistics, and the shutdown.  The start before the connections is in \<open>Config\<close>.
\<close>

section \<open>Opening the connections\<close>

definition newQubicConnection :: QubicConnection where
  "newQubicConnection = \<lparr>qc_socket = Socket_new, qc_net = \<lparr>n_incoming = [], n_sendResults = [], n_outgoing = []\<rparr>, qc_peerIp = [], qc_peerPort = 0\<rparr>"

definition setPeer :: "string \<Rightarrow> int \<Rightarrow> QubicConnection \<Rightarrow> QubicConnection" where
  "setPeer ip port c = c\<lparr>qc_peerIp := ip, qc_peerPort := port\<rparr>"

text \<open>Every peer is connected in a thread of its own, and all threads are joined: \<open>None\<close> when one of them is still waiting.\<close>

fun connectPeers :: "(osConnect \<times> string) list \<Rightarrow> int \<Rightarrow> (netError + QubicConnection list) option" where
  "connectPeers [] port = Some (Inr [])"
| "connectPeers ((os, ip) # peers) port =
     (case reconnect os (setPeer ip port newQubicConnection) of
        None \<Rightarrow> None
      | Some (Inl e) \<Rightarrow> Some (Inl e)
      | Some (Inr (ok, c)) \<Rightarrow>
          (case connectPeers peers port of
             None \<Rightarrow> None
           | Some (Inl e) \<Rightarrow> Some (Inl e)
           | Some (Inr cs) \<Rightarrow> Some (Inr (c # cs))))"

definition connectedPeers :: "QubicConnection list \<Rightarrow> nat" where
  "connectedPeers cs = length (filter (\<lambda>c. s_isConnected (qc_socket c)) cs)"

text \<open>What the system calls for the connection to the pool return.\<close>

record osStratum =
  os_context :: bool
  os_dnsOk :: bool
  os_stratumRaw :: int
  os_connectOk :: bool
  os_stratumNet :: Net

datatype mainError = NetError netError | StratumError stratumError

text \<open>The exit code 1, or the connections with which the threads start.\<close>

definition openConnections ::
  "osStratum \<Rightarrow> osConnect list \<Rightarrow> (bytes \<Rightarrow> 'j option) \<Rightarrow> ('j \<Rightarrow> ResponseView) \<Rightarrow> bytes \<Rightarrow> bytes \<Rightarrow> DispatcherAppConfig \<Rightarrow>
   (mainError + nat + 'j StratumState \<times> QubicConnection list) option" where
  "openConnections os oss parse view subscribeMsg authMsg config =
     (if \<not> os_context os then Some (Inr (Inl 1))
      else case openConnection (os_dnsOk os) (os_stratumRaw os) (os_connectOk os) Socket_new of (ok, sock) \<Rightarrow>
        if \<not> ok then Some (Inr (Inl 1))
        else (case connectPeers (zip oss (qc_ips (ac_qubic config))) (qc_port (ac_qubic config)) of
           None \<Rightarrow> None
         | Some (Inl e) \<Rightarrow> Some (Inl (NetError e))
         | Some (Inr qubicConnections) \<Rightarrow>
             (case initStratumProtocol parse view subscribeMsg authMsg
                \<lparr>ss_conn = (sock, os_stratumNet os), ss_queue = \<lparr>m_queue = []\<rparr>, ss_extraNonce1 = []\<rparr> of
                None \<Rightarrow> None
              | Some (Inl e) \<Rightarrow> Some (Inl (StratumError e))
              | Some (Inr (ok, stratum)) \<Rightarrow>
                  if \<not> ok then Some (Inr (Inl 1)) else Some (Inr (Inr (stratum, qubicConnections))))))"

section \<open>Dry mode\<close>

text \<open>The thread that drains the messages of the pool, on the messages it pops.\<close>

fun dryDrain :: "JsonMsg list \<Rightarrow> DispatcherStats \<Rightarrow> distError + DispatcherStats" where
  "dryDrain [] stats = Inr stats"
| "dryDrain (msg # ms) stats =
     (if \<not> j_containsId msg then dryDrain ms stats
      else if j_idNull msg then
        (if j_method msg = ''mining.set_difficulty'' then
           (case j_setDifficulty msg of
              None \<Rightarrow> Inl JsonException
            | Some diff \<Rightarrow> dryDrain ms (stats\<lparr>st_poolDifficulty := diff\<rparr>))
         else if j_method msg = ''mining.notify'' then dryDrain ms (stats\<lparr>st_tasksDistributed := st_tasksDistributed stats + 1\<rparr>)
         else dryDrain ms stats)
      else dryDrain ms stats)"

section \<open>Statistics\<close>

text \<open>The shares per computor: the entries that are written, and the computors active ever and within the last hour.\<close>

definition computorStep :: "int \<Rightarrow> DispatcherStats \<Rightarrow> nat \<Rightarrow> (nat \<times> u64) list \<times> nat \<times> nat \<Rightarrow> (nat \<times> u64) list \<times> nat \<times> nat" where
  "computorStep nowEpoch stats i = (\<lambda>(compShares, activeTotal, activeLastHour).
     (let count = st_computorShares stats ! i;
          lastSeen = st_computorLastSeen stats ! i
      in if 0 < count
         then (compShares @ [(i, count)], activeTotal + 1,
               if 0 < lastSeen \<and> nowEpoch - lastSeen < 3600 then activeLastHour + 1 else activeLastHour)
         else (compShares, activeTotal, activeLastHour)))"

definition computorStats :: "int \<Rightarrow> DispatcherStats \<Rightarrow> (nat \<times> u64) list \<times> nat \<times> nat" where
  "computorStats nowEpoch stats = fold (computorStep nowEpoch stats) [0..<NUM_COMPUTORS] ([], 0, 0)"

text \<open>The path of the second file: the directory of the first one.\<close>

definition peerStatsPath :: "string \<Rightarrow> string" where
  "peerStatsPath statsFile =
     (if CHR ''/'' \<in> set statsFile
      then rev (dropWhile (\<lambda>c. c \<noteq> CHR ''/'') (rev statsFile)) @ ''peerstats.json''
      else ''peerstats.json'')"

text \<open>The entries of the second file: the counters of a peer with its flag.  Entries are written for the peers with an address only, and
  the flags are then set by position.\<close>

definition peerEntries :: "PeerStats list \<Rightarrow> (PeerStats \<times> bool) list" where
  "peerEntries peerStats = map (\<lambda>ps. (ps, False)) (filter (\<lambda>ps. ps_ip ps \<noteq> []) peerStats)"

fun setConnected :: "QubicConnection list \<Rightarrow> (PeerStats \<times> bool) list \<Rightarrow> (PeerStats \<times> bool) list" where
  "setConnected (c # cs) ((ps, flag) # es) = (ps, s_isConnected (qc_socket c)) # setConnected cs es"
| "setConnected cs es = es"

definition peerStatsJson :: "QubicConnection list \<Rightarrow> PeerStats list \<Rightarrow> (PeerStats \<times> bool) list" where
  "peerStatsJson qubicConnections peerStats = setConnected qubicConnections (peerEntries peerStats)"

section \<open>Shutdown\<close>

record MainState =
  ms_dryRun :: bool
  ms_stratum :: Socket
  ms_connections :: "QubicConnection list"
  ms_stratumQueue :: "JsonMsg ConcurrentQueue"
  ms_solutions :: "DispatcherMiningSolution ConcurrentQueue"

text \<open>The empty messages that end a blocking pop are the arguments; the stop requests come before them.\<close>

definition shutdown :: "JsonMsg \<Rightarrow> DispatcherMiningSolution \<Rightarrow> MainState \<Rightarrow> MainState" where
  "shutdown emptyObject emptySolution s =
     (let s1 = s\<lparr>ms_stratum := closeConnection (ms_stratum s),
                 ms_connections := map (\<lambda>c. c\<lparr>qc_socket := closeConnection (qc_socket c)\<rparr>) (ms_connections s),
                 ms_stratumQueue := q_push (ms_stratumQueue s) emptyObject\<rparr>
      in if ms_dryRun s then s1 else s1\<lparr>ms_solutions := q_push (ms_solutions s1) emptySolution\<rparr>)"

section \<open>The connections after the start\<close>

lemma reconnect_peer:
  "reconnect os c = Some (Inr (ok, c')) \<Longrightarrow> qc_peerIp c' = qc_peerIp c \<and> qc_peerPort c' = qc_peerPort c"
  by (auto simp: reconnect_def split: if_splits dest: openQubicConnection_peer)

lemma connectPeers_peers:
  "connectPeers peers port = Some (Inr cs) \<Longrightarrow> map qc_peerIp cs = map snd peers \<and> list_all (\<lambda>c. qc_peerPort c = port) cs"
  by (induction peers port arbitrary: cs rule: connectPeers.induct)
    (auto simp: setPeer_def split: option.splits sum.splits prod.splits dest!: reconnect_peer)

text \<open>When the threads start, there is one connection for every configured address, in order and with its address and port, connected
  or not.\<close>

lemma openConnections_peers:
  assumes "openConnections os oss parse view sub auth config = Some (Inr (Inr (stratum, cs)))" "length oss = length (qc_ips (ac_qubic config))"
  shows "map qc_peerIp cs = qc_ips (ac_qubic config)" "list_all (\<lambda>c. qc_peerPort c = qc_port (ac_qubic config)) cs"
  using assms connectPeers_peers [of "zip oss (qc_ips (ac_qubic config))" "qc_port (ac_qubic config)" cs]
  by (auto simp: openConnections_def split: if_splits option.splits sum.splits prod.splits)

lemma openConnections_no_context: "\<not> os_context os \<Longrightarrow> openConnections os oss parse view sub auth config = Some (Inr (Inl 1))"
  by (simp add: openConnections_def)

lemma openConnections_no_pool:
  "\<not> os_dnsOk os \<or> \<not> os_connectOk os \<Longrightarrow> openConnections os oss parse view sub auth config = Some (Inr (Inl 1))"
  by (auto simp: openConnections_def openConnection_def Let_def)

section \<open>The statistics\<close>

lemma dryDrain_result:
  assumes "list_all json_ok ms"
  shows "\<exists>stats'. dryDrain ms stats = Inr stats' \<and>
    st_tasksDistributed stats' = st_tasksDistributed stats + of_nat (length (notifies ms)) \<and>
    st_poolDifficulty stats' = last (st_poolDifficulty stats # divisors ms)"
  using assms
proof (induction ms arbitrary: stats)
  case Nil
  then show ?case by (simp add: notifies_def divisors_def List.map_filter_simps)
next
  case (Cons m ms)
  let ?n = "stats\<lparr>st_tasksDistributed := st_tasksDistributed stats + 1\<rparr>"
  have ok: "json_ok m" "list_all json_ok ms" using Cons.prems by simp_all
  note IH = Cons.IH [OF ok(2)]
  show ?case
    using ok(1) IH [of stats] IH [of ?n] IH [of "stats\<lparr>st_poolDifficulty := the (j_setDifficulty m)\<rparr>"]
    by (auto simp: json_ok_def notifies_def divisors_def List.map_filter_simps add_ac)
qed

text \<open>The computors with shares, and those of them seen within the last hour.\<close>

definition hasShares :: "DispatcherStats \<Rightarrow> nat \<Rightarrow> bool" where
  "hasShares stats i \<longleftrightarrow> 0 < st_computorShares stats ! i"

definition seenLastHour :: "int \<Rightarrow> DispatcherStats \<Rightarrow> nat \<Rightarrow> bool" where
  "seenLastHour now stats i \<longleftrightarrow> 0 < st_computorLastSeen stats ! i \<and> now - st_computorLastSeen stats ! i < 3600"

lemma computorStats_fold:
  "fold (computorStep now stats) is (xs, t, h) =
   (xs @ map (\<lambda>i. (i, st_computorShares stats ! i)) (filter (hasShares stats) is), t + length (filter (hasShares stats) is),
    h + length (filter (\<lambda>i. hasShares stats i \<and> seenLastHour now stats i) is))"
  by (induction "is" arbitrary: xs t h) (simp_all add: computorStep_def Let_def hasShares_def seenLastHour_def)

lemma computorStats_counts:
  assumes "computorStats now stats = (shares, tot, hour)"
  shows "shares = map (\<lambda>i. (i, st_computorShares stats ! i)) (filter (hasShares stats) [0..<NUM_COMPUTORS])"
    "tot = length shares" "hour = length (filter (seenLastHour now stats) (filter (hasShares stats) [0..<NUM_COMPUTORS]))"
    "hour \<le> tot" "tot \<le> NUM_COMPUTORS"
proof -
  show s: "shares = map (\<lambda>i. (i, st_computorShares stats ! i)) (filter (hasShares stats) [0..<NUM_COMPUTORS])" and t: "tot = length shares"
    and h: "hour = length (filter (seenLastHour now stats) (filter (hasShares stats) [0..<NUM_COMPUTORS]))"
    using assms by (auto simp: computorStats_def computorStats_fold conj_commute)
  show "hour \<le> tot" unfolding h t s length_map by (rule length_filter_le)
  show "tot \<le> NUM_COMPUTORS" unfolding t s length_map using length_filter_le [of "hasShares stats" "[0..<NUM_COMPUTORS]"] by simp
qed

lemma peerStatsPath_directory:
  "CHR ''/'' \<notin> set name \<Longrightarrow> peerStatsPath (dir @ ''/'' @ name) = dir @ ''/peerstats.json''"
proof -
  assume "CHR ''/'' \<notin> set name"
  then have "\<And>c. c \<in> set (rev name) \<Longrightarrow> c \<noteq> CHR ''/''" by auto
  then have "dropWhile (\<lambda>c. c \<noteq> CHR ''/'') (rev name @ CHR ''/'' # rev dir) = CHR ''/'' # rev dir" by (subst dropWhile_append2) auto
  then show ?thesis by (simp add: peerStatsPath_def)
qed

text \<open>If every peer has an address, the entries are the peers in order, each with the flag of its own connection.\<close>

lemma setConnected_map:
  "length cs = length pss \<Longrightarrow> setConnected cs (map (\<lambda>ps. (ps, False)) pss) = zip pss (map (\<lambda>c. s_isConnected (qc_socket c)) cs)"
  by (induction cs pss rule: list_induct2) simp_all

lemma peerStatsJson_all_addressed:
  assumes "list_all (\<lambda>ps. ps_ip ps \<noteq> []) pss" "length cs = length pss"
  shows "peerStatsJson cs pss = zip pss (map (\<lambda>c. s_isConnected (qc_socket c)) cs)"
proof -
  have "filter (\<lambda>ps. ps_ip ps \<noteq> []) pss = pss" using assms(1) by (simp add: list_all_iff)
  then show ?thesis by (simp only: peerStatsJson_def peerEntries_def setConnected_map [OF assms(2)])
qed

text \<open>A peer without an address shifts the flags: the next peer is reported with the flag of the connection before it.\<close>

lemma peerStatsJson_shifted:
  assumes "ps_ip p = []" "ps_ip q \<noteq> []"
  shows "hd (peerStatsJson (c # d # cs) (p # q # pss)) = (q, s_isConnected (qc_socket c))"
  using assms by (simp add: peerStatsJson_def peerEntries_def)

section \<open>The end\<close>

text \<open>After the shutdown no connection is open, and every thread that blocks in a pop finds a message.\<close>

lemma shutdown_ends:
  assumes "s' = shutdown m sol s"
  shows "\<not> s_isConnected (ms_stratum s')" "list_all (\<lambda>c. \<not> s_isConnected (qc_socket c)) (ms_connections s')"
    "q_pop (ms_stratumQueue s') \<noteq> None" "\<not> ms_dryRun s \<Longrightarrow> q_pop (ms_solutions s') \<noteq> None"
    "map qc_peerIp (ms_connections s') = map qc_peerIp (ms_connections s)"
  unfolding assms
  by (auto simp: shutdown_def Let_def closeConnection_def Socket_reset_def list_all_iff q_push_def q_pop_def split: list.splits)

end
