(* ===== verification/Spec2Isabelle.thy ===== *)
theory Spec2Isabelle
  imports Prelude Difficulty Sha256_Constants Scrypt Hash_Util Structs Concurrency Connection Qubic_Connection
    Qubic_Recv Qubic_Peers Share_Valid Task_Dist Stratum_Recv Kt128 Key_Utils FourQ_Fixed SchnorrQ Schnorr_Verify Schnorr_Group Config
    FourQ_Variable Dispatcher_Main
begin

text \<open>
  The Qubic dispatcher for Dogecoin mining, a verification of \<open>src/dispatcher/src\<close>.

  \<^bold>\<open>The program.\<close>  The dispatcher stands between a mining pool, which speaks the stratum protocol over a line-based
  TCP connection, and the peers of the Qubic network, which mine.  \<open>main\<close> (\<open>dispatcher.cpp\<close>) reads a configuration,
  derives a key pair from a seed, opens the connections and starts four threads that share two queues and a map:
  the stratum receiving thread cuts the stream of the pool into JSON lines and queues them; the task distribution
  thread turns notifications into signed task packets, sends them to every peer and stores the task in the map
  \<open>activeTasks\<close>; the Qubic receiving thread polls the peers, reassembles packets, checks the signatures of solutions and
  queues them, and reconnects lost peers; the share validation thread rebuilds the block header of a solution, hashes
  it with scrypt, compares it with the two targets and submits shares to the pool.

  \<^bold>\<open>Theories and sources.\<close>
  \<^item> \<open>Prelude\<close>: machine integers, byte arrays and their little- and big-endian values, \<open>memcpy\<close>, list lemmas.
  \<^item> \<open>Difficulty\<close> (\<open>hash_util/difficulty.cpp\<close>, \<open>.h\<close>): compact and full targets, the division of a 256-bit target.
  \<^item> \<open>Streaming\<close>, \<open>Sha256\<close>, \<open>Sha256_Constants\<close>, \<open>Hmac_Pbkdf2\<close>, \<open>Scrypt\<close> (\<open>hash_util/scrypt.c\<close>, \<open>.h\<close>): SHA-256 with its
    buffered context, HMAC, PBKDF2, Salsa20/8, BlockMix, ROMix and the layout of the scratchpad.
  \<^item> \<open>Hash_Util\<close> (\<open>hash_util/hash_util.cpp\<close>): hexadecimal strings, double SHA-256, the Merkle root, the target check.
  \<^item> \<open>Structs\<close> (\<open>structs.h\<close>): the records and their packed layouts.  \<open>Concurrency\<close> (\<open>concurrency/\<close>): the queue, the map.
  \<^item> \<open>Connection\<close>, \<open>Qubic_Connection\<close> (\<open>connection/\<close>): sockets, complete sends and receives, the handshake with a peer.
  \<^item> \<open>Qubic_Recv\<close>, \<open>Qubic_Peers\<close> (\<open>threads/qubic_recv_thread.cpp\<close>): packets and solutions of one peer; the poll list, the
    reconnect state and one pass of the loop over all peers.
  \<^item> \<open>Share_Valid\<close>, \<open>Task_Dist\<close>, \<open>Stratum_Recv\<close>: the threads of the same names under \<open>threads/\<close>.
  \<^item> \<open>Keccak\<close>, \<open>K12\<close>, \<open>Kt128\<close> (\<open>crypto/k12_and_key_utils.h\<close>): the unrolled permutation, the sponge and KangarooTwelve.
  \<^item> \<open>Multiprecision\<close>, \<open>Fp1271\<close>, \<open>Fp2_1271\<close>, \<open>Montgomery\<close>, \<open>FourQ\<close>, \<open>FourQ_Table\<close>, \<open>FourQ_Fixed\<close> (the same file): carries
    and products of words, the field of 2^127 - 1 elements and its quadratic extension, arithmetic modulo the order, points
    of the curve FourQ, the table of multiples of the generator and the multiplication by a scalar.
  \<^item> \<open>Mersenne127\<close>, \<open>Prime127\<close>, \<open>Fp_Field\<close>, \<open>FourQ_Group\<close>, \<open>FourQ_Refine\<close>: the mathematics behind this arithmetic.  The test of Lucas
    and Lehmer, evaluated by the kernel, shows that 2^127 - 1 is prime; the residues and their quadratic extension are fields; the
    points of the curve form a group, which the operations on coordinates implement.
  \<^item> \<open>Octal\<close>, \<open>Octal_Points\<close>, \<open>FourQ_Powers\<close>, \<open>FourQ_Entries\<close>, \<open>FourQ_Order\<close>, \<open>FourQ_Generator\<close>, \<open>FourQ_Base_Table\<close>, \<open>FourQ_Comb\<close>,
    \<open>Schnorr_Group\<close>: octal arithmetic that the simplifier evaluates quickly, with which all 80 entries of the fixed-base table are shown to be the
    multiples of the generator that the comb needs, and its order to be that of the code; the comb; signatures in the group.
  \<^item> \<open>FourQ_Endo\<close>, \<open>FourQ_Scalar\<close>, \<open>FourQ_Double_Table\<close>, \<open>FourQ_Mul\<close>, \<open>Schnorr_Verify\<close> (the same file): the endomorphisms, the
    decomposition and recoding of scalars, the second table, the double multiplication, decoding and the verification of signatures.
    \<open>FourQ_Variable\<close> (the same file): the multiplication of any point, which the dispatcher itself does not call, with its table, its cofactor and its recoding.
  \<^item> \<open>Key_Utils\<close> (\<open>crypto/key_utils.cpp\<close>), \<open>SchnorrQ\<close> (\<open>crypto/dispatcher_signing.cpp\<close> and \<open>sign\<close>), \<open>Config\<close>
    (\<open>config/config.cpp\<close> and the start of \<open>main\<close>).  \<open>Dispatcher_Main\<close>: the rest of \<open>main\<close>, with the connections, the dry mode, the
    counts in the statistics and the shutdown.
  \<^bold>\<open>How the code is modelled.\<close>  C and C++ integers are words of their width, so that every wrap-around of the code is one
  of the model; sizes of containers, indices and counters bounded by them are natural numbers.  A buffer is a list of bytes,
  written by \<open>memcpy_at\<close>, and a packed struct is a record with its encoding.  A struct with methods is a record, and a
  method returns the changed record.  Exceptions, early returns and failing calls are values of option and sum types.
  What other code returns is an argument: the results of socket calls are read from a script (\<open>Net\<close>), clocks are
  numbers, and the JSON library is a view of the fields the code reads, in which a missing field or one of another type is
  the exception the library throws.  The threads run their passes on explicit state; the waiting in \<open>pop\<close> and the notification
  in \<open>push\<close> are a step relation, and so are the passes of the Qubic receiving thread together with failing sends.

  \<^bold>\<open>What is shown.\<close>  A solution is submitted exactly if its block header hashes below the target, with the counters and
  the deduplication in step (C1, C28, C30); the scrypt of the code is
  the standard function over the standard SHA-256, PBKDF2 and constants (C2,
  C10, C40).  Streams are cut correctly into packets and lines whatever the sizes of the
  reads (C3, C29), and a solution is queued exactly if its packet is well-formed and its signature verifies
  (C6).  The packets of tasks are laid out, signed and sent as intended (C4,
  C12), where KangarooTwelve is the KT128 of RFC 9861 (C5) and the signature
  satisfies the verification equation of SchnorrQ in the group of the curve (C9).  The number 2^127 - 1 is prime (theory \<open>Prime127\<close>), so that the arithmetic of the code is the one of a field
  (C21), the points of the curve are a commutative group (instance of \<open>ab_group_add\<close> in \<open>FourQ_Group\<close>), and the
  coordinate formulas refine it (C7); the multiplication of the generator is exact, with every entry of its table and the order of
  the generator checked (C8); the parts of the double multiplication recode and decompose their scalars and add up their multiples correctly
  (C15, C16, C17, C20), as does the
  multiplication of any point, given the eigenvalues of the endomorphisms (C24),
  and verification decodes to points of the curve and always returns (C18, C19, C25).  Targets and their division
  are exact, the comparison is the one of numbers (C11, C14, C35).
  Peers are always polled or scheduled, with the one exception that is stated as a theorem of its own (C13,
  C31); a waiting consumer is woken (C32); sends are complete or fail
  (C33).  Other theorems state defects exactly (C26, C27, C36,
  C37, C38).

  \<^bold>\<open>Interfaces.\<close>  The locale \<open>streaming\<close> is the contract of incremental hashes, interpreted for SHA-256 and for HMAC;
  \<open>fifo\<close> and \<open>key_map\<close> are those of the queue and the map; \<open>ring_image\<close> is the one of modular arithmetic on
  representatives, interpreted for the field and for its extension, and the curve formulas rest on its facts; \<open>doubling\<close> is the one of
  a representation of a group with a doubling, in which the loops of the multiplications are proved, interpreted for extended coordinates.

  \<^bold>\<open>Bounds and termination.\<close>  Loops are structural recursion or have a measure.  Where a call to the system may be repeated without end (sending,
  receiving, reconnecting) the loop consumes the script of results, and the result \<open>None\<close> says that the script has ended before the loop.

  \<^bold>\<open>Not modelled.\<close>  Log output, the hash rates (in floating point) and the writing of the statistics files in \<open>main\<close>, the creation of the
  threads, the input thread (terminal input only); that the endomorphisms act on the subgroup of the generator as
  multiplication by their eigenvalues, and that the second table holds the multiples of the images of the generator, are not proved;
  the test programs under \<open>dispatcher/test\<close>; the pool servers \<open>foundation-v2-dogecoin\<close> and
  \<open>foundation-v2-litecoin\<close>, which are copies of a third-party JavaScript server with vendored hash functions; the relay,
  the statistics site and the tools, which are written in C\#, Python and JavaScript.
\<close>

section \<open>The signed task packet\<close>

text \<open>The signing function that the task distribution of the dispatcher uses.\<close>

definition signPacket :: "DispatcherSigningContext \<Rightarrow> bytes \<Rightarrow> bytes" where
  "signPacket ctx data = signTaskPacket ctx data (of_nat (length data))"

lemma initSigningContext_lengths:
  assumes "initSigningContext seed = Some ctx"
  shows "length (sc_subseed ctx) = 32 \<and> length (sc_publicKey ctx) = 32"
proof -
  have l: "length seed = 55" using assms by (simp add: initSigningContext_def split: if_splits)
  then have "length (KangarooTwelve (map (\<lambda>c. c - 97) seed) 55 32) = 32"
    using length_KangarooTwelve [of "map (\<lambda>c. c - 97) seed" 32] by simp
  then show ?thesis
    using assms l by (auto simp: initSigningContext_def getSubseedFromSeed_def getPublicKeyFromPrivateKey_def split: if_splits)
qed

lemma signPacket_verifies:
  assumes "initSigningContext seed = Some ctx" "length data < 2 ^ 32"
  shows "\<exists>A. sc_publicKey ctx = encode (affine A) \<and> group_verifies A (sc_publicKey ctx) (KT128 data [] 32) (signPacket ctx data)"
proof -
  have "sc_publicKey ctx = getPublicKeyFromPrivateKey (getPrivateKeyFromSubSeed (sc_subseed ctx))"
    using assms(1) by (auto simp: initSigningContext_def split: if_splits option.splits)
  then show ?thesis
    using sign_group_verifies [of "sc_subseed ctx" "KT128 data [] 32" "sc_publicKey ctx"] initSigningContext_lengths [OF assms(1)]
      KangarooTwelve_standard [OF assms(2), of 32]
    by (simp add: signPacket_def signTaskPacket_def length_KT128)
qed

text \<open>
  C4: the tasks that the dispatcher distributes are signed with its key.  With a signing context derived from the
  configured seed, whose public key is the encoding of a point A of the curve, a well-formed notification makes distributeTask send to every
  peer one packet: the header, the payload of the task layout, and a signature of 64 bytes that satisfies the verification equation of SchnorrQ
  for A in the group of the curve and the KT128 digest of exactly this payload; the task is stored under its job id and counted.\<close>

theorem distributed_task_signed:
  assumes "initSigningContext seed = Some ctx"
    and "notify_ok p (d_currentPoolDifficulty s) en1" "difficulty_inv (d_currentPoolDifficulty s)"
    and "length (d_buffer s) = taskBufferSize"
    and "t = dispatcherTaskOf p (d_currentPoolDifficulty s) en1"
    and "payload = taskPayload nowMs (dogeTaskFor (np_cleanJobQueue p \<or> propagate) p (d_currentPoolDifficulty s) en1) t"
  shows "\<exists>A buf' signature. sc_publicKey ctx = encode (affine A) \<and> group_verifies A (sc_publicKey ctx) (KT128 payload [] 32) signature \<and>
    distributeTask (signPacket ctx) nowMs en1 propagate p s =
    (case sendToAll (encode_header (taskHeader (totalNumBytes t)) @ payload @ signature) (d_connections s) of
       None \<Rightarrow> None
     | Some (n, conns) \<Rightarrow> Some (s\<lparr>d_connections := conns, d_buffer := buf',
         d_activeTasks := hm_insert (if np_cleanJobQueue p \<or> propagate then hm_clear (d_activeTasks s) else d_activeTasks s) nowMs t,
         d_stats := (d_stats s)\<lparr>st_tasksDistributed := st_tasksDistributed (d_stats s) + 1\<rparr>\<rparr>))"
proof -
  let ?dt = "dogeTaskFor (np_cleanJobQueue p \<or> propagate) p (d_currentPoolDifficulty s) en1"
  have "totalNumBytes t = sizeof_header + length payload + SIGNATURE_SIZE"
    unfolding assms(6) by (rule totalNumBytes_payload [OF task_ok_dogeTaskFor [OF assms(2,3)]])
  then have "length payload < 2 ^ 32" using assms(2) by (simp add: notify_ok_def assms(5) taskBufferSize_def)
  note signPacket_verifies [OF assms(1) this]
  moreover have "length (signPacket ctx m) = SIGNATURE_SIZE" for m
    by (simp add: signPacket_def signTaskPacket_def SIGNATURE_SIZE_def)
  note distributeTask_ok [where sign = "signPacket ctx" and nowMs = nowMs and propagate = propagate, OF assms(2-4) this refl refl]
  ultimately show ?thesis unfolding taskPacket_def assms(5,6) by blast
qed

theorem distributed_task_signed_witness:
  "\<exists>ctx A buf' signature u. initSigningContext (replicate 55 97) = Some ctx \<and> sc_publicKey ctx = encode (affine A) \<and>
    group_verifies A (sc_publicKey ctx)
      (KT128 (taskPayload 77 (dogeTaskFor True (exampleNotify ''j'' True) (d_currentPoolDifficulty exampleDist) [1, 2])
        (dispatcherTaskOf (exampleNotify ''j'' True) (d_currentPoolDifficulty exampleDist) [1, 2])) [] 32) signature \<and>
    distributeTask (signPacket ctx) 77 [1, 2] False (exampleNotify ''j'' True) exampleDist = Some u"
proof -
  obtain ctx where ctx: "initSigningContext (replicate 55 97) = Some ctx" using initSigningContext_valid [of "replicate 55 97"] by (auto simp: list_all_iff)
  have ok: "notify_ok (exampleNotify ''j'' True) (d_currentPoolDifficulty exampleDist) [1, 2]"
    by (simp add: notify_ok_def exampleNotify_def dispatcherTaskOf_def totalNumBytes_def sizeof_defs length_hexToBytes taskBufferSize_def)
  have inv: "difficulty_inv (d_currentPoolDifficulty exampleDist)" by (simp add: exampleDist_def difficulty_inv_fromFull)
  have buf: "length (d_buffer exampleDist) = taskBufferSize" by (simp add: exampleDist_def taskBufferSize_def)
  have conns: "d_connections exampleDist = []" and cl: "np_cleanJobQueue (exampleNotify ''j'' True)"
    by (simp_all add: exampleDist_def exampleNotify_def)
  from distributed_task_signed [OF ctx ok inv buf refl refl, of 77 False] show ?thesis
    unfolding conns using ctx cl by auto
qed

section \<open>The signed solution\<close>

text \<open>
  The two functions that \<open>processSolution\<close> calls, as the dispatcher links them: KangarooTwelve with 32 bytes of output, and the
  verification of SchnorrQ signatures, which always returns.
\<close>

definition digestOf :: "bytes \<Rightarrow> bytes" where
  "digestOf m = KangarooTwelve m (of_nat (length m)) 32"

definition verifySignature :: "bytes \<Rightarrow> bytes \<Rightarrow> bytes \<Rightarrow> bool" where
  "verifySignature publicKey messageDigest signature \<longleftrightarrow> verify publicKey messageDigest signature = Some True"

lemma solution_payload_length:
  assumes "length (cqs_sourcePublicKey cs) = 32" "solution_ok s"
  shows "length (encode_CustomQubicMiningSolution cs @ encode_QubicDogeMiningSolution s) < 2 ^ 32"
  using assms by (simp add: solution_ok_def layout)

text \<open>
  C6: a solution of a miner is queued if and only if its signature verifies.  A packet of the right layout is queued, with
  exactly the fields that the miner sent, if verify accepts the signature at its end for the source public key in the
  packet and the KT128 digest of everything between header and signature; otherwise the queue is unchanged.  Bytes
  that follow the packet have no influence.\<close>

theorem solution_queued_iff_verified:
  assumes "length (cqs_sourcePublicKey cs) = 32" "solution_ok s" "length sig = SIGNATURE_SIZE"
    "cqs_customMiningType cs = DOGE"
  shows "processSolution digestOf verifySignature (solutionPacket dv cs s sig @ rest) solutionPacketSize q =
    (if verify (cqs_sourcePublicKey cs) (KT128 (encode_CustomQubicMiningSolution cs @ encode_QubicDogeMiningSolution s) [] 32) sig = Some True
     then q_push q (toDispatcherSolution cs s) else q)"
  unfolding processSolution_packet [OF assms] verifySignature_def digestOf_def
  by (simp add: KangarooTwelve_standard [OF solution_payload_length [OF assms(1,2)]] del: length_append)

definition exampleSource :: CustomQubicMiningSolution where
  "exampleSource = \<lparr>cqs_sourcePublicKey = replicate 32 5, cqs_jobId = 9, cqs_customMiningType = DOGE\<rparr>"

definition exampleSolution :: QubicDogeMiningSolution where
  "exampleSolution = \<lparr>ds_nTime = [1, 2, 3, 4], ds_nonce = [5, 6, 7, 8], ds_merkleRoot = replicate 32 1,
     ds_extraNonce2 = [0, 0, 0, 0, 0, 0, 0, 1]\<rparr>"

theorem solution_queued_iff_verified_witness:
  "processSolution digestOf verifySignature (solutionPacket 7 exampleSource exampleSolution (replicate 64 0) @ [1]) solutionPacketSize
     \<lparr>m_queue = []\<rparr> =
   \<lparr>m_queue = (if verify (replicate 32 5)
        (KT128 (encode_CustomQubicMiningSolution exampleSource @ encode_QubicDogeMiningSolution exampleSolution) [] 32) (replicate 64 0) = Some True
      then [\<lparr>dms_jobId = 9, dms_nTime = [1, 2, 3, 4], dms_nonce = [5, 6, 7, 8], dms_merkleRoot = replicate 32 1,
        dms_extraNonce2 = [0, 0, 0, 0, 0, 0, 0, 1], dms_sourcePublicKey = replicate 32 5\<rparr>] else [])\<rparr>"
proof -
  have ok: "length (cqs_sourcePublicKey exampleSource) = 32" "solution_ok exampleSolution" "length (replicate 64 0) = SIGNATURE_SIZE"
      "cqs_customMiningType exampleSource = DOGE"
    by (simp_all add: exampleSource_def exampleSolution_def solution_ok_def SIGNATURE_SIZE_def)
  have key: "cqs_sourcePublicKey exampleSource = replicate 32 5" by (simp add: exampleSource_def)
  show ?thesis
    unfolding solution_queued_iff_verified [OF ok] key
    by (simp add: toDispatcherSolution_def q_push_def) (simp add: exampleSource_def exampleSolution_def)
qed

end
